(* ===== verification/Maple_Prelude.thy ===== *)
theory Maple_Prelude
  imports Main "HOL-Library.Word" "HOL-Library.Finite_Map"
begin

text \<open>
  The vocabulary every component shares: the machine integers and byte strings of the Rust sources,
  monotonic time (\<open>std::time::Instant\<close> and \<open>Duration\<close>), hash maps and hash sets as finite maps and
  finite sets, big-endian integer encodings, and the generic lemmas on lists and finite maps that the
  component proofs use. The collections \<open>wire_simps\<close>, \<open>cache_laws\<close>, \<open>health_simps\<close> and
  \<open>inv_intros\<close> gather the rewrite rules and invariant rules of the groups of components.
\<close>

named_theorems wire_simps "rewrite rules of the transport encodings"
named_theorems cache_laws "what the cache operations do to the recency list"
named_theorems health_simps "rewrite rules of the route health operations"
named_theorems inv_intros "preservation of the component invariants"

section \<open>Machine types\<close>

type_synonym u8 = "8 word"
type_synonym u16 = "16 word"
type_synonym u32 = "32 word"
type_synonym u64 = "64 word"
type_synonym u128 = "128 word"
type_synonym bytes = "u8 list"

text \<open>
  A Rust \<open>HashMap\<close> is a finite map and a \<open>HashSet\<close> a finite set: no component depends on the iteration
  order. \<open>len()\<close> is the number of keys.
\<close>

type_synonym ('k, 'v) hash_map = "('k, 'v) fmap"
type_synonym 'a hash_set = "'a fset"

definition map_len :: "('k, 'v) hash_map \<Rightarrow> nat" where
  "map_len m = fcard (fmdom m)"

section \<open>Time\<close>

text \<open>
  A \<open>Duration\<close> and an \<open>Instant\<close> are counted in nanoseconds. Seconds of an \<open>Instant\<close> are a signed
  64-bit number, so \<open>Instant::checked_add\<close> fails at \<open>instant_bound\<close> and \<open>Instant + Duration\<close> panics
  there. \<open>Instant::duration_since\<close> saturates at zero, as subtraction on \<^typ>\<open>nat\<close> does;
  \<open>checked_duration_since\<close> is \<open>None\<close> for a later instant.
\<close>

type_synonym duration = nat
type_synonym instant = nat

definition nanos_per_sec :: nat where
  "nanos_per_sec = 1000000000"

definition from_secs :: "nat \<Rightarrow> duration" where
  "from_secs s = s * nanos_per_sec"

definition as_secs :: "duration \<Rightarrow> nat" where
  "as_secs d = d div nanos_per_sec"

definition subsec_nanos :: "duration \<Rightarrow> nat" where
  "subsec_nanos d = d mod nanos_per_sec"

definition instant_bound :: nat where
  "instant_bound = 2 ^ 63 * nanos_per_sec"

definition instant_checked_add :: "instant \<Rightarrow> duration \<Rightarrow> instant option" where
  "instant_checked_add t d = (if t + d < instant_bound then Some (t + d) else None)"

definition duration_since :: "instant \<Rightarrow> instant \<Rightarrow> duration" where
  "duration_since later earlier = later - earlier"

definition checked_duration_since :: "instant \<Rightarrow> instant \<Rightarrow> duration option" where
  "checked_duration_since later earlier =
     (if earlier \<le> later then Some (later - earlier) else None)"

lemma nanos_per_sec_pos [simp]: "0 < nanos_per_sec"
  by (simp add: nanos_per_sec_def)

lemma as_secs_from_secs [simp]: "as_secs (from_secs s) = s"
  by (simp add: as_secs_def from_secs_def nanos_per_sec_def)

lemma from_secs_mono: "s \<le> t \<Longrightarrow> from_secs s \<le> from_secs t"
  by (simp add: from_secs_def)

text \<open>Rounding a duration up to whole seconds never shortens it, and adds less than a second.\<close>

lemma ceil_secs_lower: "d \<le> from_secs (as_secs d + (if subsec_nanos d \<noteq> 0 then 1 else 0))"
proof -
  have "d div nanos_per_sec * nanos_per_sec + d mod nanos_per_sec = d"
    by (rule div_mult_mod_eq)
  moreover have "d mod nanos_per_sec < nanos_per_sec"
    by simp
  ultimately have "d \<le> d div nanos_per_sec * nanos_per_sec + nanos_per_sec"
    by linarith
  then show ?thesis
    by (auto simp: from_secs_def as_secs_def subsec_nanos_def add_mult_distrib)
qed

lemma ceil_secs_upper:
  "from_secs (as_secs d + (if subsec_nanos d \<noteq> 0 then 1 else 0)) < d + nanos_per_sec"
proof -
  have eq: "d div nanos_per_sec * nanos_per_sec + d mod nanos_per_sec = d"
    by (rule div_mult_mod_eq)
  then have "d div nanos_per_sec * nanos_per_sec \<le> d"
    by linarith
  moreover have "d div nanos_per_sec * nanos_per_sec < d" if "0 < d mod nanos_per_sec"
    using that eq by linarith
  ultimately show ?thesis
    by (auto simp: from_secs_def as_secs_def subsec_nanos_def add_mult_distrib
        intro: order.strict_trans1)
qed

section \<open>Big-endian integers\<close>

text \<open>\<open>to_be_bytes\<close> and \<open>from_be_bytes\<close> at a width given in bytes.\<close>

fun be_bytes :: "nat \<Rightarrow> nat \<Rightarrow> bytes" where
  "be_bytes 0 v = []"
| "be_bytes (Suc n) v = be_bytes n (v div 256) @ [of_nat (v mod 256)]"

definition be_value :: "bytes \<Rightarrow> nat" where
  "be_value bs = foldl (\<lambda>acc b. acc * 256 + unat b) 0 bs"

lemma length_be_bytes [simp]: "length (be_bytes n v) = n"
  by (induction n arbitrary: v) auto

lemma be_value_snoc: "be_value (bs @ [b]) = be_value bs * 256 + unat b"
  by (simp add: be_value_def)

lemma be_value_be_bytes: "be_value (be_bytes n v) = v mod 256 ^ n"
proof (induction n arbitrary: v)
  case 0
  then show ?case by (simp add: be_value_def)
next
  case (Suc n)
  have "unat (of_nat (v mod 256) :: u8) = v mod 256"
    by (simp add: unat_of_nat)
  then have "be_value (be_bytes (Suc n) v) = (v div 256) mod 256 ^ n * 256 + v mod 256"
    by (simp add: be_value_snoc Suc)
  also have "\<dots> = v mod (256 * 256 ^ n)"
    by (simp add: mod_mult2_eq mult.commute)
  finally show ?case by simp
qed

lemma be_value_less: "be_value bs < 256 ^ length bs"
proof (induction bs rule: rev_induct)
  case (snoc b bs)
  have "unat b < 256"
    using unsigned_less [of b, where ?'a = nat] by simp
  with snoc show ?case by (simp add: be_value_snoc)
qed (simp add: be_value_def)

lemma be_bytes_be_value: "be_bytes (length bs) (be_value bs) = bs"
proof (induction bs rule: rev_induct)
  case (snoc b bs)
  have "unat b < 256"
    using unsigned_less [of b, where ?'a = nat] by simp
  then have "(be_value bs * 256 + unat b) div 256 = be_value bs" and "(be_value bs * 256 + unat b) mod 256 = unat b"
    by simp_all
  with snoc show ?case by (simp add: be_value_snoc)
qed simp

lemma be_bytes_inject:
  assumes "be_bytes n v = be_bytes n w" and "v < 256 ^ n" and "w < 256 ^ n"
  shows "v = w"
proof -
  from assms(1) have "v mod 256 ^ n = w mod 256 ^ n"
    by (metis be_value_be_bytes)
  with assms(2,3) show ?thesis by simp
qed

definition u32_to_be_bytes :: "u32 \<Rightarrow> bytes" where
  "u32_to_be_bytes w = be_bytes 4 (unat w)"

definition u32_from_be_bytes :: "bytes \<Rightarrow> u32" where
  "u32_from_be_bytes bs = of_nat (be_value bs)"

definition u64_to_be_bytes :: "u64 \<Rightarrow> bytes" where
  "u64_to_be_bytes w = be_bytes 8 (unat w)"

lemma length_u32_to_be_bytes [simp]: "length (u32_to_be_bytes w) = 4"
  by (simp add: u32_to_be_bytes_def)

lemma length_u64_to_be_bytes [simp]: "length (u64_to_be_bytes w) = 8"
  by (simp add: u64_to_be_bytes_def)

lemma u32_be_roundtrip [simp]: "u32_from_be_bytes (u32_to_be_bytes w) = w"
proof -
  have "unat w < 256 ^ 4"
    using unsigned_less [of w, where ?'a = nat] by simp
  then show ?thesis
    by (simp add: u32_from_be_bytes_def u32_to_be_bytes_def be_value_be_bytes)
qed

lemma u32_to_from_be_bytes:
  assumes "length bs = 4" shows "u32_to_be_bytes (u32_from_be_bytes bs) = bs"
proof -
  have "be_value bs < 2 ^ 32"
    using be_value_less [of bs] assms by simp
  then have "unat (of_nat (be_value bs) :: u32) = be_value bs"
    by (simp add: unat_of_nat)
  then show ?thesis
    using be_bytes_be_value [of bs] assms by (simp add: u32_to_be_bytes_def u32_from_be_bytes_def)
qed

lemma u64_to_be_bytes_inject [simp]: "u64_to_be_bytes v = u64_to_be_bytes w \<longleftrightarrow> v = w"
proof
  assume "u64_to_be_bytes v = u64_to_be_bytes w"
  moreover have "unat v < 256 ^ 8" and "unat w < 256 ^ 8"
    using unsigned_less [of v, where ?'a = nat] unsigned_less [of w, where ?'a = nat] by simp_all
  ultimately have "unat v = unat w"
    unfolding u64_to_be_bytes_def by (rule be_bytes_inject)
  then show "v = w" by (simp add: word_unat_eq_iff)
qed simp

text \<open>\<open>u64::checked_add\<close>.\<close>

definition u64_checked_add :: "u64 \<Rightarrow> u64 \<Rightarrow> u64 option" where
  "u64_checked_add a b = (if unat a + unat b < 2 ^ 64 then Some (a + b) else None)"

lemma unat_ucast_u8_u32 [simp]: "unat (ucast (b :: u8) :: u32) = unat b"
proof -
  have "unat b < 2 ^ 8"
    using unsigned_less [of b, where ?'a = nat] by simp
  then have "unat b < 2 ^ 32" by simp
  then show ?thesis
    by (simp add: unsigned_ucast_eq take_bit_nat_eq_self)
qed

lemma unat_ucast_u16_u32 [simp]: "unat (ucast (b :: u16) :: u32) = unat b"
proof -
  have "unat b < 2 ^ 16"
    using unsigned_less [of b, where ?'a = nat] by simp
  then have "unat b < 2 ^ 32" by simp
  then show ?thesis
    by (simp add: unsigned_ucast_eq take_bit_nat_eq_self)
qed

section \<open>Lists\<close>

text \<open>\<open>Iterator::find\<close> on a slice: the first element that satisfies the predicate.\<close>

lemma find_Some_set: "find P xs = Some x \<Longrightarrow> x \<in> set xs \<and> P x"
  by (auto simp: find_Some_iff)

text \<open>
  \<open>Iterator::min\<close> folded over optional hints: \<open>map_or(x, |current| current.min(x))\<close>.
\<close>

definition opt_min :: "nat option \<Rightarrow> nat \<Rightarrow> nat option" where
  "opt_min acc x = Some (case acc of None \<Rightarrow> x | Some c \<Rightarrow> min c x)"

definition opt_max :: "nat option \<Rightarrow> nat \<Rightarrow> nat option" where
  "opt_max acc x = Some (case acc of None \<Rightarrow> x | Some c \<Rightarrow> max c x)"

text \<open>\<open>slice::chunks\<close>.\<close>

function slice_chunks :: "nat \<Rightarrow> 'a list \<Rightarrow> 'a list list" where
  "slice_chunks n xs = (if n = 0 \<or> xs = [] then [] else take n xs # slice_chunks n (drop n xs))"
  by auto
termination by (relation "measure (\<lambda>(_, xs). length xs)") auto

declare slice_chunks.simps [simp del]

lemma slice_chunks_bound: "c \<in> set (slice_chunks n xs) \<Longrightarrow> length c \<le> n"
  by (induction n xs rule: slice_chunks.induct) (subst (asm) (2) slice_chunks.simps, auto split: if_splits)

lemma concat_slice_chunks: "0 < n \<Longrightarrow> concat (slice_chunks n xs) = xs"
  by (induction n xs rule: slice_chunks.induct) (subst slice_chunks.simps, auto)

section \<open>Results\<close>

text \<open>
  \<open>Result<T, E>\<close> is \<^typ>\<open>'e + 'a\<close> with the error on the left. \<open>and_then\<close> is the \<open>?\<close> operator (and
  \<open>Result::and_then\<close>), \<open>ok_or\<close> turns an absent value into an error and \<open>map_err\<close> renames the error.
\<close>

definition ok_or :: "'e \<Rightarrow> 'a option \<Rightarrow> 'e + 'a" where
  "ok_or e x = (case x of None \<Rightarrow> Inl e | Some y \<Rightarrow> Inr y)"

definition and_then :: "'e + 'a \<Rightarrow> ('a \<Rightarrow> 'e + 'b) \<Rightarrow> 'e + 'b" where
  "and_then r f = (case r of Inl e \<Rightarrow> Inl e | Inr x \<Rightarrow> f x)"

definition map_err :: "('e \<Rightarrow> 'f) \<Rightarrow> 'e + 'a \<Rightarrow> 'f + 'a" where
  "map_err g r = (case r of Inl e \<Rightarrow> Inl (g e) | Inr x \<Rightarrow> Inr x)"

lemma ok_or_simps [simp]: "ok_or e None = Inl e" "ok_or e (Some y) = Inr y"
  by (simp_all add: ok_or_def)

lemma and_then_simps [simp]: "and_then (Inl e) f = Inl e" "and_then (Inr x) f = f x"
  by (simp_all add: and_then_def)

lemma map_err_simps [simp]: "map_err g (Inl e) = Inl (g e)" "map_err g (Inr x) = Inr x"
  by (simp_all add: map_err_def)

lemma ok_or_eq_Inr [simp]: "ok_or e x = Inr y \<longleftrightarrow> x = Some y"
  by (cases x) auto

lemma and_then_eq_Inr: "and_then r f = Inr y \<longleftrightarrow> (\<exists>x. r = Inr x \<and> f x = Inr y)"
  by (cases r) auto

lemma map_err_eq_Inr [simp]: "map_err g r = Inr y \<longleftrightarrow> r = Inr y"
  by (cases r) auto

section \<open>Finite maps\<close>

lemma map_len_empty [simp]: "map_len fmempty = 0"
  by (simp add: map_len_def)

lemma map_len_upd:
  "map_len (fmupd k v m) = (if k |\<in>| fmdom m then map_len m else Suc (map_len m))"
  by (simp add: map_len_def fcard_finsert_if finsert_absorb)

lemma fmlookup_upd_if: "fmlookup (fmupd k v m) k' = (if k' = k then Some v else fmlookup m k')"
  by simp

lemma map_len_drop:
  "map_len (fmdrop k m) = (if k |\<in>| fmdom m then map_len m - 1 else map_len m)"
  by (simp add: map_len_def fcard_fminus_fsingleton_if)

lemma map_len_filter_le: "map_len (fmfilter P m) \<le> map_len m"
  unfolding map_len_def by (rule fcard_mono) auto

text \<open>\<open>HashMap::retain\<close>.\<close>

definition map_retain :: "('k \<Rightarrow> 'v \<Rightarrow> bool) \<Rightarrow> ('k, 'v) hash_map \<Rightarrow> ('k, 'v) hash_map" where
  "map_retain P m =
     fmfilter (\<lambda>k. case fmlookup m k of None \<Rightarrow> False | Some v \<Rightarrow> P k v) m"

lemma fmlookup_map_retain:
  "fmlookup (map_retain P m) k =
     (case fmlookup m k of None \<Rightarrow> None | Some v \<Rightarrow> if P k v then Some v else None)"
  by (auto simp: map_retain_def split: option.splits)

lemma map_retain_empty [simp]: "map_retain P fmempty = fmempty"
  by (simp add: map_retain_def)

lemma map_len_retain_le: "map_len (map_retain P m) \<le> map_len m"
  unfolding map_retain_def by (rule map_len_filter_le)

section \<open>Decimal numbers\<close>

text \<open>
  \<open>Display\<close> of an unsigned integer, and \<open>str::parse::<usize>()\<close>: an optional plus sign, at least one
  digit, nothing else, and a value that fits 64 bits.
\<close>

definition digit_char :: "nat \<Rightarrow> char" where
  "digit_char d = char_of (48 + d)"

fun show_nat :: "nat \<Rightarrow> string" where
  "show_nat n = (if n < 10 then [digit_char n] else show_nat (n div 10) @ [digit_char (n mod 10)])"

declare show_nat.simps [simp del]

definition is_ascii_digit :: "char \<Rightarrow> bool" where
  "is_ascii_digit c \<longleftrightarrow> 48 \<le> (of_char c :: nat) \<and> (of_char c :: nat) \<le> 57"

definition decimal_value :: "string \<Rightarrow> nat" where
  "decimal_value cs = foldl (\<lambda>acc c. acc * 10 + (of_char c - 48)) 0 cs"

definition parse_usize :: "string \<Rightarrow> nat option" where
  "parse_usize s =
     (let ds = (case s of c # cs \<Rightarrow> if c = CHR ''+'' then cs else s | [] \<Rightarrow> []) in
      if ds = [] \<or> \<not> list_all is_ascii_digit ds then None
      else if decimal_value ds < 2 ^ 64 then Some (decimal_value ds) else None)"

lemma of_char_digit_char: "d < 10 \<Longrightarrow> (of_char (digit_char d) :: nat) = 48 + d"
  by (simp add: digit_char_def)

lemma is_ascii_digit_digit_char: "d < 10 \<Longrightarrow> is_ascii_digit (digit_char d)"
  by (simp add: is_ascii_digit_def of_char_digit_char)

lemma decimal_value_snoc: "decimal_value (cs @ [c]) = decimal_value cs * 10 + (of_char c - 48)"
  by (simp add: decimal_value_def)

lemma show_nat_digits: "show_nat n \<noteq> [] \<and> list_all is_ascii_digit (show_nat n)"
proof (induction n rule: show_nat.induct)
  case (1 n)
  then show ?case
    by (subst (1 2) show_nat.simps) (auto simp: is_ascii_digit_digit_char)
qed

lemma decimal_value_show_nat: "decimal_value (show_nat n) = n"
proof (induction n rule: show_nat.induct)
  case (1 n)
  then show ?case
    by (subst show_nat.simps)
       (auto simp: decimal_value_snoc of_char_digit_char decimal_value_def)
qed

lemma parse_usize_show_nat:
  assumes "n < 2 ^ 64" shows "parse_usize (show_nat n) = Some n"
proof -
  obtain c cs where eq: "show_nat n = c # cs"
    using show_nat_digits [of n] by (cases "show_nat n") auto
  then have "is_ascii_digit c"
    using show_nat_digits [of n] by simp
  then have "c \<noteq> CHR ''+''"
    by (auto simp: is_ascii_digit_def)
  then show ?thesis
    using assms eq show_nat_digits [of n] decimal_value_show_nat [of n]
    by (simp add: parse_usize_def Let_def)
qed

end
