(* ===== verification/Rate_Limiter.thy ===== *)
theory Rate_Limiter
  imports Maple_Prelude
begin

text \<open>
  The process-local admission limiter of \<open>services/opensecret/src/web/inference_rate_limit.rs\<close>: one
  rolling window per account, a cooldown after the limit is hit, and a bounded table of accounts from
  which only expired windows are reclaimed. \<open>admit\<close> is the whole method; \<open>None\<close> is the panic of
  \<open>Instant + Duration\<close> at the end of the clock. The specification is a limiter that keeps the complete
  admission log of every account; the bounded table with its trimmed windows simulates it.
\<close>

section \<open>The limiter\<close>

definition WINDOW :: duration where
  "WINDOW = from_secs 60"

definition MAX_ACCOUNTS :: nat where
  "MAX_ACCOUNTS = 10000"

definition DEFAULT_RPM :: nat where
  "DEFAULT_RPM = 100"

definition DEFAULT_COOLDOWN_SECONDS :: nat where
  "DEFAULT_COOLDOWN_SECONDS = 60"

datatype api_error =
    InternalServerError
  | ServiceUnavailable
  | InferenceRateLimited duration

record account_window =
  aw_admitted :: "instant list"
  aw_blocked_until :: "instant option"
  aw_retain_until :: instant

type_synonym uuid = u128
type_synonym accounts = "(uuid, account_window) hash_map"

text \<open>The mutex around the accounts is poisoned when its holder panics.\<close>

record inference_rate_limiter =
  rl_rpm :: nat
  rl_cooldown :: duration
  rl_max_accounts :: nat
  rl_accounts :: accounts
  rl_poisoned :: bool

definition new_limiter :: "nat \<Rightarrow> duration \<Rightarrow> inference_rate_limiter" where
  "new_limiter rpm cooldown =
     \<lparr>rl_rpm = rpm, rl_cooldown = cooldown, rl_max_accounts = MAX_ACCOUNTS,
      rl_accounts = fmempty, rl_poisoned = False\<rparr>"

definition default_limiter :: inference_rate_limiter where
  "default_limiter = new_limiter DEFAULT_RPM (from_secs DEFAULT_COOLDOWN_SECONDS)"

definition rate_limited :: "duration \<Rightarrow> api_error" where
  "rate_limited remaining =
     (let seconds = as_secs remaining + (if subsec_nanos remaining \<noteq> 0 then 1 else 0) in
      InferenceRateLimited (from_secs (max seconds 1)))"

definition fresh_window :: "instant \<Rightarrow> account_window" where
  "fresh_window now = \<lparr>aw_admitted = [], aw_blocked_until = None, aw_retain_until = now\<rparr>"

text \<open>The \<open>while\<close> loop that pops the front of the deque.\<close>

definition pop_outside_window :: "instant \<Rightarrow> instant list \<Rightarrow> instant list" where
  "pop_outside_window now = dropWhile (\<lambda>time. WINDOW \<le> duration_since now time)"

text \<open>
  What \<open>admit\<close> does to the window of the account once the entry exists. The borrowed window is updated
  in place, so an error path returns the window it leaves behind; \<open>None\<close> is a panic.
\<close>

definition admit_unblocked ::
  "nat \<Rightarrow> duration \<Rightarrow> account_window \<Rightarrow> instant \<Rightarrow>
   (account_window \<times> (api_error + unit)) option" where
  "admit_unblocked rpm cooldown window now =
     (let admitted = pop_outside_window now (aw_admitted window);
          window = window\<lparr>aw_admitted := admitted\<rparr>
      in if rpm \<le> length admitted then
           (case instant_checked_add now cooldown of
              None \<Rightarrow> None
            | Some until \<Rightarrow>
                Some (window\<lparr>aw_blocked_until := Some until,
                             aw_retain_until := max (aw_retain_until window) until\<rparr>,
                      Inl (rate_limited cooldown)))
         else
           (case instant_checked_add now WINDOW of
              None \<Rightarrow> None
            | Some retain \<Rightarrow>
                Some (window\<lparr>aw_admitted := admitted @ [now], aw_retain_until := retain\<rparr>,
                      Inr ())))"

definition admit_window ::
  "nat \<Rightarrow> duration \<Rightarrow> account_window \<Rightarrow> instant \<Rightarrow>
   (account_window \<times> (api_error + unit)) option" where
  "admit_window rpm cooldown window now =
     (case aw_blocked_until window of
        Some until \<Rightarrow>
          if now < until then Some (window, Inl (rate_limited (duration_since until now)))
          else admit_unblocked rpm cooldown (window\<lparr>aw_blocked_until := None\<rparr>) now
      | None \<Rightarrow> admit_unblocked rpm cooldown window now)"

definition entry_window :: "accounts \<Rightarrow> uuid \<Rightarrow> instant \<Rightarrow> account_window" where
  "entry_window accounts account now =
     (case fmlookup accounts account of Some w \<Rightarrow> w | None \<Rightarrow> fresh_window now)"

text \<open>
  The capacity guard at the head of \<open>admit\<close>: the table after reclaiming, and whether there is room.
\<close>

definition reclaim :: "nat \<Rightarrow> accounts \<Rightarrow> uuid \<Rightarrow> instant \<Rightarrow> accounts \<times> bool" where
  "reclaim max_accounts accounts account now =
     (if account |\<notin>| fmdom accounts \<and> max_accounts \<le> map_len accounts then
        (let accounts = map_retain (\<lambda>_ window. now < aw_retain_until window) accounts
         in (accounts, map_len accounts < max_accounts))
      else (accounts, True))"

definition admit ::
  "inference_rate_limiter \<Rightarrow> accounts \<Rightarrow> uuid \<Rightarrow> instant \<Rightarrow>
   (accounts \<times> (api_error + unit)) option" where
  "admit self accounts account now =
     (case reclaim (rl_max_accounts self) accounts account now of
        (accounts, False) \<Rightarrow> Some (accounts, Inl ServiceUnavailable)
      | (accounts, True) \<Rightarrow>
          (case admit_window (rl_rpm self) (rl_cooldown self)
                  (entry_window accounts account now) now of
             None \<Rightarrow> None
           | Some (window, r) \<Rightarrow> Some (fmupd account window accounts, r)))"

text \<open>
  \<open>check\<close> takes the lock, samples the clock under it and runs \<open>admit\<close>. A panic inside poisons the
  mutex: the outcome is \<open>None\<close>, and the table is never read again.
\<close>

definition check ::
  "inference_rate_limiter \<Rightarrow> uuid \<Rightarrow> instant \<Rightarrow>
   inference_rate_limiter \<times> (api_error + unit) option" where
  "check self account now =
     (if rl_poisoned self then (self, Some (Inl InternalServerError))
      else case admit self (rl_accounts self) account now of
             None \<Rightarrow> (self\<lparr>rl_poisoned := True\<rparr>, None)
           | Some (accounts, r) \<Rightarrow> (self\<lparr>rl_accounts := accounts\<rparr>, Some r))"

datatype var_error = NotPresent | NotUnicode

definition parse_setting :: "string \<Rightarrow> nat \<Rightarrow> nat option" where
  "parse_setting value maximum =
     (case parse_usize value of
        None \<Rightarrow> None
      | Some v \<Rightarrow> if 1 \<le> v \<and> v \<le> maximum then Some v else None)"

definition setting ::
  "(string \<Rightarrow> var_error + string) \<Rightarrow> string \<Rightarrow> nat \<Rightarrow> nat \<Rightarrow> string + nat" where
  "setting env_var name dflt maximum =
     (case env_var name of
        Inr value \<Rightarrow>
          (case parse_setting value maximum of
             Some v \<Rightarrow> Inr v
           | None \<Rightarrow> Inl (name @ '' must be an integer between 1 and '' @ show_nat maximum))
      | Inl NotPresent \<Rightarrow> Inr dflt
      | Inl NotUnicode \<Rightarrow> Inl (name @ '' must be valid Unicode''))"

definition from_env :: "(string \<Rightarrow> var_error + string) \<Rightarrow> string + inference_rate_limiter" where
  "from_env env_var =
     (case setting env_var ''INFERENCE_RATE_LIMIT_RPM'' DEFAULT_RPM 1000 of
        Inl e \<Rightarrow> Inl e
      | Inr rpm \<Rightarrow>
          (case setting env_var ''INFERENCE_RATE_LIMIT_COOLDOWN_SECONDS''
                  DEFAULT_COOLDOWN_SECONDS 3600 of
             Inl e \<Rightarrow> Inl e
           | Inr cooldown \<Rightarrow> Inr (new_limiter rpm (from_secs cooldown))))"

text \<open>
  The middleware: an admitted request runs the rest of the stack, a refused one never does. The rest
  of the stack and the rendering of an error are arguments.
\<close>

definition enforce ::
  "('req \<Rightarrow> 'resp) \<Rightarrow> (api_error \<Rightarrow> 'resp) \<Rightarrow> inference_rate_limiter \<Rightarrow> uuid \<Rightarrow> 'req \<Rightarrow>
   instant \<Rightarrow> inference_rate_limiter \<times> 'resp option" where
  "enforce next_run into_response limiter user_uuid request now =
     (case check limiter user_uuid now of
        (limiter, None) \<Rightarrow> (limiter, None)
      | (limiter, Some (Inr _)) \<Rightarrow> (limiter, Some (next_run request))
      | (limiter, Some (Inl error)) \<Rightarrow> (limiter, Some (into_response error)))"

section \<open>Specification: complete admission logs\<close>

text \<open>
  The specification keeps for one account every admission it ever made and the end of its cooldown.
  A request is refused while the cooldown lasts; otherwise it is admitted exactly when fewer than
  \<open>rpm\<close> admissions of the log are younger than the window.
\<close>

definition in_window :: "instant \<Rightarrow> instant \<Rightarrow> bool" where
  "in_window now time \<longleftrightarrow> duration_since now time < WINDOW"

type_synonym account_log = "instant list \<times> instant option"

definition spec_unblocked ::
  "nat \<Rightarrow> duration \<Rightarrow> instant list \<Rightarrow> instant \<Rightarrow> account_log \<times> (api_error + unit)" where
  "spec_unblocked rpm cooldown log now =
     (if rpm \<le> length (filter (in_window now) log)
      then ((log, Some (now + cooldown)), Inl (rate_limited cooldown))
      else ((log @ [now], None), Inr ()))"

definition spec_admit ::
  "nat \<Rightarrow> duration \<Rightarrow> account_log \<Rightarrow> instant \<Rightarrow> account_log \<times> (api_error + unit)" where
  "spec_admit rpm cooldown st now =
     (case st of (log, blocked) \<Rightarrow>
        (case blocked of
           Some until \<Rightarrow>
             if now < until then (st, Inl (rate_limited (until - now)))
             else spec_unblocked rpm cooldown log now
         | None \<Rightarrow> spec_unblocked rpm cooldown log now))"

section \<open>Simulation\<close>

definition cooling :: "instant \<Rightarrow> instant option \<Rightarrow> instant option" where
  "cooling now b = (case b of Some u \<Rightarrow> if now < u then Some u else None | None \<Rightarrow> None)"

text \<open>
  A window agrees with a log from \<open>now\<close> on: they have the same admissions in the window and the same
  running cooldown, and \<open>retain_until\<close> outlives both.
\<close>

definition window_sim :: "instant \<Rightarrow> account_window \<Rightarrow> account_log \<Rightarrow> bool" where
  "window_sim now w st \<longleftrightarrow>
     filter (in_window now) (aw_admitted w) = filter (in_window now) (fst st) \<and>
     cooling now (aw_blocked_until w) = cooling now (snd st) \<and>
     sorted (aw_admitted w) \<and>
     (\<forall>t \<in> set (aw_admitted w). t \<le> now \<and> t + WINDOW \<le> aw_retain_until w) \<and>
     (\<forall>u. aw_blocked_until w = Some u \<longrightarrow> u \<le> aw_retain_until w)"

definition idle_log :: "instant \<Rightarrow> account_log \<Rightarrow> bool" where
  "idle_log now st \<longleftrightarrow> filter (in_window now) (fst st) = [] \<and> cooling now (snd st) = None"

fun entry_sim :: "instant \<Rightarrow> account_window option \<Rightarrow> account_log \<Rightarrow> bool" where
  "entry_sim now None st = idle_log now st"
| "entry_sim now (Some w) st = window_sim now w st"

definition table_sim :: "instant \<Rightarrow> accounts \<Rightarrow> (uuid \<Rightarrow> account_log) \<Rightarrow> bool" where
  "table_sim now accounts logs \<longleftrightarrow> (\<forall>a. entry_sim now (fmlookup accounts a) (logs a))"

lemma WINDOW_pos [simp]: "0 < WINDOW"
  by (simp add: WINDOW_def from_secs_def)

lemma in_window_antimono: "in_window now' t \<Longrightarrow> now \<le> now' \<Longrightarrow> in_window now t"
  by (simp add: in_window_def duration_since_def)

lemma filter_in_window_later:
  assumes "now \<le> now'"
  shows "filter (in_window now') xs = filter (in_window now') (filter (in_window now) xs)"
  using assms in_window_antimono by (induction xs) auto

lemma filter_in_window_eq_later:
  assumes "filter (in_window now) xs = filter (in_window now) ys" and "now \<le> now'"
  shows "filter (in_window now') xs = filter (in_window now') ys"
  using assms filter_in_window_later by metis

lemma cooling_later:
  assumes "cooling now b = cooling now c" and "now \<le> now'"
  shows "cooling now' b = cooling now' c"
  using assms by (auto simp: cooling_def split: option.splits if_splits)

lemma window_sim_later:
  assumes "window_sim now w st" and "now \<le> now'"
  shows "window_sim now' w st"
  using assms filter_in_window_eq_later [of now "aw_admitted w" "fst st" now']
    cooling_later [of now "aw_blocked_until w" "snd st" now']
  by (auto simp: window_sim_def)

lemma idle_log_later: "idle_log now st \<Longrightarrow> now \<le> now' \<Longrightarrow> idle_log now' st"
  using filter_in_window_eq_later [of now _ "[]" now'] cooling_later [of now _ None now']
  by (simp add: idle_log_def cooling_def)

lemma entry_sim_later: "entry_sim now e st \<Longrightarrow> now \<le> now' \<Longrightarrow> entry_sim now' e st"
  by (cases e) (auto intro: window_sim_later idle_log_later)

lemma table_sim_later: "table_sim now accounts logs \<Longrightarrow> now \<le> now' \<Longrightarrow> table_sim now' accounts logs"
  unfolding table_sim_def using entry_sim_later by blast

text \<open>A window whose \<open>retain_until\<close> has passed stands for an idle log, and the other way round.\<close>

lemma window_sim_retired:
  assumes "window_sim now w st" and "aw_retain_until w \<le> now"
  shows "idle_log now st"
proof -
  have "\<not> in_window now t" if "t \<in> set (aw_admitted w)" for t
    using assms that by (auto simp: window_sim_def in_window_def duration_since_def)
  then have "filter (in_window now) (aw_admitted w) = []"
    by (simp add: filter_empty_conv)
  moreover have "cooling now (aw_blocked_until w) = None"
    using assms by (auto simp: window_sim_def cooling_def split: option.splits)
  ultimately show ?thesis
    using assms by (simp add: window_sim_def idle_log_def)
qed

lemma window_sim_fresh: "idle_log now st \<Longrightarrow> window_sim now (fresh_window now) st"
  by (simp add: idle_log_def window_sim_def fresh_window_def cooling_def)

lemma entry_sim_retain:
  "entry_sim now e st \<Longrightarrow>
   entry_sim now (case e of None \<Rightarrow> None | Some w \<Rightarrow> if now < aw_retain_until w then Some w else None) st"
  by (cases e) (auto intro: window_sim_retired)

lemma table_sim_retain:
  assumes "table_sim now accounts logs"
  shows "table_sim now (map_retain (\<lambda>_ w. now < aw_retain_until w) accounts) logs"
  using assms unfolding table_sim_def fmlookup_map_retain by (blast intro: entry_sim_retain)

lemma table_sim_reclaim:
  "table_sim now accounts logs \<Longrightarrow> table_sim now (fst (reclaim n accounts a now)) logs"
  by (simp add: reclaim_def Let_def table_sim_retain)

lemma entry_sim_window:
  "entry_sim now e st \<Longrightarrow> window_sim now (case e of Some w \<Rightarrow> w | None \<Rightarrow> fresh_window now) st"
  by (cases e) (auto intro: window_sim_fresh)

lemma table_sim_entry:
  "table_sim now accounts logs \<Longrightarrow> window_sim now (entry_window accounts a now) (logs a)"
  unfolding table_sim_def entry_window_def by (blast intro: entry_sim_window)

lemma table_sim_update:
  assumes "table_sim now accounts logs" and "window_sim now w st"
  shows "table_sim now (fmupd a w accounts) (logs(a := st))"
  using assms by (auto simp: table_sim_def)

text \<open>On an ordered deque, popping the front is filtering.\<close>

lemma pop_outside_window_filter:
  "sorted ts \<Longrightarrow> pop_outside_window now ts = filter (in_window now) ts"
proof (induction ts)
  case (Cons t ts)
  show ?case
  proof (cases "in_window now t")
    case True
    then have "\<forall>u \<in> set ts. in_window now u"
      using Cons.prems by (auto simp: in_window_def duration_since_def)
    with True show ?thesis
      by (simp add: pop_outside_window_def in_window_def not_le)
  next
    case False
    with Cons show ?thesis
      by (simp add: pop_outside_window_def in_window_def not_le)
  qed
qed (simp add: pop_outside_window_def)

lemma window_sim_unblocked:
  assumes "window_sim now w (log, b)" and "cooling now b = None"
  shows "window_sim now (w\<lparr>aw_blocked_until := None\<rparr>) (log, b)"
  using assms by (simp add: window_sim_def cooling_def)

lemma admit_unblocked_sim:
  assumes sim: "window_sim now w (log, b)" and none: "aw_blocked_until w = None"
    and run: "admit_unblocked rpm cooldown w now = Some (w', r)"
  shows "r = snd (spec_unblocked rpm cooldown log now)
         \<and> window_sim now w' (fst (spec_unblocked rpm cooldown log now))"
proof -
  have pop: "pop_outside_window now (aw_admitted w) = filter (in_window now) log"
    using sim by (simp add: window_sim_def pop_outside_window_filter)
  have "set (filter (in_window now) log) \<subseteq> set (aw_admitted w)"
    using sim by (metis filter_is_subset fst_conv window_sim_def)
  then have "\<forall>t \<in> set (filter (in_window now) log). t \<le> now \<and> t + WINDOW \<le> aw_retain_until w"
    using sim by (auto simp: window_sim_def)
  moreover have "sorted (filter (in_window now) log)"
    using sim by (metis fst_conv sorted_wrt_filter window_sim_def)
  moreover have "in_window now now"
    by (simp add: in_window_def duration_since_def)
  ultimately show ?thesis
    using run none unfolding admit_unblocked_def Let_def pop
    by (auto simp: spec_unblocked_def window_sim_def instant_checked_add_def sorted_append
        cooling_def split: if_splits)
qed

lemma cooling_cases:
  assumes "cooling now b = cooling now c"
  obtains (running) u where "b = Some u" "c = Some u" "now < u"
  | (over) "cooling now b = None" "cooling now c = None"
  using assms by (auto simp: cooling_def split: option.splits if_splits)

lemma admit_window_not_cooling:
  assumes "cooling now (aw_blocked_until w) = None"
  shows "admit_window rpm cooldown w now =
         admit_unblocked rpm cooldown (w\<lparr>aw_blocked_until := None\<rparr>) now"
  using assms
  by (cases w) (auto simp: admit_window_def cooling_def split: option.splits if_splits)

lemma spec_admit_not_cooling:
  "cooling now b = None \<Longrightarrow> spec_admit rpm cooldown (log, b) now = spec_unblocked rpm cooldown log now"
  by (auto simp: spec_admit_def cooling_def split: option.splits if_splits)

lemma admit_window_sim:
  assumes sim: "window_sim now w st" and run: "admit_window rpm cooldown w now = Some (w', r)"
  shows "r = snd (spec_admit rpm cooldown st now)
         \<and> window_sim now w' (fst (spec_admit rpm cooldown st now))"
proof -
  obtain log b where st: "st = (log, b)" by (cases st)
  from sim have "cooling now (aw_blocked_until w) = cooling now b"
    by (simp add: window_sim_def st)
  then show ?thesis
  proof (cases rule: cooling_cases)
    case (running u)
    then show ?thesis
      using run sim by (auto simp: admit_window_def spec_admit_def st duration_since_def)
  next
    case over
    then show ?thesis
      using run sim window_sim_unblocked [of now w log b] admit_unblocked_sim
      by (simp add: st admit_window_not_cooling spec_admit_not_cooling)
  qed
qed

lemma admit_sim:
  assumes sim: "table_sim now accounts logs"
    and run: "admit self accounts a now = Some (accounts', r)"
  shows "(r = Inl ServiceUnavailable \<and> a |\<notin>| fmdom accounts \<and> table_sim now accounts' logs)
         \<or> (r = snd (spec_admit (rl_rpm self) (rl_cooldown self) (logs a) now) \<and>
            table_sim now accounts'
              (logs(a := fst (spec_admit (rl_rpm self) (rl_cooldown self) (logs a) now))))"
proof -
  obtain acc room where rc: "reclaim (rl_max_accounts self) accounts a now = (acc, room)"
    by (cases "reclaim (rl_max_accounts self) accounts a now")
  have acc: "table_sim now acc logs"
    using table_sim_reclaim [OF sim] rc by (metis fst_conv)
  show ?thesis
  proof (cases room)
    case False
    then show ?thesis
      using run rc acc by (auto simp: admit_def reclaim_def split: if_splits)
  next
    case True
    then obtain w where
      w: "admit_window (rl_rpm self) (rl_cooldown self) (entry_window acc a now) now = Some (w, r)"
      and upd: "accounts' = fmupd a w acc"
      using run rc by (auto simp: admit_def split: option.splits)
    show ?thesis
      using admit_window_sim [OF table_sim_entry [OF acc] w] table_sim_update [OF acc] upd by blast
  qed
qed

section \<open>Runs of the limiter\<close>

text \<open>A run of \<open>check\<close> over requests (account, time): the outcome of every request, in order.\<close>

type_synonym outcome = "(api_error + unit) option"

fun run_checks ::
  "inference_rate_limiter \<Rightarrow> (uuid \<times> instant) list \<Rightarrow> (uuid \<times> instant \<times> outcome) list" where
  "run_checks self [] = []"
| "run_checks self ((a, now) # reqs) =
     (a, now, snd (check self a now)) # run_checks (fst (check self a now)) reqs"

fun after_checks ::
  "inference_rate_limiter \<Rightarrow> (uuid \<times> instant) list \<Rightarrow> inference_rate_limiter" where
  "after_checks self [] = self"
| "after_checks self ((a, now) # reqs) = after_checks (fst (check self a now)) reqs"

definition admissions :: "uuid \<Rightarrow> (uuid \<times> instant \<times> outcome) list \<Rightarrow> instant list" where
  "admissions a outs = map (\<lambda>(_, t, _). t) (filter (\<lambda>(b, _, r). b = a \<and> r = Some (Inr ())) outs)"

lemma admissions_Nil [simp]: "admissions a [] = []"
  by (simp add: admissions_def)

lemma admissions_Cons [simp]:
  "admissions a ((b, t, r) # outs) = (if b = a \<and> r = Some (Inr ()) then [t] else []) @ admissions a outs"
  by (simp add: admissions_def)

definition request_times :: "uuid \<Rightarrow> (uuid \<times> instant) list \<Rightarrow> instant list" where
  "request_times a reqs = map snd (filter (\<lambda>(b, _). b = a) reqs)"

definition count_in :: "instant \<Rightarrow> instant list \<Rightarrow> nat" where
  "count_in s ts = length (filter (\<lambda>t. s \<le> t \<and> t < s + WINDOW) ts)"

lemma count_in_append [simp]: "count_in s (xs @ ys) = count_in s xs + count_in s ys"
  by (simp add: count_in_def)

lemma count_in_Cons: "count_in s (x # xs) = (if s \<le> x \<and> x < s + WINDOW then 1 else 0) + count_in s xs"
  by (simp add: count_in_def)

lemma count_in_Nil [simp]: "count_in s [] = 0"
  by (simp add: count_in_def)

lemma count_in_le_live:
  assumes "s \<le> now" and "now < s + WINDOW"
  shows "count_in s log \<le> length (filter (in_window now) log)"
  using assms
  by (induction log) (auto simp: count_in_Cons in_window_def duration_since_def)

lemma count_in_after:
  assumes "\<forall>t \<in> set log. t \<le> now" and "now < s"
  shows "count_in s log = 0"
  using assms by (auto simp: count_in_def filter_empty_conv)

text \<open>What the specification does to the log: it grows by the admitted request only.\<close>

lemma spec_admit_log:
  "fst (fst (spec_admit rpm cooldown st now)) =
   fst st @ (if snd (spec_admit rpm cooldown st now) = Inr () then [now] else [])"
  by (cases st) (auto simp: spec_admit_def spec_unblocked_def split: option.splits)

lemma spec_admit_Inr:
  "snd (spec_admit rpm cooldown st now) = Inr () \<longleftrightarrow>
   cooling now (snd st) = None \<and> length (filter (in_window now) (fst st)) < rpm"
  by (cases st) (auto simp: spec_admit_def spec_unblocked_def cooling_def split: option.splits)

definition rate_ok :: "nat \<Rightarrow> instant \<Rightarrow> instant list \<Rightarrow> bool" where
  "rate_ok rpm now log \<longleftrightarrow> (\<forall>t \<in> set log. t \<le> now) \<and> (\<forall>s. count_in s log \<le> rpm)"

lemma rate_ok_snoc:
  assumes "rate_ok rpm now log" and "length (filter (in_window now) log) < rpm"
  shows "rate_ok rpm now (log @ [now])"
proof -
  have "count_in s (log @ [now]) \<le> rpm" for s
  proof (cases "s \<le> now \<and> now < s + WINDOW")
    case True
    then show ?thesis
      using count_in_le_live [of s now log] assms(2) by (simp add: count_in_Cons)
  next
    case False
    then show ?thesis
      using assms(1) by (auto simp: rate_ok_def count_in_Cons)
  qed
  then show ?thesis
    using assms(1) by (auto simp: rate_ok_def)
qed

lemma spec_admit_rate_ok:
  assumes "rate_ok rpm now (fst st)"
  shows "rate_ok rpm now (fst (fst (spec_admit rpm cooldown st now)))"
  using assms rate_ok_snoc by (simp add: spec_admit_log spec_admit_Inr)

lemma rate_ok_later: "rate_ok rpm now log \<Longrightarrow> now \<le> now' \<Longrightarrow> rate_ok rpm now' log"
  by (auto simp: rate_ok_def)

lemma run_checks_poisoned:
  "rl_poisoned self \<Longrightarrow> \<forall>(a, t, r) \<in> set (run_checks self reqs). r = Some (Inl InternalServerError)"
  by (induction self reqs rule: run_checks.induct) (auto simp: check_def)

lemma admissions_poisoned: "rl_poisoned self \<Longrightarrow> admissions a (run_checks self reqs) = []"
  using run_checks_poisoned [of self reqs] by (auto simp: admissions_def filter_empty_conv)

lemma check_step:
  assumes np: "\<not> rl_poisoned self" and sim: "table_sim now (rl_accounts self) logs"
  obtains
    (panic) "snd (check self a now) = None" and "rl_poisoned (fst (check self a now))"
  | (full) accounts' where
      "check self a now = (self\<lparr>rl_accounts := accounts'\<rparr>, Some (Inl ServiceUnavailable))"
      and "table_sim now accounts' logs"
  | (step) accounts' where
      "check self a now = (self\<lparr>rl_accounts := accounts'\<rparr>,
         Some (snd (spec_admit (rl_rpm self) (rl_cooldown self) (logs a) now)))"
      and "table_sim now accounts'
             (logs(a := fst (spec_admit (rl_rpm self) (rl_cooldown self) (logs a) now)))"
proof (cases "admit self (rl_accounts self) a now")
  case None
  then show ?thesis using np panic by (simp add: check_def)
next
  case (Some p)
  then obtain accounts' r where "admit self (rl_accounts self) a now = Some (accounts', r)"
    by (cases p) auto
  then show ?thesis
    using admit_sim [OF sim, of self a accounts' r] np full step by (auto simp: check_def)
qed

lemma run_checks_rate:
  assumes "\<not> rl_poisoned self" and "table_sim now (rl_accounts self) logs"
    and "rate_ok (rl_rpm self) now (fst (logs a))"
    and "sorted (map snd reqs)" and "\<forall>t \<in> set (map snd reqs). now \<le> t"
  shows "\<exists>now'. rate_ok (rl_rpm self) now' (fst (logs a) @ admissions a (run_checks self reqs))"
  using assms
proof (induction self reqs arbitrary: now logs rule: run_checks.induct)
  case (1 self)
  then show ?case by auto
next
  case (2 self b t reqs)
  have sim: "table_sim t (rl_accounts self) logs" and ok: "rate_ok (rl_rpm self) t (fst (logs a))"
    using 2 by (auto intro: table_sim_later rate_ok_later)
  have rest: "sorted (map snd reqs)" "\<forall>u \<in> set (map snd reqs). t \<le> u"
    using 2 by auto
  from 2(2) sim show ?case
  proof (cases rule: check_step [where a = b])
    case panic
    then show ?thesis
      using ok by (auto simp: admissions_poisoned)
  next
    case (full accounts')
    then show ?thesis
      using 2(1) [of t logs] 2(2) ok rest by simp
  next
    case (step accounts')
    let ?st = "spec_admit (rl_rpm self) (rl_cooldown self) (logs b) t"
    define logs' where "logs' = logs(b := fst ?st)"
    have "rate_ok (rl_rpm self) t (fst (logs' a))"
      using ok by (auto simp: logs'_def intro: spec_admit_rate_ok)
    then have "\<exists>now'. rate_ok (rl_rpm self) now'
      (fst (logs' a) @ admissions a (run_checks (fst (check self b t)) reqs))"
      using 2(1) [of t logs'] 2(2) step rest by (simp add: logs'_def [symmetric])
    then show ?thesis
      using step by (auto simp: logs'_def spec_admit_log split: if_splits)
  qed
qed

lemma table_sim_new: "table_sim 0 (rl_accounts (new_limiter rpm cooldown)) (\<lambda>_. ([], None))"
  by (simp add: table_sim_def new_limiter_def idle_log_def cooling_def)

text \<open>
  C7: in every interval of 60 seconds, half open, at most \<open>rpm\<close> requests of an account are admitted,
  whatever the other accounts do, whatever is reclaimed from the table, and whether or not the table
  fills up. Requests reach \<open>check\<close> in the order of their clock samples, which are taken under the lock.
\<close>

theorem admissions_within_rpm:
  assumes "sorted (map snd reqs)"
  shows "count_in s (admissions a (run_checks (new_limiter rpm cooldown) reqs)) \<le> rpm"
proof -
  have "\<exists>now'. rate_ok rpm now'
    (fst ([], None :: instant option) @ admissions a (run_checks (new_limiter rpm cooldown) reqs))"
    using run_checks_rate [OF _ table_sim_new, where a = a and reqs = reqs] assms
    by (simp add: new_limiter_def rate_ok_def)
  then show ?thesis by (auto simp: rate_ok_def)
qed

theorem admissions_within_rpm_witness:
  "sorted (map snd [(7 :: uuid, 0 :: instant), (8, 3), (7, 5)]) \<and>
   count_in 0 (admissions 7 (run_checks (new_limiter 1 (from_secs 60)) [(7, 0), (8, 3), (7, 5)])) \<le> 1"
  using admissions_within_rpm [of "[(7, 0), (8, 3), (7, 5)]" 0 7 1 "from_secs 60"] by simp

section \<open>No request of a conforming account is limited\<close>

text \<open>The log of an account never counts more than its requests did, and it has no cooldown.\<close>

definition conforming :: "instant list \<Rightarrow> account_log \<Rightarrow> bool" where
  "conforming past st \<longleftrightarrow> snd st = None \<and> (\<forall>s. count_in s (fst st) \<le> count_in s past)"

lemma live_le_count_in:
  assumes "\<forall>t \<in> set log. t \<le> now" and "now < s + WINDOW" and "\<And>t. t \<le> now \<Longrightarrow> in_window now t \<Longrightarrow> s \<le> t"
  shows "length (filter (in_window now) log) \<le> count_in s log"
  using assms by (induction log) (auto simp: count_in_Cons)

lemma conforming_step:
  assumes conf: "conforming past st" and le: "\<forall>t \<in> set (fst st). t \<le> now"
    and few: "\<And>s. count_in s (past @ [now]) \<le> rpm"
  shows "snd (spec_admit rpm cooldown st now) = Inr ()
         \<and> conforming (past @ [now]) (fst (spec_admit rpm cooldown st now))"
proof -
  obtain log where st: "st = (log, None)"
    using conf by (cases st) (auto simp: conforming_def)
  let ?s = "Suc now - WINDOW"
  have "length (filter (in_window now) log) \<le> count_in ?s log"
    using le by (intro live_le_count_in) (auto simp: st in_window_def duration_since_def)
  also have "\<dots> \<le> count_in ?s past"
    using conf by (simp add: conforming_def st)
  also have "\<dots> < count_in ?s (past @ [now])"
  proof -
    have "?s \<le> now" and "now < ?s + WINDOW"
      using WINDOW_pos by linarith+
    then show ?thesis by (simp add: count_in_Cons)
  qed
  also have "\<dots> \<le> rpm" by (rule few)
  finally show ?thesis
    using conf by (simp add: st spec_admit_def spec_unblocked_def conforming_def not_le)
qed

definition limited :: "outcome \<Rightarrow> bool" where
  "limited r = (case r of Some (Inl (InferenceRateLimited _)) \<Rightarrow> True | _ \<Rightarrow> False)"

lemma request_times_Cons [simp]:
  "request_times a ((b, t) # reqs) = (if b = a then [t] else []) @ request_times a reqs"
  by (simp add: request_times_def)

lemma request_times_Nil [simp]: "request_times a [] = []"
  by (simp add: request_times_def)

lemma run_checks_conforming:
  assumes "\<not> rl_poisoned self" and "table_sim now (rl_accounts self) logs"
    and "conforming past (logs a)" and "\<forall>t \<in> set (fst (logs a)). t \<le> now"
    and "sorted (map snd reqs)" and "\<forall>t \<in> set (map snd reqs). now \<le> t"
    and "\<And>s. count_in s (past @ request_times a reqs) \<le> rl_rpm self"
  shows "\<forall>(b, t, r) \<in> set (run_checks self reqs). b = a \<longrightarrow> \<not> limited r"
  using assms
proof (induction self reqs arbitrary: now logs past rule: run_checks.induct)
  case (1 self)
  then show ?case by simp
next
  case (2 self b t reqs)
  have sim: "table_sim t (rl_accounts self) logs"
    using 2 by (auto intro: table_sim_later)
  have rest: "sorted (map snd reqs)" "\<forall>u \<in> set (map snd reqs). t \<le> u"
    and le: "\<forall>u \<in> set (fst (logs a)). u \<le> t"
    using 2 by (auto intro: order_trans)
  let ?past = "past @ (if b = a then [t] else [])"
  have few: "count_in s (?past @ request_times a reqs) \<le> rl_rpm self" for s
    using 2(8) [of s] by simp
  have grow: "conforming past' (logs a) \<Longrightarrow> conforming (past' @ zs) (logs a)" for past' zs
    by (auto simp: conforming_def intro: trans_le_add1)
  from 2(2) sim show ?case
  proof (cases rule: check_step [where a = b])
    case panic
    then show ?thesis
      using run_checks_poisoned [of "fst (check self b t)" reqs] by (fastforce simp: limited_def)
  next
    case (full accounts')
    then show ?thesis
      using 2(1) [of t logs ?past] 2(2,4) sim rest le few grow by (simp add: limited_def)
  next
    case (step accounts')
    let ?st = "spec_admit (rl_rpm self) (rl_cooldown self) (logs b) t"
    have few1: "count_in s (past @ [t]) \<le> rl_rpm self" if "b = a" for s
      using few [of s] that by (simp add: count_in_Cons)
    define logs' where "logs' = logs(b := fst ?st)"
    have "(b = a \<longrightarrow> snd ?st = Inr ()) \<and> conforming ?past (logs' a)"
      using conforming_step [OF 2(4) le few1] 2(4) by (auto simp: logs'_def)
    moreover have "\<forall>u \<in> set (fst (logs' a)). u \<le> t"
      using le by (auto simp: logs'_def spec_admit_log)
    ultimately show ?thesis
      using 2(1) [of t logs' ?past] 2(2) step rest few
      by (auto simp: limited_def logs'_def [symmetric])
  qed
qed

text \<open>
  C27: an account that sends at most \<open>rpm\<close> requests in every interval of 60 seconds is never answered
  with a rate limit, whatever the other accounts send.
\<close>

theorem conforming_account_never_limited:
  assumes "sorted (map snd reqs)" and "\<And>s. count_in s (request_times a reqs) \<le> rpm"
    and "(a, t, r) \<in> set (run_checks (new_limiter rpm cooldown) reqs)"
  shows "\<not> limited r"
  using run_checks_conforming [OF _ table_sim_new, where a = a and reqs = reqs and past = "[]"] assms
  by (fastforce simp: new_limiter_def conforming_def)

lemma count_in_le_length: "count_in s ts \<le> length ts"
  by (simp add: count_in_def)

theorem conforming_account_never_limited_witness:
  "(7 :: uuid, 5 :: instant, Some (Inr ()))
     \<in> set (run_checks (new_limiter 2 (from_secs 60)) [(7, 0), (7, 5)]) \<and>
   \<not> limited (Some (Inr ()))"
proof -
  let ?reqs = "[(7 :: uuid, 0 :: instant), (7, 5)]"
  have mem: "(7 :: uuid, 5 :: instant, Some (Inr ()))
      \<in> set (run_checks (new_limiter 2 (from_secs 60)) ?reqs)"
    by (simp add: check_def admit_def reclaim_def entry_window_def admit_window_def
        admit_unblocked_def fresh_window_def new_limiter_def MAX_ACCOUNTS_def
        pop_outside_window_def duration_since_def WINDOW_def from_secs_def nanos_per_sec_def
        instant_checked_add_def instant_bound_def)
  have "count_in s (request_times 7 ?reqs) \<le> 2" for s
    using count_in_le_length [of s "request_times 7 ?reqs"] by simp
  then show ?thesis
    using conforming_account_never_limited [of ?reqs 7 2 5 "Some (Inr ())" "from_secs 60"] mem
    by simp
qed

section \<open>Retry hints\<close>

lemma rate_limited_covers: "rate_limited d = InferenceRateLimited r \<Longrightarrow> d \<le> r"
  using ceil_secs_lower [of d] from_secs_mono [of _ "max _ 1"]
  by (auto simp: rate_limited_def Let_def intro: order_trans)

text \<open>A cooldown that is set outlasts every admission of the window by its full length.\<close>

definition cooldown_inv :: "duration \<Rightarrow> account_window \<Rightarrow> bool" where
  "cooldown_inv cooldown w \<longleftrightarrow>
     (\<forall>u. aw_blocked_until w = Some u \<longrightarrow> (\<forall>t \<in> set (aw_admitted w). t + cooldown \<le> u))"

definition limiter_inv :: "instant \<Rightarrow> inference_rate_limiter \<Rightarrow> bool" where
  "limiter_inv now self \<longleftrightarrow> rl_poisoned self \<or>
     (\<exists>logs. table_sim now (rl_accounts self) logs) \<and>
     (\<forall>a w. fmlookup (rl_accounts self) a = Some w \<longrightarrow> cooldown_inv (rl_cooldown self) w)"

lemma admit_window_cooldown_inv:
  assumes "window_sim now w st" and "cooldown_inv cooldown w"
    and "admit_window rpm cooldown w now = Some (w', r)"
  shows "cooldown_inv cooldown w'"
proof -
  have "t \<le> now" if "t \<in> set (pop_outside_window now (aw_admitted w))" for t
    using assms(1) that set_dropWhileD by (fastforce simp: window_sim_def pop_outside_window_def)
  then show ?thesis
    using assms(2,3)
    by (auto simp: admit_window_def admit_unblocked_def Let_def cooldown_inv_def
        instant_checked_add_def split: option.splits if_splits)
qed

lemma cooldown_inv_reclaim:
  assumes "\<forall>a w. fmlookup accounts a = Some w \<longrightarrow> cooldown_inv c w"
  shows "\<forall>b w. fmlookup (fst (reclaim n accounts a now)) b = Some w \<longrightarrow> cooldown_inv c w"
  using assms by (auto simp: reclaim_def Let_def fmlookup_map_retain split: option.splits if_splits)

lemma cooldown_inv_entry:
  assumes "\<forall>a w. fmlookup accounts a = Some w \<longrightarrow> cooldown_inv c w"
  shows "cooldown_inv c (entry_window accounts a now)"
  using assms by (auto simp: entry_window_def fresh_window_def cooldown_inv_def split: option.splits)

lemma admit_cooldown_inv:
  assumes sim: "table_sim now accounts logs"
    and inv: "\<forall>a w. fmlookup accounts a = Some w \<longrightarrow> cooldown_inv (rl_cooldown self) w"
    and run: "admit self accounts a now = Some (accounts', r)"
  shows "\<forall>b w. fmlookup accounts' b = Some w \<longrightarrow> cooldown_inv (rl_cooldown self) w"
proof -
  obtain acc room where rc: "reclaim (rl_max_accounts self) accounts a now = (acc, room)"
    by (cases "reclaim (rl_max_accounts self) accounts a now")
  note acc = table_sim_reclaim [OF sim, of "rl_max_accounts self" a, unfolded rc fst_conv]
  note inv' = cooldown_inv_reclaim [OF inv, of "rl_max_accounts self" a now, unfolded rc fst_conv]
  show ?thesis
    using run rc inv' admit_window_cooldown_inv [OF table_sim_entry [OF acc, of a]
        cooldown_inv_entry [OF inv', of a now]]
    by (auto simp: admit_def split: bool.splits option.splits if_splits)
qed

lemma limiter_inv_check:
  assumes "limiter_inv now self" and "now \<le> t"
  shows "limiter_inv t (fst (check self a t))"
proof (cases "rl_poisoned self \<or> admit self (rl_accounts self) a t = None")
  case True
  then show ?thesis by (auto simp: limiter_inv_def check_def)
next
  case False
  then obtain accounts' r logs where run: "admit self (rl_accounts self) a t = Some (accounts', r)"
    and sim: "table_sim t (rl_accounts self) logs"
    using assms table_sim_later by (fastforce simp: limiter_inv_def)
  then show ?thesis
    using admit_sim [OF sim run] admit_cooldown_inv [OF sim _ run] assms(1) False
    by (auto simp: limiter_inv_def check_def)
qed

lemma limiter_inv_later: "limiter_inv now self \<Longrightarrow> now \<le> t \<Longrightarrow> limiter_inv t self"
  unfolding limiter_inv_def using table_sim_later by blast

lemma limiter_inv_after_checks:
  assumes "limiter_inv now self" and "sorted (map snd reqs)" and "\<forall>t \<in> set (map snd reqs). now \<le> t"
    and "now \<le> t_end" and "\<forall>t \<in> set (map snd reqs). t \<le> t_end"
  shows "limiter_inv t_end (after_checks self reqs)"
  using assms
proof (induction self reqs arbitrary: now rule: after_checks.induct)
  case (1 self)
  then show ?case
    using limiter_inv_later by simp
next
  case (2 self b t reqs)
  then show ?case
    using limiter_inv_check [OF 2(2), of t b] by simp
qed

lemma limiter_inv_new: "limiter_inv 0 (new_limiter rpm cooldown)"
  using table_sim_new by (auto simp: limiter_inv_def new_limiter_def)

lemma after_checks_config:
  "rl_rpm (after_checks self reqs) = rl_rpm self \<and>
   rl_cooldown (after_checks self reqs) = rl_cooldown self"
  by (induction self reqs rule: after_checks.induct)
     (auto simp: check_def split: option.splits)

lemma limited_window:
  assumes "admit_window rpm cooldown w now = Some (w', Inl (InferenceRateLimited r))"
  shows "\<exists>u. aw_blocked_until w' = Some u \<and> u \<le> now + r"
  using assms
  by (auto simp: admit_window_def admit_unblocked_def Let_def instant_checked_add_def
      duration_since_def split: option.splits if_splits dest!: rate_limited_covers)

lemma cooled_window_admits:
  assumes "aw_blocked_until w = Some u" and "cooldown_inv cooldown w" and "u \<le> t"
    and "WINDOW \<le> cooldown" and "0 < rpm" and "t + WINDOW < instant_bound"
  shows "\<exists>w'. admit_window rpm cooldown w t = Some (w', Inr ())"
proof -
  have "pop_outside_window t (aw_admitted w) = []"
    using assms(1-4) by (fastforce simp: pop_outside_window_def duration_since_def cooldown_inv_def)
  then show ?thesis
    using assms by (simp add: admit_window_def admit_unblocked_def instant_checked_add_def)
qed

lemma check_limited:
  assumes inv: "limiter_inv now self"
    and run: "check self a now = (self', Some (Inl (InferenceRateLimited r)))"
  shows "\<exists>w u. \<not> rl_poisoned self' \<and> fmlookup (rl_accounts self') a = Some w
           \<and> rl_rpm self' = rl_rpm self \<and> rl_cooldown self' = rl_cooldown self
           \<and> aw_blocked_until w = Some u \<and> u \<le> now + r \<and> cooldown_inv (rl_cooldown self) w"
proof -
  from run have np: "\<not> rl_poisoned self" by (auto simp: check_def split: if_splits)
  with run obtain accounts' where
    ad: "admit self (rl_accounts self) a now = Some (accounts', Inl (InferenceRateLimited r))"
    and self': "self' = self\<lparr>rl_accounts := accounts'\<rparr>"
    by (auto simp: check_def split: option.splits)
  from ad obtain acc w where
    "admit_window (rl_rpm self) (rl_cooldown self) (entry_window acc a now) now
       = Some (w, Inl (InferenceRateLimited r))"
    and acc: "accounts' = fmupd a w acc"
    by (auto simp: admit_def split: prod.splits bool.splits option.splits)
  from limited_window [OF this(1)] obtain u where
    u: "aw_blocked_until w = Some u" "u \<le> now + r" by blast
  have "limiter_inv now self'"
    using limiter_inv_check [OF inv order_refl, of a] run by simp
  moreover have "fmlookup (rl_accounts self') a = Some w" and "\<not> rl_poisoned self'"
    using self' np acc by simp_all
  ultimately have "cooldown_inv (rl_cooldown self') w"
    unfolding limiter_inv_def by blast
  with u show ?thesis
    using self' np acc by simp
qed


lemmas limiter_eval =
  check_def admit_def reclaim_def entry_window_def admit_window_def admit_unblocked_def
  fresh_window_def new_limiter_def MAX_ACCOUNTS_def pop_outside_window_def duration_since_def
  WINDOW_def from_secs_def nanos_per_sec_def instant_checked_add_def instant_bound_def
  rate_limited_def as_secs_def subsec_nanos_def map_len_upd


section \<open>Bounds of the table and of the settings\<close>

lemma map_len_reclaim:
  assumes "map_len accounts \<le> n" and "reclaim n accounts a now = (acc, True)"
  shows "map_len acc \<le> n \<and> (a |\<notin>| fmdom acc \<longrightarrow> map_len acc < n)"
  using assms by (auto simp: reclaim_def Let_def split: if_splits)

lemma admit_table_bound:
  assumes "map_len accounts \<le> rl_max_accounts self"
    and "admit self accounts a now = Some (accounts', r)"
  shows "map_len accounts' \<le> rl_max_accounts self"
proof -
  obtain acc room where rc: "reclaim (rl_max_accounts self) accounts a now = (acc, room)"
    by (cases "reclaim (rl_max_accounts self) accounts a now")
  have "map_len acc \<le> rl_max_accounts self"
    using rc assms(1) map_len_retain_le [of "\<lambda>_ w. now < aw_retain_until w" accounts]
    by (auto simp: reclaim_def Let_def split: if_splits)
  then show ?thesis
    using assms rc map_len_reclaim [of accounts "rl_max_accounts self" a now acc]
    by (auto simp: admit_def map_len_upd split: bool.splits option.splits)
qed

text \<open>
  the table of accounts never holds more than \<open>MAX_ACCOUNTS\<close> windows.
\<close>

theorem limiter_table_bounded:
  "map_len (rl_accounts (after_checks (new_limiter rpm cooldown) reqs)) \<le> MAX_ACCOUNTS"
proof -
  have "map_len (rl_accounts (after_checks l reqs)) \<le> MAX_ACCOUNTS"
    if "map_len (rl_accounts l) \<le> MAX_ACCOUNTS" "rl_max_accounts l = MAX_ACCOUNTS" for l
    using that
  proof (induction l reqs rule: after_checks.induct)
    case (2 l b t reqs)
    have "map_len (rl_accounts (fst (check l b t))) \<le> MAX_ACCOUNTS"
      using 2(2,3) admit_table_bound [of "rl_accounts l" l b t]
      by (auto simp: check_def split: option.splits)
    moreover have "rl_max_accounts (fst (check l b t)) = MAX_ACCOUNTS"
      using 2(3) by (auto simp: check_def split: option.splits)
    ultimately show ?case using 2(1) by simp
  qed simp
  then show ?thesis
    by (simp add: new_limiter_def)
qed

lemma parse_setting_range: "parse_setting v m = Some n \<Longrightarrow> 1 \<le> n \<and> n \<le> m"
  by (auto simp: parse_setting_def split: option.splits if_splits)

lemma setting_range: "setting env name d m = Inr n \<Longrightarrow> 1 \<le> d \<Longrightarrow> d \<le> m \<Longrightarrow> 1 \<le> n \<and> n \<le> m"
  by (auto simp: setting_def dest: parse_setting_range
      split: sum.splits var_error.splits option.splits)

text \<open>
  a limiter configured from the environment has between 1 and 1000 requests per minute and a
  cooldown between 1 and 3600 seconds, so neither limit can be switched off by a setting.
\<close>

theorem from_env_in_range:
  assumes "from_env env = Inr l"
  shows "1 \<le> rl_rpm l \<and> rl_rpm l \<le> 1000 \<and>
         from_secs 1 \<le> rl_cooldown l \<and> rl_cooldown l \<le> from_secs 3600 \<and>
         rl_accounts l = fmempty"
  using assms
  by (auto simp: from_env_def new_limiter_def DEFAULT_RPM_def DEFAULT_COOLDOWN_SECONDS_def
      from_secs_def dest!: setting_range split: sum.splits)

theorem from_env_in_range_witness:
  "1 \<le> rl_rpm (new_limiter 25 (from_secs 60)) \<and> rl_rpm (new_limiter 25 (from_secs 60)) \<le> 1000"
proof -
  let ?env = "\<lambda>name. if name = ''INFERENCE_RATE_LIMIT_RPM'' then Inr ''25'' else Inl NotPresent"
  have "from_env ?env = Inr (new_limiter 25 (from_secs 60))"
    by (simp add: from_env_def setting_def parse_setting_def parse_usize_def decimal_value_def
        is_ascii_digit_def DEFAULT_COOLDOWN_SECONDS_def)
  from from_env_in_range [OF this] show ?thesis by simp
qed

end
