(* ===== verification/Clru_Store.thy ===== *)
theory Clru_Store
  imports Maple_Prelude
begin

text \<open>
  The bounded LRU map of the \<open>clru\<close> crate, on which the two secret caches of the service are built. The
  crate is not part of the sources, so its methods are a record of operations over an unknown state
  type, which the cache operations take as an argument; what the caches rely on is the contract
  \<open>clru_cache\<close>, stated on the documented iteration order (most recently used first). A list satisfies
  the contract, and instantiates it for evaluation.
\<close>

text \<open>
  A method that lends a mutable reference is given what is written through the reference: \<open>back_mut\<close>
  takes the update of the borrowed value.
\<close>

record ('s, 'k, 'e) clru_ops =
  clru_with_memory :: "nat \<Rightarrow> nat \<Rightarrow> 's"
  clru_capacity :: "'s \<Rightarrow> nat"
  clru_iter :: "'s \<Rightarrow> ('k \<times> 'e) list"
  clru_peek :: "'s \<Rightarrow> 'k \<Rightarrow> 'e option"
  clru_is_full :: "'s \<Rightarrow> bool"
  clru_pop :: "'s \<Rightarrow> 'k \<Rightarrow> 's \<times> 'e option"
  clru_put :: "'s \<Rightarrow> 'k \<Rightarrow> 'e \<Rightarrow> 's \<times> 'e option"
  clru_pop_back :: "'s \<Rightarrow> 's \<times> ('k \<times> 'e) option"
  clru_get_mut :: "'s \<Rightarrow> 'k \<Rightarrow> ('e \<Rightarrow> 'e) \<Rightarrow> 's"
  clru_back_mut :: "'s \<Rightarrow> ('e \<Rightarrow> 'e) \<Rightarrow> 's"

definition without_key :: "'k \<Rightarrow> ('k \<times> 'e) list \<Rightarrow> ('k \<times> 'e) list" where
  "without_key k xs = filter (\<lambda>e. fst e \<noteq> k) xs"

definition promote :: "'k \<Rightarrow> ('e \<Rightarrow> 'e) \<Rightarrow> ('k \<times> 'e) list \<Rightarrow> ('k \<times> 'e) list" where
  "promote k f xs = (case map_of xs k of None \<Rightarrow> xs | Some e \<Rightarrow> (k, f e) # without_key k xs)"

definition update_last :: "('e \<Rightarrow> 'e) \<Rightarrow> ('k \<times> 'e) list \<Rightarrow> ('k \<times> 'e) list" where
  "update_last f xs = (if xs = [] then [] else butlast xs @ [(fst (last xs), f (snd (last xs)))])"

definition lru_put :: "nat \<Rightarrow> 'k \<Rightarrow> 'e \<Rightarrow> ('k \<times> 'e) list \<Rightarrow> ('k \<times> 'e) list" where
  "lru_put cap k e xs =
     (if k \<in> fst ` set xs then (k, e) # without_key k xs
      else if cap \<le> length xs then (k, e) # butlast xs
      else (k, e) # xs)"

locale clru_cache =
  fixes ops :: "('s, 'k, 'e) clru_ops"
  assumes iter_with_memory [simp]: "clru_iter ops (clru_with_memory ops cap reserve) = []"
    and capacity_with_memory [simp]: "clru_capacity ops (clru_with_memory ops cap reserve) = cap"
    and peek_iter [simp]: "clru_peek ops s k = map_of (clru_iter ops s) k"
    and is_full_iter [simp]: "clru_is_full ops s \<longleftrightarrow> clru_capacity ops s \<le> length (clru_iter ops s)"
    and pop_iter [simp]: "clru_iter ops (fst (clru_pop ops s k)) = without_key k (clru_iter ops s)"
    and pop_result [simp]: "snd (clru_pop ops s k) = map_of (clru_iter ops s) k"
    and pop_capacity [simp]: "clru_capacity ops (fst (clru_pop ops s k)) = clru_capacity ops s"
    and put_iter [simp]: "clru_iter ops (fst (clru_put ops s k e)) =
          lru_put (clru_capacity ops s) k e (clru_iter ops s)"
    and put_capacity [simp]: "clru_capacity ops (fst (clru_put ops s k e)) = clru_capacity ops s"
    and pop_back_iter [simp]: "clru_iter ops (fst (clru_pop_back ops s)) = butlast (clru_iter ops s)"
    and pop_back_result [simp]: "snd (clru_pop_back ops s) =
          (if clru_iter ops s = [] then None else Some (last (clru_iter ops s)))"
    and pop_back_capacity [simp]: "clru_capacity ops (fst (clru_pop_back ops s)) = clru_capacity ops s"
    and get_mut_iter [simp]: "clru_iter ops (clru_get_mut ops s k f) = promote k f (clru_iter ops s)"
    and get_mut_capacity [simp]: "clru_capacity ops (clru_get_mut ops s k f) = clru_capacity ops s"
    and back_mut_iter [simp]: "clru_iter ops (clru_back_mut ops s f) = update_last f (clru_iter ops s)"
    and back_mut_capacity [simp]: "clru_capacity ops (clru_back_mut ops s f) = clru_capacity ops s"

section \<open>The list instance\<close>

definition list_clru :: "(nat \<times> ('k \<times> 'e) list, 'k, 'e) clru_ops" where
  "list_clru =
     \<lparr>clru_with_memory = (\<lambda>cap _. (cap, [])),
      clru_capacity = fst,
      clru_iter = snd,
      clru_peek = (\<lambda>s k. map_of (snd s) k),
      clru_is_full = (\<lambda>s. fst s \<le> length (snd s)),
      clru_pop = (\<lambda>s k. ((fst s, without_key k (snd s)), map_of (snd s) k)),
      clru_put = (\<lambda>s k e. ((fst s, lru_put (fst s) k e (snd s)), map_of (snd s) k)),
      clru_pop_back = (\<lambda>s. ((fst s, butlast (snd s)), if snd s = [] then None else Some (last (snd s)))),
      clru_get_mut = (\<lambda>s k f. (fst s, promote k f (snd s))),
      clru_back_mut = (\<lambda>s f. (fst s, update_last f (snd s)))\<rparr>"

interpretation list_clru: clru_cache list_clru
  by unfold_locales (auto simp: list_clru_def)

section \<open>Recency lists\<close>

lemma map_of_without_key [simp]:
  "map_of (without_key k xs) k' = (if k' = k then None else map_of xs k')"
  by (induction xs) (auto simp: without_key_def)

lemma without_key_absent [simp]: "map_of xs k = None \<Longrightarrow> without_key k xs = xs"
  by (auto simp: without_key_def map_of_eq_None_iff filter_id_conv)

lemma set_without_key [simp]: "set (without_key k xs) = {e \<in> set xs. fst e \<noteq> k}"
  by (auto simp: without_key_def)

lemma keys_without_key [simp]: "fst ` set (without_key k xs) = fst ` set xs - {k}"
  by auto

lemma distinct_without_key: "distinct (map fst xs) \<Longrightarrow> distinct (map fst (without_key k xs))"
  by (simp add: without_key_def distinct_map_filter)

lemma length_without_key_le: "length (without_key k xs) \<le> length xs"
  by (simp add: without_key_def)

lemma length_without_key_less:
  "map_of xs k = Some e \<Longrightarrow> length (without_key k xs) < length xs"
  unfolding without_key_def by (rule length_filter_less [of "(k, e)"]) (auto dest: map_of_SomeD)

lemma length_without_key:
  "distinct (map fst xs) \<Longrightarrow> map_of xs k = Some e \<Longrightarrow> Suc (length (without_key k xs)) = length xs"
proof (induction xs)
  case (Cons x xs)
  show ?case
  proof (cases "fst x = k")
    case True
    then have "map_of xs k = None"
      using Cons.prems(1) by (auto simp: map_of_eq_None_iff)
    then show ?thesis
      using True without_key_absent [of xs k] by (simp add: without_key_def)
  next
    case False
    then show ?thesis using Cons by (simp add: without_key_def)
  qed
qed simp

lemma lru_put_absent:
  "map_of xs k = None \<Longrightarrow> length xs < cap \<Longrightarrow> lru_put cap k e xs = (k, e) # xs"
  by (auto simp: lru_put_def map_of_eq_None_iff)

lemma distinct_keys_butlast: "distinct (map fst xs) \<Longrightarrow> distinct (map fst (butlast xs))"
  by (simp add: map_butlast distinct_butlast)

lemma map_of_butlast:
  assumes "distinct (map fst xs)" and "xs \<noteq> []"
  shows "map_of (butlast xs) k = (if k = fst (last xs) then None else map_of xs k)"
proof (cases xs rule: rev_cases)
  case (snoc ys y)
  then show ?thesis
    using assms(1)
    by (cases y) (auto simp: map_add_def map_of_eq_None_iff split: option.splits)
qed (use assms(2) in simp)

section \<open>Lists in the order of expiry\<close>

text \<open>
  Both caches keep the recency list in the order in which the entries expire. The order is stated for
  any reading \<open>x\<close> of the deadline of an entry.
\<close>

definition expiry_by :: "('e \<Rightarrow> instant) \<Rightarrow> 'k \<times> 'e \<Rightarrow> instant" where
  "expiry_by x e = x (snd e)"

definition newest_first :: "('e \<Rightarrow> instant) \<Rightarrow> ('k \<times> 'e) list \<Rightarrow> bool" where
  "newest_first x es \<longleftrightarrow> sorted_wrt (\<lambda>a b. expiry_by x b \<le> expiry_by x a) es"

definition entries_ok :: "('e \<Rightarrow> instant) \<Rightarrow> nat \<Rightarrow> instant \<Rightarrow> ('k \<times> 'e) list \<Rightarrow> bool" where
  "entries_ok x cap latest es \<longleftrightarrow>
     0 < cap \<and> length es \<le> cap \<and> distinct (map fst es) \<and> newest_first x es \<and>
     (\<forall>e \<in> set es. expiry_by x e \<le> latest)"

lemma entries_ok_later: "entries_ok x cap t es \<Longrightarrow> t \<le> t' \<Longrightarrow> entries_ok x cap t' es"
  by (auto simp: entries_ok_def)

lemma newest_first_without_key: "newest_first x es \<Longrightarrow> newest_first x (without_key k es)"
  by (simp add: newest_first_def without_key_def sorted_wrt_filter)

lemma entries_ok_without_key: "entries_ok x cap t es \<Longrightarrow> entries_ok x cap t (without_key k es)"
  using length_without_key_le [of k es]
  by (auto simp: entries_ok_def distinct_without_key newest_first_without_key)

lemma newest_first_take: "newest_first x es \<Longrightarrow> newest_first x (take n es)"
  by (simp add: newest_first_def sorted_wrt_take)

lemma entries_ok_take: "entries_ok x cap t es \<Longrightarrow> entries_ok x cap t (take n es)"
  by (auto simp: entries_ok_def newest_first_take take_map [symmetric] dest: in_set_takeD)

lemma entries_ok_butlast: "entries_ok x cap t es \<Longrightarrow> entries_ok x cap t (butlast es)"
  by (simp add: butlast_conv_take entries_ok_take)

lemma entries_ok_Cons:
  assumes "entries_ok x cap t es" and "map_of es k = None" and "length es < cap"
    and "x e = t"
  shows "entries_ok x cap t ((k, e) # es)"
  using assms by (auto simp: entries_ok_def newest_first_def expiry_by_def map_of_eq_None_iff)

lemma entries_ok_last_oldest:
  assumes "entries_ok x cap t es" and "e \<in> set es"
  shows "expiry_by x (last es) \<le> expiry_by x e"
proof (cases es rule: rev_cases)
  case (snoc ys y)
  then show ?thesis
    using assms by (auto simp: entries_ok_def newest_first_def sorted_wrt_append)
qed (use assms in simp)

lemma newest_first_split:
  assumes "newest_first x es"
  shows "es = filter (\<lambda>e. now < expiry_by x e) es @ filter (\<lambda>e. expiry_by x e \<le> now) es"
  using assms
proof (induction es)
  case (Cons e es)
  then have nf: "newest_first x es" and le: "\<forall>y \<in> set es. expiry_by x y \<le> expiry_by x e"
    by (auto simp: newest_first_def)
  show ?case
  proof (cases "now < expiry_by x e")
    case True
    then show ?thesis using Cons.IH [OF nf] by simp
  next
    case False
    then have "filter (\<lambda>y. now < expiry_by x y) es = []" and "filter (\<lambda>y. expiry_by x y \<le> now) es = es"
      using le by (auto simp: filter_empty_conv filter_id_conv)
    then show ?thesis using False by simp
  qed
qed simp

lemma entries_ok_filter: "entries_ok x cap t es \<Longrightarrow> entries_ok x cap t (filter P es)"
  using length_filter_le [of P es]
  by (auto simp: entries_ok_def newest_first_def sorted_wrt_filter distinct_map_filter
      simp del: length_filter_le)

lemma map_of_butlast_None: "map_of es k = None \<Longrightarrow> map_of (butlast es) k = None"
  by (auto simp: map_of_eq_None_iff dest: in_set_butlastD)

lemma room_cases:
  obtains (present) e where "map_of es k = Some e"
  | (full) "map_of es k = None" and "cap \<le> length es"
  | (room) "map_of es k = None" and "length es < cap"
  by (meson not_le option.exhaust)


text \<open>Scanning the list from the oldest end until the first live entry meets every expired entry.\<close>

lemma takeWhile_expired:
  assumes "newest_first x es"
  shows "takeWhile (\<lambda>(_, e). x e \<le> now) (rev es) = rev (filter (\<lambda>e. expiry_by x e \<le> now) es)"
proof -
  define live_es where "live_es = filter (\<lambda>e. now < expiry_by x e) es"
  define dead_es where "dead_es = filter (\<lambda>e. expiry_by x e \<le> now) es"
  have es: "es = live_es @ dead_es"
    unfolding live_es_def dead_es_def by (rule newest_first_split [OF assms(1)])
  have "\<forall>e \<in> set (rev live_es). \<not> x (snd e) \<le> now"
    by (auto simp: live_es_def expiry_by_def)
  then have "takeWhile (\<lambda>(_, e). x e \<le> now) (rev live_es) = []"
    by (cases "rev live_es") auto
  moreover have "\<forall>e \<in> set (rev dead_es). (\<lambda>(_, e). x e \<le> now) e"
    by (auto simp: dead_es_def expiry_by_def)
  ultimately show ?thesis
    using takeWhile_append2 [of "rev dead_es" "\<lambda>(_, e). x e \<le> now" "rev live_es"]
    unfolding dead_es_def [symmetric] by (auto simp: es)
qed

end
