(* ===== verification/Bounded_Ttl_Cache.thy ===== *)
theory Bounded_Ttl_Cache
  imports Clru_Store
begin

text \<open>
  The fixed-capacity cache of \<open>services/opensecret/src/bounded_ttl_cache.rs\<close>: every value has one fixed
  lifetime, insertion always succeeds and takes the place of the oldest entry when the cache is full,
  and expired values are zeroized where they lie before they leave. The recency list of the
  underlying map is in the order of expiry; the lemmas on retirement and eviction rest on that order.
  The theory ends with the contract \<open>ttl_cache\<close> that clients of the cache use.
\<close>

section \<open>The cache\<close>

datatype insert_outcome = Inserted | Replaced | ReclaimedExpired | EvictedOldest

record 'v timed_entry =
  te_value :: 'v
  te_expires_at :: instant

record 's bounded_ttl_cache =
  btc_entries :: 's
  btc_ttl :: duration

definition new_ttl_cache ::
  "('s, 'k, 'v timed_entry) clru_ops \<Rightarrow> nat \<Rightarrow> duration \<Rightarrow> 's bounded_ttl_cache" where
  "new_ttl_cache ops capacity ttl =
     \<lparr>btc_entries = clru_with_memory ops capacity capacity, btc_ttl = ttl\<rparr>"

text \<open>\<open>None\<close> is the panic of an \<open>expect\<close>.\<close>

definition insert_evicting_at ::
  "('s, 'k, 'v timed_entry) clru_ops \<Rightarrow> 's bounded_ttl_cache \<Rightarrow> 'k \<Rightarrow> 'v \<Rightarrow> instant \<Rightarrow>
   ('s bounded_ttl_cache \<times> insert_outcome) option" where
  "insert_evicting_at ops self key value now =
     (case instant_checked_add now (btc_ttl self) of
        None \<Rightarrow> None
      | Some expires_at \<Rightarrow>
          (let entry = \<lparr>te_value = value, te_expires_at = expires_at\<rparr> in
           case clru_pop ops (btc_entries self) key of
             (entries, Some replaced) \<Rightarrow>
               Some (self\<lparr>btc_entries := fst (clru_put ops entries key entry)\<rparr>, Replaced)
           | (entries, None) \<Rightarrow>
               if clru_is_full ops entries then
                 (case clru_pop_back ops entries of
                    (_, None) \<Rightarrow> None
                  | (entries, Some (_, oldest)) \<Rightarrow>
                      Some (self\<lparr>btc_entries := fst (clru_put ops entries key entry)\<rparr>,
                            if te_expires_at oldest \<le> now then ReclaimedExpired else EvictedOldest))
               else Some (self\<lparr>btc_entries := fst (clru_put ops entries key entry)\<rparr>, Inserted)))"

definition get_live_at ::
  "('s, 'k, 'v timed_entry) clru_ops \<Rightarrow> 's bounded_ttl_cache \<Rightarrow> 'k \<Rightarrow> instant \<Rightarrow>
   's bounded_ttl_cache \<times> 'v option" where
  "get_live_at ops self key now =
     (if (case clru_peek ops (btc_entries self) key of
            Some entry \<Rightarrow> te_expires_at entry \<le> now | None \<Rightarrow> False)
      then (self\<lparr>btc_entries := fst (clru_pop ops (btc_entries self) key)\<rparr>, None)
      else (self, map_option te_value (clru_peek ops (btc_entries self) key)))"

definition take_live_at ::
  "('s, 'k, 'v timed_entry) clru_ops \<Rightarrow> 's bounded_ttl_cache \<Rightarrow> 'k \<Rightarrow> instant \<Rightarrow>
   's bounded_ttl_cache \<times> 'v option" where
  "take_live_at ops self key now =
     (case clru_pop ops (btc_entries self) key of
        (entries, None) \<Rightarrow> (self\<lparr>btc_entries := entries\<rparr>, None)
      | (entries, Some entry) \<Rightarrow>
          (self\<lparr>btc_entries := entries\<rparr>,
           if te_expires_at entry \<le> now then None else Some (te_value entry)))"

text \<open>The loop of \<open>retire_expired_at\<close>: the oldest value is zeroized in place, then removed.\<close>

fun retire_loop ::
  "('s, 'k, 'v timed_entry) clru_ops \<Rightarrow> ('v \<Rightarrow> 'v) \<Rightarrow> nat \<Rightarrow> 's \<Rightarrow> 'v timed_entry list \<Rightarrow>
   ('s \<times> 'v timed_entry list) option" where
  "retire_loop ops zeroize 0 s acc = Some (s, acc)"
| "retire_loop ops zeroize (Suc n) s acc =
     (if clru_iter ops s = [] then None
      else case clru_pop_back ops (clru_back_mut ops s (\<lambda>e. e\<lparr>te_value := zeroize (te_value e)\<rparr>)) of
             (_, None) \<Rightarrow> None
           | (s, Some (_, entry)) \<Rightarrow> retire_loop ops zeroize n s (acc @ [entry]))"

definition retire_expired_at ::
  "('s, 'k, 'v timed_entry) clru_ops \<Rightarrow> ('v \<Rightarrow> 'v) \<Rightarrow> 's bounded_ttl_cache \<Rightarrow> instant \<Rightarrow>
   ('s bounded_ttl_cache \<times> 'v timed_entry list) option" where
  "retire_expired_at ops zeroize self now =
     (let expired_count = length (takeWhile (\<lambda>(_, entry). te_expires_at entry \<le> now)
                                   (rev (clru_iter ops (btc_entries self))))
      in case retire_loop ops zeroize expired_count (btc_entries self) [] of
           None \<Rightarrow> None
         | Some (s, entries) \<Rightarrow> Some (self\<lparr>btc_entries := s\<rparr>, entries))"

definition removed_count :: "'v timed_entry list \<Rightarrow> nat" where
  "removed_count entries = length entries"

section \<open>Invariant\<close>

abbreviation cached ::
  "('s, 'k, 'v timed_entry) clru_ops \<Rightarrow> 's bounded_ttl_cache \<Rightarrow> ('k \<times> 'v timed_entry) list" where
  "cached ops c \<equiv> clru_iter ops (btc_entries c)"

abbreviation expiry :: "'k \<times> 'v timed_entry \<Rightarrow> instant" where
  "expiry e \<equiv> expiry_by te_expires_at e"

text \<open>
  At clock reading \<open>now\<close>: the keys are distinct, the cache is within its capacity, the entries are in
  the order of expiry, and nothing expires later than a value inserted now would.
\<close>

definition ttl_inv ::
  "('s, 'k, 'v timed_entry) clru_ops \<Rightarrow> instant \<Rightarrow> 's bounded_ttl_cache \<Rightarrow> bool" where
  "ttl_inv ops now c \<longleftrightarrow>
     entries_ok te_expires_at (clru_capacity ops (btc_entries c)) (now + btc_ttl c) (cached ops c)"

text \<open>What a client sees: the value of a key while its lifetime lasts.\<close>

definition live_value :: "instant \<Rightarrow> 'v timed_entry option \<Rightarrow> 'v option" where
  "live_value now e =
     (case e of Some e \<Rightarrow> if now < te_expires_at e then Some (te_value e) else None | None \<Rightarrow> None)"

definition live ::
  "('s, 'k, 'v timed_entry) clru_ops \<Rightarrow> 's bounded_ttl_cache \<Rightarrow> instant \<Rightarrow> 'k \<Rightarrow> 'v option" where
  "live ops c now key = live_value now (map_of (cached ops c) key)"

text \<open>The recency list after an insertion, and the outcome that is reported.\<close>

definition ttl_insert :: "nat \<Rightarrow> 'k \<Rightarrow> 'v timed_entry \<Rightarrow> ('k \<times> 'v timed_entry) list \<Rightarrow>
    ('k \<times> 'v timed_entry) list" where
  "ttl_insert cap k e es =
     (k, e) # (if map_of es k \<noteq> None then without_key k es
               else if cap \<le> length es then butlast es else es)"

definition ttl_outcome :: "nat \<Rightarrow> 'k \<Rightarrow> instant \<Rightarrow> ('k \<times> 'v timed_entry) list \<Rightarrow> insert_outcome" where
  "ttl_outcome cap k now es =
     (if map_of es k \<noteq> None then Replaced
      else if cap \<le> length es then
        (if expiry (last es) \<le> now then ReclaimedExpired else EvictedOldest)
      else Inserted)"

lemma entries_ok_ttl_insert:
  assumes "entries_ok te_expires_at cap t es" and "te_expires_at e = t"
  shows "entries_ok te_expires_at cap t (ttl_insert cap k e es)"
proof -
  show ?thesis
  proof (cases rule: room_cases [where es = es and k = k and cap = cap])
    case (present e')
    then have "length (without_key k es) < cap"
      using length_without_key_less [of es k] assms by (fastforce simp: entries_ok_def)
    then show ?thesis
      using present assms by (auto simp: ttl_insert_def intro: entries_ok_Cons entries_ok_without_key)
  next
    case full
    then have "length (butlast es) < cap"
      using assms by (auto simp: entries_ok_def)
    then show ?thesis
      using full assms
      by (auto simp: ttl_insert_def map_of_butlast_None intro!: entries_ok_Cons entries_ok_butlast)
  next
    case room
    then show ?thesis
      using assms by (auto simp: ttl_insert_def intro: entries_ok_Cons)
  qed
qed

lemma map_of_ttl_insert:
  assumes "entries_ok te_expires_at cap t es"
  shows "map_of (ttl_insert cap k e es) k' =
     (if k' = k then Some e
      else if map_of es k = None \<and> cap \<le> length es \<and> k' = fst (last es) then None
      else map_of es k')"
proof -
  have "es \<noteq> []" if "cap \<le> length es"
    using that assms by (auto simp: entries_ok_def)
  then show ?thesis
    using assms map_of_butlast [of es k'] by (auto simp: ttl_insert_def entries_ok_def)
qed

text \<open>Counting the expired entries from the oldest end counts all of them.\<close>

lemma expired_tail:
  assumes "newest_first te_expires_at es"
    and n: "n = length (takeWhile (\<lambda>(_, e). te_expires_at e \<le> now) (rev es))"
  shows "take (length es - n) es = filter (\<lambda>e. now < expiry e) es"
    and "take n (rev es) = rev (filter (\<lambda>e. expiry e \<le> now) es)"
proof -
  have n: "n = length (filter (\<lambda>e. expiry e \<le> now) es)"
    by (simp add: n takeWhile_expired [OF assms(1)])
  have es: "es = filter (\<lambda>e. now < expiry e) es @ filter (\<lambda>e. expiry e \<le> now) es"
    by (rule newest_first_split [OF assms(1)])
  show "take (length es - n) es = filter (\<lambda>e. now < expiry e) es"
    by (subst (1 2) es) (simp add: n)
  show "take n (rev es) = rev (filter (\<lambda>e. expiry e \<le> now) es)"
    by (subst es) (simp add: n)
qed

section \<open>Operations on the recency list\<close>

locale ttl_store = clru_cache ops for ops :: "('s, 'k, 'v timed_entry) clru_ops"
begin

lemma insert_evicting_at_list:
  assumes "entries_ok te_expires_at (clru_capacity ops (btc_entries c)) t (cached ops c)"
    and "now + btc_ttl c < instant_bound"
  shows "\<exists>c'. insert_evicting_at ops c k v now =
           Some (c', ttl_outcome (clru_capacity ops (btc_entries c)) k now (cached ops c))
         \<and> cached ops c' = ttl_insert (clru_capacity ops (btc_entries c)) k
             \<lparr>te_value = v, te_expires_at = now + btc_ttl c\<rparr> (cached ops c)
         \<and> clru_capacity ops (btc_entries c') = clru_capacity ops (btc_entries c)
         \<and> btc_ttl c' = btc_ttl c"
proof -
  let ?s = "btc_entries c"
  obtain s1 r where pop: "clru_pop ops ?s k = (s1, r)" by (cases "clru_pop ops ?s k")
  obtain s2 b where pb: "clru_pop_back ops s1 = (s2, b)" by (cases "clru_pop_back ops s1")
  have r: "r = map_of (cached ops c) k" and i1: "clru_iter ops s1 = without_key k (cached ops c)"
    and c1: "clru_capacity ops s1 = clru_capacity ops ?s"
    using pop_result [of ?s k] pop_iter [of ?s k] pop_capacity [of ?s k] pop by simp_all
  have b: "b = (if clru_iter ops s1 = [] then None else Some (last (clru_iter ops s1)))"
    and i2: "clru_iter ops s2 = butlast (clru_iter ops s1)"
    and c2: "clru_capacity ops s2 = clru_capacity ops ?s"
    using pop_back_result [of s1] pop_back_iter [of s1] pop_back_capacity [of s1] pb c1 by simp_all
  note eqs = insert_evicting_at_def instant_checked_add_def assms(2) pop pb r i1 c1 b i2 c2
    ttl_outcome_def ttl_insert_def expiry_by_def
  show ?thesis
  proof (cases rule: room_cases [where es = "cached ops c" and k = k and cap = "clru_capacity ops ?s"])
    case (present e')
    then have "length (without_key k (cached ops c)) < clru_capacity ops ?s"
      using length_without_key_less [of "cached ops c" k] assms(1)
      by (fastforce simp: entries_ok_def)
    then show ?thesis using present by (simp add: eqs lru_put_absent)
  next
    case full
    then have "cached ops c \<noteq> []" and "length (butlast (cached ops c)) < clru_capacity ops ?s"
      using assms(1) by (auto simp: entries_ok_def)
    then show ?thesis
      using full by (cases "last (cached ops c)") (simp add: eqs lru_put_absent map_of_butlast_None)
  next
    case room
    then show ?thesis by (simp add: eqs lru_put_absent)
  qed
qed

lemma get_live_at_list:
  "snd (get_live_at ops c k now) = live ops c now k"
  "cached ops (fst (get_live_at ops c k now)) =
     (if map_of (cached ops c) k \<noteq> None \<and> live ops c now k = None
      then without_key k (cached ops c) else cached ops c)"
  "btc_ttl (fst (get_live_at ops c k now)) = btc_ttl c"
  "clru_capacity ops (btc_entries (fst (get_live_at ops c k now))) = clru_capacity ops (btc_entries c)"
  by (auto simp: get_live_at_def live_def live_value_def split: option.splits)

lemma take_live_at_list:
  "snd (take_live_at ops c k now) = live ops c now k"
  "cached ops (fst (take_live_at ops c k now)) = without_key k (cached ops c)"
  "btc_ttl (fst (take_live_at ops c k now)) = btc_ttl c"
  "clru_capacity ops (btc_entries (fst (take_live_at ops c k now))) = clru_capacity ops (btc_entries c)"
proof -
  obtain s r where "clru_pop ops (btc_entries c) k = (s, r)"
    by (cases "clru_pop ops (btc_entries c) k")
  then show "snd (take_live_at ops c k now) = live ops c now k"
    "cached ops (fst (take_live_at ops c k now)) = without_key k (cached ops c)"
    "btc_ttl (fst (take_live_at ops c k now)) = btc_ttl c"
    "clru_capacity ops (btc_entries (fst (take_live_at ops c k now))) =
       clru_capacity ops (btc_entries c)"
    using pop_result [of "btc_entries c" k] pop_iter [of "btc_entries c" k]
      pop_capacity [of "btc_entries c" k]
    by (auto simp: take_live_at_def live_def live_value_def split: option.splits)
qed

lemma retire_loop_list:
  assumes "n \<le> length (clru_iter ops s)"
  shows "\<exists>s'. retire_loop ops zeroize n s acc =
           Some (s', acc @ map (\<lambda>(_, e). e\<lparr>te_value := zeroize (te_value e)\<rparr>)
                              (take n (rev (clru_iter ops s))))
         \<and> clru_iter ops s' = take (length (clru_iter ops s) - n) (clru_iter ops s)
         \<and> clru_capacity ops s' = clru_capacity ops s"
  using assms
proof (induction n arbitrary: s acc)
  case 0
  then show ?case by simp
next
  case (Suc n)
  let ?f = "\<lambda>e. e\<lparr>te_value := zeroize (te_value e)\<rparr>"
  obtain ys k e where es: "clru_iter ops s = ys @ [(k, e)]"
    using Suc.prems by (cases "clru_iter ops s" rule: rev_cases) auto
  obtain s' r where pb: "clru_pop_back ops (clru_back_mut ops s ?f) = (s', r)"
    by (cases "clru_pop_back ops (clru_back_mut ops s ?f)")
  have "r = Some (k, ?f e)" and i: "clru_iter ops s' = ys"
    and c: "clru_capacity ops s' = clru_capacity ops s"
    using pop_back_result [of "clru_back_mut ops s ?f"] pop_back_iter [of "clru_back_mut ops s ?f"]
      pop_back_capacity [of "clru_back_mut ops s ?f"]
    by (simp_all add: pb es update_last_def)
  then have "retire_loop ops zeroize (Suc n) s acc = retire_loop ops zeroize n s' (acc @ [?f e])"
    by (simp add: es pb)
  moreover have "n \<le> length (clru_iter ops s')"
    using Suc.prems es i by simp
  from Suc.IH [OF this, of "acc @ [?f e]"] obtain s'' where
    "retire_loop ops zeroize n s' (acc @ [?f e]) =
       Some (s'', (acc @ [?f e]) @ map (\<lambda>(_, e). ?f e) (take n (rev ys)))"
    "clru_iter ops s'' = take (length ys - n) ys" "clru_capacity ops s'' = clru_capacity ops s"
    by (auto simp: i c)
  ultimately show ?case
    using es by simp
qed

lemma retire_expired_at_list:
  assumes "newest_first te_expires_at (cached ops c)"
  shows "\<exists>c'. retire_expired_at ops zeroize c now =
           Some (c', map (\<lambda>(_, e). e\<lparr>te_value := zeroize (te_value e)\<rparr>)
                         (rev (filter (\<lambda>e. expiry e \<le> now) (cached ops c))))
         \<and> cached ops c' = filter (\<lambda>e. now < expiry e) (cached ops c)
         \<and> clru_capacity ops (btc_entries c') = clru_capacity ops (btc_entries c)
         \<and> btc_ttl c' = btc_ttl c"
proof -
  define n where "n = length (takeWhile (\<lambda>(_, e). te_expires_at e \<le> now) (rev (cached ops c)))"
  have "n \<le> length (cached ops c)"
    unfolding n_def by (metis length_rev length_takeWhile_le)
  from retire_loop_list [OF this, of zeroize "[]"] show ?thesis
    by (auto simp: retire_expired_at_def Let_def n_def [symmetric] expired_tail [OF assms n_def])
qed

lemma ttl_inv_new: "0 < cap \<Longrightarrow> ttl_inv ops 0 (new_ttl_cache ops cap ttl)"
  by (simp add: ttl_inv_def new_ttl_cache_def entries_ok_def newest_first_def)

lemma ttl_inv_later: "ttl_inv ops now c \<Longrightarrow> now \<le> t \<Longrightarrow> ttl_inv ops t c"
  unfolding ttl_inv_def by (erule entries_ok_later) simp

lemma ttl_inv_insert:
  assumes "ttl_inv ops clock c" and "clock \<le> now" and "now + btc_ttl c < instant_bound"
    and "insert_evicting_at ops c k v now = Some (c', out)"
  shows "ttl_inv ops now c'"
proof -
  have ok: "entries_ok te_expires_at (clru_capacity ops (btc_entries c)) (now + btc_ttl c) (cached ops c)"
    using ttl_inv_later [OF assms(1,2)] by (simp add: ttl_inv_def)
  from insert_evicting_at_list [OF ok assms(3), of k v] assms(4) show ?thesis
    by (auto simp: ttl_inv_def intro!: entries_ok_ttl_insert ok)
qed

lemma ttl_inv_get: "ttl_inv ops now c \<Longrightarrow> ttl_inv ops now (fst (get_live_at ops c k t))"
  by (simp add: ttl_inv_def get_live_at_list entries_ok_without_key)

lemma ttl_inv_take: "ttl_inv ops now c \<Longrightarrow> ttl_inv ops now (fst (take_live_at ops c k t))"
  by (simp add: ttl_inv_def take_live_at_list entries_ok_without_key)

lemma live_insert:
  assumes "ttl_inv ops clock c" and "clock \<le> now" and "now + btc_ttl c < instant_bound"
    and "insert_evicting_at ops c k v now = Some (c', out)"
  shows "live ops c' t k' =
     (if k' = k then (if t < now + btc_ttl c then Some v else None)
      else if map_of (cached ops c) k = None \<and>
              clru_capacity ops (btc_entries c) \<le> length (cached ops c) \<and>
              k' = fst (last (cached ops c)) then None
      else live ops c t k')"
proof -
  have ok: "entries_ok te_expires_at (clru_capacity ops (btc_entries c)) (now + btc_ttl c) (cached ops c)"
    using ttl_inv_later [OF assms(1,2)] by (simp add: ttl_inv_def)
  from insert_evicting_at_list [OF ok assms(3), of k v] assms(4) show ?thesis
    by (auto simp: live_def live_value_def map_of_ttl_insert [OF ok])
qed

lemma live_get:
  assumes "t \<le> t'"
  shows "live ops (fst (get_live_at ops c k t)) t' k' = live ops c t' k'"
  using assms
  by (auto simp: live_def get_live_at_list live_value_def split: option.splits if_splits)

end

section \<open>The contract of the cache\<close>

text \<open>
  What a client relies on: a value is seen from its insertion until its lifetime ends or it is pushed
  out by another key, and a lookup changes nothing that can still be seen.
\<close>

locale ttl_cache =
  fixes inv :: "instant \<Rightarrow> 'c \<Rightarrow> bool"
    and ttl :: "'c \<Rightarrow> duration"
    and view :: "'c \<Rightarrow> instant \<Rightarrow> 'k \<Rightarrow> 'v option"
    and insert :: "'c \<Rightarrow> 'k \<Rightarrow> 'v \<Rightarrow> instant \<Rightarrow> ('c \<times> insert_outcome) option"
    and get :: "'c \<Rightarrow> 'k \<Rightarrow> instant \<Rightarrow> 'c \<times> 'v option"
  assumes inv_later: "inv now c \<Longrightarrow> now \<le> t \<Longrightarrow> inv t c"
    and insert_fails: "insert c k v now = None \<Longrightarrow> inv now c \<Longrightarrow> instant_bound \<le> now + ttl c"
    and insert_keeps: "inv now c \<Longrightarrow> insert c k v now = Some (c', out) \<Longrightarrow> inv now c' \<and> ttl c' = ttl c"
    and insert_view: "inv now c \<Longrightarrow> insert c k v now = Some (c', out) \<Longrightarrow>
          view c' t k = (if t < now + ttl c then Some v else None)"
    and insert_view_other: "inv now c \<Longrightarrow> insert c k v now = Some (c', out) \<Longrightarrow> k' \<noteq> k \<Longrightarrow>
          view c' t k' = view c t k' \<or> view c' t k' = None"
    and get_keeps: "inv now c \<Longrightarrow> inv now (fst (get c k now)) \<and> ttl (fst (get c k now)) = ttl c"
    and get_result: "snd (get c k now) = view c now k"
    and get_view: "now \<le> t \<Longrightarrow> view (fst (get c k now)) t k' = view c t k'"

text \<open>A run of a client: insertions and lookups with their clock readings.\<close>

datatype ('k, 'v) cache_event = Insert_Event 'k 'v instant | Get_Event 'k instant

fun event_time :: "('k, 'v) cache_event \<Rightarrow> instant" where
  "event_time (Insert_Event _ _ t) = t"
| "event_time (Get_Event _ t) = t"

fun run_events ::
  "('c \<Rightarrow> 'k \<Rightarrow> 'v \<Rightarrow> instant \<Rightarrow> ('c \<times> insert_outcome) option) \<Rightarrow>
   ('c \<Rightarrow> 'k \<Rightarrow> instant \<Rightarrow> 'c \<times> 'v option) \<Rightarrow> 'c \<Rightarrow> ('k, 'v) cache_event list \<Rightarrow> 'c option" where
  "run_events ins get c [] = Some c"
| "run_events ins get c (Insert_Event k v t # es) =
     (case ins c k v t of None \<Rightarrow> None | Some (c', _) \<Rightarrow> run_events ins get c' es)"
| "run_events ins get c (Get_Event k t # es) = run_events ins get (fst (get c k t)) es"

text \<open>The latest insertion of a key in a run.\<close>

fun latest_insert ::
  "'k \<Rightarrow> ('v \<times> instant) option \<Rightarrow> ('k, 'v) cache_event list \<Rightarrow> ('v \<times> instant) option" where
  "latest_insert k acc [] = acc"
| "latest_insert k acc (Insert_Event k' v t # es) =
     latest_insert k (if k' = k then Some (v, t) else acc) es"
| "latest_insert k acc (Get_Event _ _ # es) = latest_insert k acc es"

definition seen_from :: "duration \<Rightarrow> instant \<Rightarrow> ('v \<times> instant) option \<Rightarrow> 'v option" where
  "seen_from d t i = (case i of Some (v, s) \<Rightarrow> if t < s + d then Some v else None | None \<Rightarrow> None)"

context ttl_cache
begin

lemma run_events_view:
  assumes "run_events insert get c es = Some c'" and "inv clock c"
    and "sorted (map event_time es)" and "\<forall>e \<in> set es. clock \<le> event_time e \<and> event_time e \<le> t"
    and "view c t k = seen_from (ttl c) t acc \<or> view c t k = None"
  shows "(view c' t k = seen_from (ttl c) t (latest_insert k acc es) \<or> view c' t k = None)
         \<and> ttl c' = ttl c"
  using assms
proof (induction es arbitrary: c clock acc)
  case Nil
  then show ?case by simp
next
  case (Cons e es)
  have inv: "inv (event_time e) c"
    using Cons.prems inv_later by auto
  have rest: "sorted (map event_time es)"
    "\<forall>x \<in> set es. event_time e \<le> event_time x \<and> event_time x \<le> t"
    using Cons.prems by auto
  show ?case
  proof (cases e)
    case (Insert_Event k' v s)
    then obtain c1 out where ins: "insert c k' v s = Some (c1, out)"
      and run: "run_events insert get c1 es = Some c'"
      using Cons.prems(1) by (auto split: option.splits)
    have inv1: "inv s c1" "ttl c1 = ttl c"
      using insert_keeps [OF _ ins] inv Insert_Event by simp_all
    have "view c1 t k = seen_from (ttl c1) t (if k' = k then Some (v, s) else acc)
        \<or> view c1 t k = None"
      using insert_view [OF _ ins, of t] insert_view_other [OF _ ins, of k t] inv Insert_Event
        Cons.prems(5) inv1(2)
      by (auto simp: seen_from_def)
    from Cons.IH [OF run inv1(1) rest(1) _ this] show ?thesis
      using rest Insert_Event inv1(2) by simp
  next
    case (Get_Event k' s)
    let ?c1 = "fst (get c k' s)"
    have inv1: "inv s ?c1" "ttl ?c1 = ttl c"
      using get_keeps inv Get_Event by simp_all
    have "view ?c1 t k = seen_from (ttl ?c1) t acc \<or> view ?c1 t k = None"
      using get_view [of s t c k' k] Cons.prems(4,5) Get_Event inv1(2) by simp
    from Cons.IH [OF _ inv1(1) rest(1) _ this] show ?thesis
      using Cons.prems(1) rest Get_Event inv1(2) by simp
  qed
qed

lemma run_events_inv:
  assumes "run_events insert get c es = Some c'" and "inv clock c"
    and "sorted (map event_time es)" and "\<forall>e \<in> set es. clock \<le> event_time e \<and> event_time e \<le> t"
    and "clock \<le> t"
  shows "inv t c'"
  using assms
proof (induction es arbitrary: c clock)
  case Nil
  then show ?case using inv_later by simp
next
  case (Cons e es)
  have inv: "inv (event_time e) c" using Cons.prems inv_later by auto
  have rest: "sorted (map event_time es)"
    "\<forall>x \<in> set es. event_time e \<le> event_time x \<and> event_time x \<le> t" "event_time e \<le> t"
    using Cons.prems by auto
  obtain c1 where "run_events insert get c1 es = Some c'" "inv (event_time e) c1"
    using Cons.prems(1) inv insert_keeps get_keeps
    by (cases e) (auto split: option.splits)
  then show ?case using Cons.IH rest by blast
qed

end

sublocale ttl_store \<subseteq> ttl_cache "ttl_inv ops" btc_ttl "live ops" "insert_evicting_at ops" "get_live_at ops"
proof unfold_locales
  fix now c t
  show "ttl_inv ops now c \<Longrightarrow> now \<le> t \<Longrightarrow> ttl_inv ops t c" by (rule ttl_inv_later)
next
  fix c k v now
  assume "insert_evicting_at ops c k v now = None" and "ttl_inv ops now c"
  then show "instant_bound \<le> now + btc_ttl c"
    using insert_evicting_at_list [of c "now + btc_ttl c" now k v]
    by (fastforce simp: ttl_inv_def not_less [symmetric])
next
  fix now c k v c' out t k'
  assume inv: "ttl_inv ops now c" and ins: "insert_evicting_at ops c k v now = Some (c', out)"
  from ins have b: "now + btc_ttl c < instant_bound"
    by (auto simp: insert_evicting_at_def instant_checked_add_def split: if_splits)
  then show "ttl_inv ops now c' \<and> btc_ttl c' = btc_ttl c"
    using ttl_inv_insert [OF inv order_refl b ins]
      insert_evicting_at_list [OF inv [unfolded ttl_inv_def] b, of k v] ins by auto
  show "live ops c' t k = (if t < now + btc_ttl c then Some v else None)"
    by (simp add: live_insert [OF inv order_refl b ins])
  show "k' \<noteq> k \<Longrightarrow> live ops c' t k' = live ops c t k' \<or> live ops c' t k' = None"
    by (simp add: live_insert [OF inv order_refl b ins])
qed (simp_all add: ttl_inv_get get_live_at_list live_get)

context ttl_store
begin

lemma is_ttl_cache: "ttl_cache (ttl_inv ops) btc_ttl (live ops) (insert_evicting_at ops) (get_live_at ops)"
  by (rule ttl_cache_axioms)

end

interpretation list_ttl: ttl_store list_clru
  by unfold_locales

section \<open>Properties\<close>

text \<open>
  one maintenance pass removes every expired value and no live one, although it only looks at the
  oldest entries until the first live one; what it hands out is zeroized, oldest first.
\<close>

theorem retire_removes_exactly_expired:
  assumes "clru_cache ops" and "ttl_inv ops clock c"
  shows "\<exists>c' gone. retire_expired_at ops zeroize c now = Some (c', gone) \<and>
           ttl_inv ops clock c' \<and>
           cached ops c' = filter (\<lambda>e. now < expiry e) (cached ops c) \<and>
           map te_value gone =
             map (\<lambda>e. zeroize (te_value (snd e))) (rev (filter (\<lambda>e. expiry e \<le> now) (cached ops c)))"
proof -
  from assms(1) have "ttl_store ops" by (simp add: ttl_store_def)
  moreover have ok: "entries_ok te_expires_at (clru_capacity ops (btc_entries c)) (clock + btc_ttl c) (cached ops c)"
    using assms(2) by (simp add: ttl_inv_def)
  ultimately obtain c' where
    "retire_expired_at ops zeroize c now =
       Some (c', map (\<lambda>(_, e). e\<lparr>te_value := zeroize (te_value e)\<rparr>)
                     (rev (filter (\<lambda>e. expiry e \<le> now) (cached ops c))))"
    "cached ops c' = filter (\<lambda>e. now < expiry e) (cached ops c)"
    "clru_capacity ops (btc_entries c') = clru_capacity ops (btc_entries c)" "btc_ttl c' = btc_ttl c"
    using ttl_store.retire_expired_at_list [of ops c zeroize now] by (auto simp: entries_ok_def)
  then show ?thesis
    using ok by (auto simp: ttl_inv_def entries_ok_filter)
qed

theorem retire_removes_exactly_expired_witness:
  "\<exists>c' gone. retire_expired_at list_clru (\<lambda>_. 0)
       \<lparr>btc_entries = (3, [(1 :: nat, \<lparr>te_value = 10 :: nat, te_expires_at = 9\<rparr>),
                          (2, \<lparr>te_value = 20, te_expires_at = 5\<rparr>)]), btc_ttl = 4\<rparr> 7 = Some (c', gone) \<and>
     map te_value gone = [0] \<and> map fst (cached list_clru c') = [1]"
proof -
  let ?c = "\<lparr>btc_entries = (3, [(1 :: nat, \<lparr>te_value = 10 :: nat, te_expires_at = 9\<rparr>),
                (2, \<lparr>te_value = 20, te_expires_at = 5\<rparr>)]), btc_ttl = 4\<rparr>"
  have "ttl_inv list_clru 5 ?c"
    by (simp add: ttl_inv_def entries_ok_def newest_first_def expiry_by_def list_clru_def)
  from retire_removes_exactly_expired [OF list_clru.clru_cache_axioms this, of "\<lambda>_. 0" 7]
  show ?thesis
    by (auto simp: expiry_by_def list_clru_def)
qed

text \<open>
  an insertion is always admitted and the value is then live for its full lifetime; another live
  value is lost only when the cache is full and holds no expired value, and then it is the one that
  would have expired first.
\<close>

theorem insert_admits_and_evicts_oldest:
  assumes "clru_cache ops" and "ttl_inv ops clock c" and "clock \<le> now"
    and "now + btc_ttl c < instant_bound"
  shows "\<exists>c' out. insert_evicting_at ops c key value now = Some (c', out) \<and>
           ttl_inv ops now c' \<and>
           (\<forall>t. live ops c' t key = (if t < now + btc_ttl c then Some value else None)) \<and>
           (\<forall>k. k \<noteq> key \<and> live ops c now k \<noteq> None \<and> live ops c' now k = None \<longrightarrow>
              out = EvictedOldest \<and>
              length (cached ops c) = clru_capacity ops (btc_entries c) \<and>
              (\<forall>e \<in> set (cached ops c). now < expiry e \<and>
                 (\<forall>v. map_of (cached ops c) k = Some v \<longrightarrow> te_expires_at v \<le> expiry e)))"
proof -
  from assms(1) have st: "ttl_store ops" by (simp add: ttl_store_def)
  let ?cap = "clru_capacity ops (btc_entries c)"
  have inv: "ttl_inv ops now c"
    using ttl_store.ttl_inv_later [OF st assms(2,3)] .
  then have ok: "entries_ok te_expires_at ?cap (now + btc_ttl c) (cached ops c)"
    by (simp add: ttl_inv_def)
  obtain c' where
    ins: "insert_evicting_at ops c key value now = Some (c', ttl_outcome ?cap key now (cached ops c))"
    using ttl_store.insert_evicting_at_list [OF st ok assms(4), of key "value"] by blast
  note live' = ttl_store.live_insert [OF st inv order_refl assms(4) ins]
  have "ttl_outcome ?cap key now (cached ops c) = EvictedOldest \<and>
      length (cached ops c) = ?cap \<and>
      (\<forall>e \<in> set (cached ops c). now < expiry e \<and>
         (\<forall>v. map_of (cached ops c) k = Some v \<longrightarrow> te_expires_at v \<le> expiry e))"
    if k: "k \<noteq> key" "live ops c now k \<noteq> None" "live ops c' now k = None" for k
  proof -
    from k have full: "map_of (cached ops c) key = None" "?cap \<le> length (cached ops c)"
      "k = fst (last (cached ops c))"
      by (auto simp: live' split: if_splits)
    then have ne: "cached ops c \<noteq> []" using ok by (auto simp: entries_ok_def)
    then have mk: "map_of (cached ops c) k = Some (snd (last (cached ops c)))"
      using ok full(3) by (simp add: entries_ok_def)
    then have "now < expiry (last (cached ops c))"
      using k(2) by (auto simp: live_def live_value_def expiry_by_def split: if_splits)
    moreover have "te_expires_at v \<le> expiry e"
      if "map_of (cached ops c) k = Some v" "e \<in> set (cached ops c)" for v e
      using that mk entries_ok_last_oldest [OF ok] by (simp add: expiry_by_def)
    moreover have "now < expiry e" if "e \<in> set (cached ops c)" for e
      using calculation(1) entries_ok_last_oldest [OF ok that] by (rule order.strict_trans2)
    ultimately show ?thesis
      using full ok by (auto simp: ttl_outcome_def entries_ok_def)
  qed
  then show ?thesis
    using ins ttl_store.ttl_inv_insert [OF st inv order_refl assms(4) ins] live' by auto
qed

theorem insert_admits_and_evicts_oldest_witness:
  "\<exists>c' out. insert_evicting_at list_clru
       \<lparr>btc_entries = (1, [(1 :: nat, \<lparr>te_value = 10 :: nat, te_expires_at = 9\<rparr>)]), btc_ttl = 4\<rparr> 2 20 6
         = Some (c', out) \<and> live list_clru c' 9 2 = Some 20 \<and> live list_clru c' 10 2 = None"
proof -
  let ?c = "\<lparr>btc_entries = (1, [(1 :: nat, \<lparr>te_value = 10 :: nat, te_expires_at = 9\<rparr>)]), btc_ttl = 4\<rparr>"
  have "ttl_inv list_clru 5 ?c"
    by (simp add: ttl_inv_def entries_ok_def newest_first_def expiry_by_def list_clru_def)
  from insert_admits_and_evicts_oldest [OF list_clru.clru_cache_axioms this, of 6 2 20]
  show ?thesis
    by (auto simp: instant_bound_def nanos_per_sec_def)
qed

end
