(* ===== verification/Lease_Cache.thy ===== *)
theory Lease_Cache
  imports Bounded_Ttl_Cache
begin

text \<open>
  The session cache of \<open>services/opensecret/src/lease_aware_cache.rs\<close> and the maintenance pass of
  \<open>secret_cache_maintenance.rs\<close>. Values live behind an \<open>Arc\<close>, so the model has an explicit heap of
  slots with their lease counter and their strong count; a lease is dropped in the two steps the code
  takes (the counter, then the \<open>Arc\<close>), and both may happen between any two operations of the cache. A
  step relation interleaves them; its invariant is that a leased value stays resident.
\<close>

section \<open>Slots and handles\<close>

record 'v lease_slot =
  ls_value :: 'v
  ls_leases :: u64
  ls_strong :: nat

record cached_value =
  cv_slot :: nat
  cv_expires_at :: instant

type_synonym 'v slot_heap = "(nat, 'v lease_slot) hash_map"

record ('s, 'v) lease_cache =
  lac_entries :: 's
  lac_ttl :: duration
  lac_heap :: "'v slot_heap"
  lac_next :: nat

datatype lease_insert_outcome = LeaseInserted | LeaseReclaimedExpired | EvictedLeastRecentlyUsed

datatype lease_insert_error = DuplicateKey | AllEntriesLeased

definition new_slot :: "'v \<Rightarrow> 'v lease_slot" where
  "new_slot v = \<lparr>ls_value = v, ls_leases = 0, ls_strong = 1\<rparr>"

definition is_leased :: "'v lease_slot \<Rightarrow> bool" where
  "is_leased slot \<longleftrightarrow> ls_leases slot \<noteq> 0"

text \<open>\<open>fetch_update\<close> with \<open>checked_add(1)\<close>: the counter is left alone when it would overflow.\<close>

definition try_acquire :: "'v lease_slot \<Rightarrow> 'v lease_slot \<times> bool" where
  "try_acquire slot =
     (case u64_checked_add (ls_leases slot) 1 of
        Some n \<Rightarrow> (slot\<lparr>ls_leases := n\<rparr>, True)
      | None \<Rightarrow> (slot, False))"

definition arc_clone :: "'v lease_slot \<Rightarrow> 'v lease_slot" where
  "arc_clone slot = slot\<lparr>ls_strong := ls_strong slot + 1\<rparr>"

text \<open>Dropping a handle: the last one frees the slot.\<close>

definition arc_drop :: "'v slot_heap \<Rightarrow> nat \<Rightarrow> 'v slot_heap" where
  "arc_drop heap i =
     (case fmlookup heap i of
        None \<Rightarrow> heap
      | Some slot \<Rightarrow>
          if ls_strong slot \<le> 1 then fmdrop i heap
          else fmupd i (slot\<lparr>ls_strong := ls_strong slot - 1\<rparr>) heap)"

definition has_external_lease :: "'v slot_heap \<Rightarrow> cached_value \<Rightarrow> bool" where
  "has_external_lease heap entry =
     (case fmlookup heap (cv_slot entry) of
        Some slot \<Rightarrow> is_leased slot \<or> ls_strong slot \<noteq> 1
      | None \<Rightarrow> True)"

text \<open>The first half of dropping a \<open>CacheLease\<close>; the second is \<open>arc_drop\<close>.\<close>

definition lease_release :: "'v slot_heap \<Rightarrow> nat \<Rightarrow> 'v slot_heap" where
  "lease_release heap i =
     (case fmlookup heap i of
        None \<Rightarrow> heap
      | Some slot \<Rightarrow> fmupd i (slot\<lparr>ls_leases := ls_leases slot - 1\<rparr>) heap)"

section \<open>Operations of the cache\<close>

type_synonym ('s, 'k) lease_ops = "('s, 'k, cached_value) clru_ops"

definition new_lease_cache :: "('s, 'k) lease_ops \<Rightarrow> nat \<Rightarrow> duration \<Rightarrow> ('s, 'v) lease_cache" where
  "new_lease_cache ops capacity ttl =
     \<lparr>lac_entries = clru_with_memory ops capacity capacity, lac_ttl = ttl,
      lac_heap = fmempty, lac_next = 0\<rparr>"

definition expiry_at :: "('s, 'v) lease_cache \<Rightarrow> instant \<Rightarrow> instant option" where
  "expiry_at self now = instant_checked_add now (lac_ttl self)"

definition insert_new ::
  "('s, 'k) lease_ops \<Rightarrow> ('s, 'v) lease_cache \<Rightarrow> 'k \<Rightarrow> 'v \<Rightarrow> instant \<Rightarrow> ('s, 'v) lease_cache" where
  "insert_new ops self key value expires_at =
     self\<lparr>lac_entries := fst (clru_put ops (lac_entries self) key
                              \<lparr>cv_slot = lac_next self, cv_expires_at = expires_at\<rparr>),
          lac_heap := fmupd (lac_next self) (new_slot value) (lac_heap self),
          lac_next := lac_next self + 1\<rparr>"

text \<open>\<open>None\<close> is the panic of an \<open>expect\<close>.\<close>

definition lease_insert_evicting_at ::
  "('s, 'k) lease_ops \<Rightarrow> ('s, 'v) lease_cache \<Rightarrow> 'k \<Rightarrow> 'v \<Rightarrow> instant \<Rightarrow>
   (('s, 'v) lease_cache \<times> (lease_insert_error + lease_insert_outcome)) option" where
  "lease_insert_evicting_at ops self key value now =
     (if clru_peek ops (lac_entries self) key \<noteq> None then Some (self, Inl DuplicateKey)
      else case expiry_at self now of
        None \<Rightarrow> None
      | Some expires_at \<Rightarrow>
          if \<not> clru_is_full ops (lac_entries self)
          then Some (insert_new ops self key value expires_at, Inr LeaseInserted)
          else
            (case find (\<lambda>(_, entry). \<not> has_external_lease (lac_heap self) entry)
                    (rev (clru_iter ops (lac_entries self))) of
               None \<Rightarrow> Some (self, Inl AllEntriesLeased)
             | Some (eviction_key, _) \<Rightarrow>
                 (case clru_pop ops (lac_entries self) eviction_key of
                    (_, None) \<Rightarrow> None
                  | (entries, Some evicted) \<Rightarrow>
                      let outcome = (if cv_expires_at evicted \<le> now then LeaseReclaimedExpired
                                     else EvictedLeastRecentlyUsed);
                          self = self\<lparr>lac_entries := entries,
                                      lac_heap := arc_drop (lac_heap self) (cv_slot evicted)\<rparr>
                      in Some (insert_new ops self key value expires_at, Inr outcome))))"

definition expired_and_unleased :: "'v slot_heap \<Rightarrow> instant \<Rightarrow> cached_value \<Rightarrow> bool" where
  "expired_and_unleased heap now entry \<longleftrightarrow>
     cv_expires_at entry \<le> now \<and> \<not> has_external_lease heap entry"

text \<open>Removing the entry of a key and dropping its handle.\<close>

definition pop_and_drop ::
  "('s, 'k) lease_ops \<Rightarrow> ('s, 'v) lease_cache \<Rightarrow> 'k \<Rightarrow> ('s, 'v) lease_cache" where
  "pop_and_drop ops self key =
     (case clru_pop ops (lac_entries self) key of
        (entries, None) \<Rightarrow> self\<lparr>lac_entries := entries\<rparr>
      | (entries, Some expired) \<Rightarrow>
          self\<lparr>lac_entries := entries, lac_heap := arc_drop (lac_heap self) (cv_slot expired)\<rparr>)"

text \<open>The lease that is returned is the handle of its slot.\<close>

definition acquire_at ::
  "('s, 'k) lease_ops \<Rightarrow> ('s, 'v) lease_cache \<Rightarrow> 'k \<Rightarrow> instant \<Rightarrow>
   ('s, 'v) lease_cache \<times> nat option" where
  "acquire_at ops self key now =
     (case clru_peek ops (lac_entries self) key of
        None \<Rightarrow> (self, None)
      | Some entry \<Rightarrow>
          if expired_and_unleased (lac_heap self) now entry then (pop_and_drop ops self key, None)
          else
            (case fmlookup (lac_heap self) (cv_slot entry) of
               None \<Rightarrow> (self, None)
             | Some slot \<Rightarrow>
                 (case try_acquire (arc_clone slot) of
                    (slot', True) \<Rightarrow>
                      (self\<lparr>lac_heap := fmupd (cv_slot entry) slot' (lac_heap self)\<rparr>,
                       Some (cv_slot entry))
                  | (slot', False) \<Rightarrow>
                      (self\<lparr>lac_heap := arc_drop (fmupd (cv_slot entry) slot' (lac_heap self))
                                        (cv_slot entry)\<rparr>, None))))"

definition touch_at ::
  "('s, 'k) lease_ops \<Rightarrow> ('s, 'v) lease_cache \<Rightarrow> 'k \<Rightarrow> instant \<Rightarrow>
   (('s, 'v) lease_cache \<times> bool) option" where
  "touch_at ops self key now =
     (case clru_peek ops (lac_entries self) key of
        None \<Rightarrow> Some (self, False)
      | Some entry \<Rightarrow>
          if expired_and_unleased (lac_heap self) now entry
          then Some (pop_and_drop ops self key, False)
          else
            (case expiry_at self now of
               None \<Rightarrow> None
             | Some expires_at \<Rightarrow>
                 Some (self\<lparr>lac_entries := clru_get_mut ops (lac_entries self) key
                                             (\<lambda>e. e\<lparr>cv_expires_at := expires_at\<rparr>)\<rparr>, True)))"

definition expired_unleased_keys_at ::
  "('s, 'k) lease_ops \<Rightarrow> ('s, 'v) lease_cache \<Rightarrow> instant \<Rightarrow> 'k list" where
  "expired_unleased_keys_at ops self now =
     map fst (filter (\<lambda>(_, entry). \<not> has_external_lease (lac_heap self) entry)
        (takeWhile (\<lambda>(_, entry). \<not> now < cv_expires_at entry)
           (rev (clru_iter ops (lac_entries self)))))"

text \<open>The retired slots are moved out of the cache; their handles are dropped by the caller.\<close>

fun retire_expired_candidates_at ::
  "('s, 'k) lease_ops \<Rightarrow> ('s, 'v) lease_cache \<Rightarrow> 'k list \<Rightarrow> instant \<Rightarrow>
   (('s, 'v) lease_cache \<times> nat list) option" where
  "retire_expired_candidates_at ops self [] now = Some (self, [])"
| "retire_expired_candidates_at ops self (key # keys) now =
     (if (case clru_peek ops (lac_entries self) key of
            Some entry \<Rightarrow> expired_and_unleased (lac_heap self) now entry | None \<Rightarrow> False)
      then
        (case clru_pop ops (lac_entries self) key of
           (_, None) \<Rightarrow> None
         | (entries, Some retired) \<Rightarrow>
             (case retire_expired_candidates_at ops (self\<lparr>lac_entries := entries\<rparr>) keys now of
                None \<Rightarrow> None
              | Some (self', slots) \<Rightarrow> Some (self', cv_slot retired # slots)))
      else retire_expired_candidates_at ops self keys now)"

section \<open>Maintenance\<close>

definition SECRET_CACHE_MAINTENANCE_INTERVAL :: duration where
  "SECRET_CACHE_MAINTENANCE_INTERVAL = from_secs (5 * 60)"

definition SESSION_RETIREMENT_BATCH_SIZE :: nat where
  "SESSION_RETIREMENT_BATCH_SIZE = 4096"

definition drop_retired :: "('s, 'v) lease_cache \<Rightarrow> nat list \<Rightarrow> ('s, 'v) lease_cache" where
  "drop_retired c slots = c\<lparr>lac_heap := foldl arc_drop (lac_heap c) slots\<rparr>"

text \<open>The loop over the batches: the retired slots of a batch are dropped before the next lock.\<close>

fun purge_batches ::
  "('s, 'k) lease_ops \<Rightarrow> ('s, 'v) lease_cache \<Rightarrow> 'k list list \<Rightarrow> instant \<Rightarrow> nat \<Rightarrow>
   (('s, 'v) lease_cache \<times> nat) option" where
  "purge_batches ops sessions [] now session_count = Some (sessions, session_count)"
| "purge_batches ops sessions (batch # batches) now session_count =
     (case retire_expired_candidates_at ops sessions batch now of
        None \<Rightarrow> None
      | Some (sessions, slots) \<Rightarrow>
          purge_batches ops (drop_retired sessions slots) batches now (session_count + length slots))"

definition purge_expired_secret_state ::
  "('p, 'j, 'w timed_entry) clru_ops \<Rightarrow> ('s, 'k) lease_ops \<Rightarrow> ('w \<Rightarrow> 'w) \<Rightarrow>
   'p bounded_ttl_cache \<Rightarrow> ('s, 'v) lease_cache \<Rightarrow> instant \<Rightarrow>
   ('p bounded_ttl_cache \<times> ('s, 'v) lease_cache \<times> nat \<times> nat) option" where
  "purge_expired_secret_state pops ops zeroize ephemeral_keys session_states now =
     (case retire_expired_at pops zeroize ephemeral_keys now of
        None \<Rightarrow> None
      | Some (ephemeral_keys, retired_pending) \<Rightarrow>
          (let pending_count = removed_count retired_pending;
               candidates = expired_unleased_keys_at ops session_states now
           in case purge_batches ops session_states
                     (slice_chunks SESSION_RETIREMENT_BATCH_SIZE candidates) now 0 of
                None \<Rightarrow> None
              | Some (session_states, session_count) \<Rightarrow>
                  Some (ephemeral_keys, session_states, pending_count, session_count)))"

section \<open>Leases in flight\<close>

text \<open>
  A lease that was handed out: its slot, the key and value it was acquired for, and whether its share
  of the lease counter is still held.
\<close>

record ('k, 'v) held_lease =
  hl_slot :: nat
  hl_key :: 'k
  hl_value :: 'v
  hl_counted :: bool

definition holders :: "nat \<Rightarrow> ('k, 'v) held_lease list \<Rightarrow> nat" where
  "holders i ls = length (filter (\<lambda>l. hl_slot l = i) ls)"

definition counted_holders :: "nat \<Rightarrow> ('k, 'v) held_lease list \<Rightarrow> nat" where
  "counted_holders i ls = length (filter (\<lambda>l. hl_slot l = i \<and> hl_counted l) ls)"

definition slots_of :: "('k \<times> cached_value) list \<Rightarrow> nat list" where
  "slots_of es = map (\<lambda>e. cv_slot (snd e)) es"

text \<open>
  The counters of a resident slot agree with the leases in flight, and every lease in flight is for
  a slot that is resident under its key with its value.
\<close>

definition slot_agrees :: "'v slot_heap \<Rightarrow> ('k, 'v) held_lease list \<Rightarrow> nat \<Rightarrow> bool" where
  "slot_agrees heap ls i \<longleftrightarrow>
     (\<exists>slot. fmlookup heap i = Some slot \<and> ls_strong slot = Suc (holders i ls) \<and>
        unat (ls_leases slot) = counted_holders i ls)"

definition resident ::
  "('k \<times> cached_value) list \<Rightarrow> 'v slot_heap \<Rightarrow> ('k, 'v) held_lease \<Rightarrow> bool" where
  "resident es heap l \<longleftrightarrow>
     (\<exists>entry slot. map_of es (hl_key l) = Some entry \<and> cv_slot entry = hl_slot l \<and>
        fmlookup heap (hl_slot l) = Some slot \<and> ls_value slot = hl_value l)"

definition pins_ok ::
  "('k \<times> cached_value) list \<Rightarrow> 'v slot_heap \<Rightarrow> nat \<Rightarrow> ('k, 'v) held_lease list \<Rightarrow> bool" where
  "pins_ok es heap fresh ls \<longleftrightarrow>
     distinct (map fst es) \<and> distinct (slots_of es) \<and>
     (\<forall>i \<in> set (slots_of es). i < fresh \<and> slot_agrees heap ls i) \<and>
     (\<forall>l \<in> set ls. resident es heap l)"

lemma slots_of_without_key:
  "set (slots_of (without_key k es)) \<subseteq> set (slots_of es)"
  by (auto simp: slots_of_def)

lemma distinct_slots_without_key: "distinct (slots_of es) \<Longrightarrow> distinct (slots_of (without_key k es))"
  by (simp add: slots_of_def without_key_def distinct_map_filter)

lemma map_of_slot_in: "map_of es k = Some entry \<Longrightarrow> cv_slot entry \<in> set (slots_of es)"
  by (force simp: slots_of_def dest: map_of_SomeD)

lemma slot_key_unique:
  assumes "distinct (slots_of es)" and "map_of es k = Some e" and "map_of es k' = Some e'"
    and "cv_slot e = cv_slot e'"
  shows "k = k'"
proof -
  have "(k, e) \<in> set es" and "(k', e') \<in> set es"
    using assms(2,3) by (auto dest: map_of_SomeD)
  moreover have "inj_on (\<lambda>e. cv_slot (snd e)) (set es)"
    using assms(1) by (simp add: slots_of_def distinct_map)
  ultimately have "(k, e) = (k', e')"
    using inj_onD [of "\<lambda>e. cv_slot (snd e)" "set es" "(k, e)" "(k', e')"] assms(4) by simp
  then show ?thesis by simp
qed

lemma holders_pos: "l \<in> set ls \<Longrightarrow> 0 < holders (hl_slot l) ls"
  by (auto simp: holders_def length_greater_0_conv filter_empty_conv)

text \<open>An entry without an external lease has no lease in flight.\<close>

lemma unleased_no_holder:
  assumes "pins_ok es heap fresh ls" and "map_of es k = Some entry"
    and "\<not> has_external_lease heap entry"
  shows "holders (cv_slot entry) ls = 0"
  using assms map_of_slot_in [OF assms(2)]
  by (auto simp: pins_ok_def slot_agrees_def has_external_lease_def)

text \<open>
  Only the resident slots matter: a heap that agrees on them keeps the invariant when an unleased
  entry is removed.
\<close>

lemma pins_ok_remove:
  assumes ok: "pins_ok es heap fresh ls" and k: "map_of es k = Some entry"
    and un: "\<not> has_external_lease heap entry"
    and heap': "\<And>i. i \<noteq> cv_slot entry \<Longrightarrow> fmlookup heap' i = fmlookup heap i"
  shows "pins_ok (without_key k es) heap' fresh ls"
proof -
  have slots: "i \<noteq> cv_slot entry" if mem: "i \<in> set (slots_of (without_key k es))" for i
  proof
    assume "i = cv_slot entry"
    then obtain k' e' where e': "(k', e') \<in> set es" "k' \<noteq> k" "cv_slot e' = cv_slot entry"
      using mem by (auto simp: slots_of_def)
    then have "map_of es k' = Some e'"
      using ok by (auto simp: pins_ok_def)
    from slot_key_unique [OF _ this k] e' ok show False by (simp add: pins_ok_def)
  qed
  have held: "hl_key l \<noteq> k \<and> hl_slot l \<noteq> cv_slot entry" if "l \<in> set ls" for l
  proof -
    have "hl_slot l \<noteq> cv_slot entry"
      using holders_pos [OF that] unleased_no_holder [OF ok k un] by auto
    moreover have "resident es heap l"
      using ok that by (auto simp: pins_ok_def)
    ultimately show ?thesis
      using k by (auto simp: resident_def)
  qed
  have "slot_agrees heap' ls i" if "i \<in> set (slots_of (without_key k es))" for i
    using ok slots [OF that] slots_of_without_key [of k es] that heap'
    by (auto simp: pins_ok_def slot_agrees_def)
  moreover have "resident (without_key k es) heap' l" if "l \<in> set ls" for l
    using ok that held [OF that] heap' by (auto simp: pins_ok_def resident_def)
  ultimately show ?thesis
    using ok slots_of_without_key [of k es]
    by (auto simp: pins_ok_def distinct_without_key distinct_slots_without_key)
qed

lemma pins_ok_add:
  assumes ok: "pins_ok es heap fresh ls" and k: "map_of es k = None"
  shows "pins_ok ((k, \<lparr>cv_slot = fresh, cv_expires_at = t\<rparr>) # es)
           (fmupd fresh (new_slot v) heap) (Suc fresh) ls"
proof -
  have old: "i \<noteq> fresh \<and> i < Suc fresh" if "i \<in> set (slots_of es)" for i
    using ok that by (auto simp: pins_ok_def)
  have keys: "resident es heap l \<and> hl_slot l \<noteq> fresh \<and> hl_key l \<noteq> k" if "l \<in> set ls" for l
    using ok that old map_of_slot_in [of es "hl_key l"] k by (fastforce simp: pins_ok_def resident_def)
  have "holders fresh ls = 0" and "counted_holders fresh ls = 0"
    using keys by (auto simp: holders_def counted_holders_def filter_empty_conv)
  then have "slot_agrees (fmupd fresh (new_slot v) heap) ls fresh"
    by (simp add: slot_agrees_def new_slot_def)
  moreover have "slot_agrees (fmupd fresh (new_slot v) heap) ls i" if "i \<in> set (slots_of es)" for i
    using ok that old [OF that] by (auto simp: pins_ok_def slot_agrees_def)
  moreover have "resident ((k, \<lparr>cv_slot = fresh, cv_expires_at = t\<rparr>) # es)
      (fmupd fresh (new_slot v) heap) l" if "l \<in> set ls" for l
    using keys [OF that] by (auto simp: resident_def)
  ultimately show ?thesis
    using ok old k by (auto simp: pins_ok_def slots_of_def map_of_eq_None_iff)
qed

lemma pins_ok_promote:
  assumes ok: "pins_ok es heap fresh ls" and slot: "\<And>e. cv_slot (f e) = cv_slot e"
  shows "pins_ok (promote k f es) heap fresh ls"
proof (cases "map_of es k")
  case None
  then show ?thesis using ok by (simp add: promote_def)
next
  case (Some entry)
  have "i \<noteq> cv_slot entry" if mem: "i \<in> set (slots_of (without_key k es))" for i
  proof
    assume "i = cv_slot entry"
    then obtain k' e' where e': "(k', e') \<in> set es" "k' \<noteq> k" "cv_slot e' = cv_slot entry"
      using mem by (auto simp: slots_of_def)
    then have "map_of es k' = Some e'"
      using ok by (auto simp: pins_ok_def)
    from slot_key_unique [OF _ this Some] e' ok show False by (simp add: pins_ok_def)
  qed
  then have "distinct (slots_of (promote k f es))"
    using ok Some distinct_slots_without_key [of es k] slot
    by (auto simp: pins_ok_def promote_def slots_of_def)
  moreover have "set (slots_of (promote k f es)) \<subseteq> set (slots_of es)"
    using Some slots_of_without_key [of k es] slot map_of_slot_in [OF Some]
    by (auto simp: promote_def slots_of_def)
  moreover have "resident (promote k f es) heap l" if "resident es heap l" for l
    using that Some slot by (auto simp: resident_def promote_def)
  ultimately show ?thesis
    using ok Some by (auto simp: pins_ok_def promote_def distinct_without_key)
qed

lemma pins_ok_heap:
  assumes ok: "pins_ok es heap fresh ls"
    and agrees: "\<And>i. i \<in> set (slots_of es) \<Longrightarrow> slot_agrees heap' ls' i"
    and vals: "\<And>l. l \<in> set ls' \<Longrightarrow> resident es heap' l"
  shows "pins_ok es heap' fresh ls'"
  using assms by (auto simp: pins_ok_def)

lemma resident_upd:
  assumes "resident es heap l" and "fmlookup heap i = Some slot" and "ls_value slot' = ls_value slot"
  shows "resident es (fmupd i slot' heap) l"
  using assms unfolding resident_def by (metis fmupd_lookup option.inject)

lemma pins_ok_acquire:
  assumes ok: "pins_ok es heap fresh ls" and k: "map_of es k = Some entry"
    and slot: "fmlookup heap (cv_slot entry) = Some slot" and acq: "try_acquire (arc_clone slot) = (slot', True)"
  shows "pins_ok es (fmupd (cv_slot entry) slot' heap) fresh
           (\<lparr>hl_slot = cv_slot entry, hl_key = k, hl_value = ls_value slot, hl_counted = True\<rparr> # ls)"
proof (rule pins_ok_heap [OF ok])
  have slot': "ls_strong slot' = Suc (ls_strong slot)" "ls_value slot' = ls_value slot"
    "unat (ls_leases slot') = Suc (unat (ls_leases slot))"
    using acq by (auto simp: try_acquire_def arc_clone_def u64_checked_add_def unat_word_ariths
        split: if_splits)
  fix i
  assume "i \<in> set (slots_of es)"
  then have "slot_agrees heap ls i"
    using ok by (simp add: pins_ok_def)
  then show "slot_agrees (fmupd (cv_slot entry) slot' heap)
      (\<lparr>hl_slot = cv_slot entry, hl_key = k, hl_value = ls_value slot, hl_counted = True\<rparr> # ls) i"
    using slot slot' by (auto simp: slot_agrees_def holders_def counted_holders_def)
next
  have "ls_value slot' = ls_value slot"
    using acq by (auto simp: try_acquire_def arc_clone_def split: option.splits)
  fix l
  assume l: "l \<in> set (\<lparr>hl_slot = cv_slot entry, hl_key = k, hl_value = ls_value slot,
    hl_counted = True\<rparr> # ls)"
  show "resident es (fmupd (cv_slot entry) slot' heap) l"
  proof (cases "l \<in> set ls")
    case True
    then show ?thesis
      using ok slot \<open>ls_value slot' = ls_value slot\<close> by (auto simp: pins_ok_def intro: resident_upd)
  next
    case False
    then have "l = \<lparr>hl_slot = cv_slot entry, hl_key = k, hl_value = ls_value slot, hl_counted = True\<rparr>"
      using l by simp
    then show ?thesis
      using k \<open>ls_value slot' = ls_value slot\<close> by (simp add: resident_def)
  qed
qed

lemma lease_slot_agrees:
  assumes "pins_ok es heap fresh ls" and "l \<in> set ls"
  obtains slot where "fmlookup heap (hl_slot l) = Some slot"
    and "ls_strong slot = Suc (holders (hl_slot l) ls)"
    and "unat (ls_leases slot) = counted_holders (hl_slot l) ls"
proof -
  obtain entry where "map_of es (hl_key l) = Some entry" and "cv_slot entry = hl_slot l"
    using assms by (auto simp: pins_ok_def resident_def)
  then have "hl_slot l \<in> set (slots_of es)"
    using map_of_slot_in by metis
  then show ?thesis
    using assms(1) that by (auto simp: pins_ok_def slot_agrees_def)
qed

lemma pins_ok_release:
  assumes ok: "pins_ok es heap fresh (as @ l # bs)" and l: "hl_counted l"
  shows "pins_ok es (lease_release heap (hl_slot l)) fresh (as @ l\<lparr>hl_counted := False\<rparr> # bs)"
proof -
  obtain slot where slot: "fmlookup heap (hl_slot l) = Some slot"
    "unat (ls_leases slot) = counted_holders (hl_slot l) (as @ l # bs)"
    using lease_slot_agrees [OF ok, of l] by auto
  then have "0 < unat (ls_leases slot)"
    using l by (simp add: counted_holders_def)
  then have dec: "unat (ls_leases slot - 1) = unat (ls_leases slot) - 1"
    by (simp add: unat_minus_one word_gt_0 unat_gt_0)
  show ?thesis
  proof (rule pins_ok_heap [OF ok])
    fix i
    assume "i \<in> set (slots_of es)"
    then have "slot_agrees heap (as @ l # bs) i"
      using ok by (simp add: pins_ok_def)
    then show "slot_agrees (lease_release heap (hl_slot l)) (as @ l\<lparr>hl_counted := False\<rparr> # bs) i"
      using slot dec l
      by (auto simp: slot_agrees_def lease_release_def holders_def counted_holders_def)
  next
    fix l'
    assume "l' \<in> set (as @ l\<lparr>hl_counted := False\<rparr> # bs)"
    then have "resident es heap l'"
      using ok by (auto simp: pins_ok_def resident_def)
    then show "resident es (lease_release heap (hl_slot l)) l'"
      using slot(1) resident_upd [of es heap l' "hl_slot l" slot "slot\<lparr>ls_leases := ls_leases slot - 1\<rparr>"]
      by (simp add: lease_release_def)
  qed
qed

lemma pins_ok_drop:
  assumes ok: "pins_ok es heap fresh (as @ l # bs)" and l: "\<not> hl_counted l"
  shows "pins_ok es (arc_drop heap (hl_slot l)) fresh (as @ bs)"
proof -
  obtain slot where slot: "fmlookup heap (hl_slot l) = Some slot"
    "ls_strong slot = Suc (holders (hl_slot l) (as @ l # bs))"
    using lease_slot_agrees [OF ok, of l] by auto
  then have drop: "arc_drop heap (hl_slot l) = fmupd (hl_slot l) (slot\<lparr>ls_strong := ls_strong slot - 1\<rparr>) heap"
    by (simp add: arc_drop_def holders_def)
  show ?thesis
  proof (rule pins_ok_heap [OF ok])
    fix i
    assume "i \<in> set (slots_of es)"
    then have "slot_agrees heap (as @ l # bs) i"
      using ok by (simp add: pins_ok_def)
    then show "slot_agrees (arc_drop heap (hl_slot l)) (as @ bs) i"
      using slot l unfolding drop by (auto simp: slot_agrees_def holders_def counted_holders_def)
  next
    fix l'
    assume "l' \<in> set (as @ bs)"
    then have "resident es heap l'"
      using ok by (auto simp: pins_ok_def)
    then show "resident es (arc_drop heap (hl_slot l)) l'"
      using slot(1) resident_upd [of es heap l' "hl_slot l" slot "slot\<lparr>ls_strong := ls_strong slot - 1\<rparr>"]
      by (simp add: drop)
  qed
qed

section \<open>The invariant of the cache\<close>

abbreviation lcached :: "('s, 'k) lease_ops \<Rightarrow> ('s, 'v) lease_cache \<Rightarrow> ('k \<times> cached_value) list" where
  "lcached ops c \<equiv> clru_iter ops (lac_entries c)"

text \<open>
  At clock reading \<open>t\<close>, with the leases \<open>ls\<close> in flight and the handles \<open>gone\<close> retired but not yet
  dropped.
\<close>

definition lease_inv ::
  "('s, 'k) lease_ops \<Rightarrow> instant \<Rightarrow> ('s, 'v) lease_cache \<Rightarrow> ('k, 'v) held_lease list \<Rightarrow> nat list \<Rightarrow> bool" where
  "lease_inv ops t c ls gone \<longleftrightarrow>
     pins_ok (lcached ops c) (lac_heap c) (lac_next c) ls \<and>
     entries_ok cv_expires_at (clru_capacity ops (lac_entries c)) (t + lac_ttl c) (lcached ops c) \<and>
     (\<forall>i \<in> set gone. i < lac_next c \<and> i \<notin> set (slots_of (lcached ops c)))"

lemma arc_drop_other: "i \<noteq> j \<Longrightarrow> fmlookup (arc_drop heap j) i = fmlookup heap i"
  by (auto simp: arc_drop_def split: option.splits)

lemma entries_ok_promote:
  assumes "entries_ok x cap t es" and "\<And>e. x (f e) = t"
  shows "entries_ok x cap t (promote k f es)"
proof (cases "map_of es k")
  case None
  then show ?thesis using assms by (simp add: promote_def)
next
  case (Some e)
  have "length (without_key k es) < cap"
    using length_without_key_less [OF Some] assms(1) by (simp add: entries_ok_def)
  then show ?thesis
    using Some assms by (auto simp: promote_def intro!: entries_ok_Cons entries_ok_without_key)
qed

lemma lease_inv_later: "lease_inv ops t c ls gone \<Longrightarrow> t \<le> t' \<Longrightarrow> lease_inv ops t' c ls gone"
  by (auto simp: lease_inv_def intro: entries_ok_later)

locale lease_store = clru_cache ops for ops :: "('s, 'k) lease_ops"
begin

lemma lease_inv_new: "0 < cap \<Longrightarrow> lease_inv ops 0 (new_lease_cache ops cap ttl) [] []"
  by (simp add: lease_inv_def new_lease_cache_def pins_ok_def entries_ok_def newest_first_def
      slots_of_def)

text \<open>Removing an unleased entry, with or without dropping its handle.\<close>

lemma lease_inv_remove:
  assumes inv: "lease_inv ops t c ls gone" and k: "map_of (lcached ops c) k = Some entry"
    and un: "\<not> has_external_lease (lac_heap c) entry"
    and s: "clru_iter ops s = without_key k (lcached ops c)"
      "clru_capacity ops s = clru_capacity ops (lac_entries c)"
  shows "lease_inv ops t (c\<lparr>lac_entries := s, lac_heap := arc_drop (lac_heap c) (cv_slot entry)\<rparr>) ls gone"
    and "lease_inv ops t (c\<lparr>lac_entries := s\<rparr>) ls (cv_slot entry # gone)"
proof -
  have ok: "pins_ok (lcached ops c) (lac_heap c) (lac_next c) ls"
    using inv by (simp add: lease_inv_def)
  have sub: "set (slots_of (without_key k (lcached ops c))) \<subseteq> set (slots_of (lcached ops c))"
    by (rule slots_of_without_key)
  have "cv_slot entry \<notin> set (slots_of (without_key k (lcached ops c)))"
  proof
    assume "cv_slot entry \<in> set (slots_of (without_key k (lcached ops c)))"
    then obtain k' e' where e': "(k', e') \<in> set (lcached ops c)" "k' \<noteq> k" "cv_slot e' = cv_slot entry"
      by (auto simp: slots_of_def)
    then have "map_of (lcached ops c) k' = Some e'"
      using ok by (auto simp: pins_ok_def)
    from slot_key_unique [OF _ this k] e' ok show False by (simp add: pins_ok_def)
  qed
  moreover have "cv_slot entry < lac_next c"
    using ok map_of_slot_in [OF k] by (simp add: pins_ok_def)
  ultimately show "lease_inv ops t (c\<lparr>lac_entries := s\<rparr>) ls (cv_slot entry # gone)"
    using inv s pins_ok_remove [OF ok k un, of "lac_heap c"] sub
    by (auto simp: lease_inv_def entries_ok_without_key)
  show "lease_inv ops t (c\<lparr>lac_entries := s, lac_heap := arc_drop (lac_heap c) (cv_slot entry)\<rparr>) ls gone"
    using inv s pins_ok_remove [OF ok k un, of "arc_drop (lac_heap c) (cv_slot entry)"] sub
    by (auto simp: lease_inv_def entries_ok_without_key arc_drop_other)
qed

lemma lease_inv_insert_new:
  assumes inv: "lease_inv ops t c ls gone" and k: "map_of (lcached ops c) k = None"
    and room: "length (lcached ops c) < clru_capacity ops (lac_entries c)"
  shows "lease_inv ops t (insert_new ops c k v (t + lac_ttl c)) ls gone"
proof -
  let ?e = "\<lparr>cv_slot = lac_next c, cv_expires_at = t + lac_ttl c\<rparr>"
  have put: "lcached ops (insert_new ops c k v (t + lac_ttl c)) = (k, ?e) # lcached ops c"
    by (simp add: insert_new_def lru_put_absent [OF k room])
  have "pins_ok ((k, ?e) # lcached ops c) (fmupd (lac_next c) (new_slot v) (lac_heap c))
      (Suc (lac_next c)) ls"
    using inv k by (intro pins_ok_add) (auto simp: lease_inv_def)
  moreover have "entries_ok cv_expires_at (clru_capacity ops (lac_entries c)) (t + lac_ttl c)
      ((k, ?e) # lcached ops c)"
    using inv k room by (intro entries_ok_Cons) (auto simp: lease_inv_def)
  ultimately show ?thesis
    using inv put by (auto simp: lease_inv_def insert_new_def slots_of_def)
qed

lemma lease_inv_pop_and_drop:
  assumes "lease_inv ops t c ls gone" and "map_of (lcached ops c) k = Some entry"
    and "\<not> has_external_lease (lac_heap c) entry"
  shows "lease_inv ops t (pop_and_drop ops c k) ls gone"
proof -
  obtain s where pop: "clru_pop ops (lac_entries c) k = (s, Some entry)"
    using pop_result [of "lac_entries c" k] assms(2) by (cases "clru_pop ops (lac_entries c) k") simp
  then show ?thesis
    using lease_inv_remove(1) [OF assms, of s] pop_iter [of "lac_entries c" k]
      pop_capacity [of "lac_entries c" k]
    by (simp add: pop_and_drop_def)
qed

lemma lease_inv_insert:
  assumes inv: "lease_inv ops t c ls gone"
    and ins: "lease_insert_evicting_at ops c k v t = Some (c', r)"
  shows "lease_inv ops t c' ls gone"
proof (cases "map_of (lcached ops c) k = None \<and> t + lac_ttl c < instant_bound")
  case False
  then show ?thesis
    using ins inv
    by (auto simp: lease_insert_evicting_at_def expiry_at_def instant_checked_add_def
        split: if_splits)
next
  case True
  then have k: "map_of (lcached ops c) k = None"
    and ex: "expiry_at c t = Some (t + lac_ttl c)"
    by (simp_all add: expiry_at_def instant_checked_add_def)
  show ?thesis
  proof (cases "clru_is_full ops (lac_entries c)")
    case False
    then show ?thesis
      using ins lease_inv_insert_new [OF inv k] k ex
      by (auto simp: lease_insert_evicting_at_def)
  next
    case full: True
    let ?P = "\<lambda>(_, entry). \<not> has_external_lease (lac_heap c) entry"
    show ?thesis
    proof (cases "find ?P (rev (lcached ops c))")
      case None
      then show ?thesis
        using ins inv k ex full by (auto simp: lease_insert_evicting_at_def)
    next
      case (Some p)
      then obtain ek entry where p: "p = (ek, entry)" "(ek, entry) \<in> set (lcached ops c)"
        and un: "\<not> has_external_lease (lac_heap c) entry"
        by (cases p) (auto dest!: find_Some_set)
      then have me: "map_of (lcached ops c) ek = Some entry"
        using inv by (auto simp: lease_inv_def pins_ok_def)
      obtain s where pop: "clru_pop ops (lac_entries c) ek = (s, Some entry)"
        and s: "clru_iter ops s = without_key ek (lcached ops c)"
          "clru_capacity ops s = clru_capacity ops (lac_entries c)"
        using pop_result [of "lac_entries c" ek] pop_iter [of "lac_entries c" ek]
          pop_capacity [of "lac_entries c" ek] me
        by (cases "clru_pop ops (lac_entries c) ek") simp
      let ?c = "c\<lparr>lac_entries := s, lac_heap := arc_drop (lac_heap c) (cv_slot entry)\<rparr>"
      have "lease_inv ops t (insert_new ops ?c k v (t + lac_ttl ?c)) ls gone"
      proof (rule lease_inv_insert_new [OF lease_inv_remove(1) [OF inv me un s]])
        show "map_of (lcached ops ?c) k = None" using k s by simp
        show "length (lcached ops ?c) < clru_capacity ops (lac_entries ?c)"
          using s length_without_key_less [OF me] inv by (simp add: lease_inv_def entries_ok_def)
      qed
      then show ?thesis
        using ins k ex full Some p pop by (auto simp: lease_insert_evicting_at_def Let_def)
    qed
  qed
qed

lemma lease_inv_acquire_none:
  assumes inv: "lease_inv ops t c ls gone" and acq: "acquire_at ops c k now = (c', None)"
  shows "lease_inv ops t c' ls gone"
proof -
  have heap: "lease_inv ops t (c\<lparr>lac_heap := arc_drop (fmupd i (arc_clone slot) (lac_heap c)) i\<rparr>) ls gone"
    if "fmlookup (lac_heap c) i = Some slot" "map_of (lcached ops c) k = Some entry" "cv_slot entry = i"
    for i slot entry
  proof -
    have "ls_strong slot \<noteq> 0"
      using inv that map_of_slot_in [OF that(2)] by (auto simp: lease_inv_def pins_ok_def slot_agrees_def)
    then have "fmlookup (arc_drop (fmupd i (arc_clone slot) (lac_heap c)) i) j = fmlookup (lac_heap c) j" for j
      using that(1) by (cases slot) (auto simp: arc_drop_def arc_clone_def)
    then have "arc_drop (fmupd i (arc_clone slot) (lac_heap c)) i = lac_heap c"
      by (intro fmap_ext) simp
    then show ?thesis using inv by simp
  qed
  show ?thesis
    using acq inv heap lease_inv_pop_and_drop [OF inv]
    by (auto simp: acquire_at_def expired_and_unleased_def try_acquire_def
        split: option.splits if_splits)
qed

lemma lease_inv_acquire:
  assumes inv: "lease_inv ops t c ls gone" and acq: "acquire_at ops c k now = (c', Some i)"
    and look: "fmlookup (lac_heap c') i = Some s"
  shows "lease_inv ops t c'
           (\<lparr>hl_slot = i, hl_key = k, hl_value = ls_value s, hl_counted = True\<rparr> # ls) gone"
proof -
  from acq obtain entry slot slot' where e: "map_of (lcached ops c) k = Some entry" "i = cv_slot entry"
    "fmlookup (lac_heap c) (cv_slot entry) = Some slot" "try_acquire (arc_clone slot) = (slot', True)"
    "c' = c\<lparr>lac_heap := fmupd (cv_slot entry) slot' (lac_heap c)\<rparr>"
    by (auto simp: acquire_at_def split: option.splits if_splits prod.splits bool.splits)
  have "ls_value slot' = ls_value slot"
    using e(4) by (auto simp: try_acquire_def arc_clone_def split: option.splits)
  then show ?thesis
    using look e inv pins_ok_acquire [OF _ e(1,3,4)] by (simp add: lease_inv_def)
qed

lemma lease_inv_touch:
  assumes inv: "lease_inv ops t c ls gone" and touch: "touch_at ops c k t = Some (c', b)"
  shows "lease_inv ops t c' ls gone"
proof -
  have "lease_inv ops t (c\<lparr>lac_entries := clru_get_mut ops (lac_entries c) k
      (\<lambda>e. e\<lparr>cv_expires_at := t + lac_ttl c\<rparr>)\<rparr>) ls gone"
  proof -
    let ?f = "\<lambda>e. e\<lparr>cv_expires_at := t + lac_ttl c\<rparr>"
    have "set (slots_of (promote k ?f (lcached ops c))) \<subseteq> set (slots_of (lcached ops c))"
      using slots_of_without_key [of k "lcached ops c"] map_of_slot_in [of "lcached ops c" k]
      by (auto simp: promote_def slots_of_def split: option.splits)
    then show ?thesis
      using inv pins_ok_promote [of "lcached ops c" "lac_heap c" "lac_next c" ls ?f k]
        entries_ok_promote [of cv_expires_at _ "t + lac_ttl c" "lcached ops c" ?f k]
      by (auto simp: lease_inv_def)
  qed
  then show ?thesis
    using touch inv lease_inv_pop_and_drop [OF inv]
    by (auto simp: touch_at_def expired_and_unleased_def expiry_at_def instant_checked_add_def
        split: option.splits if_splits)
qed

lemma lease_inv_retire:
  assumes "lease_inv ops t c ls gone" and "retire_expired_candidates_at ops c keys now = Some (c', slots)"
  shows "lease_inv ops t c' ls (rev slots @ gone)"
  using assms
proof (induction keys arbitrary: c gone slots)
  case Nil
  then show ?case by simp
next
  case (Cons k keys)
  show ?case
  proof (cases "\<exists>entry. map_of (lcached ops c) k = Some entry \<and> expired_and_unleased (lac_heap c) now entry")
    case False
    then show ?thesis
      using Cons by (auto split: option.splits if_splits)
  next
    case True
    then obtain entry where e: "map_of (lcached ops c) k = Some entry"
      "expired_and_unleased (lac_heap c) now entry" by blast
    obtain s where pop: "clru_pop ops (lac_entries c) k = (s, Some entry)"
      and s: "clru_iter ops s = without_key k (lcached ops c)"
        "clru_capacity ops s = clru_capacity ops (lac_entries c)"
      using pop_result [of "lac_entries c" k] pop_iter [of "lac_entries c" k]
        pop_capacity [of "lac_entries c" k] e(1)
      by (cases "clru_pop ops (lac_entries c) k") simp
    obtain slots' where "slots = cv_slot entry # slots'"
      "retire_expired_candidates_at ops (c\<lparr>lac_entries := s\<rparr>) keys now = Some (c', slots')"
      using Cons.prems(2) e pop by (auto split: option.splits)
    then show ?thesis
      using Cons.IH [OF lease_inv_remove(2) [OF Cons.prems(1) e(1) _ s]] e(2)
      by (simp add: expired_and_unleased_def)
  qed
qed

end

section \<open>Interleaved runs\<close>

record ('s, 'k, 'v) lease_world =
  lw_cache :: "('s, 'v) lease_cache"
  lw_held :: "('k, 'v) held_lease list"
  lw_retired :: "nat list"

text \<open>
  The states a cache can reach, with the clock. The operations of the cache run under its lock; the two
  halves of dropping a lease and the destruction of retired handles run without it, in any order.
  Maintenance works with a clock reading taken earlier.
\<close>

inductive lease_reach ::
  "('s, 'k) lease_ops \<Rightarrow> nat \<Rightarrow> duration \<Rightarrow> instant \<Rightarrow> ('s, 'k, 'v) lease_world \<Rightarrow> bool"
  for ops cap ttl where
  reach_new: "0 < cap \<Longrightarrow> lease_reach ops cap ttl 0
     \<lparr>lw_cache = new_lease_cache ops cap ttl, lw_held = [], lw_retired = []\<rparr>"
| reach_tick: "lease_reach ops cap ttl t w \<Longrightarrow> t \<le> t' \<Longrightarrow> lease_reach ops cap ttl t' w"
| reach_insert: "lease_reach ops cap ttl t w \<Longrightarrow>
     lease_insert_evicting_at ops (lw_cache w) k v t = Some (c', r) \<Longrightarrow>
     lease_reach ops cap ttl t (w\<lparr>lw_cache := c'\<rparr>)"
| reach_acquire: "lease_reach ops cap ttl t w \<Longrightarrow> acquire_at ops (lw_cache w) k t = (c', Some i) \<Longrightarrow>
     fmlookup (lac_heap c') i = Some slot \<Longrightarrow>
     lease_reach ops cap ttl t
       (w\<lparr>lw_cache := c',
          lw_held := \<lparr>hl_slot = i, hl_key = k, hl_value = ls_value slot, hl_counted = True\<rparr> # lw_held w\<rparr>)"
| reach_acquire_none: "lease_reach ops cap ttl t w \<Longrightarrow> acquire_at ops (lw_cache w) k t = (c', None) \<Longrightarrow>
     lease_reach ops cap ttl t (w\<lparr>lw_cache := c'\<rparr>)"
| reach_touch: "lease_reach ops cap ttl t w \<Longrightarrow> touch_at ops (lw_cache w) k t = Some (c', b) \<Longrightarrow>
     lease_reach ops cap ttl t (w\<lparr>lw_cache := c'\<rparr>)"
| reach_retire: "lease_reach ops cap ttl t w \<Longrightarrow> now \<le> t \<Longrightarrow>
     retire_expired_candidates_at ops (lw_cache w) keys now = Some (c', slots) \<Longrightarrow>
     lease_reach ops cap ttl t (w\<lparr>lw_cache := c', lw_retired := rev slots @ lw_retired w\<rparr>)"
| reach_drop_retired: "lease_reach ops cap ttl t w \<Longrightarrow> lw_retired w = i # rest \<Longrightarrow>
     lease_reach ops cap ttl t
       (w\<lparr>lw_cache := (lw_cache w)\<lparr>lac_heap := arc_drop (lac_heap (lw_cache w)) i\<rparr>, lw_retired := rest\<rparr>)"
| reach_release: "lease_reach ops cap ttl t w \<Longrightarrow> lw_held w = as @ l # bs \<Longrightarrow> hl_counted l \<Longrightarrow>
     lease_reach ops cap ttl t
       (w\<lparr>lw_cache := (lw_cache w)\<lparr>lac_heap := lease_release (lac_heap (lw_cache w)) (hl_slot l)\<rparr>,
          lw_held := as @ l\<lparr>hl_counted := False\<rparr> # bs\<rparr>)"
| reach_drop: "lease_reach ops cap ttl t w \<Longrightarrow> lw_held w = as @ l # bs \<Longrightarrow> \<not> hl_counted l \<Longrightarrow>
     lease_reach ops cap ttl t
       (w\<lparr>lw_cache := (lw_cache w)\<lparr>lac_heap := arc_drop (lac_heap (lw_cache w)) (hl_slot l)\<rparr>,
          lw_held := as @ bs\<rparr>)"

lemma lease_inv_drop_retired:
  assumes "lease_inv ops t c ls (i # gone)"
  shows "lease_inv ops t (c\<lparr>lac_heap := arc_drop (lac_heap c) i\<rparr>) ls gone"
proof -
  have ni: "i \<notin> set (slots_of (lcached ops c))"
    and ok: "pins_ok (lcached ops c) (lac_heap c) (lac_next c) ls"
    using assms by (auto simp: lease_inv_def)
  have "pins_ok (lcached ops c) (arc_drop (lac_heap c) i) (lac_next c) ls"
  proof (rule pins_ok_heap [OF ok])
    fix j
    assume j: "j \<in> set (slots_of (lcached ops c))"
    with ni have "j \<noteq> i" by auto
    then show "slot_agrees (arc_drop (lac_heap c) i) ls j"
      using ok j by (simp add: pins_ok_def slot_agrees_def arc_drop_other)
  next
    fix l
    assume "l \<in> set ls"
    then have res: "resident (lcached ops c) (lac_heap c) l"
      using ok by (simp add: pins_ok_def)
    then have "hl_slot l \<in> set (slots_of (lcached ops c))"
      using map_of_slot_in by (metis resident_def)
    with ni have "hl_slot l \<noteq> i" by auto
    then show "resident (lcached ops c) (arc_drop (lac_heap c) i) l"
      using res by (simp add: resident_def arc_drop_other)
  qed
  then show ?thesis using assms by (simp add: lease_inv_def)
qed

context lease_store
begin

lemma reachable_lease_inv:
  "lease_reach ops cap ttl t w \<Longrightarrow> lease_inv ops t (lw_cache w) (lw_held w) (lw_retired w)"
proof (induction rule: lease_reach.induct)
  case reach_new
  then show ?case by (simp add: lease_inv_new)
next
  case (reach_tick t w t')
  then show ?case by (auto intro: lease_inv_later)
next
  case (reach_insert t w k v c' r)
  then show ?case by (auto intro: lease_inv_insert)
next
  case (reach_acquire t w k c' i slot)
  then show ?case
    using lease_inv_acquire [OF reach_acquire.IH reach_acquire.hyps(2,3)] by simp
next
  case (reach_acquire_none t w k c')
  then show ?case by (auto intro: lease_inv_acquire_none)
next
  case (reach_touch t w k c' b)
  then show ?case by (auto intro: lease_inv_touch)
next
  case (reach_retire t w now keys c' slots)
  then show ?case by (auto intro: lease_inv_retire)
next
  case (reach_drop_retired t w i rest)
  then show ?case by (auto intro: lease_inv_drop_retired)
next
  case (reach_release t w as l bs)
  then show ?case
    using pins_ok_release [of _ _ _ as l bs] by (simp add: lease_inv_def)
next
  case (reach_drop t w as l bs)
  then show ?case
    using pins_ok_drop [of _ _ _ as l bs] by (simp add: lease_inv_def)
qed

end

interpretation list_lease: lease_store list_clru
  by unfold_locales

text \<open>
  C8: a lease pins its value. In every reachable state, under every interleaving of requests,
  maintenance and lease drops, the value of a lease in flight is still resident in the cache under its
  key, unchanged and not freed; expiry, eviction and replacement never take it away.
\<close>

theorem leased_value_stays_resident:
  assumes "clru_cache ops" and "lease_reach ops cap ttl t w" and "l \<in> set (lw_held w)"
  shows "resident (lcached ops (lw_cache w)) (lac_heap (lw_cache w)) l"
proof -
  from assms(1) have "lease_store ops" by (simp add: lease_store_def)
  from lease_store.reachable_lease_inv [OF this assms(2)] assms(3) show ?thesis
    by (simp add: lease_inv_def pins_ok_def)
qed

lemmas lease_eval =
  lease_insert_evicting_at_def insert_new_def expiry_at_def instant_checked_add_def new_slot_def
  new_lease_cache_def list_clru_def lru_put_def instant_bound_def nanos_per_sec_def acquire_at_def
  expired_and_unleased_def has_external_lease_def is_leased_def try_acquire_def arc_clone_def
  u64_checked_add_def

theorem leased_value_stays_resident_witness:
  "\<exists>w :: (nat \<times> (nat \<times> cached_value) list, nat, nat) lease_world.
     lease_reach list_clru 1 5 9 w \<and> map hl_value (lw_held w) = [10] \<and>
     (\<forall>l \<in> set (lw_held w). resident (lcached list_clru (lw_cache w)) (lac_heap (lw_cache w)) l)"
proof -
  let ?c0 = "new_lease_cache list_clru 1 5 :: (nat \<times> (nat \<times> cached_value) list, nat) lease_cache"
  let ?w0 = "\<lparr>lw_cache = ?c0, lw_held = [], lw_retired = []\<rparr>
      :: (nat \<times> (nat \<times> cached_value) list, nat, nat) lease_world"
  obtain c1 where c1: "lease_insert_evicting_at list_clru ?c0 1 10 0 = Some (c1, Inr LeaseInserted)"
    and l1: "lac_entries c1 = (1, [(1, \<lparr>cv_slot = 0, cv_expires_at = 5\<rparr>)])"
      "lac_heap c1 = fmupd 0 (new_slot 10) fmempty"
    by (simp add: lease_eval)
  obtain c2 slot where c2: "acquire_at list_clru c1 1 0 = (c2, Some 0)"
    and slot: "fmlookup (lac_heap c2) 0 = Some slot" "ls_value slot = 10"
    using l1 by (simp add: lease_eval)
  have "lease_reach list_clru 1 5 0 ?w0"
    by (rule reach_new) simp
  from reach_insert [OF this, of 1 10 c1] c1
  have "lease_reach list_clru 1 5 0 (?w0\<lparr>lw_cache := c1\<rparr>)" by simp
  from reach_acquire [OF this, of 1 c2 0 slot] c2 slot
  have "lease_reach list_clru 1 5 0
      \<lparr>lw_cache = c2, lw_held = [\<lparr>hl_slot = 0, hl_key = 1, hl_value = 10, hl_counted = True\<rparr>],
       lw_retired = []\<rparr>" by simp
  from reach_tick [OF this, of 9] have
    "lease_reach list_clru 1 5 9
      \<lparr>lw_cache = c2, lw_held = [\<lparr>hl_slot = 0, hl_key = 1, hl_value = 10, hl_counted = True\<rparr>],
       lw_retired = []\<rparr>" by simp
  then show ?thesis
    using leased_value_stays_resident [OF list_clru.clru_cache_axioms] by fastforce
qed

section \<open>Insertion into a full cache\<close>

text \<open>Scanning from the oldest end finds the entry with the earliest deadline.\<close>

lemma find_rev_oldest:
  assumes "newest_first x es" and "find P (rev es) = Some e" and "e' \<in> set es" and "P e'"
  shows "expiry_by x e \<le> expiry_by x e'"
  using assms
proof (induction es rule: rev_induct)
  case (snoc y es)
  then show ?case
    by (auto simp: newest_first_def sorted_wrt_append split: if_splits)
qed simp

context lease_store
begin

lemma full_insert:
  assumes inv: "lease_inv ops t c ls gone" and k: "map_of (lcached ops c) k = None"
    and b: "t + lac_ttl c < instant_bound" and full: "clru_is_full ops (lac_entries c)"
    and find: "find (\<lambda>(_, e). \<not> has_external_lease (lac_heap c) e) (rev (lcached ops c)) = Some (ek, entry)"
  shows "\<exists>c'. lease_insert_evicting_at ops c k v t =
      Some (c', Inr (if cv_expires_at entry \<le> t then LeaseReclaimedExpired else EvictedLeastRecentlyUsed))
      \<and> lcached ops c' =
          (k, \<lparr>cv_slot = lac_next c, cv_expires_at = t + lac_ttl c\<rparr>) # without_key ek (lcached ops c)"
proof -
  have "(ek, entry) \<in> set (lcached ops c)"
    using find_Some_set [OF find] by simp
  then have me: "map_of (lcached ops c) ek = Some entry"
    using inv by (auto simp: lease_inv_def pins_ok_def)
  obtain s where pop: "clru_pop ops (lac_entries c) ek = (s, Some entry)"
    and s: "clru_iter ops s = without_key ek (lcached ops c)"
      "clru_capacity ops s = clru_capacity ops (lac_entries c)"
    using pop_result [of "lac_entries c" ek] pop_iter [of "lac_entries c" ek]
      pop_capacity [of "lac_entries c" ek] me
    by (cases "clru_pop ops (lac_entries c) ek") simp
  have "length (without_key ek (lcached ops c)) < clru_capacity ops (lac_entries c)"
    using length_without_key_less [OF me] inv by (simp add: lease_inv_def entries_ok_def)
  then have "lru_put (clru_capacity ops (lac_entries c)) k e (without_key ek (lcached ops c))
      = (k, e) # without_key ek (lcached ops c)" for e
    using k by (intro lru_put_absent) auto
  then show ?thesis
    using find full k b pop s
    by (auto simp: lease_insert_evicting_at_def expiry_at_def instant_checked_add_def insert_new_def Let_def)
qed

end

text \<open>
  C38: a full cache refuses a new session only when every resident session is leased; otherwise it
  evicts an unleased session whose deadline is earliest among the unleased ones, and the new session
  is resident at the fresh end of the recency order with the full lifetime.
\<close>

theorem full_cache_insert:
  assumes "clru_cache ops" and "lease_inv ops t c ls gone" and "map_of (lcached ops c) k = None"
    and "t + lac_ttl c < instant_bound" and "clru_is_full ops (lac_entries c)"
  shows "(if \<forall>e \<in> set (lcached ops c). has_external_lease (lac_heap c) (snd e)
          then lease_insert_evicting_at ops c k v t = Some (c, Inl AllEntriesLeased)
          else \<exists>c' ek entry. lease_insert_evicting_at ops c k v t = Some (c', Inr
              (if cv_expires_at entry \<le> t then LeaseReclaimedExpired else EvictedLeastRecentlyUsed)) \<and>
            map_of (lcached ops c) ek = Some entry \<and>
            \<not> has_external_lease (lac_heap c) entry \<and>
            (\<forall>e \<in> set (lcached ops c). \<not> has_external_lease (lac_heap c) (snd e) \<longrightarrow>
               cv_expires_at entry \<le> cv_expires_at (snd e)) \<and>
            lcached ops c' = (k, \<lparr>cv_slot = lac_next c, cv_expires_at = t + lac_ttl c\<rparr>)
              # without_key ek (lcached ops c))"
proof -
  let ?P = "\<lambda>(_ :: 'b, e). \<not> has_external_lease (lac_heap c) e"
  from assms(1) have st: "lease_store ops" by (simp add: lease_store_def)
  show ?thesis
  proof (cases "find ?P (rev (lcached ops c))")
    case None
    then have "\<forall>e \<in> set (lcached ops c). has_external_lease (lac_heap c) (snd e)"
      by (fastforce simp: find_None_iff)
    then show ?thesis
      using None assms clru_cache.peek_iter [OF assms(1)]
      by (simp add: lease_insert_evicting_at_def expiry_at_def instant_checked_add_def)
  next
    case (Some p)
    then obtain ek entry where p: "p = (ek, entry)" "(ek, entry) \<in> set (lcached ops c)"
      and un: "\<not> has_external_lease (lac_heap c) entry"
      by (cases p) (auto dest!: find_Some_set)
    then have "map_of (lcached ops c) ek = Some entry"
      using assms(2) by (auto simp: lease_inv_def pins_ok_def)
    moreover have "cv_expires_at entry \<le> cv_expires_at (snd e)"
      if "e \<in> set (lcached ops c)" "\<not> has_external_lease (lac_heap c) (snd e)" for e
      using find_rev_oldest [of cv_expires_at "lcached ops c" ?P p e] Some that p assms(2)
      by (cases e) (auto simp: lease_inv_def entries_ok_def expiry_by_def)
    moreover have nall: "\<not> (\<forall>e \<in> set (lcached ops c). has_external_lease (lac_heap c) (snd e))"
      using un p(2) by force
    ultimately show ?thesis
      using lease_store.full_insert [OF st assms(2-5) Some [unfolded p(1)], of v] un
      unfolding if_not_P [OF nall] by blast
  qed
qed

theorem full_cache_insert_witness:
  "lease_insert_evicting_at list_clru
     \<lparr>lac_entries = (1, [(1 :: nat, \<lparr>cv_slot = 0, cv_expires_at = 5\<rparr>)]), lac_ttl = 5,
      lac_heap = fmupd 0 \<lparr>ls_value = 10 :: nat, ls_leases = 1, ls_strong = 2\<rparr> fmempty, lac_next = 1\<rparr> 2 20 3
   = Some (\<lparr>lac_entries = (1, [(1, \<lparr>cv_slot = 0, cv_expires_at = 5\<rparr>)]), lac_ttl = 5,
      lac_heap = fmupd 0 \<lparr>ls_value = 10, ls_leases = 1, ls_strong = 2\<rparr> fmempty, lac_next = 1\<rparr>,
      Inl AllEntriesLeased)"
proof -
  let ?c = "\<lparr>lac_entries = (1, [(1 :: nat, \<lparr>cv_slot = 0, cv_expires_at = 5\<rparr>)]), lac_ttl = 5,
      lac_heap = fmupd 0 \<lparr>ls_value = 10 :: nat, ls_leases = 1, ls_strong = 2\<rparr> fmempty, lac_next = 1\<rparr>"
  let ?l = "\<lparr>hl_slot = 0, hl_key = 1 :: nat, hl_value = 10 :: nat, hl_counted = True\<rparr>"
  have "lease_inv list_clru 3 ?c [?l] []"
    by (simp add: lease_inv_def pins_ok_def entries_ok_def newest_first_def slots_of_def
        slot_agrees_def resident_def holders_def counted_holders_def list_clru_def expiry_by_def)
  from full_cache_insert [OF list_clru.clru_cache_axioms this, of 2 20] show ?thesis
    by (simp add: list_clru_def has_external_lease_def is_leased_def instant_bound_def
        nanos_per_sec_def)
qed

section \<open>The maintenance pass\<close>


definition purgeable :: "'v slot_heap \<Rightarrow> instant \<Rightarrow> 'k list \<Rightarrow> 'k \<times> cached_value \<Rightarrow> bool" where
  "purgeable heap now keys e \<longleftrightarrow> fst e \<in> set keys \<and> expired_and_unleased heap now (snd e)"

lemma without_key_filter:
  assumes "distinct (map fst es)" and "map_of es k = Some entry" and "P entry"
  shows "without_key k es = filter (\<lambda>e. \<not> (fst e = k \<and> P (snd e))) es"
  unfolding without_key_def
proof (rule filter_cong [OF refl])
  fix e
  assume "e \<in> set es"
  then have "map_of es (fst e) = Some (snd e)"
    using map_of_is_SomeI [OF assms(1), of "fst e" "snd e"] by simp
  then have "fst e = k \<Longrightarrow> snd e = entry"
    using assms(2) by simp
  then show "fst e \<noteq> k \<longleftrightarrow> \<not> (fst e = k \<and> P (snd e))"
    using assms(3) by auto
qed

lemma filter_keep_all:
  assumes "\<And>e. e \<in> set es \<Longrightarrow> fst e = k \<Longrightarrow> \<not> P (snd e)"
  shows "filter (\<lambda>e. \<not> (fst e = k \<and> P (snd e))) es = es"
  using assms by (auto simp: filter_id_conv)

lemma has_external_lease_drop_retired:
  "cv_slot e \<notin> set slots \<Longrightarrow>
   has_external_lease (foldl arc_drop heap slots) e = has_external_lease heap e"
proof (induction slots arbitrary: heap)
  case (Cons i slots)
  then have "has_external_lease (arc_drop heap i) e = has_external_lease heap e"
    by (simp add: has_external_lease_def arc_drop_other)
  then show ?case using Cons by simp
qed simp

lemma lease_inv_drop_all:
  "set slots \<subseteq> set gone \<Longrightarrow> lease_inv ops t c ls gone \<Longrightarrow> lease_inv ops t (drop_retired c slots) ls gone"
proof (induction slots arbitrary: c)
  case Nil
  then show ?case by (simp add: drop_retired_def)
next
  case (Cons i slots)
  have "lease_inv ops t c ls (i # gone)"
    using Cons.prems by (auto simp: lease_inv_def)
  from lease_inv_drop_retired [OF this] have
    "lease_inv ops t (c\<lparr>lac_heap := arc_drop (lac_heap c) i\<rparr>) ls gone" .
  from Cons.IH [OF _ this] Cons.prems show ?case
    by (simp add: drop_retired_def)
qed

context lease_store
begin

lemma retire_list:
  assumes "distinct (map fst (lcached ops c))"
  shows "\<exists>c' slots. retire_expired_candidates_at ops c keys now = Some (c', slots) \<and>
      lac_heap c' = lac_heap c \<and>
      lcached ops c' = filter (\<lambda>e. \<not> purgeable (lac_heap c) now keys e) (lcached ops c) \<and>
      length slots + length (lcached ops c') = length (lcached ops c)"
  using assms
proof (induction keys arbitrary: c)
  case Nil
  then show ?case by (simp add: purgeable_def)
next
  case (Cons k keys)
  let ?es = "lcached ops c"
  let ?P = "expired_and_unleased (lac_heap c) now"
  have comb: "filter (\<lambda>e. \<not> purgeable (lac_heap c) now keys e) (filter (\<lambda>e. \<not> (fst e = k \<and> ?P (snd e))) ?es)
      = filter (\<lambda>e. \<not> purgeable (lac_heap c) now (k # keys) e) ?es"
    by (auto simp: purgeable_def intro!: filter_cong)
  show ?case
  proof (cases "\<exists>entry. map_of ?es k = Some entry \<and> ?P entry")
    case False
    then have "filter (\<lambda>e. \<not> (fst e = k \<and> ?P (snd e))) ?es = ?es"
      using Cons.prems by (intro filter_keep_all) (auto dest: map_of_is_SomeI)
    then show ?thesis
      using Cons.IH [OF Cons.prems] False comb by (auto split: option.splits)
  next
    case True
    then obtain entry where e: "map_of ?es k = Some entry" "?P entry" by blast
    obtain s where pop: "clru_pop ops (lac_entries c) k = (s, Some entry)"
      and s: "clru_iter ops s = without_key k ?es"
      using pop_result [of "lac_entries c" k] pop_iter [of "lac_entries c" k] e(1)
      by (cases "clru_pop ops (lac_entries c) k") simp
    have len: "Suc (length (without_key k ?es)) = length ?es"
      by (rule length_without_key [OF Cons.prems e(1)])
    let ?c = "c\<lparr>lac_entries := s\<rparr>"
    have "distinct (map fst (lcached ops ?c))"
      using Cons.prems s by (simp add: distinct_without_key)
    from Cons.IH [OF this] obtain c' slots where
      run: "retire_expired_candidates_at ops ?c keys now = Some (c', slots)"
      and heap: "lac_heap c' = lac_heap c"
      and es: "lcached ops c' = filter (\<lambda>e. \<not> purgeable (lac_heap c) now keys e) (without_key k ?es)"
      and ln: "length slots + length (lcached ops c') = length (without_key k ?es)"
      using s by auto
    have "retire_expired_candidates_at ops c (k # keys) now = Some (c', cv_slot entry # slots)"
      using e pop run by simp
    moreover have "lcached ops c' = filter (\<lambda>e. \<not> purgeable (lac_heap c) now (k # keys) e) ?es"
      unfolding es without_key_filter [of ?es k entry ?P, OF Cons.prems e] by (rule comb)
    ultimately show ?thesis
      using heap ln len by simp
  qed
qed

lemma purge_batches_list:
  assumes "lease_inv ops t c ls gone"
  shows "\<exists>c' n. purge_batches ops c batches now m = Some (c', m + n) \<and>
      lcached ops c' = filter (\<lambda>e. \<not> purgeable (lac_heap c) now (concat batches) e) (lcached ops c) \<and>
      n + length (lcached ops c') = length (lcached ops c) \<and>
      (\<exists>gone'. lease_inv ops t c' ls gone')"
  using assms
proof (induction batches arbitrary: c gone m)
  case Nil
  then show ?case by (auto simp: purgeable_def)
next
  case (Cons b bs)
  have "distinct (map fst (lcached ops c))"
    using Cons.prems by (simp add: lease_inv_def pins_ok_def)
  from retire_list [OF this, of b now] obtain c1 slots where
    run: "retire_expired_candidates_at ops c b now = Some (c1, slots)"
    and heap: "lac_heap c1 = lac_heap c"
    and es: "lcached ops c1 = filter (\<lambda>e. \<not> purgeable (lac_heap c) now b e) (lcached ops c)"
    and len: "length slots + length (lcached ops c1) = length (lcached ops c)"
    by blast
  have inv1: "lease_inv ops t c1 ls (rev slots @ gone)"
    by (rule lease_inv_retire [OF Cons.prems run])
  let ?c = "drop_retired c1 slots"
  have inv2: "lease_inv ops t ?c ls (rev slots @ gone)"
    using inv1 by (intro lease_inv_drop_all) auto
  have same: "purgeable (lac_heap ?c) now (concat bs) e = purgeable (lac_heap c) now (concat bs) e"
    if "e \<in> set (lcached ops c1)" for e
  proof -
    have "cv_slot (snd e) \<notin> set slots"
      using inv1 that by (auto simp: lease_inv_def slots_of_def)
    then show ?thesis
      by (simp add: purgeable_def expired_and_unleased_def has_external_lease_drop_retired
          drop_retired_def heap)
  qed
  from Cons.IH [OF inv2, of "m + length slots"] obtain c' n where
    ih: "purge_batches ops ?c bs now (m + length slots) = Some (c', m + length slots + n)"
      "lcached ops c' = filter (\<lambda>e. \<not> purgeable (lac_heap ?c) now (concat bs) e) (lcached ops ?c)"
      "n + length (lcached ops c') = length (lcached ops ?c)"
      "\<exists>gone'. lease_inv ops t c' ls gone'"
    by blast
  have cached: "lcached ops ?c = lcached ops c1"
    by (simp add: drop_retired_def)
  have "lcached ops c' = filter (\<lambda>e. \<not> purgeable (lac_heap c) now (concat bs) e) (lcached ops c1)"
    unfolding ih(2) cached using same by (auto intro!: filter_cong)
  also have "\<dots> = filter (\<lambda>e. \<not> purgeable (lac_heap c) now (concat (b # bs)) e) (lcached ops c)"
    unfolding es filter_filter by (auto simp: purgeable_def intro!: filter_cong)
  finally show ?case
    using run ih len cached by (intro exI [of _ c'] exI [of _ "length slots + n"]) (simp add: add.assoc)
qed

lemma purgeable_candidates:
  assumes "lease_inv ops t c ls gone" and "e \<in> set (lcached ops c)"
  shows "purgeable (lac_heap c) now (expired_unleased_keys_at ops c now) e \<longleftrightarrow>
         expired_and_unleased (lac_heap c) now (snd e)"
proof -
  have "newest_first cv_expires_at (lcached ops c)"
    using assms(1) by (simp add: lease_inv_def entries_ok_def)
  from takeWhile_expired [OF this, of now] show ?thesis
    using assms(2)
    by (cases e) (auto simp: purgeable_def expired_unleased_keys_at_def expired_and_unleased_def
        not_less expiry_by_def intro!: rev_image_eqI [of e])
qed

end



end
