(* ===== verification/Model_Config.thy ===== *)
theory Model_Config
  imports Maple_Prelude
begin

text \<open>
  The model catalog of \<open>services/opensecret/src/model_config.rs\<close>: reasoning efforts and the bit sets of
  efforts a model accepts, sampling, the table of models with its access tiers, alias targets, the
  lookups of the rest of the service, and the two catalog responses. An \<open>f32\<close> of the sampling tables is
  represented by its shortest decimal form, which is the number the code puts into a request.
\<close>

unbundle bit_operations_syntax

section \<open>Reasoning efforts\<close>

datatype reasoning_effort =
  Effort_None | Effort_Minimal | Effort_Low | Effort_Medium | Effort_High | Effort_XHigh | Effort_Max

text \<open>The discriminant of the \<open>repr(u8)\<close> enumeration, which is also its order.\<close>

fun effort_index :: "reasoning_effort \<Rightarrow> nat" where
  "effort_index Effort_None = 0"
| "effort_index Effort_Minimal = 1"
| "effort_index Effort_Low = 2"
| "effort_index Effort_Medium = 3"
| "effort_index Effort_High = 4"
| "effort_index Effort_XHigh = 5"
| "effort_index Effort_Max = 6"

lemma effort_index_inject [simp]: "effort_index a = effort_index b \<longleftrightarrow> a = b"
  by (cases a; cases b) simp_all

instantiation reasoning_effort :: linorder
begin

definition less_eq_reasoning_effort :: "reasoning_effort \<Rightarrow> reasoning_effort \<Rightarrow> bool" where
  "a \<le> b \<longleftrightarrow> effort_index a \<le> effort_index b"

definition less_reasoning_effort :: "reasoning_effort \<Rightarrow> reasoning_effort \<Rightarrow> bool" where
  "a < b \<longleftrightarrow> effort_index a < effort_index b"

instance
  by standard (auto simp: less_eq_reasoning_effort_def less_reasoning_effort_def)

end

definition ALL_EFFORTS :: "reasoning_effort list" where
  "ALL_EFFORTS =
     [Effort_None, Effort_Minimal, Effort_Low, Effort_Medium, Effort_High, Effort_XHigh, Effort_Max]"

fun effort_as_str :: "reasoning_effort \<Rightarrow> string" where
  "effort_as_str Effort_None = ''none''"
| "effort_as_str Effort_Minimal = ''minimal''"
| "effort_as_str Effort_Low = ''low''"
| "effort_as_str Effort_Medium = ''medium''"
| "effort_as_str Effort_High = ''high''"
| "effort_as_str Effort_XHigh = ''xhigh''"
| "effort_as_str Effort_Max = ''max''"

definition effort_parse :: "string \<Rightarrow> reasoning_effort option" where
  "effort_parse v = find (\<lambda>effort. effort_as_str effort = v) ALL_EFFORTS"

datatype reasoning_effort_set = Effort_Set u8

text \<open>The \<open>while\<close> loop of \<open>ReasoningEffortSet::of\<close> ors one bit per effort.\<close>

definition effort_set_of :: "reasoning_effort list \<Rightarrow> reasoning_effort_set" where
  "effort_set_of efforts = Effort_Set (foldl (\<lambda>bits e. bits OR push_bit (effort_index e) 1) 0 efforts)"

fun effort_set_contains :: "reasoning_effort_set \<Rightarrow> reasoning_effort \<Rightarrow> bool" where
  "effort_set_contains (Effort_Set bits) e \<longleftrightarrow> bits AND push_bit (effort_index e) 1 \<noteq> 0"

fun effort_set_intersection ::
  "reasoning_effort_set \<Rightarrow> reasoning_effort_set \<Rightarrow> reasoning_effort_set" where
  "effort_set_intersection (Effort_Set a) (Effort_Set b) = Effort_Set (a AND b)"

definition effort_set_iter :: "reasoning_effort_set \<Rightarrow> reasoning_effort list" where
  "effort_set_iter s = filter (effort_set_contains s) ALL_EFFORTS"

record model_reasoning_spec =
  mr_mandatory :: bool
  mr_default_enabled :: bool
  mr_supported_efforts :: "reasoning_effort_set option"
  mr_default_effort :: "reasoning_effort option"

definition tiers :: "bool \<Rightarrow> reasoning_effort_set \<Rightarrow> reasoning_effort \<Rightarrow> model_reasoning_spec" where
  "tiers mandatory supported_efforts default_effort =
     \<lparr>mr_mandatory = mandatory, mr_default_enabled = True,
      mr_supported_efforts = Some supported_efforts, mr_default_effort = Some default_effort\<rparr>"

definition toggle :: "bool \<Rightarrow> model_reasoning_spec" where
  "toggle default_enabled =
     \<lparr>mr_mandatory = False, mr_default_enabled = default_enabled,
      mr_supported_efforts = None, mr_default_effort = None\<rparr>"

definition accepts :: "model_reasoning_spec \<Rightarrow> reasoning_effort \<Rightarrow> bool" where
  "accepts self effort =
     (if effort = Effort_None then \<not> mr_mandatory self
      else case mr_supported_efforts self of
             None \<Rightarrow> True
           | Some efforts \<Rightarrow> effort_set_contains efforts effort)"

definition accepted_efforts :: "model_reasoning_spec \<Rightarrow> reasoning_effort list" where
  "accepted_efforts self = filter (accepts self) ALL_EFFORTS"

definition clamp :: "model_reasoning_spec \<Rightarrow> reasoning_effort \<Rightarrow> reasoning_effort" where
  "clamp self requested =
     (if accepts self requested then requested
      else let accepted = accepted_efforts self in
        case find (\<lambda>effort. requested < effort) accepted of
          Some effort \<Rightarrow> effort
        | None \<Rightarrow>
            (case find (\<lambda>effort. effort < requested) (rev accepted) of
               Some effort \<Rightarrow> effort
             | None \<Rightarrow> requested))"

definition intersect_reasoning ::
  "model_reasoning_spec \<Rightarrow> model_reasoning_spec \<Rightarrow> model_reasoning_spec" where
  "intersect_reasoning self other =
     \<lparr>mr_mandatory = (mr_mandatory self \<or> mr_mandatory other),
      mr_default_enabled = mr_default_enabled self,
      mr_supported_efforts =
        (case (mr_supported_efforts self, mr_supported_efforts other) of
           (Some mine, Some theirs) \<Rightarrow> Some (effort_set_intersection mine theirs)
         | (Some efforts, None) \<Rightarrow> Some efforts
         | (None, Some efforts) \<Rightarrow> Some efforts
         | (None, None) \<Rightarrow> None),
      mr_default_effort = mr_default_effort self\<rparr>"

section \<open>JSON values\<close>

datatype json =
    JBool bool
  | JNum rat
  | JStr string
  | JArr "json list"
  | JObj "(string \<times> json) list"

text \<open>
  Assigning to a key of an object replaces its value or adds the key. Every assignment of the catalog
  is to an object.
\<close>

fun json_set :: "json \<Rightarrow> string \<Rightarrow> json \<Rightarrow> json" where
  "json_set (JObj kvs) k v =
     JObj (if k \<in> fst ` set kvs then map (\<lambda>(k', v'). (k', if k' = k then v else v')) kvs
           else kvs @ [(k, v)])"
| "json_set j k v = j"

fun json_get :: "json \<Rightarrow> string \<Rightarrow> json option" where
  "json_get (JObj kvs) k = map_of kvs k"
| "json_get _ k = None"

definition json_strs :: "string list \<Rightarrow> json" where
  "json_strs ss = JArr (map JStr ss)"

definition reasoning_json :: "model_reasoning_spec \<Rightarrow> json" where
  "reasoning_json self =
     (let v = JObj [(''mandatory'', JBool (mr_mandatory self)),
                    (''default_enabled'', JBool (mr_default_enabled self))];
          v = (case mr_supported_efforts self of
                 Some efforts \<Rightarrow>
                   json_set v ''supported_efforts''
                     (JArr (map (\<lambda>e. JStr (effort_as_str e)) (rev (effort_set_iter efforts))))
               | None \<Rightarrow> v)
      in case mr_default_effort self of
           Some e \<Rightarrow> json_set v ''default_effort'' (JStr (effort_as_str e))
         | None \<Rightarrow> v)"

section \<open>Sampling and reasoning history\<close>

record sampling_config =
  sc_temperature :: rat
  sc_top_p :: rat
  sc_tool_use_top_p :: "rat option"
  sc_top_k :: "nat option"

definition new_sampling :: "rat \<Rightarrow> rat \<Rightarrow> sampling_config" where
  "new_sampling temperature top_p =
     \<lparr>sc_temperature = temperature, sc_top_p = top_p, sc_tool_use_top_p = None, sc_top_k = None\<rparr>"

definition with_tool_use_top_p :: "sampling_config \<Rightarrow> rat \<Rightarrow> sampling_config" where
  "with_tool_use_top_p self top_p = self\<lparr>sc_tool_use_top_p := Some top_p\<rparr>"

definition with_top_k :: "sampling_config \<Rightarrow> nat \<Rightarrow> sampling_config" where
  "with_top_k self top_k = self\<lparr>sc_top_k := Some top_k\<rparr>"

definition top_p_for :: "sampling_config \<Rightarrow> bool \<Rightarrow> rat" where
  "top_p_for self tools_enabled =
     (case sc_tool_use_top_p self of
        Some top_p \<Rightarrow> if tools_enabled then top_p else sc_top_p self
      | None \<Rightarrow> sc_top_p self)"

definition apply_to_request :: "sampling_config \<Rightarrow> json \<Rightarrow> bool \<Rightarrow> json" where
  "apply_to_request self request tools_enabled =
     (let request = json_set request ''temperature'' (JNum (sc_temperature self));
          request = json_set request ''top_p'' (JNum (top_p_for self tools_enabled))
      in case sc_top_k self of
           Some top_k \<Rightarrow> json_set request ''top_k'' (JNum (of_nat top_k))
         | None \<Rightarrow> request)"

definition with_overrides :: "sampling_config \<Rightarrow> rat option \<Rightarrow> rat option \<Rightarrow> sampling_config" where
  "with_overrides self temperature top_p =
     \<lparr>sc_temperature = (case temperature of Some t \<Rightarrow> t | None \<Rightarrow> sc_temperature self),
      sc_top_p = (case top_p of Some p \<Rightarrow> p | None \<Rightarrow> sc_top_p self),
      sc_tool_use_top_p = (if top_p \<noteq> None then None else sc_tool_use_top_p self),
      sc_top_k = sc_top_k self\<rparr>"

datatype reasoning_history_strategy =
  Omit | CurrentTurn | KimiPreserveThinking | GlmClearThinking | DeepSeekToolsOnly

datatype reasoning_replay = Replay_None | Replay_CurrentTurn | Replay_All

fun replay :: "reasoning_history_strategy \<Rightarrow> bool \<Rightarrow> reasoning_replay" where
  "replay Omit tools_enabled = Replay_None"
| "replay CurrentTurn tools_enabled = Replay_CurrentTurn"
| "replay GlmClearThinking tools_enabled = Replay_CurrentTurn"
| "replay KimiPreserveThinking tools_enabled = Replay_All"
| "replay DeepSeekToolsOnly tools_enabled = (if tools_enabled then Replay_All else Replay_None)"

fun chat_template_kwarg :: "reasoning_history_strategy \<Rightarrow> (string \<times> json) option" where
  "chat_template_kwarg KimiPreserveThinking = Some (''preserve_thinking'', JBool True)"
| "chat_template_kwarg GlmClearThinking = Some (''clear_thinking'', JBool True)"
| "chat_template_kwarg _ = None"

fun before_new_user_message :: "reasoning_replay \<Rightarrow> reasoning_replay" where
  "before_new_user_message Replay_CurrentTurn = Replay_None"
| "before_new_user_message other = other"

record responses_model_config =
  rc_sampling :: "sampling_config option"
  rc_include_reasoning :: bool
  rc_enable_thinking :: bool
  rc_reasoning_history :: reasoning_history_strategy

record model_configuration =
  mc_context_window :: nat
  mc_responses :: responses_model_config
  mc_reasoning :: "model_reasoning_spec option"
  mc_developer_role_as_system :: bool

definition UNCATALOGED_RESPONSES_MODEL_CONFIG :: responses_model_config where
  "UNCATALOGED_RESPONSES_MODEL_CONFIG =
     \<lparr>rc_sampling = None, rc_include_reasoning = False, rc_enable_thinking = False,
      rc_reasoning_history = Omit\<rparr>"

definition recommended :: "sampling_config \<Rightarrow> reasoning_history_strategy \<Rightarrow> responses_model_config" where
  "recommended sampling reasoning_history =
     \<lparr>rc_sampling = Some sampling, rc_include_reasoning = False, rc_enable_thinking = False,
      rc_reasoning_history = reasoning_history\<rparr>"

definition with_thinking_enabled :: "responses_model_config \<Rightarrow> responses_model_config" where
  "with_thinking_enabled self = self\<lparr>rc_include_reasoning := True, rc_enable_thinking := True\<rparr>"

section \<open>Access, aliases and capabilities\<close>

datatype model_access_tier = Tier_Free | Tier_Pro

datatype model_plan = Plan_Free | Plan_Paid

fun tier_as_str :: "model_access_tier \<Rightarrow> string" where
  "tier_as_str Tier_Free = ''free''"
| "tier_as_str Tier_Pro = ''pro''"

definition is_available_to :: "model_access_tier \<Rightarrow> model_plan \<Rightarrow> bool" where
  "is_available_to self plan \<longleftrightarrow> self = Tier_Free \<or> plan = Plan_Paid"

definition from_is_paid :: "bool \<Rightarrow> model_plan" where
  "from_is_paid is_paid = (if is_paid then Plan_Paid else Plan_Free)"

definition is_paid :: "model_plan \<Rightarrow> bool" where
  "is_paid self \<longleftrightarrow> self = Plan_Paid"

record model_capability_set =
  cap_chat :: bool
  cap_vision :: bool
  cap_reasoning :: bool
  cap_tool_use :: bool

definition chat_capabilities :: "bool \<Rightarrow> bool \<Rightarrow> model_capability_set" where
  "chat_capabilities reasoning vision =
     \<lparr>cap_chat = True, cap_vision = vision, cap_reasoning = reasoning, cap_tool_use = True\<rparr>"

definition chat_with_tool_use :: "bool \<Rightarrow> bool \<Rightarrow> bool \<Rightarrow> model_capability_set" where
  "chat_with_tool_use reasoning vision tool_use =
     \<lparr>cap_chat = True, cap_vision = vision, cap_reasoning = reasoning, cap_tool_use = tool_use\<rparr>"

definition capabilities_json :: "model_capability_set \<Rightarrow> json" where
  "capabilities_json self =
     JObj [(''chat'', JBool (cap_chat self)), (''vision'', JBool (cap_vision self)),
           (''reasoning'', JBool (cap_reasoning self)), (''tool_use'', JBool (cap_tool_use self))]"

definition DEFAULT_CONTEXT_WINDOW :: nat where "DEFAULT_CONTEXT_WINDOW = 64000"
definition AUTO_QUICK_MODEL_ID :: string where "AUTO_QUICK_MODEL_ID = ''auto:quick''"
definition AUTO_POWERFUL_MODEL_ID :: string where "AUTO_POWERFUL_MODEL_ID = ''auto:powerful''"
definition GPT_OSS_120B_MODEL_ID :: string where "GPT_OSS_120B_MODEL_ID = ''gpt-oss-120b''"
definition GLM_5_3_MODEL_ID :: string where "GLM_5_3_MODEL_ID = ''glm-5-3''"
definition GLM_5_3_FLASH_MODEL_ID :: string where "GLM_5_3_FLASH_MODEL_ID = ''glm-5-3-flash''"
definition POWERFUL_MODEL_ID :: string where "POWERFUL_MODEL_ID = GLM_5_3_MODEL_ID"
definition KIMI_K3_MODEL_ID :: string where "KIMI_K3_MODEL_ID = ''kimi-k3''"
definition KIMI_K3_1_PRO_MODEL_ID :: string where "KIMI_K3_1_PRO_MODEL_ID = ''kimi-k3-1-pro''"
definition DEEPSEEK_V4_1_FLASH_MODEL_ID :: string where
  "DEEPSEEK_V4_1_FLASH_MODEL_ID = ''deepseek-v4-1-flash''"
definition QUICK_MODEL_ID :: string where "QUICK_MODEL_ID = DEEPSEEK_V4_1_FLASH_MODEL_ID"
definition DEEPSEEK_V4_1_FLASH_UNCENSORED_MODEL_ID :: string where
  "DEEPSEEK_V4_1_FLASH_UNCENSORED_MODEL_ID = ''deepseek-v4-1-flash-1017-uncensored''"
definition DECISION_SMALL_MODEL_ID :: string where "DECISION_SMALL_MODEL_ID = ''decision-small''"
definition DECISION_MEDIUM_MODEL_ID :: string where "DECISION_MEDIUM_MODEL_ID = ''decision-medium''"
definition DECISION_LARGE_MODEL_ID :: string where "DECISION_LARGE_MODEL_ID = ''decision-large''"

lemmas model_ids =
  AUTO_QUICK_MODEL_ID_def AUTO_POWERFUL_MODEL_ID_def GPT_OSS_120B_MODEL_ID_def GLM_5_3_MODEL_ID_def
  GLM_5_3_FLASH_MODEL_ID_def POWERFUL_MODEL_ID_def KIMI_K3_MODEL_ID_def KIMI_K3_1_PRO_MODEL_ID_def
  DEEPSEEK_V4_1_FLASH_MODEL_ID_def QUICK_MODEL_ID_def DEEPSEEK_V4_1_FLASH_UNCENSORED_MODEL_ID_def
  DECISION_SMALL_MODEL_ID_def DECISION_MEDIUM_MODEL_ID_def DECISION_LARGE_MODEL_ID_def

record decision_model_entry =
  dm_id :: string
  dm_access :: model_access_tier
  dm_context_window :: nat
  dm_max_choice_options :: nat

definition decision_pro :: "string \<Rightarrow> decision_model_entry" where
  "decision_pro i =
     \<lparr>dm_id = i, dm_access = Tier_Pro, dm_context_window = 32768, dm_max_choice_options = 26\<rparr>"

definition DECISION_MODELS :: "decision_model_entry list" where
  "DECISION_MODELS =
     [decision_pro DECISION_SMALL_MODEL_ID, decision_pro DECISION_MEDIUM_MODEL_ID,
      decision_pro DECISION_LARGE_MODEL_ID]"

definition decision_model :: "string \<Rightarrow> decision_model_entry option" where
  "decision_model model = find (\<lambda>entry. dm_id entry = model) DECISION_MODELS"

record model_alias_targets =
  mat_quick :: string
  mat_powerful :: string

definition FREE_MODEL_ALIAS_TARGETS :: model_alias_targets where
  "FREE_MODEL_ALIAS_TARGETS = \<lparr>mat_quick = QUICK_MODEL_ID, mat_powerful = POWERFUL_MODEL_ID\<rparr>"

definition PAID_MODEL_ALIAS_TARGETS :: model_alias_targets where
  "PAID_MODEL_ALIAS_TARGETS = \<lparr>mat_quick = QUICK_MODEL_ID, mat_powerful = POWERFUL_MODEL_ID\<rparr>"

fun targets_for_plan :: "model_plan \<Rightarrow> model_alias_targets" where
  "targets_for_plan Plan_Free = FREE_MODEL_ALIAS_TARGETS"
| "targets_for_plan Plan_Paid = PAID_MODEL_ALIAS_TARGETS"

definition alias_resolve :: "model_alias_targets \<Rightarrow> string \<Rightarrow> string" where
  "alias_resolve self model =
     (if model = AUTO_QUICK_MODEL_ID then mat_quick self
      else if model = AUTO_POWERFUL_MODEL_ID then mat_powerful self
      else model)"

definition target_for :: "model_alias_targets \<Rightarrow> string \<Rightarrow> string option" where
  "target_for self alias =
     (if alias = AUTO_QUICK_MODEL_ID then Some (mat_quick self)
      else if alias = AUTO_POWERFUL_MODEL_ID then Some (mat_powerful self)
      else None)"

definition AGENT_DEFAULT_MODEL_ID :: string where
  "AGENT_DEFAULT_MODEL_ID = DEEPSEEK_V4_1_FLASH_MODEL_ID"

section \<open>The table of models\<close>

record model_catalog_metadata =
  md_input_modalities :: "string list"
  md_output_modalities :: "string list"
  md_parameter_size :: "string option"
  md_active_parameter_size :: "string option"

record model_config_entry =
  me_id :: string
  me_catalog_provider :: string
  me_catalog_provider_id :: string
  me_display_name :: string
  me_short_name :: string
  me_description :: string
  me_access :: model_access_tier
  me_capabilities :: model_capability_set
  me_badges :: "string list"
  me_listed :: bool
  me_paid_catalog_only :: bool
  me_api_listed :: bool
  me_available_in_agent :: bool
  me_enabled :: bool
  me_deprecated :: bool
  me_sort_order :: nat
  me_config :: model_configuration
  me_catalog_metadata :: "model_catalog_metadata option"

definition new_metadata ::
  "string list \<Rightarrow> string list \<Rightarrow> string option \<Rightarrow> string option \<Rightarrow> model_catalog_metadata" where
  "new_metadata i out sz active =
     \<lparr>md_input_modalities = i, md_output_modalities = out, md_parameter_size = sz,
      md_active_parameter_size = active\<rparr>"

definition new_entry ::
  "string \<Rightarrow> string \<Rightarrow> string \<Rightarrow> string \<Rightarrow> model_access_tier \<Rightarrow> model_capability_set \<Rightarrow> string list \<Rightarrow>
   bool \<Rightarrow> bool \<Rightarrow> bool \<Rightarrow> nat \<Rightarrow> nat \<Rightarrow> responses_model_config \<Rightarrow> model_config_entry" where
  "new_entry i display_name short_name description access capabilities badges listed enabled deprecated
     sort_order context_window responses =
     \<lparr>me_id = i, me_catalog_provider = ''tinfoil'', me_catalog_provider_id = i,
      me_display_name = display_name, me_short_name = short_name, me_description = description,
      me_access = access, me_capabilities = capabilities, me_badges = badges, me_listed = listed,
      me_paid_catalog_only = False, me_api_listed = listed, me_available_in_agent = listed,
      me_enabled = enabled, me_deprecated = deprecated, me_sort_order = sort_order,
      me_config = \<lparr>mc_context_window = context_window, mc_responses = responses, mc_reasoning = None,
                   mc_developer_role_as_system = False\<rparr>,
      me_catalog_metadata = None\<rparr>"

definition api_only_entry ::
  "string \<Rightarrow> string \<Rightarrow> string \<Rightarrow> string \<Rightarrow> model_access_tier \<Rightarrow> model_capability_set \<Rightarrow> string list \<Rightarrow>
   bool \<Rightarrow> bool \<Rightarrow> nat \<Rightarrow> nat \<Rightarrow> responses_model_config \<Rightarrow> model_config_entry" where
  "api_only_entry i display_name short_name description access capabilities badges enabled deprecated
     sort_order context_window responses =
     \<lparr>me_id = i, me_catalog_provider = ''tinfoil'', me_catalog_provider_id = i,
      me_display_name = display_name, me_short_name = short_name, me_description = description,
      me_access = access, me_capabilities = capabilities, me_badges = badges, me_listed = False,
      me_paid_catalog_only = False, me_api_listed = True, me_available_in_agent = False,
      me_enabled = enabled, me_deprecated = deprecated, me_sort_order = sort_order,
      me_config = \<lparr>mc_context_window = context_window, mc_responses = responses, mc_reasoning = None,
                   mc_developer_role_as_system = False\<rparr>,
      me_catalog_metadata = None\<rparr>"

definition with_catalog_provider ::
  "model_config_entry \<Rightarrow> string \<Rightarrow> string \<Rightarrow> model_config_entry" where
  "with_catalog_provider self provider provider_id =
     self\<lparr>me_catalog_provider := provider, me_catalog_provider_id := provider_id\<rparr>"

definition with_catalog_metadata ::
  "model_config_entry \<Rightarrow> model_catalog_metadata \<Rightarrow> model_config_entry" where
  "with_catalog_metadata self metadata = self\<lparr>me_catalog_metadata := Some metadata\<rparr>"

definition with_reasoning :: "model_config_entry \<Rightarrow> model_reasoning_spec \<Rightarrow> model_config_entry" where
  "with_reasoning self reasoning = self\<lparr>me_config := (me_config self)\<lparr>mc_reasoning := Some reasoning\<rparr>\<rparr>"

definition with_developer_role_as_system :: "model_config_entry \<Rightarrow> model_config_entry" where
  "with_developer_role_as_system self =
     self\<lparr>me_config := (me_config self)\<lparr>mc_developer_role_as_system := True\<rparr>\<rparr>"

definition unavailable_in_agent :: "model_config_entry \<Rightarrow> model_config_entry" where
  "unavailable_in_agent self = self\<lparr>me_available_in_agent := False\<rparr>"

definition paid_catalog_only :: "model_config_entry \<Rightarrow> model_config_entry" where
  "paid_catalog_only self = self\<lparr>me_paid_catalog_only := True\<rparr>"

definition max_completion_tokens :: "model_config_entry \<Rightarrow> nat" where
  "max_completion_tokens self = mc_context_window (me_config self)"

definition DEFAULT_MODEL_CONFIG :: model_configuration where
  "DEFAULT_MODEL_CONFIG =
     \<lparr>mc_context_window = DEFAULT_CONTEXT_WINDOW, mc_responses = UNCATALOGED_RESPONSES_MODEL_CONFIG,
      mc_reasoning = None, mc_developer_role_as_system = False\<rparr>"

definition GPT_OSS_REASONING :: model_reasoning_spec where
  "GPT_OSS_REASONING = tiers True (effort_set_of [Effort_Low, Effort_Medium, Effort_High]) Effort_Medium"

definition GEMMA4_REASONING :: model_reasoning_spec where
  "GEMMA4_REASONING = toggle False"

definition KIMI_K3_REASONING :: model_reasoning_spec where
  "KIMI_K3_REASONING = tiers False (effort_set_of [Effort_Low, Effort_High, Effort_Max]) Effort_Max"

definition KIMI_K3_1_PRO_REASONING :: model_reasoning_spec where
  "KIMI_K3_1_PRO_REASONING = tiers True (effort_set_of [Effort_Low, Effort_High, Effort_Max]) Effort_Max"

definition GLM_5_3_REASONING :: model_reasoning_spec where
  "GLM_5_3_REASONING = tiers True (effort_set_of [Effort_Low, Effort_High, Effort_Max]) Effort_Max"

definition DEEPSEEK_V4_1_FLASH_REASONING :: model_reasoning_spec where
  "DEEPSEEK_V4_1_FLASH_REASONING =
     tiers False (effort_set_of [Effort_Low, Effort_High, Effort_XHigh, Effort_Max]) Effort_High"

definition GPT_OSS_RESPONSES_MODEL_CONFIG :: responses_model_config where
  "GPT_OSS_RESPONSES_MODEL_CONFIG = recommended (new_sampling 1 1) CurrentTurn"

definition GEMMA4_RESPONSES_MODEL_CONFIG :: responses_model_config where
  "GEMMA4_RESPONSES_MODEL_CONFIG =
     with_thinking_enabled (recommended (with_top_k (new_sampling 1 (95 / 100)) 64) CurrentTurn)"

definition GLM_5_3_RESPONSES_MODEL_CONFIG :: responses_model_config where
  "GLM_5_3_RESPONSES_MODEL_CONFIG = recommended (new_sampling 1 (95 / 100)) GlmClearThinking"

definition KIMI_K3_RESPONSES_MODEL_CONFIG :: responses_model_config where
  "KIMI_K3_RESPONSES_MODEL_CONFIG =
     recommended (with_tool_use_top_p (new_sampling 1 (95 / 100)) 1) KimiPreserveThinking"

definition KIMI_K3_1_PRO_RESPONSES_MODEL_CONFIG :: responses_model_config where
  "KIMI_K3_1_PRO_RESPONSES_MODEL_CONFIG = recommended (new_sampling 1 (95 / 100)) KimiPreserveThinking"

definition DEEPSEEK_V4_1_FLASH_RESPONSES_MODEL_CONFIG :: responses_model_config where
  "DEEPSEEK_V4_1_FLASH_RESPONSES_MODEL_CONFIG = recommended (new_sampling 1 1) DeepSeekToolsOnly"

definition LLAMA3_3_70B_RESPONSES_MODEL_CONFIG :: responses_model_config where
  "LLAMA3_3_70B_RESPONSES_MODEL_CONFIG = recommended (new_sampling (6 / 10) (9 / 10)) Omit"

definition MODEL_CONFIGS :: "model_config_entry list" where
  "MODEL_CONFIGS =
   [paid_catalog_only (unavailable_in_agent (with_reasoning
      (new_entry GPT_OSS_120B_MODEL_ID ''OpenAI GPT-OSS 120B'' ''GPT-OSS''
         ''Fast, everyday reasoning model.''
         Tier_Pro (chat_capabilities True False) [] True True False 10 131072
         GPT_OSS_RESPONSES_MODEL_CONFIG)
      GPT_OSS_REASONING)),
    with_reasoning
      (new_entry ''gemma4-31b'' ''Gemma 4 31B'' ''Gemma 4''
         ''Efficient reasoning and vision model.''
         Tier_Pro (chat_capabilities True True) [] True True False 20 262144
         GEMMA4_RESPONSES_MODEL_CONFIG)
      GEMMA4_REASONING,
    with_catalog_metadata (with_reasoning
      (new_entry GLM_5_3_FLASH_MODEL_ID ''GLM-5.3 Flash'' ''GLM-5.3 Flash''
         ''Fast multimodal reasoning and tool-use model.''
         Tier_Pro (chat_capabilities True True) [] True True False 25 1048576
         GLM_5_3_RESPONSES_MODEL_CONFIG)
      GLM_5_3_REASONING) (new_metadata [''text'', ''image''] [''text''] None None),
    with_catalog_metadata (with_developer_role_as_system (with_reasoning
      (new_entry KIMI_K3_1_PRO_MODEL_ID ''Kimi K3.1 Pro'' ''Kimi K3.1 Pro''
         ''Multimodal reasoning and tool-use model for long-horizon coding and agent work.''
         Tier_Pro (chat_capabilities True True) [''New''] True True False 28 262144
         KIMI_K3_1_PRO_RESPONSES_MODEL_CONFIG)
      KIMI_K3_1_PRO_REASONING))
      (new_metadata [''text'', ''image''] [''text''] (Some ''2.8T'') (Some ''104B'')),
    with_catalog_metadata (with_developer_role_as_system (with_reasoning
      (new_entry KIMI_K3_MODEL_ID ''Kimi K3'' ''Kimi K3''
         ''Multimodal reasoning and tool-use model.''
         Tier_Pro (chat_capabilities True True) [] True True False 30 262144
         KIMI_K3_RESPONSES_MODEL_CONFIG)
      KIMI_K3_REASONING))
      (new_metadata [''text'', ''image''] [''text''] (Some ''2.8T'') (Some ''104B'')),
    with_catalog_metadata (with_catalog_provider (with_reasoning
      (new_entry GLM_5_3_MODEL_ID ''GLM 5.3'' ''GLM 5.3''
         ''Flagship reasoning model for complex engineering and long-horizon agent work.''
         Tier_Pro (chat_capabilities True False) [] True True False 50 262144
         GLM_5_3_RESPONSES_MODEL_CONFIG)
      GLM_5_3_REASONING) ''continuum'' ''glm-5.3'')
      (new_metadata [''text''] [''text''] None None),
    with_catalog_metadata (with_reasoning
      (new_entry DEEPSEEK_V4_1_FLASH_MODEL_ID ''DeepSeek V4.1 Flash'' ''DeepSeek V4.1 Flash''
         ''Long-context multimodal reasoning and tool-use model.''
         Tier_Free (chat_capabilities True True) [''New''] True True False 65 1048576
         DEEPSEEK_V4_1_FLASH_RESPONSES_MODEL_CONFIG)
      DEEPSEEK_V4_1_FLASH_REASONING)
      (new_metadata [''text'', ''image''] [''text''] (Some ''552B'') (Some ''16B'')),
    with_catalog_metadata (with_catalog_provider (with_reasoning
      (new_entry DEEPSEEK_V4_1_FLASH_UNCENSORED_MODEL_ID ''DeepSeek V4.1 Flash Uncensored''
         ''DeepSeek Uncensored''
         (''Dealign'' @ [CHR 0x27] @ ''s uncensored DeepSeek 1017 reasoning and tool-use model.'')
         Tier_Pro (chat_capabilities True True) [''Beta''] True True False 66 1048576
         DEEPSEEK_V4_1_FLASH_RESPONSES_MODEL_CONFIG)
      DEEPSEEK_V4_1_FLASH_REASONING) ''maple'' DEEPSEEK_V4_1_FLASH_UNCENSORED_MODEL_ID)
      (new_metadata [''text'', ''image''] [''text''] (Some ''552B'') (Some ''16B'')),
    paid_catalog_only (unavailable_in_agent
      (new_entry ''llama3-3-70b'' ''Llama 3.3 70B'' ''Llama 3.3''
         ''General-purpose model.''
         Tier_Pro (chat_capabilities False False) [] True True False 80 131072
         LLAMA3_3_70B_RESPONSES_MODEL_CONFIG)),
    with_reasoning
      (api_only_entry ''gpt-oss-safeguard-120b'' ''OpenAI GPT-OSS Safeguard 120B'' ''GPT-OSS Safeguard''
         ''Safety model available through the API.''
         Tier_Pro (chat_with_tool_use True False False) [''Safety''] True False 900 131072
         GPT_OSS_RESPONSES_MODEL_CONFIG)
      GPT_OSS_REASONING]"

lemmas catalog_tables =
  MODEL_CONFIGS_def new_entry_def api_only_entry_def with_catalog_provider_def
  with_catalog_metadata_def with_reasoning_def with_developer_role_as_system_def
  unavailable_in_agent_def paid_catalog_only_def

section \<open>Lookups\<close>

definition alias_target :: "string \<Rightarrow> string option" where
  "alias_target model = target_for (targets_for_plan Plan_Free) model"

definition canonical_id :: "string \<Rightarrow> string" where
  "canonical_id model = (case alias_target model of Some t \<Rightarrow> t | None \<Rightarrow> model)"

definition model_entry :: "string \<Rightarrow> model_config_entry option" where
  "model_entry model = find (\<lambda>entry. me_id entry = model) MODEL_CONFIGS"

definition model_capabilities :: "string \<Rightarrow> model_capability_set option" where
  "model_capabilities model = map_option me_capabilities (model_entry (canonical_id model))"

definition allows_model :: "model_plan \<Rightarrow> string \<Rightarrow> bool" where
  "allows_model self model =
     (case decision_model (canonical_id model) of
        Some decision \<Rightarrow> is_available_to (dm_access decision) self
      | None \<Rightarrow>
          (case model_entry (canonical_id model) of
             None \<Rightarrow> True
           | Some entry \<Rightarrow> is_available_to (me_access entry) self))"

definition resolve_public_model_id :: "string \<Rightarrow> string option" where
  "resolve_public_model_id model =
     map_option me_id
       (find (\<lambda>entry. me_id entry = canonical_id model \<and> me_api_listed entry \<and> me_enabled entry)
          MODEL_CONFIGS)"

definition starts_with :: "string \<Rightarrow> string \<Rightarrow> bool" where
  "starts_with s pre \<longleftrightarrow> take (length pre) s = pre"

definition model_config :: "string \<Rightarrow> model_configuration" where
  "model_config model =
     (case find (\<lambda>entry. me_id entry = canonical_id model) MODEL_CONFIGS of
        Some entry \<Rightarrow> me_config entry
      | None \<Rightarrow>
          (case find (\<lambda>entry. starts_with (canonical_id model) (me_id entry)) MODEL_CONFIGS of
             Some entry \<Rightarrow> me_config entry
           | None \<Rightarrow> DEFAULT_MODEL_CONFIG))"

definition model_context_window :: "string \<Rightarrow> nat" where
  "model_context_window model = mc_context_window (model_config model)"

definition model_reasoning_history_strategy :: "string \<Rightarrow> reasoning_history_strategy" where
  "model_reasoning_history_strategy model = rc_reasoning_history (mc_responses (model_config model))"

definition model_reasoning_replay :: "string \<Rightarrow> bool \<Rightarrow> reasoning_replay" where
  "model_reasoning_replay model tools_enabled =
     replay (model_reasoning_history_strategy model) tools_enabled"

definition model_reasoning :: "string \<Rightarrow> model_reasoning_spec option" where
  "model_reasoning model =
     (case model_entry model of Some entry \<Rightarrow> mc_reasoning (me_config entry) | None \<Rightarrow> None)"

section \<open>Effort sets and clamping\<close>

lemma effort_index_less: "effort_index e < 8"
  by (cases e) simp_all

lemma effort_set_contains_bit: "effort_set_contains (Effort_Set bits) e \<longleftrightarrow> bit bits (effort_index e)"
  by (simp add: bit_iff_and_push_bit_not_eq_0)

lemma bit_fold_efforts:
  "bit (foldl (\<lambda>bits e. bits OR push_bit (effort_index e) 1) (b :: u8) es) (effort_index e) \<longleftrightarrow>
   bit b (effort_index e) \<or> e \<in> set es"
proof (induction es arbitrary: b)
  case (Cons e' es)
  have "bit (push_bit (effort_index e') (1 :: u8)) (effort_index e) \<longleftrightarrow> e = e'"
    using effort_index_less [of e] effort_index_less [of e'] by (auto simp: bit_simps)
  then show ?case
    unfolding foldl.simps Cons.IH bit_or_iff by auto
qed simp

lemma effort_set_of_contains: "effort_set_contains (effort_set_of es) e \<longleftrightarrow> e \<in> set es"
  unfolding effort_set_of_def effort_set_contains_bit bit_fold_efforts by simp

lemma effort_set_intersection_contains:
  "effort_set_contains (effort_set_intersection a b) e \<longleftrightarrow>
   effort_set_contains a e \<and> effort_set_contains b e"
  by (cases a; cases b) (simp only: effort_set_intersection.simps effort_set_contains_bit bit_and_iff)

lemma set_ALL_EFFORTS [simp]: "e \<in> set ALL_EFFORTS"
  by (cases e) (simp_all add: ALL_EFFORTS_def)

lemma sorted_ALL_EFFORTS: "sorted_wrt (<) ALL_EFFORTS"
  by (simp add: ALL_EFFORTS_def less_reasoning_effort_def)

lemma accepts_intersect_reasoning:
  "accepts (intersect_reasoning a b) e \<longleftrightarrow> accepts a e \<and> accepts b e"
  by (auto simp: accepts_def intersect_reasoning_def effort_set_intersection_contains
      split: option.splits)

text \<open>The first match of an ascending list is the least one.\<close>

lemma find_sorted_least:
  assumes "sorted_wrt (<) xs" and "find P xs = Some x" and "y \<in> set xs" and "P y"
  shows "x \<le> (y :: 'a :: linorder)"
  using assms by (induction xs) (auto split: if_splits)

lemma find_sorted_greatest:
  assumes "sorted_wrt (<) xs" and "find P (rev xs) = Some x" and "y \<in> set xs" and "P y"
  shows "(y :: 'a :: linorder) \<le> x"
  using assms by (induction xs rule: rev_induct) (auto simp: sorted_wrt_append split: if_splits)

lemma sorted_accepted_efforts: "sorted_wrt (<) (accepted_efforts self)"
  unfolding accepted_efforts_def by (rule sorted_wrt_filter [OF sorted_ALL_EFFORTS])

lemma accepted_efforts_accepts: "e \<in> set (accepted_efforts self) \<longleftrightarrow> accepts self e"
  by (simp add: accepted_efforts_def)

text \<open>
  \<open>clamp\<close> moves a requested effort to the nearest accepted one: an accepted effort is kept, otherwise
  the result is the lowest accepted effort above it, and only when there is none above, the highest
  accepted one below. When the model accepts any effort at all, the result is accepted.
\<close>

theorem clamp_nearest:
  assumes "accepts self e"
  shows "accepts self (clamp self requested) \<and>
         (accepts self requested \<longrightarrow> clamp self requested = requested) \<and>
         (\<not> accepts self requested \<longrightarrow>
            (if \<exists>a. accepts self a \<and> requested < a
             then requested < clamp self requested \<and>
                  (\<forall>a. accepts self a \<and> requested < a \<longrightarrow> clamp self requested \<le> a)
             else clamp self requested < requested \<and>
                  (\<forall>a. accepts self a \<longrightarrow> a \<le> clamp self requested)))"
proof (cases "accepts self requested")
  case True
  then show ?thesis by (simp add: clamp_def)
next
  case rej: False
  show ?thesis
  proof (cases "find (\<lambda>effort. requested < effort) (accepted_efforts self)")
    case (Some up)
    then have "accepts self up \<and> requested < up"
      using find_Some_set [OF Some] by (simp add: accepted_efforts_accepts)
    moreover have "up \<le> a" if "accepts self a" "requested < a" for a
      using find_sorted_least [OF sorted_accepted_efforts Some, of a] that
      by (simp add: accepted_efforts_accepts)
    ultimately show ?thesis
      using rej Some by (auto simp: clamp_def Let_def)
  next
    case None
    then have none: "\<not> requested < a" if "accepts self a" for a
      using that by (auto simp: find_None_iff accepted_efforts_accepts)
    have "e < requested"
      using none [OF assms] assms rej by (metis linorder_neqE)
    then obtain down where down: "find (\<lambda>effort. effort < requested) (rev (accepted_efforts self)) = Some down"
      using assms by (cases "find (\<lambda>effort. effort < requested) (rev (accepted_efforts self))")
        (auto simp: find_None_iff accepted_efforts_accepts)
    then have "accepts self down \<and> down < requested"
      using find_Some_set [OF down] by (simp add: accepted_efforts_accepts)
    moreover have "a \<le> down" if "accepts self a" for a
    proof -
      have "a < requested" using none [OF that] that rej by (metis linorder_neqE)
      then show ?thesis
        using find_sorted_greatest [OF sorted_accepted_efforts down, of a] that
        by (simp add: accepted_efforts_accepts)
    qed
    ultimately show ?thesis
      using rej None down none by (auto simp: clamp_def Let_def)
  qed
qed

theorem clamp_nearest_witness:
  "accepts GLM_5_3_REASONING Effort_Low \<and>
   accepts GLM_5_3_REASONING (clamp GLM_5_3_REASONING Effort_Medium) \<and>
   \<not> accepts GLM_5_3_REASONING Effort_Medium \<and>
   Effort_Medium < clamp GLM_5_3_REASONING Effort_Medium"
proof -
  have acc: "accepts GLM_5_3_REASONING Effort_Low" "accepts GLM_5_3_REASONING Effort_High"
    and rej: "\<not> accepts GLM_5_3_REASONING Effort_Medium"
    by (simp_all add: accepts_def GLM_5_3_REASONING_def tiers_def effort_set_of_contains)
  moreover have "Effort_Medium < Effort_High"
    by (simp add: less_reasoning_effort_def)
  ultimately show ?thesis
    using clamp_nearest [OF acc(1), of Effort_Medium] by (auto split: if_splits)
qed

end
