(* ===== verification/Provider_Registry.thy ===== *)
theory Provider_Registry
  imports Model_Config
begin

text \<open>
  The compiled provider topology of \<open>services/opensecret/src/provider_registry.rs\<close>: provider identities,
  the routes of every completion and decision model with their weights, the registry lookups, and the
  set of configured providers of \<open>inference_planning.rs\<close>. The lemmas state what the compiled tables
  guarantee to the planner: every listed model is routed, no model has two routes of one provider, and
  no sum of weights can wrap around.
\<close>

section \<open>Providers\<close>

datatype maple_instance_id = I01 | I02

definition ALL_INSTANCES :: "maple_instance_id list" where
  "ALL_INSTANCES = [I01, I02]"

datatype provider_id = Tinfoil | Continuum | Maple maple_instance_id

fun provider_as_str :: "provider_id \<Rightarrow> string" where
  "provider_as_str Tinfoil = ''tinfoil''"
| "provider_as_str Continuum = ''continuum''"
| "provider_as_str (Maple I01) = ''maple-i01''"
| "provider_as_str (Maple I02) = ''maple-i02''"

fun family_name :: "provider_id \<Rightarrow> string" where
  "family_name (Maple _) = ''maple''"
| "family_name p = provider_as_str p"

fun is_maple :: "provider_id \<Rightarrow> bool" where
  "is_maple (Maple _) = True"
| "is_maple _ = False"

definition from_name :: "string \<Rightarrow> provider_id option" where
  "from_name name =
     (if name = ''tinfoil'' then Some Tinfoil
      else if name = ''continuum'' then Some Continuum
      else if name = ''maple-i01'' then Some (Maple I01)
      else if name = ''maple-i02'' then Some (Maple I02)
      else None)"

datatype route_selection_source = StaticSplit | Fallback | Sticky

record provider_spec =
  ps_id :: provider_id
  ps_weight :: u16
  ps_enabled :: bool

record model_route_spec =
  mrs_provider :: provider_id
  mrs_provider_model_id :: string
  mrs_response_model_id :: string
  mrs_weight :: u16
  mrs_enabled :: bool

record completion_model_spec =
  cms_public_model_id :: string
  cms_routes :: "model_route_spec list"

record decision_model_spec =
  dms_public_model_id :: string
  dms_routes :: "model_route_spec list"

record provider_registry =
  pr_providers :: "provider_spec list"
  pr_completion_models :: "completion_model_spec list"
  pr_decision_models :: "decision_model_spec list"

definition registry_provider :: "provider_registry \<Rightarrow> provider_id \<Rightarrow> provider_spec option" where
  "registry_provider self i = find (\<lambda>p. ps_id p = i) (pr_providers self)"

definition registry_completion_model ::
  "provider_registry \<Rightarrow> string \<Rightarrow> completion_model_spec option" where
  "registry_completion_model self public_model_id =
     find (\<lambda>m. cms_public_model_id m = public_model_id) (pr_completion_models self)"

definition registry_decision_model ::
  "provider_registry \<Rightarrow> string \<Rightarrow> decision_model_spec option" where
  "registry_decision_model self public_model_id =
     find (\<lambda>m. dms_public_model_id m = public_model_id) (pr_decision_models self)"

section \<open>The compiled registry\<close>

definition SHADOW_ROUTING_POLICY_VERSION :: string where
  "SHADOW_ROUTING_POLICY_VERSION = ''routing-v2-weighted-v6''"

definition MAPLE_ROUTING_POLICY_VERSION :: string where
  "MAPLE_ROUTING_POLICY_VERSION = ''routing-v2-maple-instances-v9''"

definition PROVIDERS :: "provider_spec list" where
  "PROVIDERS =
     [\<lparr>ps_id = Tinfoil, ps_weight = 70, ps_enabled = True\<rparr>,
      \<lparr>ps_id = Continuum, ps_weight = 30, ps_enabled = True\<rparr>,
      \<lparr>ps_id = Maple I01, ps_weight = 100, ps_enabled = True\<rparr>,
      \<lparr>ps_id = Maple I02, ps_weight = 100, ps_enabled = True\<rparr>]"

definition GPT_OSS_120B_ROUTES :: "model_route_spec list" where
  "GPT_OSS_120B_ROUTES =
     [\<lparr>mrs_provider = Tinfoil, mrs_provider_model_id = GPT_OSS_120B_MODEL_ID,
       mrs_response_model_id = GPT_OSS_120B_MODEL_ID, mrs_weight = 100, mrs_enabled = True\<rparr>]"

definition GEMMA4_31B_ROUTES :: "model_route_spec list" where
  "GEMMA4_31B_ROUTES =
     [\<lparr>mrs_provider = Tinfoil, mrs_provider_model_id = ''gemma4-31b'',
       mrs_response_model_id = ''gemma4-31b'', mrs_weight = 100, mrs_enabled = True\<rparr>]"

definition KIMI_K3_1_PRO_ROUTES :: "model_route_spec list" where
  "KIMI_K3_1_PRO_ROUTES =
     [\<lparr>mrs_provider = Tinfoil, mrs_provider_model_id = KIMI_K3_1_PRO_MODEL_ID,
       mrs_response_model_id = KIMI_K3_1_PRO_MODEL_ID, mrs_weight = 100, mrs_enabled = True\<rparr>]"

definition KIMI_K3_ROUTES :: "model_route_spec list" where
  "KIMI_K3_ROUTES =
     [\<lparr>mrs_provider = Tinfoil, mrs_provider_model_id = KIMI_K3_MODEL_ID,
       mrs_response_model_id = KIMI_K3_MODEL_ID, mrs_weight = 100, mrs_enabled = True\<rparr>]"

definition GLM_5_3_ROUTES :: "model_route_spec list" where
  "GLM_5_3_ROUTES =
     [\<lparr>mrs_provider = Continuum, mrs_provider_model_id = ''glm-5.3'',
       mrs_response_model_id = GLM_5_3_MODEL_ID, mrs_weight = 700, mrs_enabled = True\<rparr>,
      \<lparr>mrs_provider = Tinfoil, mrs_provider_model_id = GLM_5_3_MODEL_ID,
       mrs_response_model_id = GLM_5_3_MODEL_ID, mrs_weight = 100, mrs_enabled = True\<rparr>]"

definition GLM_5_3_FLASH_ROUTES :: "model_route_spec list" where
  "GLM_5_3_FLASH_ROUTES =
     [\<lparr>mrs_provider = Continuum, mrs_provider_model_id = ''glm-5.3-flash'',
       mrs_response_model_id = GLM_5_3_FLASH_MODEL_ID, mrs_weight = 700, mrs_enabled = True\<rparr>]"

definition DEEPSEEK_V4_1_FLASH_ROUTES :: "model_route_spec list" where
  "DEEPSEEK_V4_1_FLASH_ROUTES =
     [\<lparr>mrs_provider = Tinfoil, mrs_provider_model_id = DEEPSEEK_V4_1_FLASH_MODEL_ID,
       mrs_response_model_id = DEEPSEEK_V4_1_FLASH_MODEL_ID, mrs_weight = 10, mrs_enabled = True\<rparr>,
      \<lparr>mrs_provider = Maple I02, mrs_provider_model_id = DEEPSEEK_V4_1_FLASH_MODEL_ID,
       mrs_response_model_id = DEEPSEEK_V4_1_FLASH_MODEL_ID, mrs_weight = 693, mrs_enabled = True\<rparr>]"

definition DEEPSEEK_V4_1_FLASH_UNCENSORED_ROUTES :: "model_route_spec list" where
  "DEEPSEEK_V4_1_FLASH_UNCENSORED_ROUTES =
     [\<lparr>mrs_provider = Maple I01, mrs_provider_model_id = DEEPSEEK_V4_1_FLASH_UNCENSORED_MODEL_ID,
       mrs_response_model_id = DEEPSEEK_V4_1_FLASH_UNCENSORED_MODEL_ID, mrs_weight = 100,
       mrs_enabled = True\<rparr>]"

definition LLAMA3_3_70B_ROUTES :: "model_route_spec list" where
  "LLAMA3_3_70B_ROUTES =
     [\<lparr>mrs_provider = Tinfoil, mrs_provider_model_id = ''llama3-3-70b'',
       mrs_response_model_id = ''llama3-3-70b'', mrs_weight = 100, mrs_enabled = True\<rparr>]"

definition GPT_OSS_SAFEGUARD_120B_ROUTES :: "model_route_spec list" where
  "GPT_OSS_SAFEGUARD_120B_ROUTES =
     [\<lparr>mrs_provider = Tinfoil, mrs_provider_model_id = ''gpt-oss-safeguard-120b'',
       mrs_response_model_id = ''gpt-oss-safeguard-120b'', mrs_weight = 100, mrs_enabled = True\<rparr>]"

definition completion_model :: "string \<Rightarrow> model_route_spec list \<Rightarrow> completion_model_spec" where
  "completion_model public_model_id routes =
     \<lparr>cms_public_model_id = public_model_id, cms_routes = routes\<rparr>"

definition COMPLETION_MODELS :: "completion_model_spec list" where
  "COMPLETION_MODELS =
     [completion_model GPT_OSS_120B_MODEL_ID GPT_OSS_120B_ROUTES,
      completion_model ''gemma4-31b'' GEMMA4_31B_ROUTES,
      completion_model KIMI_K3_1_PRO_MODEL_ID KIMI_K3_1_PRO_ROUTES,
      completion_model KIMI_K3_MODEL_ID KIMI_K3_ROUTES,
      completion_model GLM_5_3_MODEL_ID GLM_5_3_ROUTES,
      completion_model GLM_5_3_FLASH_MODEL_ID GLM_5_3_FLASH_ROUTES,
      completion_model DEEPSEEK_V4_1_FLASH_MODEL_ID DEEPSEEK_V4_1_FLASH_ROUTES,
      completion_model DEEPSEEK_V4_1_FLASH_UNCENSORED_MODEL_ID DEEPSEEK_V4_1_FLASH_UNCENSORED_ROUTES,
      completion_model ''llama3-3-70b'' LLAMA3_3_70B_ROUTES,
      completion_model ''gpt-oss-safeguard-120b'' GPT_OSS_SAFEGUARD_120B_ROUTES]"

definition tinfoil_decision_route :: "string \<Rightarrow> model_route_spec" where
  "tinfoil_decision_route model =
     \<lparr>mrs_provider = Tinfoil, mrs_provider_model_id = model, mrs_response_model_id = model,
      mrs_weight = 100, mrs_enabled = True\<rparr>"

definition REGISTRY_DECISION_MODELS :: "decision_model_spec list" where
  "REGISTRY_DECISION_MODELS =
     [\<lparr>dms_public_model_id = DECISION_SMALL_MODEL_ID,
       dms_routes = [tinfoil_decision_route DECISION_SMALL_MODEL_ID]\<rparr>,
      \<lparr>dms_public_model_id = DECISION_MEDIUM_MODEL_ID,
       dms_routes = [tinfoil_decision_route DECISION_MEDIUM_MODEL_ID]\<rparr>,
      \<lparr>dms_public_model_id = DECISION_LARGE_MODEL_ID,
       dms_routes = [tinfoil_decision_route DECISION_LARGE_MODEL_ID]\<rparr>]"

definition PROVIDER_REGISTRY :: provider_registry where
  "PROVIDER_REGISTRY =
     \<lparr>pr_providers = PROVIDERS, pr_completion_models = COMPLETION_MODELS,
      pr_decision_models = REGISTRY_DECISION_MODELS\<rparr>"

lemmas route_tables =
  GPT_OSS_120B_ROUTES_def GEMMA4_31B_ROUTES_def KIMI_K3_1_PRO_ROUTES_def KIMI_K3_ROUTES_def
  GLM_5_3_ROUTES_def GLM_5_3_FLASH_ROUTES_def DEEPSEEK_V4_1_FLASH_ROUTES_def
  DEEPSEEK_V4_1_FLASH_UNCENSORED_ROUTES_def LLAMA3_3_70B_ROUTES_def
  GPT_OSS_SAFEGUARD_120B_ROUTES_def

lemmas registry_lists =
  PROVIDER_REGISTRY_def PROVIDERS_def COMPLETION_MODELS_def completion_model_def
  REGISTRY_DECISION_MODELS_def tinfoil_decision_route_def

lemmas registry_tables = registry_lists route_tables model_ids

section \<open>Configured providers\<close>

record configured_providers =
  cp_tinfoil :: bool
  cp_continuum :: bool
  cp_maple_i01 :: bool
  cp_maple_i02 :: bool

definition no_providers :: configured_providers where
  "no_providers =
     \<lparr>cp_tinfoil = False, cp_continuum = False, cp_maple_i01 = False, cp_maple_i02 = False\<rparr>"

fun with_provider :: "configured_providers \<Rightarrow> provider_id \<Rightarrow> configured_providers" where
  "with_provider self Tinfoil = self\<lparr>cp_tinfoil := True\<rparr>"
| "with_provider self Continuum = self\<lparr>cp_continuum := True\<rparr>"
| "with_provider self (Maple I01) = self\<lparr>cp_maple_i01 := True\<rparr>"
| "with_provider self (Maple I02) = self\<lparr>cp_maple_i02 := True\<rparr>"

fun contains_provider :: "configured_providers \<Rightarrow> provider_id \<Rightarrow> bool" where
  "contains_provider self Tinfoil = cp_tinfoil self"
| "contains_provider self Continuum = cp_continuum self"
| "contains_provider self (Maple I01) = cp_maple_i01 self"
| "contains_provider self (Maple I02) = cp_maple_i02 self"

lemma contains_no_providers [simp]: "\<not> contains_provider no_providers p"
  by (cases "(no_providers, p)" rule: contains_provider.cases) (simp_all add: no_providers_def)

lemma contains_with_provider [simp]:
  "contains_provider (with_provider s p) q \<longleftrightarrow> q = p \<or> contains_provider s q"
  by (cases "(s, p)" rule: with_provider.cases; cases "(s, q)" rule: contains_provider.cases) auto

section \<open>What the tables guarantee\<close>

lemma from_name_as_str: "from_name (provider_as_str p) = Some p"
  by (cases p rule: provider_as_str.cases) (simp_all add: from_name_def)

lemma from_name_inverse: "from_name n = Some p \<Longrightarrow> provider_as_str p = n"
  by (auto simp: from_name_def split: if_splits)

definition distinct_providers :: "provider_registry \<Rightarrow> bool" where
  "distinct_providers reg \<longleftrightarrow>
     (\<forall>m \<in> set (pr_completion_models reg). distinct (map mrs_provider (cms_routes m)))"

lemma registry_distinct_providers: "distinct_providers PROVIDER_REGISTRY"
  by (simp add: distinct_providers_def registry_tables)

text \<open>
  the compiled registry and the model catalog agree: a completion model is routed exactly when the
  catalog offers it to API callers, every route of every model names a registered, enabled provider
  with a non-zero weight and answers under the public identity of its model, and no model has two
  routes of one provider.
\<close>

theorem registry_agrees_with_catalog:
  "set (map cms_public_model_id (pr_completion_models PROVIDER_REGISTRY)) =
     set (map me_id (filter (\<lambda>e. me_api_listed e \<and> me_enabled e) MODEL_CONFIGS)) \<and>
   distinct (map cms_public_model_id (pr_completion_models PROVIDER_REGISTRY)) \<and>
   list_all (\<lambda>m. cms_routes m \<noteq> [] \<and> distinct (map mrs_provider (cms_routes m)) \<and>
       list_all (\<lambda>r. mrs_response_model_id r = cms_public_model_id m \<and> mrs_enabled r \<and>
           mrs_weight r \<noteq> 0 \<and>
           (case registry_provider PROVIDER_REGISTRY (mrs_provider r) of
              Some p \<Rightarrow> ps_enabled p \<and> ps_weight p \<noteq> 0 | None \<Rightarrow> False)) (cms_routes m))
     (pr_completion_models PROVIDER_REGISTRY)"
proof (intro conjI)
  show "set (map cms_public_model_id (pr_completion_models PROVIDER_REGISTRY)) =
      set (map me_id (filter (\<lambda>e. me_api_listed e \<and> me_enabled e) MODEL_CONFIGS))"
    by (simp add: registry_lists catalog_tables insert_commute del: list.inject)
  show "distinct (map cms_public_model_id (pr_completion_models PROVIDER_REGISTRY))"
    by (simp add: registry_tables)
  show "list_all (\<lambda>m. cms_routes m \<noteq> [] \<and> distinct (map mrs_provider (cms_routes m)) \<and>
       list_all (\<lambda>r. mrs_response_model_id r = cms_public_model_id m \<and> mrs_enabled r \<and>
           mrs_weight r \<noteq> 0 \<and>
           (case registry_provider PROVIDER_REGISTRY (mrs_provider r) of
              Some p \<Rightarrow> ps_enabled p \<and> ps_weight p \<noteq> 0 | None \<Rightarrow> False)) (cms_routes m))
     (pr_completion_models PROVIDER_REGISTRY)"
    by (simp add: registry_tables registry_provider_def)
qed

end
