(* ===== verification/Inference_Types.thy ===== *)
theory Inference_Types
  imports Provider_Registry
begin

text \<open>
  The vocabulary of one inference request (\<open>services/opensecret/src/inference.rs\<close>): how a model was
  selected, the identity of a route, and the life of an attempt from its start to its terminal
  observation, with the upstream diagnostic of \<open>provider_client/diagnostics.rs\<close>. Identifiers drawn from
  \<open>Uuid::new_v4\<close> are arguments of the operations that draw them.
\<close>

type_synonym inference_uuid = u128

datatype model_selection_mode = AutoQuick | AutoPowerful | Explicit

definition from_requested_model :: "string \<Rightarrow> model_selection_mode" where
  "from_requested_model model =
     (if model = AUTO_QUICK_MODEL_ID then AutoQuick
      else if model = AUTO_POWERFUL_MODEL_ID then AutoPowerful
      else Explicit)"

fun is_auto :: "model_selection_mode \<Rightarrow> bool" where
  "is_auto AutoQuick = True"
| "is_auto AutoPowerful = True"
| "is_auto Explicit = False"

fun mode_alias :: "model_selection_mode \<Rightarrow> string option" where
  "mode_alias AutoQuick = Some AUTO_QUICK_MODEL_ID"
| "mode_alias AutoPowerful = Some AUTO_POWERFUL_MODEL_ID"
| "mode_alias Explicit = None"

datatype inference_surface = ChatCompletions | Responses | Internal

datatype workload_class = Interactive | Background

record route_key =
  rk_provider :: provider_id
  rk_provider_model_id :: string

record route_identity =
  ri_provider :: provider_id
  ri_public_model_id :: string
  ri_provider_model_id :: string
  ri_response_model_id :: string
  ri_selection_source :: route_selection_source
  ri_bucket :: "u8 option"

definition new_route_identity ::
  "provider_id \<Rightarrow> string \<Rightarrow> string \<Rightarrow> string \<Rightarrow> route_selection_source \<Rightarrow> u8 option \<Rightarrow>
   route_identity" where
  "new_route_identity provider public_model_id provider_model_id response_model_id selection_source
     bucket =
     \<lparr>ri_provider = provider, ri_public_model_id = public_model_id,
      ri_provider_model_id = provider_model_id, ri_response_model_id = response_model_id,
      ri_selection_source = selection_source, ri_bucket = bucket\<rparr>"

definition identity_route_key :: "route_identity \<Rightarrow> route_key" where
  "identity_route_key self =
     \<lparr>rk_provider = ri_provider self, rk_provider_model_id = ri_provider_model_id self\<rparr>"

record inference_execution =
  ie_request_id :: inference_uuid
  ie_execution_id :: inference_uuid

record inference_attempt =
  ia_request_id :: inference_uuid
  ia_execution_id :: inference_uuid
  ia_attempt_id :: inference_uuid
  ia_route :: route_identity

definition begin_attempt ::
  "inference_execution \<Rightarrow> inference_uuid \<Rightarrow> route_identity \<Rightarrow> inference_attempt" where
  "begin_attempt self fresh route =
     \<lparr>ia_request_id = ie_request_id self, ia_execution_id = ie_execution_id self,
      ia_attempt_id = fresh, ia_route = route\<rparr>"

datatype attempt_stage = BeforeSend | AwaitingResponse | Stage_ResponseBody | Stage_Stream

datatype replay_safety = ProvenPreAcceptance | NotProvenPreAcceptance

datatype attempt_failure_kind =
    ProviderUnavailable
  | RequestBuild
  | Connect
  | Transport
  | ResponseStartTimeout
  | HttpStatus
  | CapacityRejected
  | Kind_ResponseBody
  | InvalidResponse
  | UpstreamResponseError
  | UpstreamStreamError
  | StreamTimeout
  | UnexpectedEof
  | ConsumerDropped

datatype diagnostic_body_state =
  Complete | Empty | Truncated | InvalidEncoding | InvalidJson | ReadError | DeadlineExceeded

record upstream_diagnostic =
  ud_body_state :: diagnostic_body_state
  ud_code :: "string option"
  ud_error_type :: "string option"
  ud_summary :: "string option"
  ud_input_context_overflow :: bool
  ud_proxy_context_overflow :: bool

definition is_input_context_overflow :: "upstream_diagnostic \<Rightarrow> bool" where
  "is_input_context_overflow self \<longleftrightarrow>
     ud_body_state self = Complete \<and> ud_input_context_overflow self"

definition is_proxy_context_overflow :: "upstream_diagnostic \<Rightarrow> bool" where
  "is_proxy_context_overflow self \<longleftrightarrow>
     ud_body_state self = Complete \<and> ud_proxy_context_overflow self"

record attempt_failure =
  af_kind :: attempt_failure_kind
  af_stage :: attempt_stage
  af_replay_safety :: replay_safety
  af_status :: "u16 option"
  af_retry_after :: "duration option"
  af_upstream_request_id :: "string option"
  af_upstream_code :: "string option"
  af_upstream_diagnostic :: "upstream_diagnostic option"

definition new_failure ::
  "attempt_failure_kind \<Rightarrow> attempt_stage \<Rightarrow> replay_safety \<Rightarrow> attempt_failure" where
  "new_failure kind stage safety =
     \<lparr>af_kind = kind, af_stage = stage, af_replay_safety = safety, af_status = None,
      af_retry_after = None, af_upstream_request_id = None, af_upstream_code = None,
      af_upstream_diagnostic = None\<rparr>"

definition with_upstream_response ::
  "attempt_failure \<Rightarrow> u16 \<Rightarrow> duration option \<Rightarrow> string option \<Rightarrow> attempt_failure" where
  "with_upstream_response self status retry_after upstream_request_id =
     self\<lparr>af_status := Some status, af_retry_after := retry_after,
          af_upstream_request_id := upstream_request_id\<rparr>"

definition with_upstream_code :: "attempt_failure \<Rightarrow> string option \<Rightarrow> attempt_failure" where
  "with_upstream_code self upstream_code = self\<lparr>af_upstream_code := upstream_code\<rparr>"

definition with_upstream_diagnostic ::
  "attempt_failure \<Rightarrow> upstream_diagnostic option \<Rightarrow> attempt_failure" where
  "with_upstream_diagnostic self diagnostic = self\<lparr>af_upstream_diagnostic := diagnostic\<rparr>"

definition client_message :: "attempt_failure \<Rightarrow> string" where
  "client_message self =
     (case af_kind self of
        InvalidResponse \<Rightarrow> ''Invalid response from inference provider''
      | StreamTimeout \<Rightarrow> ''Inference provider stream timed out''
      | UnexpectedEof \<Rightarrow> ''Inference provider stream ended unexpectedly''
      | _ \<Rightarrow> ''Inference provider request failed'')"

datatype completion_evidence = NonStreamingResponse | ProviderDone | FinishSignalThenEof

datatype attempt_terminal =
    Completed inference_attempt completion_evidence
  | Failed inference_attempt attempt_failure

fun terminal_attempt :: "attempt_terminal \<Rightarrow> inference_attempt" where
  "terminal_attempt (Completed attempt _) = attempt"
| "terminal_attempt (Failed attempt _) = attempt"

datatype attempt_outcome =
    ResponseStarted inference_attempt u16
  | Terminal attempt_terminal

lemma mode_alias_inverse: "mode_alias (from_requested_model m) = Some a \<Longrightarrow> a = m"
  by (auto simp: from_requested_model_def split: if_splits)

lemma from_requested_model_alias: "mode_alias mode = Some a \<Longrightarrow> from_requested_model a = mode"
  by (cases mode) (auto simp: from_requested_model_def model_ids)

end
