(* ===== verification/Route_Health.thy ===== *)
theory Route_Health
  imports Inference_Types
begin

text \<open>
  The circuit breakers of the inference routes (\<open>services/opensecret/src/inference/health.rs\<close>). Every
  route of the registry has a route-health gate and a capacity gate. A gate is opened by failures or by a
  capacity rejection, and once its cooldown has elapsed it is half-open: one request claims a probe of
  every expired gate of its route, and the terminal observation of that request, or the drop of its
  lease, resolves the claims. Claims are fenced by a lease identifier and by the generation of the gate.

  The content of the mutex is the record \<open>shadow_health_inner\<close>; \<open>shs_inner\<close> and \<open>pl_inner\<close> are the
  addresses of the \<open>Arc\<close> around it, which \<open>Arc::ptr_eq\<close> compares. Each operation runs under the lock, so
  a sequence of operations is a sequence of steps (\<open>health_step\<close>). \<open>None\<close> as the result of a claim is a
  call that does not return: the lease counter finds no free identifier, or the \<open>expect\<close> panics.
\<close>

section \<open>Types\<close>

definition SHADOW_HEALTH_POLICY_VERSION :: string where
  "SHADOW_HEALTH_POLICY_VERSION = ''routing-v2-health-shadow-v2''"

definition ROUTE_FAILURE_WINDOW :: duration where
  "ROUTE_FAILURE_WINDOW = from_secs 60"

definition ROUTE_FAILURES_TO_OPEN :: u8 where
  "ROUTE_FAILURES_TO_OPEN = 3"

definition ROUTE_OPEN_COOLDOWN :: duration where
  "ROUTE_OPEN_COOLDOWN = from_secs 30"

definition MIN_CAPACITY_COOLDOWN :: duration where
  "MIN_CAPACITY_COOLDOWN = from_secs 30"

definition MAX_CAPACITY_COOLDOWN :: duration where
  "MAX_CAPACITY_COOLDOWN = from_secs (60 * 60)"

datatype shadow_observation_mode = Update | TelemetryOnly

datatype capacity_pool_key = ProviderModel route_key

datatype shadow_disposition =
    Healthy
  | Watch u8
  | WouldOpen duration
  | WouldProbe
  | ProbeInFlight duration

record shadow_route_snapshot =
  srs_route_health :: shadow_disposition
  srs_deployment_capacity :: shadow_disposition
  srs_rate_limit_capacity :: shadow_disposition
  srs_effective :: shadow_disposition

datatype shadow_signal =
    Signal_Completed
  | Signal_CapacityRejected u16
  | Signal_RouteFailure attempt_failure_kind "u16 option"
  | Signal_Neutral attempt_failure_kind "u16 option"
  | Signal_UnknownRoute

record shadow_observation_report =
  sor_policy_version :: string
  sor_mode :: shadow_observation_mode
  sor_route :: route_key
  sor_signal :: shadow_signal
  sor_capacity_pool :: "capacity_pool_key option"
  sor_snapshot :: "shadow_route_snapshot option"
  sor_mutated :: bool

datatype probe_rejection_reason = CircuitOpen | Reject_ProbeInFlight | UnknownRoute

record shadow_health_policy =
  hp_route_failure_window :: duration
  hp_route_failures_to_open :: u8
  hp_route_open_cooldown :: duration
  hp_minimum_capacity_cooldown :: duration
  hp_max_capacity_cooldown :: duration

definition default_health_policy :: shadow_health_policy where
  "default_health_policy =
     \<lparr>hp_route_failure_window = ROUTE_FAILURE_WINDOW,
      hp_route_failures_to_open = ROUTE_FAILURES_TO_OPEN,
      hp_route_open_cooldown = ROUTE_OPEN_COOLDOWN,
      hp_minimum_capacity_cooldown = MIN_CAPACITY_COOLDOWN,
      hp_max_capacity_cooldown = MAX_CAPACITY_COOLDOWN\<rparr>"

datatype probe_lease_id = ProbeLeaseId u64

record active_probe =
  ap_lease_id :: probe_lease_id
  ap_generation_at_claim :: u64

record route_health_state =
  rh_failure_times :: "instant list"
  rh_open_until :: "instant option"
  rh_generation :: u64
  rh_active_probe :: "active_probe option"

record capacity_state =
  cap_open_until :: "instant option"
  cap_generation :: u64
  cap_active_probe :: "active_probe option"

record shadow_health_inner =
  shi_route_health :: "(route_key, route_health_state) hash_map"
  shi_capacity :: "(capacity_pool_key, capacity_state) hash_map"
  shi_next_probe_lease_id :: u64

datatype probe_gate_key = Gate_RouteHealth route_key | Gate_Capacity capacity_pool_key

record probe_gate_claim =
  pgc_gate :: probe_gate_key
  pgc_generation_at_claim :: u64

record probe_lease =
  pl_inner :: nat
  pl_route :: route_key
  pl_lease_id :: probe_lease_id
  pl_claims :: "probe_gate_claim list option"

datatype probe_claim_result =
    Ready "probe_lease option"
  | Rejected probe_rejection_reason duration

datatype gate_status = Gate_Healthy | StillOpen duration | ExpiredOpen | Gate_ProbeInFlight

datatype mutation =
    Mut_Completed
  | Mut_Capacity capacity_pool_key "duration option"
  | Mut_RouteFailure
  | Mut_None

record shadow_health_state =
  shs_policy :: shadow_health_policy
  shs_inner :: nat

section \<open>Construction\<close>

definition default_route_health_state :: route_health_state where
  "default_route_health_state =
     \<lparr>rh_failure_times = [], rh_open_until = None, rh_generation = 0, rh_active_probe = None\<rparr>"

definition default_capacity_state :: capacity_state where
  "default_capacity_state = \<lparr>cap_open_until = None, cap_generation = 0, cap_active_probe = None\<rparr>"

text \<open>\<open>HashMap::entry(key).or_default()\<close>.\<close>

definition or_default :: "'k \<Rightarrow> 'v \<Rightarrow> ('k, 'v) hash_map \<Rightarrow> ('k, 'v) hash_map" where
  "or_default k d m = (case fmlookup m k of None \<Rightarrow> fmupd k d m | Some _ \<Rightarrow> m)"

definition registry_route_keys :: "provider_registry \<Rightarrow> route_key list" where
  "registry_route_keys registry =
     map (\<lambda>route. \<lparr>rk_provider = mrs_provider route, rk_provider_model_id = mrs_provider_model_id route\<rparr>)
       (concat (map cms_routes (pr_completion_models registry)) @
        concat (map dms_routes (pr_decision_models registry)))"

definition new_with_policy ::
  "provider_registry \<Rightarrow> shadow_health_policy \<Rightarrow> nat \<Rightarrow> shadow_health_state \<times> shadow_health_inner" where
  "new_with_policy registry policy address =
     (let (route_health, capacity) =
        foldl (\<lambda>(route_health, capacity) route_key.
                 (or_default route_key default_route_health_state route_health,
                  or_default (ProviderModel route_key) default_capacity_state capacity))
          (fmempty, fmempty) (registry_route_keys registry)
      in (\<lparr>shs_policy = policy, shs_inner = address\<rparr>,
          \<lparr>shi_route_health = route_health, shi_capacity = capacity, shi_next_probe_lease_id = 0\<rparr>))"

definition new_health :: "provider_registry \<Rightarrow> nat \<Rightarrow> shadow_health_state \<times> shadow_health_inner" where
  "new_health registry address = new_with_policy registry default_health_policy address"

section \<open>The gates\<close>

definition advance_generation :: "u64 \<Rightarrow> u64" where
  "advance_generation generation = (let g = generation + 1 in if g = 0 then 1 else g)"

definition extend_open_until :: "instant option \<Rightarrow> instant \<Rightarrow> duration \<Rightarrow> instant option" where
  "extend_open_until open_until now cooldown =
     (let candidate = (case instant_checked_add now cooldown of Some t \<Rightarrow> t | None \<Rightarrow> now)
      in Some (case open_until of None \<Rightarrow> candidate | Some current \<Rightarrow> max current candidate))"

definition active_probe_matches :: "active_probe option \<Rightarrow> probe_lease_id \<Rightarrow> u64 \<Rightarrow> bool" where
  "active_probe_matches active_probe lease_id generation_at_claim =
     (case active_probe of
        None \<Rightarrow> False
      | Some active \<Rightarrow> ap_lease_id active = lease_id \<and> ap_generation_at_claim active = generation_at_claim)"

text \<open>\<open>now.checked_duration_since(at).is_none_or(|age| age <= window)\<close>.\<close>

definition within_window :: "instant \<Rightarrow> duration \<Rightarrow> instant \<Rightarrow> bool" where
  "within_window now window failure_at =
     (case checked_duration_since now failure_at of None \<Rightarrow> True | Some age \<Rightarrow> age \<le> window)"

text \<open>The loop \<open>while len > threshold { pop_front }\<close>.\<close>

fun pop_to_threshold :: "nat \<Rightarrow> instant list \<Rightarrow> instant list" where
  "pop_to_threshold threshold [] = []"
| "pop_to_threshold threshold (t # ts) =
     (if threshold < length (t # ts) then pop_to_threshold threshold ts else t # ts)"

definition failure_threshold :: "shadow_health_policy \<Rightarrow> nat" where
  "failure_threshold policy = unat (max (hp_route_failures_to_open policy) 1)"

definition apply_route_failure ::
  "route_health_state \<Rightarrow> shadow_health_policy \<Rightarrow> instant \<Rightarrow> route_health_state" where
  "apply_route_failure state policy now =
     (let state = state\<lparr>rh_generation := advance_generation (rh_generation state)\<rparr> in
      if rh_open_until state \<noteq> None then
        state\<lparr>rh_open_until := extend_open_until (rh_open_until state) now (hp_route_open_cooldown policy)\<rparr>
      else
        let failure_times =
              filter (within_window now (hp_route_failure_window policy)) (rh_failure_times state) @ [now];
            threshold = failure_threshold policy;
            failure_times = pop_to_threshold threshold failure_times;
            state = state\<lparr>rh_failure_times := failure_times\<rparr>
        in if threshold \<le> length failure_times then
             state\<lparr>rh_open_until :=
                     extend_open_until (rh_open_until state) now (hp_route_open_cooldown policy)\<rparr>
           else state\<lparr>rh_open_until := None\<rparr>)"

definition apply_route_success :: "route_health_state \<Rightarrow> route_health_state" where
  "apply_route_success state =
     (if rh_open_until state \<noteq> None then state
      else
        let state = (if rh_failure_times state \<noteq> []
                     then state\<lparr>rh_generation := advance_generation (rh_generation state)\<rparr> else state)
        in state\<lparr>rh_failure_times := []\<rparr>)"

fun is_route_health_failure :: "attempt_failure_kind \<Rightarrow> bool" where
  "is_route_health_failure Connect = True"
| "is_route_health_failure Transport = True"
| "is_route_health_failure ResponseStartTimeout = True"
| "is_route_health_failure Kind_ResponseBody = True"
| "is_route_health_failure InvalidResponse = True"
| "is_route_health_failure UpstreamResponseError = True"
| "is_route_health_failure UpstreamStreamError = True"
| "is_route_health_failure StreamTimeout = True"
| "is_route_health_failure UnexpectedEof = True"
| "is_route_health_failure ProviderUnavailable = False"
| "is_route_health_failure RequestBuild = False"
| "is_route_health_failure HttpStatus = False"
| "is_route_health_failure CapacityRejected = False"
| "is_route_health_failure ConsumerDropped = False"

definition route_health_disposition ::
  "route_health_state \<Rightarrow> duration \<Rightarrow> duration \<Rightarrow> instant \<Rightarrow> shadow_disposition" where
  "route_health_disposition state failure_window probe_retry_after now =
     (if rh_active_probe state \<noteq> None then ProbeInFlight probe_retry_after
      else case rh_open_until state of
        Some until \<Rightarrow> if now < until then WouldOpen (duration_since until now) else WouldProbe
      | None \<Rightarrow>
          let current_failures = length (filter (within_window now failure_window) (rh_failure_times state))
          in if 0 < current_failures
             then Watch (if current_failures \<le> 255 then of_nat current_failures else 255)
             else Healthy)"

definition capacity_disposition ::
  "capacity_state \<Rightarrow> duration \<Rightarrow> instant \<Rightarrow> shadow_disposition" where
  "capacity_disposition state probe_retry_after now =
     (if cap_active_probe state \<noteq> None then ProbeInFlight probe_retry_after
      else case cap_open_until state of
        Some until \<Rightarrow> if now < until then WouldOpen (duration_since until now) else WouldProbe
      | None \<Rightarrow> Healthy)"

fun stronger_disposition :: "shadow_disposition \<Rightarrow> shadow_disposition \<Rightarrow> shadow_disposition" where
  "stronger_disposition (ProbeInFlight l) (ProbeInFlight r) = ProbeInFlight (max l r)"
| "stronger_disposition (ProbeInFlight l) (WouldOpen r) = ProbeInFlight (max l r)"
| "stronger_disposition (WouldOpen r) (ProbeInFlight l) = ProbeInFlight (max l r)"
| "stronger_disposition (ProbeInFlight l) _ = ProbeInFlight l"
| "stronger_disposition _ (ProbeInFlight r) = ProbeInFlight r"
| "stronger_disposition (WouldOpen l) (WouldOpen r) = WouldOpen (max l r)"
| "stronger_disposition (WouldOpen l) _ = WouldOpen l"
| "stronger_disposition _ (WouldOpen r) = WouldOpen r"
| "stronger_disposition WouldProbe _ = WouldProbe"
| "stronger_disposition _ WouldProbe = WouldProbe"
| "stronger_disposition (Watch l) (Watch r) = Watch (max l r)"
| "stronger_disposition (Watch l) _ = Watch l"
| "stronger_disposition _ (Watch r) = Watch r"
| "stronger_disposition Healthy Healthy = Healthy"

definition strongest_disposition :: "shadow_disposition list \<Rightarrow> shadow_disposition" where
  "strongest_disposition dispositions = foldl stronger_disposition Healthy dispositions"

definition snapshot_locked ::
  "shadow_health_state \<Rightarrow> shadow_health_inner \<Rightarrow> route_key \<Rightarrow> instant \<Rightarrow> shadow_route_snapshot option" where
  "snapshot_locked self inner route now =
     (case fmlookup (shi_route_health inner) route of
        None \<Rightarrow> None
      | Some route_state \<Rightarrow>
          let route_health = route_health_disposition route_state
                (hp_route_failure_window (shs_policy self))
                (hp_minimum_capacity_cooldown (shs_policy self)) now
          in case fmlookup (shi_capacity inner) (ProviderModel route) of
               None \<Rightarrow> None
             | Some pool_state \<Rightarrow>
                 let deployment_capacity = capacity_disposition pool_state
                       (hp_minimum_capacity_cooldown (shs_policy self)) now
                 in Some \<lparr>srs_route_health = route_health,
                          srs_deployment_capacity = deployment_capacity,
                          srs_rate_limit_capacity = deployment_capacity,
                          srs_effective = strongest_disposition [route_health, deployment_capacity]\<rparr>)"

text \<open>\<open>collect()\<close> into an \<open>Option\<close> of a vector: the first unknown route voids the whole group.\<close>

fun collect_options :: "'a option list \<Rightarrow> 'a list option" where
  "collect_options [] = Some []"
| "collect_options (None # xs) = None"
| "collect_options (Some x # xs) = map_option ((#) x) (collect_options xs)"

definition snapshot_routes ::
  "shadow_health_state \<Rightarrow> shadow_health_inner \<Rightarrow> route_key list \<Rightarrow> instant \<Rightarrow>
   shadow_route_snapshot list option" where
  "snapshot_routes self inner routes now =
     collect_options (map (\<lambda>route. snapshot_locked self inner route now) routes)"

definition snapshot_route_groups ::
  "shadow_health_state \<Rightarrow> shadow_health_inner \<Rightarrow> route_key list list \<Rightarrow> instant \<Rightarrow>
   shadow_route_snapshot list option list" where
  "snapshot_route_groups self inner groups now =
     map (\<lambda>routes. collect_options (map (\<lambda>route. snapshot_locked self inner route now) routes)) groups"

section \<open>Probe leases\<close>

definition probe_gate_status ::
  "shadow_health_inner \<Rightarrow> probe_gate_key \<Rightarrow> instant \<Rightarrow> gate_status option" where
  "probe_gate_status inner gate now =
     (case (case gate of
              Gate_RouteHealth route \<Rightarrow>
                map_option (\<lambda>state. (rh_open_until state, rh_active_probe state))
                  (fmlookup (shi_route_health inner) route)
            | Gate_Capacity pool \<Rightarrow>
                map_option (\<lambda>state. (cap_open_until state, cap_active_probe state))
                  (fmlookup (shi_capacity inner) pool)) of
        None \<Rightarrow> None
      | Some (open_until, active_probe) \<Rightarrow>
          if active_probe \<noteq> None then Some Gate_ProbeInFlight
          else case open_until of
            Some until \<Rightarrow>
              if now < until then Some (StillOpen (duration_since until now)) else Some ExpiredOpen
          | None \<Rightarrow> Some Gate_Healthy)"

definition has_lease_id :: "probe_lease_id \<Rightarrow> active_probe option \<Rightarrow> bool" where
  "has_lease_id candidate active_probe =
     (case active_probe of None \<Rightarrow> False | Some probe \<Rightarrow> ap_lease_id probe = candidate)"

definition lease_id_in_use :: "shadow_health_inner \<Rightarrow> probe_lease_id \<Rightarrow> bool" where
  "lease_id_in_use inner candidate \<longleftrightarrow>
     fBex (fmran (shi_route_health inner)) (\<lambda>state. has_lease_id candidate (rh_active_probe state)) \<or>
     fBex (fmran (shi_capacity inner)) (\<lambda>state. has_lease_id candidate (cap_active_probe state))"

partial_function (option) next_probe_lease_id ::
  "shadow_health_inner \<Rightarrow> (shadow_health_inner \<times> probe_lease_id) option" where
  "next_probe_lease_id inner =
     (let inner = inner\<lparr>shi_next_probe_lease_id := shi_next_probe_lease_id inner + 1\<rparr> in
      if shi_next_probe_lease_id inner = 0 then next_probe_lease_id inner
      else
        let candidate = ProbeLeaseId (shi_next_probe_lease_id inner)
        in if \<not> lease_id_in_use inner candidate then Some (inner, candidate)
           else next_probe_lease_id inner)"

definition claim_probe_gate ::
  "shadow_health_inner \<Rightarrow> probe_gate_key \<Rightarrow> probe_lease_id \<Rightarrow> (shadow_health_inner \<times> u64) option" where
  "claim_probe_gate inner gate lease_id =
     (case gate of
        Gate_RouteHealth route \<Rightarrow>
          (case fmlookup (shi_route_health inner) route of
             None \<Rightarrow> None
           | Some state \<Rightarrow>
               let generation = advance_generation (rh_generation state)
               in Some (inner\<lparr>shi_route_health := fmupd route
                          (state\<lparr>rh_generation := generation,
                                 rh_active_probe := Some \<lparr>ap_lease_id = lease_id,
                                                          ap_generation_at_claim = generation\<rparr>\<rparr>)
                          (shi_route_health inner)\<rparr>, generation))
      | Gate_Capacity pool \<Rightarrow>
          (case fmlookup (shi_capacity inner) pool of
             None \<Rightarrow> None
           | Some state \<Rightarrow>
               let generation = advance_generation (cap_generation state)
               in Some (inner\<lparr>shi_capacity := fmupd pool
                          (state\<lparr>cap_generation := generation,
                                 cap_active_probe := Some \<lparr>ap_lease_id = lease_id,
                                                           ap_generation_at_claim = generation\<rparr>\<rparr>)
                          (shi_capacity inner)\<rparr>, generation)))"

text \<open>The loop that claims the expired gates in order; \<open>None\<close> is the \<open>expect\<close>.\<close>

fun claim_gates ::
  "shadow_health_inner \<Rightarrow> probe_lease_id \<Rightarrow> probe_gate_key list \<Rightarrow>
   (shadow_health_inner \<times> probe_gate_claim list) option" where
  "claim_gates inner lease_id [] = Some (inner, [])"
| "claim_gates inner lease_id (gate # gates) =
     (case claim_probe_gate inner gate lease_id of
        None \<Rightarrow> None
      | Some (inner, generation_at_claim) \<Rightarrow>
          (case claim_gates inner lease_id gates of
             None \<Rightarrow> None
           | Some (inner, claims) \<Rightarrow>
               Some (inner, \<lparr>pgc_gate = gate, pgc_generation_at_claim = generation_at_claim\<rparr> # claims)))"

definition route_gates :: "route_key \<Rightarrow> probe_gate_key list" where
  "route_gates route = [Gate_RouteHealth route, Gate_Capacity (ProviderModel route)]"

text \<open>
  The loop over the two gates of a route: the expired gates, the longest remaining cooldown, and whether
  a probe is in flight; \<open>None\<close> for an unknown route.
\<close>

fun survey_gates ::
  "shadow_health_inner \<Rightarrow> instant \<Rightarrow> probe_gate_key list \<times> duration option \<times> bool \<Rightarrow> probe_gate_key list \<Rightarrow>
   (probe_gate_key list \<times> duration option \<times> bool) option" where
  "survey_gates inner now acc [] = Some acc"
| "survey_gates inner now (expired, open_remaining, probe_in_flight) (gate # gates) =
     (case probe_gate_status inner gate now of
        None \<Rightarrow> None
      | Some Gate_Healthy \<Rightarrow> survey_gates inner now (expired, open_remaining, probe_in_flight) gates
      | Some ExpiredOpen \<Rightarrow>
          survey_gates inner now (expired @ [gate], open_remaining, probe_in_flight) gates
      | Some (StillOpen remaining) \<Rightarrow>
          survey_gates inner now (expired, opt_max open_remaining remaining, probe_in_flight) gates
      | Some Gate_ProbeInFlight \<Rightarrow> survey_gates inner now (expired, open_remaining, True) gates)"

definition try_claim_probe_locked ::
  "shadow_health_state \<Rightarrow> shadow_health_inner \<Rightarrow> route_key \<Rightarrow> instant \<Rightarrow>
   (shadow_health_inner \<times> probe_claim_result) option" where
  "try_claim_probe_locked self inner route now =
     (let minimum = hp_minimum_capacity_cooldown (shs_policy self) in
      case survey_gates inner now ([], None, False) (route_gates route) of
        None \<Rightarrow> Some (inner, Rejected UnknownRoute minimum)
      | Some (expired, open_remaining, probe_in_flight) \<Rightarrow>
          if probe_in_flight then
            Some (inner, Rejected Reject_ProbeInFlight
                    (max (case open_remaining of Some d \<Rightarrow> d | None \<Rightarrow> minimum) minimum))
          else case open_remaining of
            Some retry_after \<Rightarrow> Some (inner, Rejected CircuitOpen retry_after)
          | None \<Rightarrow>
              if expired = [] then Some (inner, Ready None)
              else case next_probe_lease_id inner of
                None \<Rightarrow> None
              | Some (inner, lease_id) \<Rightarrow>
                  (case claim_gates inner lease_id expired of
                     None \<Rightarrow> None
                   | Some (inner, claims) \<Rightarrow>
                       Some (inner, Ready (Some \<lparr>pl_inner = shs_inner self, pl_route = route,
                                                  pl_lease_id = lease_id, pl_claims = Some claims\<rparr>))))"

definition release_claim ::
  "probe_lease_id \<Rightarrow> shadow_health_inner \<Rightarrow> probe_gate_claim \<Rightarrow> shadow_health_inner" where
  "release_claim lease_id inner claim =
     (case pgc_gate claim of
        Gate_RouteHealth route \<Rightarrow>
          (case fmlookup (shi_route_health inner) route of
             None \<Rightarrow> inner
           | Some state \<Rightarrow>
               if active_probe_matches (rh_active_probe state) lease_id (pgc_generation_at_claim claim)
               then inner\<lparr>shi_route_health :=
                            fmupd route (state\<lparr>rh_active_probe := None\<rparr>) (shi_route_health inner)\<rparr>
               else inner)
      | Gate_Capacity pool \<Rightarrow>
          (case fmlookup (shi_capacity inner) pool of
             None \<Rightarrow> inner
           | Some state \<Rightarrow>
               if active_probe_matches (cap_active_probe state) lease_id (pgc_generation_at_claim claim)
               then inner\<lparr>shi_capacity :=
                            fmupd pool (state\<lparr>cap_active_probe := None\<rparr>) (shi_capacity inner)\<rparr>
               else inner))"

definition release_probe_claims ::
  "shadow_health_inner \<Rightarrow> probe_lease_id \<Rightarrow> probe_gate_claim list \<Rightarrow> shadow_health_inner" where
  "release_probe_claims inner lease_id claims = foldl (release_claim lease_id) inner claims"

definition resolve_claim ::
  "probe_lease_id \<Rightarrow> shadow_health_inner \<Rightarrow> probe_gate_claim \<Rightarrow> shadow_health_inner" where
  "resolve_claim lease_id inner claim =
     (case pgc_gate claim of
        Gate_RouteHealth route \<Rightarrow>
          (case fmlookup (shi_route_health inner) route of
             None \<Rightarrow> inner
           | Some state \<Rightarrow>
               let matching_active = active_probe_matches (rh_active_probe state) lease_id
                     (pgc_generation_at_claim claim);
                   matches = (matching_active \<and> rh_generation state = pgc_generation_at_claim claim)
               in if matches then
                    inner\<lparr>shi_route_health := fmupd route
                            (state\<lparr>rh_failure_times := [], rh_open_until := None, rh_active_probe := None,
                                   rh_generation := advance_generation (rh_generation state)\<rparr>)
                            (shi_route_health inner)\<rparr>
                  else if matching_active then
                    inner\<lparr>shi_route_health :=
                            fmupd route (state\<lparr>rh_active_probe := None\<rparr>) (shi_route_health inner)\<rparr>
                  else inner)
      | Gate_Capacity pool \<Rightarrow>
          (case fmlookup (shi_capacity inner) pool of
             None \<Rightarrow> inner
           | Some state \<Rightarrow>
               let matching_active = active_probe_matches (cap_active_probe state) lease_id
                     (pgc_generation_at_claim claim);
                   matches = (matching_active \<and> cap_generation state = pgc_generation_at_claim claim)
               in if matches then
                    inner\<lparr>shi_capacity := fmupd pool
                            (state\<lparr>cap_open_until := None, cap_active_probe := None,
                                   cap_generation := advance_generation (cap_generation state)\<rparr>)
                            (shi_capacity inner)\<rparr>
                  else if matching_active then
                    inner\<lparr>shi_capacity :=
                            fmupd pool (state\<lparr>cap_active_probe := None\<rparr>) (shi_capacity inner)\<rparr>
                  else inner))"

definition resolve_probe_success ::
  "shadow_health_inner \<Rightarrow> probe_lease_id \<Rightarrow> probe_gate_claim list \<Rightarrow> shadow_health_inner" where
  "resolve_probe_success inner lease_id claims = foldl (resolve_claim lease_id) inner claims"

definition take_matching_claims ::
  "probe_lease \<Rightarrow> nat \<Rightarrow> route_key \<Rightarrow> probe_lease \<times> (probe_lease_id \<times> probe_gate_claim list) option" where
  "take_matching_claims self owner route =
     (if pl_inner self \<noteq> owner \<or> pl_route self \<noteq> route then (self, None)
      else (self\<lparr>pl_claims := None\<rparr>, map_option (\<lambda>claims. (pl_lease_id self, claims)) (pl_claims self)))"

text \<open>
  Dropping a lease releases the claims that it still holds, in the state it belongs to; \<open>owner\<close> is the
  address of the state \<open>inner\<close>.
\<close>

definition drop_probe_lease :: "nat \<Rightarrow> shadow_health_inner \<Rightarrow> probe_lease \<Rightarrow> shadow_health_inner" where
  "drop_probe_lease owner inner self =
     (case pl_claims self of
        None \<Rightarrow> inner
      | Some claims \<Rightarrow>
          if pl_inner self = owner then release_probe_claims inner (pl_lease_id self) claims else inner)"

section \<open>Observations\<close>

text \<open>What a terminal says about its route: the signal, the capacity pool, and the mutation.\<close>

definition classify_failure ::
  "route_key \<Rightarrow> attempt_failure \<Rightarrow> shadow_signal \<times> capacity_pool_key option \<times> mutation" where
  "classify_failure route failure =
     (let status = af_status failure; kind = af_kind failure in
      if kind = CapacityRejected then
        (case status of
           Some st \<Rightarrow>
             if st = 429 \<or> st = 503 \<or> st = 529 then
               (Signal_CapacityRejected st, Some (ProviderModel route),
                Mut_Capacity (ProviderModel route) (af_retry_after failure))
             else (Signal_Neutral kind status, None, Mut_None)
         | None \<Rightarrow> (Signal_Neutral kind status, None, Mut_None))
      else if kind = HttpStatus then
        let refused_for_size = (case af_upstream_diagnostic failure of
              None \<Rightarrow> False | Some diagnostic \<Rightarrow> is_proxy_context_overflow diagnostic)
        in if \<not> refused_for_size \<and>
              (case status of None \<Rightarrow> False | Some st \<Rightarrow> 500 \<le> st \<and> st \<le> 599)
           then (Signal_RouteFailure kind status, None, Mut_RouteFailure)
           else (Signal_Neutral kind status, None, Mut_None)
      else if is_route_health_failure kind then
        (Signal_RouteFailure kind status, None, Mut_RouteFailure)
      else (Signal_Neutral kind status, None, Mut_None))"

definition classify_terminal ::
  "route_key \<Rightarrow> attempt_terminal \<Rightarrow> shadow_signal \<times> capacity_pool_key option \<times> mutation" where
  "classify_terminal route terminal =
     (case terminal of
        Completed _ _ \<Rightarrow> (Signal_Completed, None, Mut_Completed)
      | Failed _ failure \<Rightarrow> classify_failure route failure)"

definition success_at :: "shadow_health_inner \<Rightarrow> route_key \<Rightarrow> shadow_health_inner" where
  "success_at inner route =
     (case fmlookup (shi_route_health inner) route of
        None \<Rightarrow> inner
      | Some state \<Rightarrow>
          inner\<lparr>shi_route_health := fmupd route (apply_route_success state) (shi_route_health inner)\<rparr>)"

definition apply_mutation ::
  "shadow_health_state \<Rightarrow> shadow_health_inner \<Rightarrow> route_key \<Rightarrow> mutation \<Rightarrow> instant \<Rightarrow> shadow_health_inner" where
  "apply_mutation self inner route mutation now =
     (case mutation of
        Mut_Completed \<Rightarrow> success_at inner route
      | Mut_Capacity pool retry_after \<Rightarrow>
          (case fmlookup (shi_capacity inner) pool of
             None \<Rightarrow> inner
           | Some state \<Rightarrow>
               let minimum = hp_minimum_capacity_cooldown (shs_policy self);
                   cooldown = min (max (case retry_after of Some d \<Rightarrow> d | None \<Rightarrow> minimum) minimum)
                                  (hp_max_capacity_cooldown (shs_policy self))
               in inner\<lparr>shi_capacity := fmupd pool
                          (state\<lparr>cap_generation := advance_generation (cap_generation state),
                                 cap_open_until := extend_open_until (cap_open_until state) now cooldown\<rparr>)
                          (shi_capacity inner)\<rparr>)
      | Mut_RouteFailure \<Rightarrow>
          (case fmlookup (shi_route_health inner) route of
             None \<Rightarrow> inner
           | Some state \<Rightarrow>
               inner\<lparr>shi_route_health := fmupd route (apply_route_failure state (shs_policy self) now)
                       (shi_route_health inner)\<rparr>)
      | Mut_None \<Rightarrow> inner)"

definition observe_terminal_locked ::
  "shadow_health_state \<Rightarrow> shadow_health_inner \<Rightarrow> attempt_terminal \<Rightarrow> shadow_observation_mode \<Rightarrow>
   probe_lease option \<Rightarrow> instant \<Rightarrow>
   shadow_health_inner \<times> probe_lease option \<times> shadow_observation_report" where
  "observe_terminal_locked self inner terminal mode probe now =
     (let route = identity_route_key (ia_route (terminal_attempt terminal)) in
      if fmlookup (shi_route_health inner) route = None then
        (inner, probe,
         \<lparr>sor_policy_version = SHADOW_HEALTH_POLICY_VERSION, sor_mode = mode, sor_route = route,
          sor_signal = Signal_UnknownRoute, sor_capacity_pool = None, sor_snapshot = None,
          sor_mutated = False\<rparr>)
      else
        let (signal, capacity_pool, mutation) = classify_terminal route terminal;
            mutated = (mode = Update \<and> mutation \<noteq> Mut_None);
            (inner, probe, mutated) =
              (if mode = Update then
                 let (probe, probe_claims) =
                       (case probe of
                          None \<Rightarrow> (None, None)
                        | Some lease \<Rightarrow>
                            let (lease, taken) = take_matching_claims lease (shs_inner self) route
                            in (Some lease, taken))
                 in case probe_claims of
                      Some (lease_id, claims) \<Rightarrow>
                        ((case mutation of
                            Mut_Completed \<Rightarrow> success_at (resolve_probe_success inner lease_id claims) route
                          | Mut_None \<Rightarrow> release_probe_claims inner lease_id claims
                          | _ \<Rightarrow> release_probe_claims (apply_mutation self inner route mutation now)
                                   lease_id claims), probe, True)
                    | None \<Rightarrow>
                        (if mutated then (apply_mutation self inner route mutation now, probe, mutated)
                         else (inner, probe, mutated))
               else (inner, probe, mutated))
        in (inner, probe,
            \<lparr>sor_policy_version = SHADOW_HEALTH_POLICY_VERSION, sor_mode = mode, sor_route = route,
             sor_signal = signal, sor_capacity_pool = capacity_pool,
             sor_snapshot = snapshot_locked self inner route now, sor_mutated = mutated\<rparr>))"

definition observe_terminal ::
  "shadow_health_state \<Rightarrow> shadow_health_inner \<Rightarrow> attempt_terminal \<Rightarrow> shadow_observation_mode \<Rightarrow> instant \<Rightarrow>
   shadow_health_inner \<times> shadow_observation_report" where
  "observe_terminal self inner terminal mode now =
     (let (inner, _, report) = observe_terminal_locked self inner terminal mode None now
      in (inner, report))"

text \<open>The lease is a parameter of the method: what is left of it is dropped when the method returns.\<close>

definition observe_terminal_with_probe ::
  "shadow_health_state \<Rightarrow> shadow_health_inner \<Rightarrow> attempt_terminal \<Rightarrow> shadow_observation_mode \<Rightarrow>
   probe_lease option \<Rightarrow> instant \<Rightarrow> shadow_health_inner \<times> shadow_observation_report" where
  "observe_terminal_with_probe self inner terminal mode probe now =
     (let (inner, probe, report) = observe_terminal_locked self inner terminal mode probe now
      in (case probe of None \<Rightarrow> inner | Some lease \<Rightarrow> drop_probe_lease (shs_inner self) inner lease, report))"

section \<open>What the operations do to a gate\<close>

text \<open>Cooldown, generation and probe of a gate, whichever of the two maps holds it.\<close>

definition gate_view ::
  "shadow_health_inner \<Rightarrow> probe_gate_key \<Rightarrow> (instant option \<times> u64 \<times> active_probe option) option" where
  "gate_view inner gate =
     (case gate of
        Gate_RouteHealth route \<Rightarrow>
          map_option (\<lambda>s. (rh_open_until s, rh_generation s, rh_active_probe s))
            (fmlookup (shi_route_health inner) route)
      | Gate_Capacity pool \<Rightarrow>
          map_option (\<lambda>s. (cap_open_until s, cap_generation s, cap_active_probe s))
            (fmlookup (shi_capacity inner) pool))"

lemma probe_gate_status_view:
  "probe_gate_status inner gate now =
     (case gate_view inner gate of
        None \<Rightarrow> None
      | Some (u, n, a) \<Rightarrow>
          Some (if a \<noteq> None then Gate_ProbeInFlight
                else case u of None \<Rightarrow> Gate_Healthy
                     | Some t \<Rightarrow> if now < t then StillOpen (t - now) else ExpiredOpen))"
  by (cases gate)
    (auto simp: probe_gate_status_def gate_view_def duration_since_def split: option.splits)

lemma claim_probe_gate_view:
  assumes "gate_view inner gate = Some (u, n, a)"
  shows "\<exists>inner'. claim_probe_gate inner gate lease = Some (inner', advance_generation n) \<and>
           (\<forall>h. gate_view inner' h =
              (if h = gate then Some (u, advance_generation n,
                 Some \<lparr>ap_lease_id = lease, ap_generation_at_claim = advance_generation n\<rparr>)
               else gate_view inner h))"
  using assms
  by (cases gate)
    (auto simp: claim_probe_gate_def gate_view_def Let_def split: probe_gate_key.splits option.splits)

lemma release_claim_view [health_simps]:
  "gate_view (release_claim lease inner claim) h =
     (if h = pgc_gate claim
      then map_option (\<lambda>(u, n, a).
             (u, n, if active_probe_matches a lease (pgc_generation_at_claim claim) then None else a))
             (gate_view inner h)
      else gate_view inner h)"
  by (cases "pgc_gate claim"; cases h)
    (auto simp: release_claim_def gate_view_def split: option.splits)

lemma resolve_claim_view [health_simps]:
  "gate_view (resolve_claim lease inner claim) h =
     (if h = pgc_gate claim
      then map_option (\<lambda>(u, n, a).
             if active_probe_matches a lease (pgc_generation_at_claim claim) then
               (if n = pgc_generation_at_claim claim then (None, advance_generation n, None) else (u, n, None))
             else (u, n, a))
             (gate_view inner h)
      else gate_view inner h)"
  by (cases "pgc_gate claim"; cases h)
    (auto simp: resolve_claim_def gate_view_def Let_def split: option.splits)

lemma apply_route_success_view:
  "rh_open_until (apply_route_success s) = rh_open_until s"
  "rh_active_probe (apply_route_success s) = rh_active_probe s"
  by (simp_all add: apply_route_success_def Let_def)

lemma apply_route_failure_view:
  "rh_active_probe (apply_route_failure s policy now) = rh_active_probe s"
  "rh_generation (apply_route_failure s policy now) = advance_generation (rh_generation s)"
  "rh_open_until s \<noteq> None \<Longrightarrow> rh_open_until (apply_route_failure s policy now) =
     extend_open_until (rh_open_until s) now (hp_route_open_cooldown policy)"
  "rh_open_until (apply_route_failure s policy now) \<in>
     {None, extend_open_until (rh_open_until s) now (hp_route_open_cooldown policy)}"
  by (auto simp: apply_route_failure_def Let_def)

lemma gate_view_success:
  "gate_view (success_at inner route) h =
     (case gate_view inner h of
        None \<Rightarrow> None
      | Some (u, n, a) \<Rightarrow>
          Some (u, (if h = Gate_RouteHealth route
                    then rh_generation (apply_route_success (the (fmlookup (shi_route_health inner) route)))
                    else n), a))"
  by (cases h)
    (auto simp: success_at_def gate_view_def apply_route_success_view split: option.splits)

lemma extend_open_until_Some:
  "extend_open_until u now d = Some v \<Longrightarrow> now \<le> v \<and> (\<forall>t. u = Some t \<longrightarrow> t \<le> v)"
  by (auto simp: extend_open_until_def instant_checked_add_def Let_def split: option.splits if_splits)

lemma extend_open_until_not_None [simp]: "extend_open_until u now d \<noteq> None"
  by (simp add: extend_open_until_def Let_def)

lemma extend_open_until_le:
  assumes "extend_open_until u now d = Some v" and "d \<le> m" and "\<forall>t. u = Some t \<longrightarrow> t \<le> now + m"
  shows "v \<le> now + m"
  using assms by (auto simp: extend_open_until_def instant_checked_add_def Let_def split: option.splits if_splits)

text \<open>
  A mutation keeps the probe of every gate and never shortens or removes a cooldown; a cooldown it sets
  ends at most one cooldown of the policy from now.
\<close>

definition policy_cooldown :: "shadow_health_policy \<Rightarrow> duration" where
  "policy_cooldown policy = max (hp_route_open_cooldown policy) (hp_max_capacity_cooldown policy)"

lemma apply_mutation_view:
  assumes "gate_view inner h = Some (u, n, a)"
  shows "\<exists>u' n'. gate_view (apply_mutation self inner route mutation now) h = Some (u', n', a) \<and>
           (u' = u \<or> (\<exists>v. u' = Some v \<and> now \<le> v \<and> (\<forall>t. u = Some t \<longrightarrow> t \<le> v) \<and>
              ((\<forall>t. u = Some t \<longrightarrow> t \<le> now + policy_cooldown (shs_policy self)) \<longrightarrow>
                 v \<le> now + policy_cooldown (shs_policy self))))"
proof (cases mutation)
  case Mut_Completed
  then show ?thesis
    using assms by (simp add: apply_mutation_def gate_view_success)
next
  case (Mut_Capacity pool retry)
  let ?d = "min (max (case retry of Some d \<Rightarrow> d | None \<Rightarrow> hp_minimum_capacity_cooldown (shs_policy self))
                  (hp_minimum_capacity_cooldown (shs_policy self))) (hp_max_capacity_cooldown (shs_policy self))"
  have le: "?d \<le> policy_cooldown (shs_policy self)" by (simp add: policy_cooldown_def)
  have ext: "\<exists>v. extend_open_until u now ?d = Some v \<and> now \<le> v \<and> (\<forall>t. u = Some t \<longrightarrow> t \<le> v) \<and>
      ((\<forall>t. u = Some t \<longrightarrow> t \<le> now + policy_cooldown (shs_policy self)) \<longrightarrow>
         v \<le> now + policy_cooldown (shs_policy self))"
    using extend_open_until_Some [of u now ?d] extend_open_until_le [OF _ le, of u now]
      extend_open_until_not_None [of u now ?d] by blast
  show ?thesis
    using assms Mut_Capacity ext
    by (cases h) (auto simp: apply_mutation_def gate_view_def Let_def split: option.splits)
next
  case Mut_RouteFailure
  let ?d = "hp_route_open_cooldown (shs_policy self)"
  have le: "?d \<le> policy_cooldown (shs_policy self)" by (simp add: policy_cooldown_def)
  have ext: "\<exists>v. extend_open_until u now ?d = Some v \<and> now \<le> v \<and> (\<forall>t. u = Some t \<longrightarrow> t \<le> v) \<and>
      ((\<forall>t. u = Some t \<longrightarrow> t \<le> now + policy_cooldown (shs_policy self)) \<longrightarrow>
         v \<le> now + policy_cooldown (shs_policy self))"
    using extend_open_until_Some [of u now ?d] extend_open_until_le [OF _ le, of u now]
      extend_open_until_not_None [of u now ?d] by blast
  show ?thesis
  proof (cases "h = Gate_RouteHealth route")
    case True
    then obtain s where s: "fmlookup (shi_route_health inner) route = Some s" "rh_open_until s = u"
      "rh_active_probe s = a"
      using assms by (auto simp: gate_view_def)
    let ?s = "apply_route_failure s (shs_policy self) now"
    have "rh_open_until ?s = u \<or> rh_open_until ?s = extend_open_until u now ?d"
      using apply_route_failure_view(3,4) [of s "shs_policy self" now] s(2) by (cases u) auto
    moreover have "gate_view (apply_mutation self inner route mutation now) h
        = Some (rh_open_until ?s, rh_generation ?s, a)"
      using True s Mut_RouteFailure
      by (simp add: apply_mutation_def gate_view_def apply_route_failure_view)
    ultimately show ?thesis using ext by auto
  next
    case False
    then show ?thesis
      using assms Mut_RouteFailure
      by (cases h) (auto simp: apply_mutation_def gate_view_def split: option.splits)
  qed
next
  case Mut_None
  then show ?thesis using assms by (simp add: apply_mutation_def)
qed

lemma apply_mutation_view_None:
  "gate_view inner h = None \<Longrightarrow> gate_view (apply_mutation self inner route mutation now) h = None"
  by (cases h; cases mutation)
    (auto simp: apply_mutation_def gate_view_def success_at_def Let_def split: option.splits)

end
