(* ===== verification/Auto_Model.thy ===== *)
theory Auto_Model
  imports Route_Health
begin

text \<open>
  The Auto model policy of \<open>services/opensecret/src/inference/auto_model.rs\<close>: the ordered candidates of a
  tier, and the pure choice of a model from one availability snapshot. The exact token count runs at
  most once in the code (\<open>OnceCell\<close>); it is a value here. \<open>alias_reasoning\<close> of \<open>model_config.rs\<close> follows,
  since it ranges over the same candidates.
\<close>

definition AUTO_MODEL_POLICY_VERSION :: string where
  "AUTO_MODEL_POLICY_VERSION = ''auto-model-v3''"

definition PAID_QUICK_ALTERNATES :: "string list" where
  "PAID_QUICK_ALTERNATES = [GLM_5_3_FLASH_MODEL_ID]"

definition PAID_POWERFUL_ALTERNATES :: "string list" where
  "PAID_POWERFUL_ALTERNATES = [KIMI_K3_MODEL_ID]"

definition FREE_ALTERNATES :: "string list" where
  "FREE_ALTERNATES = []"

fun alternates_for :: "model_selection_mode \<Rightarrow> model_plan \<Rightarrow> string list option" where
  "alternates_for AutoQuick Plan_Paid = Some PAID_QUICK_ALTERNATES"
| "alternates_for AutoPowerful Plan_Paid = Some PAID_POWERFUL_ALTERNATES"
| "alternates_for _ Plan_Free = Some FREE_ALTERNATES"
| "alternates_for Explicit _ = None"

definition auto_model_candidates :: "model_selection_mode \<Rightarrow> model_plan \<Rightarrow> string list option" where
  "auto_model_candidates mode plan =
     (case mode_alias mode of
        None \<Rightarrow> None
      | Some selector \<Rightarrow>
          (let preferred = alias_resolve (targets_for_plan plan) selector in
           case alternates_for mode plan of
             None \<Rightarrow> None
           | Some alternates \<Rightarrow> Some (preferred # filter (\<lambda>c. c \<noteq> preferred) alternates)))"

datatype auto_model_reason = Primary | RetainedHealthyChoice | HealthFallback

fun reason_as_str :: "auto_model_reason \<Rightarrow> string" where
  "reason_as_str Primary = ''primary''"
| "reason_as_str RetainedHealthyChoice = ''retained_healthy_choice''"
| "reason_as_str HealthFallback = ''health_fallback''"

datatype auto_candidate_rejection =
    PlanDenied
  | Rejected_NotConfigured
  | Rejected_Unavailable duration
  | IncompatibleVision
  | IncompatibleContext nat nat
  | ContextOverflow
  | IncompatibleToolHistory

record excluded_auto_candidate =
  ex_model_id :: string
  ex_rejection :: auto_candidate_rejection

definition excluded_context_overflow :: "string \<Rightarrow> excluded_auto_candidate" where
  "excluded_context_overflow model_id = \<lparr>ex_model_id = model_id, ex_rejection = ContextOverflow\<rparr>"

definition excluded_unavailable :: "string \<Rightarrow> duration option \<Rightarrow> excluded_auto_candidate" where
  "excluded_unavailable model_id retry_after =
     \<lparr>ex_model_id = model_id,
      ex_rejection = Rejected_Unavailable
        (case retry_after of Some d \<Rightarrow> d | None \<Rightarrow> MIN_CAPACITY_COOLDOWN)\<rparr>"

datatype model_availability =
    Available configured_providers
  | Unavailable duration
  | NotConfigured

datatype prompt_token_estimate = Known nat | Bounded nat nat

record auto_model_requirements =
  amr_vision :: bool
  amr_kimi_tool_history_compatible :: bool
  amr_prompt_tokens :: prompt_token_estimate

record auto_model_selection_input =
  ami_mode :: model_selection_mode
  ami_plan :: model_plan
  ami_sticky_model_id :: "string option"
  ami_excluded :: "excluded_auto_candidate option"
  ami_requirements :: auto_model_requirements
  ami_availability :: "string \<Rightarrow> model_availability"

record auto_model_decision =
  amd_selector :: string
  amd_preferred_model_id :: string
  amd_chosen_model_id :: string
  amd_reason :: auto_model_reason
  amd_rejected :: "(string \<times> auto_candidate_rejection) list"
  amd_policy_version :: string

definition changed_model :: "auto_model_decision \<Rightarrow> bool" where
  "changed_model self \<longleftrightarrow> amd_chosen_model_id self \<noteq> amd_preferred_model_id self"

datatype auto_model_error =
    NotAuto
  | PreferredModelDenied
  | PreferredModelNotConfigured
  | NoEligibleCandidate string string "duration option" "(string \<times> auto_candidate_rejection) list"

text \<open>\<open>str::contains\<close> on the ASCII-lowercased model name.\<close>

definition to_ascii_lowercase :: "string \<Rightarrow> string" where
  "to_ascii_lowercase s =
     map (\<lambda>c. if 65 \<le> (of_char c :: nat) \<and> of_char c \<le> (90 :: nat) then char_of (of_char c + 32 :: nat)
              else c) s"

fun str_contains :: "string \<Rightarrow> string \<Rightarrow> bool" where
  "str_contains [] sub = (sub = [])"
| "str_contains (c # cs) sub = (starts_with (c # cs) sub \<or> str_contains cs sub)"

definition model_uses_kimi_tool_call_ids :: "string \<Rightarrow> bool" where
  "model_uses_kimi_tool_call_ids model = str_contains (to_ascii_lowercase model) ''kimi''"

definition incompatible_alternate ::
  "string \<Rightarrow> nat \<Rightarrow> auto_model_requirements \<Rightarrow> auto_candidate_rejection option" where
  "incompatible_alternate candidate preferred_window requirements =
     (case model_capabilities candidate of
        None \<Rightarrow> Some Rejected_NotConfigured
      | Some capabilities \<Rightarrow>
          if amr_vision requirements \<and> \<not> cap_vision capabilities then Some IncompatibleVision
          else if model_uses_kimi_tool_call_ids candidate \<and>
                  \<not> amr_kimi_tool_history_compatible requirements then Some IncompatibleToolHistory
          else
            let candidate_window = model_context_window candidate;
                reject = (\<lambda>required. if candidate_window \<le> required
                                     then Some (IncompatibleContext required candidate_window) else None)
            in if candidate_window < preferred_window then
                 (case amr_prompt_tokens requirements of
                    Known tokens \<Rightarrow> reject tokens
                  | Bounded upper_bound exact \<Rightarrow>
                      if upper_bound < candidate_window then None else reject exact)
               else None)"

text \<open>The candidates in the order the policy tries them, each with the reason it would be chosen for.\<close>

definition sticky_candidate :: "auto_model_selection_input \<Rightarrow> string list \<Rightarrow> string option" where
  "sticky_candidate input candidates =
     (case ami_sticky_model_id input of
        None \<Rightarrow> None
      | Some sticky \<Rightarrow>
          (case find (\<lambda>c. c = sticky) candidates of
             None \<Rightarrow> None
           | Some c \<Rightarrow>
               if c \<noteq> hd candidates \<and> Some c \<noteq> map_option ex_model_id (ami_excluded input)
               then Some c else None))"

definition ordered_candidates ::
  "auto_model_selection_input \<Rightarrow> string list \<Rightarrow> (string \<times> auto_model_reason) list" where
  "ordered_candidates input candidates =
     (let preferred = hd candidates; sticky = sticky_candidate input candidates in
      (case sticky of Some s \<Rightarrow> [(s, RetainedHealthyChoice)] | None \<Rightarrow> [])
      @ [(preferred, Primary)]
      @ map (\<lambda>c. (c, HealthFallback)) (filter (\<lambda>c. c \<noteq> preferred \<and> Some c \<noteq> sticky) candidates))"

text \<open>The loop over the ordered candidates; the accumulators are \<open>rejected\<close> and \<open>earliest_recovery\<close>.\<close>

fun try_candidates ::
  "auto_model_selection_input \<Rightarrow> string \<Rightarrow> string \<Rightarrow> (string \<times> auto_model_reason) list \<Rightarrow>
   (string \<times> auto_candidate_rejection) list \<Rightarrow> duration option \<Rightarrow>
   auto_model_error + auto_model_decision" where
  "try_candidates input selector preferred [] rejected earliest_recovery =
     Inl (NoEligibleCandidate selector preferred earliest_recovery rejected)"
| "try_candidates input selector preferred ((candidate, reason) # rest) rejected earliest_recovery =
     (if Some candidate = map_option ex_model_id (ami_excluded input)
      then try_candidates input selector preferred rest rejected earliest_recovery
      else case ami_availability input candidate of
        Unavailable retry_after \<Rightarrow>
          try_candidates input selector preferred rest
            (rejected @ [(candidate, Rejected_Unavailable retry_after)])
            (opt_min earliest_recovery retry_after)
      | NotConfigured \<Rightarrow>
          try_candidates input selector preferred rest
            (rejected @ [(candidate, Rejected_NotConfigured)]) earliest_recovery
      | Available _ \<Rightarrow>
          let decision = \<lparr>amd_selector = selector, amd_preferred_model_id = preferred,
                          amd_chosen_model_id = candidate, amd_reason = reason,
                          amd_rejected = rejected, amd_policy_version = AUTO_MODEL_POLICY_VERSION\<rparr>
          in if candidate \<noteq> preferred then
               (if \<not> allows_model (ami_plan input) candidate
                then try_candidates input selector preferred rest
                       (rejected @ [(candidate, PlanDenied)]) earliest_recovery
                else case incompatible_alternate candidate (model_context_window preferred)
                            (ami_requirements input) of
                  Some rejection \<Rightarrow>
                    try_candidates input selector preferred rest
                      (rejected @ [(candidate, rejection)]) earliest_recovery
                | None \<Rightarrow> Inr decision)
             else Inr decision)"

definition excluded_rejection ::
  "auto_model_selection_input \<Rightarrow> string list \<Rightarrow>
   (string \<times> auto_candidate_rejection) list \<times> duration option" where
  "excluded_rejection input candidates =
     (case ami_excluded input of
        None \<Rightarrow> ([], None)
      | Some excluded \<Rightarrow>
          (case find (\<lambda>c. c = ex_model_id excluded) candidates of
             None \<Rightarrow> ([], None)
           | Some candidate \<Rightarrow>
               ([(candidate, ex_rejection excluded)],
                case ex_rejection excluded of
                  Rejected_Unavailable retry_after \<Rightarrow> opt_min None retry_after
                | _ \<Rightarrow> None)))"

definition select_auto_model :: "auto_model_selection_input \<Rightarrow> auto_model_error + auto_model_decision" where
  "select_auto_model input =
     (case (mode_alias (ami_mode input), auto_model_candidates (ami_mode input) (ami_plan input)) of
        (Some selector, Some candidates) \<Rightarrow>
          (let preferred = hd candidates in
           if \<not> allows_model (ami_plan input) preferred then Inl PreferredModelDenied
           else if ami_availability input preferred = NotConfigured
           then Inl PreferredModelNotConfigured
           else let (rejected, earliest_recovery) = excluded_rejection input candidates in
             try_candidates input selector preferred (ordered_candidates input candidates)
               rejected earliest_recovery)
      | _ \<Rightarrow> Inl NotAuto)"

section \<open>The reasoning an alias publishes\<close>

fun intersect_candidates ::
  "model_reasoning_spec \<Rightarrow> string list \<Rightarrow> model_reasoning_spec option" where
  "intersect_candidates reasoning [] = Some reasoning"
| "intersect_candidates reasoning (candidate # rest) =
     (case model_reasoning candidate of
        None \<Rightarrow> None
      | Some r \<Rightarrow> intersect_candidates (intersect_reasoning reasoning r) rest)"

definition alias_reasoning :: "string \<Rightarrow> model_plan \<Rightarrow> model_reasoning_spec option" where
  "alias_reasoning alias plan =
     (case auto_model_candidates (from_requested_model alias) plan of
        None \<Rightarrow> None
      | Some [] \<Rightarrow> None
      | Some (first # rest) \<Rightarrow>
          (case model_reasoning first of
             None \<Rightarrow> None
           | Some reasoning \<Rightarrow> intersect_candidates reasoning rest))"

section \<open>The policy as a first match\<close>

definition is_excluded :: "auto_model_selection_input \<Rightarrow> string \<Rightarrow> bool" where
  "is_excluded input c \<longleftrightarrow> Some c = map_option ex_model_id (ami_excluded input)"

text \<open>Why a candidate is passed over; \<open>None\<close> when it can be chosen.\<close>

definition verdict :: "auto_model_selection_input \<Rightarrow> string \<Rightarrow> string \<Rightarrow> auto_candidate_rejection option" where
  "verdict input preferred c =
     (case ami_availability input c of
        Unavailable retry_after \<Rightarrow> Some (Rejected_Unavailable retry_after)
      | NotConfigured \<Rightarrow> Some Rejected_NotConfigured
      | Available _ \<Rightarrow>
          if c = preferred then None
          else if \<not> allows_model (ami_plan input) c then Some PlanDenied
          else incompatible_alternate c (model_context_window preferred) (ami_requirements input))"

definition passed_over ::
  "auto_model_selection_input \<Rightarrow> string \<Rightarrow> (string \<times> auto_model_reason) list \<Rightarrow>
   (string \<times> auto_candidate_rejection) list" where
  "passed_over input preferred cs =
     map (\<lambda>(c, _). (c, the (verdict input preferred c))) (filter (\<lambda>(c, _). \<not> is_excluded input c) cs)"

fun earliest :: "duration option \<Rightarrow> (string \<times> auto_candidate_rejection) list \<Rightarrow> duration option" where
  "earliest er [] = er"
| "earliest er ((_, Rejected_Unavailable r) # vs) = earliest (opt_min er r) vs"
| "earliest er ((_, _) # vs) = earliest er vs"

definition skipped :: "auto_model_selection_input \<Rightarrow> string \<Rightarrow> string \<times> auto_model_reason \<Rightarrow> bool" where
  "skipped input preferred cr \<longleftrightarrow>
     is_excluded input (fst cr) \<or> verdict input preferred (fst cr) \<noteq> None"

lemma try_candidates_skip:
  assumes "skipped input preferred (c, r)"
  shows "try_candidates input sel preferred ((c, r) # cs) rej er =
     try_candidates input sel preferred cs (rej @ passed_over input preferred [(c, r)])
       (earliest er (passed_over input preferred [(c, r)]))"
proof (cases "is_excluded input c")
  case True
  then show ?thesis by (simp add: is_excluded_def passed_over_def)
next
  case False
  then obtain v where "verdict input preferred c = Some v"
    using assms by (auto simp: skipped_def)
  with False show ?thesis
    by (auto simp: verdict_def passed_over_def is_excluded_def incompatible_alternate_def Let_def
        split: model_availability.splits if_splits option.splits prompt_token_estimate.splits)
qed

lemma try_candidates_take:
  assumes "\<not> skipped input preferred (c, r)"
  shows "try_candidates input sel preferred ((c, r) # cs) rej er =
     Inr \<lparr>amd_selector = sel, amd_preferred_model_id = preferred, amd_chosen_model_id = c,
          amd_reason = r, amd_rejected = rej, amd_policy_version = AUTO_MODEL_POLICY_VERSION\<rparr>"
  using assms
  by (auto simp: skipped_def verdict_def is_excluded_def split: model_availability.splits if_splits)

declare try_candidates.simps(2) [simp del]

lemma earliest_append: "earliest er (xs @ ys) = earliest (earliest er xs) ys"
  by (induction er xs rule: earliest.induct) auto

lemma passed_over_Cons:
  "passed_over input preferred (x # xs) = passed_over input preferred [x] @ passed_over input preferred xs"
  by (simp add: passed_over_def)

text \<open>The loop is a search for the first candidate that is not skipped.\<close>

lemma try_candidates_find:
  "try_candidates input sel preferred cs rej er =
     (let skip = takeWhile (skipped input preferred) cs;
          rej' = rej @ passed_over input preferred skip
      in case dropWhile (skipped input preferred) cs of
           [] \<Rightarrow> Inl (NoEligibleCandidate sel preferred (earliest er (passed_over input preferred skip)) rej')
         | (c, r) # _ \<Rightarrow>
             Inr \<lparr>amd_selector = sel, amd_preferred_model_id = preferred, amd_chosen_model_id = c,
                  amd_reason = r, amd_rejected = rej', amd_policy_version = AUTO_MODEL_POLICY_VERSION\<rparr>)"
proof (induction cs arbitrary: rej er)
  case Nil
  then show ?case by (simp add: passed_over_def)
next
  case (Cons x cs)
  obtain c r where x: "x = (c, r)" by (cases x)
  show ?case
  proof (cases "skipped input preferred x")
    case True
    then show ?thesis
      using try_candidates_skip [of input preferred c r sel cs rej er]
        passed_over_Cons [of input preferred x "takeWhile (skipped input preferred) cs"]
      by (cases "dropWhile (skipped input preferred) cs")
         (auto simp: x Cons Let_def earliest_append simp del: dropWhile_eq_Nil_conv)
  next
    case False
    then show ?thesis
      using try_candidates_take [of input preferred c r sel cs rej er]
      by (simp add: x passed_over_def)
  qed
qed

lemma candidates_shape:
  assumes "auto_model_candidates mode plan = Some cs"
  shows "cs \<noteq> [] \<and> distinct cs"
  using assms
  by (cases mode; cases plan)
     (auto simp: auto_model_candidates_def Let_def PAID_QUICK_ALTERNATES_def
        PAID_POWERFUL_ALTERNATES_def FREE_ALTERNATES_def)

lemma sticky_candidate_in:
  assumes "sticky_candidate input cs = Some c"
  shows "c \<in> set cs \<and> c \<noteq> hd cs \<and> ami_sticky_model_id input = Some c \<and> \<not> is_excluded input c"
  using assms
  by (auto simp: sticky_candidate_def is_excluded_def dest: find_Some_set
      split: option.splits if_splits)

lemma ordered_candidates_set:
  assumes "cs \<noteq> []"
  shows "fst ` set (ordered_candidates input cs) = set cs"
proof (cases "sticky_candidate input cs")
  case None
  then show ?thesis
    using assms by (auto simp: ordered_candidates_def Let_def image_image)
next
  case (Some c)
  then show ?thesis
    using assms sticky_candidate_in [OF Some] by (auto simp: ordered_candidates_def Let_def image_image)
qed

lemma ordered_candidates_reason:
  assumes "(c, r) \<in> set (ordered_candidates input cs)"
  shows "(r = Primary \<longleftrightarrow> c = hd cs) \<and>
         (r = RetainedHealthyChoice \<longrightarrow> ami_sticky_model_id input = Some c)"
proof (cases "sticky_candidate input cs")
  case None
  then show ?thesis
    using assms by (auto simp: ordered_candidates_def Let_def)
next
  case (Some c)
  then show ?thesis
    using assms sticky_candidate_in [OF Some] by (auto simp: ordered_candidates_def Let_def)
qed

lemma select_auto_model_unfold:
  assumes "mode_alias (ami_mode input) = Some selector"
    and "auto_model_candidates (ami_mode input) (ami_plan input) = Some cs"
    and "allows_model (ami_plan input) (hd cs)" and "ami_availability input (hd cs) \<noteq> NotConfigured"
  shows "select_auto_model input =
    try_candidates input selector (hd cs) (ordered_candidates input cs)
      (fst (excluded_rejection input cs)) (snd (excluded_rejection input cs))"
  using assms by (simp add: select_auto_model_def split_def Let_def)

lemma select_auto_model_cases:
  assumes "select_auto_model input = r"
  obtains (not_auto) "r = Inl NotAuto"
  | (denied) "r = Inl PreferredModelDenied"
  | (unconfigured) "r = Inl PreferredModelNotConfigured"
  | (run) selector cs where "mode_alias (ami_mode input) = Some selector"
      and "auto_model_candidates (ami_mode input) (ami_plan input) = Some cs"
      and "allows_model (ami_plan input) (hd cs)"
      and "ami_availability input (hd cs) \<noteq> NotConfigured"
      and "r = try_candidates input selector (hd cs) (ordered_candidates input cs)
                 (fst (excluded_rejection input cs)) (snd (excluded_rejection input cs))"
  using assms
  by (auto simp: select_auto_model_def split_def Let_def split: option.splits if_splits)

lemma try_candidates_Inr:
  assumes "try_candidates input sel preferred cs rej er = Inr d"
  obtains pre post where "cs = pre @ (amd_chosen_model_id d, amd_reason d) # post"
    and "\<forall>x \<in> set pre. skipped input preferred x"
    and "\<not> skipped input preferred (amd_chosen_model_id d, amd_reason d)"
    and "amd_selector d = sel" and "amd_preferred_model_id d = preferred"
proof -
  let ?S = "skipped input preferred"
  obtain x post where drop: "dropWhile ?S cs = x # post"
    and d: "amd_chosen_model_id d = fst x" "amd_reason d = snd x" "amd_selector d = sel"
      "amd_preferred_model_id d = preferred"
    using assms unfolding try_candidates_find
    by (cases "dropWhile ?S cs") (auto simp: Let_def)
  have "cs = takeWhile ?S cs @ x # post"
    using takeWhile_dropWhile_id [of ?S cs] drop by simp
  moreover have "\<not> ?S x"
    using hd_dropWhile [of ?S cs] drop by simp
  ultimately show ?thesis
    using that [of "takeWhile ?S cs" post] d set_takeWhileD by (metis prod.collapse)
qed

text \<open>
  C32: a model the Auto policy chooses belongs to the tier, is allowed by the plan, has an available route,
  is not the model an earlier attempt lost, and, unless it is the preferred model, meets the vision,
  tool-history and context requirements of the request. Every candidate the policy ranks before it was
  excluded or could not be chosen, and the reported reason is true.
\<close>

theorem auto_choice_sound:
  assumes "select_auto_model input = Inr d"
  shows "\<exists>cs pre post. auto_model_candidates (ami_mode input) (ami_plan input) = Some cs \<and>
           amd_preferred_model_id d = hd cs \<and> amd_chosen_model_id d \<in> set cs \<and>
           mode_alias (ami_mode input) = Some (amd_selector d) \<and>
           allows_model (ami_plan input) (amd_chosen_model_id d) \<and>
           (\<exists>ps. ami_availability input (amd_chosen_model_id d) = Available ps) \<and>
           \<not> is_excluded input (amd_chosen_model_id d) \<and>
           (amd_chosen_model_id d \<noteq> hd cs \<longrightarrow>
              incompatible_alternate (amd_chosen_model_id d) (model_context_window (hd cs))
                (ami_requirements input) = None) \<and>
           ordered_candidates input cs = pre @ (amd_chosen_model_id d, amd_reason d) # post \<and>
           (\<forall>(c, r) \<in> set pre. is_excluded input c \<or> verdict input (hd cs) c \<noteq> None) \<and>
           (amd_reason d = Primary \<longleftrightarrow> amd_chosen_model_id d = hd cs) \<and>
           (amd_reason d = RetainedHealthyChoice \<longrightarrow>
              ami_sticky_model_id input = Some (amd_chosen_model_id d))"
  using assms
proof (cases rule: select_auto_model_cases)
  case (run selector cs)
  from run(5) obtain pre post where
    split: "ordered_candidates input cs = pre @ (amd_chosen_model_id d, amd_reason d) # post"
    and pre: "\<forall>x \<in> set pre. skipped input (hd cs) x"
    and chosen: "\<not> skipped input (hd cs) (amd_chosen_model_id d, amd_reason d)"
    and names: "amd_selector d = selector" "amd_preferred_model_id d = hd cs"
    by (metis try_candidates_Inr)
  have mem: "(amd_chosen_model_id d, amd_reason d) \<in> set (ordered_candidates input cs)"
    by (simp add: split)
  then have "amd_chosen_model_id d \<in> set cs"
    using ordered_candidates_set [of cs input] candidates_shape [OF run(2)] by force
  moreover have "allows_model (ami_plan input) (amd_chosen_model_id d) \<and>
      (\<exists>ps. ami_availability input (amd_chosen_model_id d) = Available ps) \<and>
      \<not> is_excluded input (amd_chosen_model_id d) \<and>
      (amd_chosen_model_id d \<noteq> hd cs \<longrightarrow>
        incompatible_alternate (amd_chosen_model_id d) (model_context_window (hd cs))
          (ami_requirements input) = None)"
    using chosen run(3) by (auto simp: skipped_def verdict_def split: model_availability.splits if_splits)
  moreover have "\<forall>(c, r) \<in> set pre. is_excluded input c \<or> verdict input (hd cs) c \<noteq> None"
    using pre by (auto simp: skipped_def)
  ultimately show ?thesis
    using run names split ordered_candidates_reason [OF mem] by blast
qed auto

lemma earliest_hint:
  "earliest er vs = None \<longleftrightarrow> er = None \<and> (\<forall>(c, v) \<in> set vs. \<forall>r. v \<noteq> Rejected_Unavailable r)"
  by (induction er vs rule: earliest.induct) (auto simp: opt_min_def)

lemma earliest_le:
  assumes "earliest er vs = Some h"
  shows "(\<forall>e. er = Some e \<longrightarrow> h \<le> e) \<and> (\<forall>c r. (c, Rejected_Unavailable r) \<in> set vs \<longrightarrow> h \<le> r)"
  using assms
  by (induction er vs rule: earliest.induct) (fastforce simp: opt_min_def split: option.splits)+

lemma earliest_mem:
  assumes "earliest er vs = Some h"
  shows "er = Some h \<or> (\<exists>c. (c, Rejected_Unavailable h) \<in> set vs)"
  using assms
  by (induction er vs rule: earliest.induct) (fastforce simp: opt_min_def min_def split: option.splits if_splits)+

lemma excluded_rejection_earliest:
  "snd (excluded_rejection input cs) = earliest None (fst (excluded_rejection input cs))"
  by (auto simp: excluded_rejection_def split: option.splits auto_candidate_rejection.splits)

lemma excluded_rejection_set:
  "fst ` set (fst (excluded_rejection input cs)) = {c \<in> set cs. is_excluded input c}"
  by (auto simp: excluded_rejection_def is_excluded_def find_None_iff dest: find_Some_set
      split: option.splits)

definition sample_input :: "(string \<Rightarrow> model_availability) \<Rightarrow> auto_model_selection_input" where
  "sample_input availability =
     \<lparr>ami_mode = AutoQuick, ami_plan = Plan_Paid, ami_sticky_model_id = None, ami_excluded = None,
      ami_requirements = \<lparr>amr_vision = True, amr_kimi_tool_history_compatible = True,
                          amr_prompt_tokens = Known 100\<rparr>,
      ami_availability = availability\<rparr>"

lemmas auto_eval =
  select_auto_model_def auto_model_candidates_def targets_for_plan.simps PAID_MODEL_ALIAS_TARGETS_def
  alias_resolve_def PAID_QUICK_ALTERNATES_def sample_input_def ordered_candidates_def
  sticky_candidate_def excluded_rejection_def try_candidates.simps

lemma sample_allowed: "allows_model Plan_Paid m"
  by (auto simp: allows_model_def is_available_to_def split: option.splits)

lemma sample_glm_flash:
  "model_entry GLM_5_3_FLASH_MODEL_ID \<noteq> None \<and>
   incompatible_alternate GLM_5_3_FLASH_MODEL_ID w
     \<lparr>amr_vision = True, amr_kimi_tool_history_compatible = True, amr_prompt_tokens = Known 100\<rparr> = None"
  by (simp add: incompatible_alternate_def model_capabilities_def canonical_id_def alias_target_def
      target_for_def model_entry_def catalog_tables model_ids chat_capabilities_def
      model_uses_kimi_tool_call_ids_def to_ascii_lowercase_def starts_with_def
      model_context_window_def model_config_def)

theorem auto_choice_sound_witness:
  "\<exists>d. select_auto_model (sample_input (\<lambda>m. if m = GLM_5_3_FLASH_MODEL_ID then Available no_providers
                                          else Unavailable (from_secs 30))) = Inr d \<and>
     amd_chosen_model_id d = GLM_5_3_FLASH_MODEL_ID \<and> allows_model Plan_Paid (amd_chosen_model_id d)"
proof -
  let ?input = "sample_input (\<lambda>m. if m = GLM_5_3_FLASH_MODEL_ID then Available no_providers
                                  else Unavailable (from_secs 30))"
  have ne: "QUICK_MODEL_ID \<noteq> GLM_5_3_FLASH_MODEL_ID" by (simp add: model_ids)
  have "\<exists>d. select_auto_model ?input = Inr d \<and> amd_chosen_model_id d = GLM_5_3_FLASH_MODEL_ID"
    using ne sample_glm_flash by (simp add: auto_eval sample_allowed)
  then obtain d where d: "select_auto_model ?input = Inr d"
    "amd_chosen_model_id d = GLM_5_3_FLASH_MODEL_ID" by blast
  from auto_choice_sound [OF d(1)] d show ?thesis by (auto simp: sample_input_def)
qed



lemma accepts_intersect_candidates:
  assumes "intersect_candidates r cs = Some r'" and "accepts r' e"
  shows "accepts r e \<and> (\<forall>c \<in> set cs. \<exists>s. model_reasoning c = Some s \<and> accepts s e)"
  using assms
proof (induction cs arbitrary: r)
  case (Cons c cs)
  then obtain s where s: "model_reasoning c = Some s"
    "intersect_candidates (intersect_reasoning r s) cs = Some r'"
    by (auto split: option.splits)
  from Cons.IH [OF s(2) Cons.prems(2)] s(1) show ?case
    by (auto simp: accepts_intersect_reasoning)
qed simp

text \<open>
  C34: the reasoning an alias publishes is a promise: an effort it accepts is accepted by every model
  the alias may resolve to on that plan.
\<close>

theorem alias_reasoning_promise:
  assumes "alias_reasoning alias plan = Some r" and "accepts r e"
    and "auto_model_candidates (from_requested_model alias) plan = Some cs" and "c \<in> set cs"
  shows "\<exists>s. model_reasoning c = Some s \<and> accepts s e"
proof -
  obtain first rest s0 where cs: "cs = first # rest" "model_reasoning first = Some s0"
    "intersect_candidates s0 rest = Some r"
    using assms(1,3) by (auto simp: alias_reasoning_def split: list.splits option.splits)
  then show ?thesis
    using accepts_intersect_candidates [OF cs(3) assms(2)] assms(4) by auto
qed

theorem alias_reasoning_promise_witness:
  "\<exists>r s. alias_reasoning AUTO_QUICK_MODEL_ID Plan_Paid = Some r \<and> accepts r Effort_High \<and>
     model_reasoning GLM_5_3_FLASH_MODEL_ID = Some s \<and> accepts s Effort_High"
proof -
  have ne: "QUICK_MODEL_ID \<noteq> GLM_5_3_FLASH_MODEL_ID" by (simp add: model_ids)
  have mq: "model_reasoning QUICK_MODEL_ID = Some DEEPSEEK_V4_1_FLASH_REASONING"
    and mg: "model_reasoning GLM_5_3_FLASH_MODEL_ID = Some GLM_5_3_REASONING"
    by (simp_all add: model_reasoning_def model_entry_def catalog_tables model_ids)
  have cands: "auto_model_candidates (from_requested_model AUTO_QUICK_MODEL_ID) Plan_Paid
      = Some [QUICK_MODEL_ID, GLM_5_3_FLASH_MODEL_ID]"
    using ne by (auto simp: auto_eval from_requested_model_def)
  let ?r = "intersect_reasoning DEEPSEEK_V4_1_FLASH_REASONING GLM_5_3_REASONING"
  have r: "alias_reasoning AUTO_QUICK_MODEL_ID Plan_Paid = Some ?r"
    by (simp add: alias_reasoning_def cands mq mg)
  have acc: "accepts ?r Effort_High"
    unfolding accepts_intersect_reasoning by (simp add: accepts_def DEEPSEEK_V4_1_FLASH_REASONING_def
        GLM_5_3_REASONING_def tiers_def effort_set_of_contains)
  from alias_reasoning_promise [OF r acc cands, of GLM_5_3_FLASH_MODEL_ID] r acc show ?thesis
    by auto
qed

end
