(* ===== verification/Route_Planning.thy ===== *)
theory Route_Planning
  imports Auto_Model
begin

text \<open>
  Completion route planning (\<open>services/opensecret/src/inference_planning.rs\<close>) and the inference intent it
  plans for (\<open>inference.rs\<close>). Weights are \<open>u32\<close>; sums and products wrap as the release build's do, and the
  lemmas show that the compiled weights never make them wrap. The specification of the weighted choice
  is a division of the hundred account buckets into consecutive intervals, one per eligible route.
\<close>

section \<open>Intents\<close>

record inference_intent =
  ii_request_id :: inference_uuid
  ii_account_uuid :: inference_uuid
  ii_requested_model_id :: string
  ii_public_model_id :: string
  ii_auto_model :: "auto_model_decision option"
  ii_selection_mode :: model_selection_mode
  ii_model_plan :: model_plan
  ii_surface :: inference_surface
  ii_workload_class :: workload_class

definition new_intent ::
  "inference_uuid \<Rightarrow> inference_uuid \<Rightarrow> string \<Rightarrow> string \<Rightarrow> model_plan \<Rightarrow> inference_surface \<Rightarrow>
   workload_class \<Rightarrow> inference_intent" where
  "new_intent fresh account_uuid requested_model_id public_model_id plan surface workload =
     \<lparr>ii_request_id = fresh, ii_account_uuid = account_uuid,
      ii_requested_model_id = requested_model_id, ii_public_model_id = public_model_id,
      ii_auto_model = None, ii_selection_mode = from_requested_model requested_model_id,
      ii_model_plan = plan, ii_surface = surface, ii_workload_class = workload\<rparr>"

definition with_auto_model_decision :: "inference_intent \<Rightarrow> auto_model_decision \<Rightarrow> inference_intent" where
  "with_auto_model_decision self decision =
     self\<lparr>ii_public_model_id := amd_chosen_model_id decision, ii_auto_model := Some decision\<rparr>"

definition preferred_model_id :: "inference_intent \<Rightarrow> string" where
  "preferred_model_id self =
     (case ii_auto_model self of
        None \<Rightarrow> ii_public_model_id self
      | Some decision \<Rightarrow> amd_preferred_model_id decision)"

definition intent_auto_model_reason :: "inference_intent \<Rightarrow> auto_model_reason option" where
  "intent_auto_model_reason self = map_option amd_reason (ii_auto_model self)"

definition begin_execution :: "inference_intent \<Rightarrow> inference_uuid \<Rightarrow> inference_execution" where
  "begin_execution self fresh = \<lparr>ie_request_id = ii_request_id self, ie_execution_id = fresh\<rparr>"

section \<open>Plans\<close>

record route_planning_input =
  rpi_intent :: inference_intent
  rpi_configured_providers :: configured_providers
  rpi_remembered_provider :: "provider_id option"

record route_candidate =
  rcand_provider :: provider_id
  rcand_public_model_id :: string
  rcand_provider_model_id :: string
  rcand_response_model_id :: string
  rcand_effective_weight :: u32

datatype plan_decision = FixedRoute | StaticBucket | RememberedRoute

datatype candidate_scope = SamePublicModelOnly

record route_plan =
  rp_selected :: route_identity
  rp_eligible_routes :: "route_candidate list"
  rp_decision :: plan_decision
  rp_candidate_scope :: candidate_scope
  rp_policy_version :: string

datatype route_planning_error = UnsupportedModel string | NoEligibleRoute string

definition stable_account_bucket :: "inference_uuid \<Rightarrow> u8" where
  "stable_account_bucket account_uuid = ucast (account_uuid mod 100)"

text \<open>
  The loop of \<open>select_weighted_route\<close> over the routes that are left, with the cumulative span so far.
\<close>

definition u32_saturating_add :: "u32 \<Rightarrow> u32 \<Rightarrow> u32" where
  "u32_saturating_add a b = (if unat a + unat b < 2 ^ 32 then a + b else -1)"

definition u32_saturating_sub :: "u32 \<Rightarrow> u32 \<Rightarrow> u32" where
  "u32_saturating_sub a b = (if b \<le> a then a - b else 0)"

fun select_loop :: "u8 \<Rightarrow> u32 \<Rightarrow> u32 \<Rightarrow> route_candidate list \<Rightarrow> route_candidate option" where
  "select_loop bucket total_weight cumulative [] = None"
| "select_loop bucket total_weight cumulative (route # routes) =
     (let is_last = (routes = []);
          bucket_span = (if is_last then u32_saturating_sub 100 cumulative
                         else rcand_effective_weight route * 100 div total_weight);
          cumulative = u32_saturating_add cumulative bucket_span
      in if ucast bucket < cumulative \<or> is_last then Some route
         else select_loop bucket total_weight cumulative routes)"

definition select_weighted_route :: "u8 \<Rightarrow> route_candidate list \<Rightarrow> route_candidate option" where
  "select_weighted_route bucket routes =
     (let total_weight = foldl (\<lambda>acc r. acc + rcand_effective_weight r) 0 routes
      in if total_weight = 0 then None else select_loop bucket total_weight 0 routes)"

definition build_plan ::
  "route_candidate \<Rightarrow> route_candidate list \<Rightarrow> route_selection_source \<Rightarrow> u8 option \<Rightarrow> plan_decision \<Rightarrow>
   string \<Rightarrow> route_plan" where
  "build_plan selected eligible_routes selection_source bucket decision policy_version =
     \<lparr>rp_selected = new_route_identity (rcand_provider selected) (rcand_public_model_id selected)
        (rcand_provider_model_id selected) (rcand_response_model_id selected) selection_source bucket,
      rp_eligible_routes = eligible_routes, rp_decision = decision,
      rp_candidate_scope = SamePublicModelOnly, rp_policy_version = policy_version\<rparr>"

text \<open>The \<open>filter_map\<close> over the routes of the model.\<close>

definition eligible_route ::
  "provider_registry \<Rightarrow> configured_providers \<Rightarrow> completion_model_spec \<Rightarrow> model_route_spec \<Rightarrow>
   route_candidate option" where
  "eligible_route registry configured model route =
     (if \<not> mrs_enabled route \<or> mrs_weight route = 0 then None
      else case registry_provider registry (mrs_provider route) of
        None \<Rightarrow> None
      | Some provider \<Rightarrow>
          if \<not> ps_enabled provider \<or> ps_weight provider = 0
             \<or> \<not> contains_provider configured (mrs_provider route) then None
          else Some \<lparr>rcand_provider = mrs_provider route,
                     rcand_public_model_id = cms_public_model_id model,
                     rcand_provider_model_id = mrs_provider_model_id route,
                     rcand_response_model_id = mrs_response_model_id route,
                     rcand_effective_weight = ucast (ps_weight provider) * ucast (mrs_weight route)\<rparr>)"

definition enabled_route :: "provider_registry \<Rightarrow> model_route_spec \<Rightarrow> bool" where
  "enabled_route registry route \<longleftrightarrow>
     mrs_enabled route \<and> 0 < mrs_weight route \<and>
     (case registry_provider registry (mrs_provider route) of
        None \<Rightarrow> False | Some provider \<Rightarrow> ps_enabled provider \<and> 0 < ps_weight provider)"

definition plan_completion_route ::
  "provider_registry \<Rightarrow> route_planning_input \<Rightarrow> route_planning_error + route_plan" where
  "plan_completion_route registry input =
     (case registry_completion_model registry (ii_public_model_id (rpi_intent input)) of
        None \<Rightarrow> Inl (UnsupportedModel (ii_public_model_id (rpi_intent input)))
      | Some model \<Rightarrow>
          let policy_version = (if list_ex (\<lambda>route. is_maple (mrs_provider route)) (cms_routes model)
                                then MAPLE_ROUTING_POLICY_VERSION else SHADOW_ROUTING_POLICY_VERSION);
              eligible_routes = List.map_filter
                (eligible_route registry (rpi_configured_providers input) model) (cms_routes model)
          in if eligible_routes = [] then Inl (NoEligibleRoute (cms_public_model_id model))
          else
            let enabled_route_count = length (filter (enabled_route registry) (cms_routes model));
                selection_source = (if length eligible_routes < enabled_route_count then Fallback
                                    else StaticSplit)
            in if length eligible_routes = 1 then
                 Inr (build_plan (hd eligible_routes) eligible_routes selection_source None FixedRoute
                        policy_version)
               else
                 let bucket = stable_account_bucket (ii_account_uuid (rpi_intent input)) in
                 case select_weighted_route bucket eligible_routes of
                   None \<Rightarrow> Inl (NoEligibleRoute (cms_public_model_id model))
                 | Some selected \<Rightarrow>
                     (case (case rpi_remembered_provider input of
                              None \<Rightarrow> None
                            | Some provider \<Rightarrow>
                                if provider \<noteq> rcand_provider selected
                                then find (\<lambda>route. rcand_provider route = provider) eligible_routes
                                else None) of
                        Some remembered \<Rightarrow>
                          Inr (build_plan remembered eligible_routes Sticky None RememberedRoute
                                 policy_version)
                      | None \<Rightarrow>
                          Inr (build_plan selected eligible_routes selection_source (Some bucket)
                                 StaticBucket policy_version)))"

section \<open>The weighted choice\<close>

definition weight_of :: "route_candidate \<Rightarrow> nat" where
  "weight_of r = unat (rcand_effective_weight r)"

definition total_of :: "route_candidate list \<Rightarrow> nat" where
  "total_of rs = sum_list (map weight_of rs)"

text \<open>No \<open>u32\<close> computation of the weighted choice wraps around.\<close>

definition no_wrap :: "route_candidate list \<Rightarrow> bool" where
  "no_wrap rs \<longleftrightarrow> total_of rs * 100 < 2 ^ 32"

lemma unat_foldl_weights:
  assumes "unat a + total_of rs < 2 ^ 32"
  shows "unat (foldl (\<lambda>acc r. acc + rcand_effective_weight r) a rs) = unat a + total_of rs"
  using assms
proof (induction rs arbitrary: a)
  case Nil
  then show ?case by (simp add: total_of_def)
next
  case (Cons r rs)
  have "unat (a + rcand_effective_weight r) = unat a + weight_of r"
    using Cons.prems by (simp add: unat_word_ariths weight_of_def total_of_def)
  then show ?case
    using Cons.IH [of "a + rcand_effective_weight r"] Cons.prems by (simp add: total_of_def)
qed

lemma weight_le_total: "r \<in> set rs \<Longrightarrow> weight_of r \<le> total_of rs"
  unfolding total_of_def by (rule member_le_sum_list) auto

lemma unat_add_no_wrap: "unat a + unat b < 2 ^ 32 \<Longrightarrow> unat (a + b) = unat a + unat (b :: u32)"
  by (simp add: unat_word_ariths)

lemma unat_span:
  assumes "weight_of r * 100 < 2 ^ 32"
  shows "unat (rcand_effective_weight r * 100 div W) = weight_of r * 100 div unat W"
  using assms by (simp add: unat_div unat_word_ariths weight_of_def)

text \<open>The loop on natural numbers: consecutive intervals of buckets.\<close>

fun owner :: "nat \<Rightarrow> nat \<Rightarrow> nat \<Rightarrow> route_candidate list \<Rightarrow> route_candidate option" where
  "owner b W cum [] = None"
| "owner b W cum [r] = Some r"
| "owner b W cum (r # r' # rs) =
     (let cum = cum + weight_of r * 100 div W in
      if b < cum then Some r else owner b W cum (r' # rs))"

lemma select_loop_owner:
  assumes "\<And>r. r \<in> set rs \<Longrightarrow> weight_of r * 100 < 2 ^ 32"
    and "unat cum * unat W + total_of rs * 100 < 2 ^ 32 * unat W" and "0 < unat W"
  shows "select_loop b W cum rs = owner (unat b) (unat W) (unat cum) rs"
  using assms
proof (induction rs arbitrary: cum)
  case Nil
  then show ?case by simp
next
  case (Cons r rs)
  show ?case
  proof (cases rs)
    case Nil
    then show ?thesis by simp
  next
    case (Cons r' rs')
    let ?span = "weight_of r * 100 div unat W"
    have span: "unat (rcand_effective_weight r * 100 div W) = ?span"
      using Cons.prems(1) by (intro unat_span) simp
    have mult: "(unat cum + ?span) * unat W \<le> unat cum * unat W + weight_of r * 100"
      by (simp add: add_mult_distrib)
    then have bound: "(unat cum + ?span) * unat W + total_of rs * 100 < 2 ^ 32 * unat W"
      using Cons.prems(2) by (simp add: total_of_def)
    then have "(unat cum + ?span) * unat W < 2 ^ 32 * unat W" by linarith
    then have lt: "unat cum + ?span < 2 ^ 32" by simp
    have add: "u32_saturating_add cum (rcand_effective_weight r * 100 div W)
          = cum + rcand_effective_weight r * 100 div W"
      unfolding u32_saturating_add_def span using lt by simp
    have un: "unat (cum + rcand_effective_weight r * 100 div W) = unat cum + ?span"
      using unat_add_no_wrap [of cum "rcand_effective_weight r * 100 div W"] lt unfolding span by simp
    have ih: "select_loop b W (cum + rcand_effective_weight r * 100 div W) rs =
        owner (unat b) (unat W) (unat cum + ?span) rs"
      using Cons.IH [of "cum + rcand_effective_weight r * 100 div W"] Cons.prems bound un by simp
    have less: "(ucast b < cum + rcand_effective_weight r * 100 div W) = (unat b < unat cum + ?span)"
      by (simp add: word_less_nat_alt un)
    show ?thesis
      using ih less by (simp add: \<open>rs = r' # rs'\<close> add Let_def)
  qed
qed

text \<open>The first bucket of the interval of the \<open>i\<close>-th route.\<close>

definition interval_start :: "route_candidate list \<Rightarrow> nat \<Rightarrow> nat" where
  "interval_start rs i = (\<Sum>j < i. weight_of (rs ! j) * 100 div total_of rs)"

lemma owner_interval:
  assumes "i < length rs" and "cum + (\<Sum>j < i. weight_of (rs ! j) * 100 div W) \<le> b"
    and "Suc i < length rs \<Longrightarrow> b < cum + (\<Sum>j < Suc i. weight_of (rs ! j) * 100 div W)"
  shows "owner b W cum rs = Some (rs ! i)"
  using assms
proof (induction b W cum rs arbitrary: i rule: owner.induct)
  case (3 b W cum r r' rs)
  let ?cum = "cum + weight_of r * 100 div W"
  show ?case
  proof (cases i)
    case 0
    then show ?thesis using 3 by simp
  next
    case (Suc k)
    have shift: "(\<Sum>j < Suc n. weight_of ((r # r' # rs) ! j) * 100 div W) =
        weight_of r * 100 div W + (\<Sum>j < n. weight_of ((r' # rs) ! j) * 100 div W)" for n
      by (subst sum.lessThan_Suc_shift) simp
    have le: "?cum + (\<Sum>j < k. weight_of ((r' # rs) ! j) * 100 div W) \<le> b"
      using 3(3) shift [of k] by (simp add: Suc del: sum.lessThan_Suc)
    then have "\<not> b < ?cum" by linarith
    moreover have "owner b W ?cum (r' # rs) = Some ((r' # rs) ! k)"
    proof (rule 3(1) [OF refl \<open>\<not> b < ?cum\<close>])
      show "k < length (r' # rs)" using 3(2) by (simp add: Suc)
      show "?cum + (\<Sum>j < k. weight_of ((r' # rs) ! j) * 100 div W) \<le> b" by (rule le)
      assume "Suc k < length (r' # rs)"
      then have "b < cum + (\<Sum>j < Suc (Suc k). weight_of ((r # r' # rs) ! j) * 100 div W)"
        using 3(4) by (simp add: Suc del: sum.lessThan_Suc)
      then show "b < ?cum + (\<Sum>j < Suc k. weight_of ((r' # rs) ! j) * 100 div W)"
        unfolding shift by (simp del: sum.lessThan_Suc)
    qed
    ultimately show ?thesis by (simp add: Suc Let_def)
  qed
qed simp_all

lemma weighted_choice_intervals_lemma:
  assumes "no_wrap routes" and "0 < total_of routes" and "i < length routes"
    and "interval_start routes i \<le> unat bucket"
    and "Suc i < length routes \<Longrightarrow> unat bucket < interval_start routes (Suc i)"
  shows "select_weighted_route bucket routes = Some (routes ! i)"
proof -
  define W where "W = foldl (\<lambda>acc r. acc + rcand_effective_weight r) (0 :: u32) routes"
  have tot: "unat W = total_of routes"
    unfolding W_def using assms(1) by (subst unat_foldl_weights) (auto simp: no_wrap_def)
  have "W \<noteq> 0" using tot assms(2) by auto
  have "weight_of r * 100 < 2 ^ 32" if "r \<in> set routes" for r
    using weight_le_total [OF that] assms(1) by (simp add: no_wrap_def)
  then have "select_loop bucket W 0 routes = owner (unat bucket) (total_of routes) 0 routes"
    using assms(1,2) by (subst select_loop_owner) (auto simp: tot no_wrap_def)
  also have "\<dots> = Some (routes ! i)"
    using assms(3-5) by (intro owner_interval) (auto simp: interval_start_def)
  finally show ?thesis
    using \<open>W \<noteq> 0\<close> by (simp add: select_weighted_route_def W_def [symmetric])
qed

text \<open>
  the weighted choice divides the hundred account buckets into consecutive intervals, one per eligible
  route in table order: route \<open>i\<close> gets the whole part of its share of the total weight in percent, and
  the last route gets all buckets that are left. No computation on 32-bit weights wraps.
\<close>

theorem weighted_choice_intervals:
  assumes "no_wrap routes" and "0 < total_of routes" and "i < length routes"
    and "interval_start routes i \<le> unat bucket"
    and "Suc i < length routes \<Longrightarrow> unat bucket < interval_start routes (Suc i)"
  shows "select_weighted_route bucket routes = Some (routes ! i)"
  using assms by (rule weighted_choice_intervals_lemma)

lemma weighted_choice_intervals_witness_routes:
  "no_wrap [c1, c2] \<and> total_of [c1, c2] = 28000" if "weight_of c1 = 21000" "weight_of c2 = 7000"
  using that by (simp add: no_wrap_def total_of_def)

theorem weighted_choice_intervals_witness:
  "select_weighted_route 74
     [\<lparr>rcand_provider = Continuum, rcand_public_model_id = ''m'', rcand_provider_model_id = ''m'',
       rcand_response_model_id = ''m'', rcand_effective_weight = 21000\<rparr>,
      \<lparr>rcand_provider = Tinfoil, rcand_public_model_id = ''m'', rcand_provider_model_id = ''m'',
       rcand_response_model_id = ''m'', rcand_effective_weight = 7000\<rparr>]
   = Some \<lparr>rcand_provider = Continuum, rcand_public_model_id = ''m'', rcand_provider_model_id = ''m'',
       rcand_response_model_id = ''m'', rcand_effective_weight = 21000\<rparr>"
proof -
  let ?c1 = "\<lparr>rcand_provider = Continuum, rcand_public_model_id = ''m'', rcand_provider_model_id = ''m'',
       rcand_response_model_id = ''m'', rcand_effective_weight = 21000\<rparr>"
  let ?c2 = "\<lparr>rcand_provider = Tinfoil, rcand_public_model_id = ''m'', rcand_provider_model_id = ''m'',
       rcand_response_model_id = ''m'', rcand_effective_weight = 7000\<rparr>"
  have w: "weight_of ?c1 = 21000" "weight_of ?c2 = 7000" by (simp_all add: weight_of_def)
  note t = weighted_choice_intervals_witness_routes [OF w]
  from weighted_choice_intervals [of "[?c1, ?c2]" 0 74] show ?thesis
    using t w by (simp add: interval_start_def)
qed

section \<open>Plans are sound\<close>

lemma eligible_route_Some:
  assumes "eligible_route reg conf m r = Some c"
  shows "enabled_route reg r \<and> contains_provider conf (mrs_provider r) \<and>
         rcand_provider c = mrs_provider r \<and> rcand_public_model_id c = cms_public_model_id m \<and>
         rcand_provider_model_id c = mrs_provider_model_id r \<and>
         rcand_response_model_id c = mrs_response_model_id r"
  using assms
  by (auto simp: eligible_route_def enabled_route_def word_gt_0 split: if_splits option.splits)

lemma eligible_route_iff:
  "eligible_route reg conf m r \<noteq> None \<longleftrightarrow> enabled_route reg r \<and> contains_provider conf (mrs_provider r)"
  by (auto simp: eligible_route_def enabled_route_def word_gt_0 split: if_splits option.splits)

lemma in_map_filter: "x \<in> set (List.map_filter f xs) \<longleftrightarrow> (\<exists>y \<in> set xs. f y = Some x)"
  by (force simp: List.map_filter_def)

lemma select_loop_in: "select_loop b W cum rs = Some r \<Longrightarrow> r \<in> set rs"
  by (induction b W cum rs rule: select_loop.induct) (auto simp: Let_def split: if_splits)

lemma select_weighted_route_in: "select_weighted_route b rs = Some r \<Longrightarrow> r \<in> set rs"
  by (auto simp: select_weighted_route_def Let_def split: if_splits dest: select_loop_in)

lemma completion_model_id:
  "registry_completion_model reg i = Some m \<Longrightarrow> cms_public_model_id m = i \<and> m \<in> set (pr_completion_models reg)"
  by (auto simp: registry_completion_model_def dest: find_Some_set)

text \<open>What a plan says about its selected route and the candidate it was built from.\<close>

definition selects :: "route_plan \<Rightarrow> route_candidate \<Rightarrow> bool" where
  "selects plan c \<longleftrightarrow>
     ri_provider (rp_selected plan) = rcand_provider c \<and>
     ri_public_model_id (rp_selected plan) = rcand_public_model_id c \<and>
     ri_provider_model_id (rp_selected plan) = rcand_provider_model_id c \<and>
     ri_response_model_id (rp_selected plan) = rcand_response_model_id c"

lemma selects_build_plan [simp]: "selects (build_plan c es src b d v) c"
  by (simp add: selects_def build_plan_def new_route_identity_def)

lemma build_plan_fields [simp]:
  "rp_eligible_routes (build_plan c es src b d v) = es"
  "rp_decision (build_plan c es src b d v) = d"
  "ri_provider (rp_selected (build_plan c es src b d v)) = rcand_provider c"
  "ri_selection_source (rp_selected (build_plan c es src b d v)) = src"
  by (simp_all add: build_plan_def new_route_identity_def)

lemma plan_cases:
  assumes "plan_completion_route reg input = Inr plan"
  obtains m es c where
    "registry_completion_model reg (ii_public_model_id (rpi_intent input)) = Some m"
    and "es = List.map_filter (eligible_route reg (rpi_configured_providers input) m) (cms_routes m)"
    and "rp_eligible_routes plan = es" and "c \<in> set es" and "selects plan c"
    and "\<And>p. rpi_remembered_provider input = Some p \<Longrightarrow> p \<in> rcand_provider ` set es \<Longrightarrow>
             ri_provider (rp_selected plan) = p"
    and "rp_decision plan = RememberedRoute \<Longrightarrow>
           rpi_remembered_provider input = Some (ri_provider (rp_selected plan))"
proof -
  obtain m where m: "registry_completion_model reg (ii_public_model_id (rpi_intent input)) = Some m"
    using assms by (auto simp: plan_completion_route_def split: option.splits)
  define es where
    es_def: "es = List.map_filter (eligible_route reg (rpi_configured_providers input) m) (cms_routes m)"
  have ne: "es \<noteq> []"
    using assms m by (auto simp: plan_completion_route_def es_def Let_def split: if_splits)
  show ?thesis
  proof (cases "length es = 1")
    case True
    then obtain c where c: "es = [c]" by (cases es) auto
    then show ?thesis
      using that [OF m es_def, of c] assms m ne True
      by (auto simp: plan_completion_route_def es_def [symmetric] Let_def split: if_splits)
  next
    case False
    then obtain w where w: "select_weighted_route
        (stable_account_bucket (ii_account_uuid (rpi_intent input))) es = Some w"
      using assms m ne
      by (auto simp: plan_completion_route_def es_def [symmetric] Let_def split: option.splits if_splits)
    note w_in = select_weighted_route_in [OF w]
    define rem where "rem = (case rpi_remembered_provider input of
        None \<Rightarrow> None
      | Some provider \<Rightarrow> if provider \<noteq> rcand_provider w
          then find (\<lambda>route. rcand_provider route = provider) es else None)"
    have some: "r \<in> set es \<and> rpi_remembered_provider input = Some (rcand_provider r)" if "rem = Some r" for r
      using that by (auto simp: rem_def dest: find_Some_set split: option.splits if_splits)
    have none: "p = rcand_provider w"
      if "rem = None" "rpi_remembered_provider input = Some p" "p \<in> rcand_provider ` set es" for p
      using that by (auto simp: rem_def find_None_iff split: if_splits)
    let ?src = "if length es < length (filter (enabled_route reg) (cms_routes m)) then Fallback else StaticSplit"
    let ?ver = "if list_ex (\<lambda>route. is_maple (mrs_provider route)) (cms_routes m)
      then MAPLE_ROUTING_POLICY_VERSION else SHADOW_ROUTING_POLICY_VERSION"
    let ?bucket = "stable_account_bucket (ii_account_uuid (rpi_intent input))"
    have plan: "plan = (case rem of Some r \<Rightarrow> build_plan r es Sticky None RememberedRoute ?ver
        | None \<Rightarrow> build_plan w es ?src (Some ?bucket) StaticBucket ?ver)"
      using assms m ne False w
      by (cases "rpi_remembered_provider input")
         (auto simp: plan_completion_route_def es_def [symmetric] Let_def rem_def
           split: option.splits if_splits)
    show ?thesis
    proof (cases rem)
      case None
      have fields: "plan = build_plan w es ?src (Some ?bucket) StaticBucket ?ver"
        using plan None by simp
      show ?thesis
      proof (rule that [OF m es_def _ w_in])
        fix p
        assume "rpi_remembered_provider input = Some p" and "p \<in> rcand_provider ` set es"
        from none [OF None this] show "ri_provider (rp_selected plan) = p"
          by (simp add: fields)
      qed (simp_all add: fields)
    next
      case (Some r)
      have fields: "plan = build_plan r es Sticky None RememberedRoute ?ver"
        using plan Some by simp
      show ?thesis
        by (rule that [OF m es_def, of r]) (simp_all add: fields some [OF Some])
    qed
  qed
qed

text \<open>
  C35: a plan selects one of the eligible routes of the model that was asked for, under a configured and
  enabled provider; it never leaves the public model. A remembered provider is kept whenever it is still
  eligible, and a plan is called a remembered route only then.
\<close>

theorem plan_is_sound:
  assumes "plan_completion_route registry input = Inr plan"
  shows "\<exists>m r. registry_completion_model registry (ii_public_model_id (rpi_intent input)) = Some m \<and>
           r \<in> set (cms_routes m) \<and> enabled_route registry r \<and>
           contains_provider (rpi_configured_providers input) (mrs_provider r) \<and>
           ri_provider (rp_selected plan) = mrs_provider r \<and>
           ri_provider_model_id (rp_selected plan) = mrs_provider_model_id r \<and>
           ri_response_model_id (rp_selected plan) = mrs_response_model_id r \<and>
           ri_public_model_id (rp_selected plan) = ii_public_model_id (rpi_intent input) \<and>
           (\<forall>c \<in> set (rp_eligible_routes plan).
              rcand_public_model_id c = ii_public_model_id (rpi_intent input)) \<and>
           (\<forall>p. rpi_remembered_provider input = Some p \<and> p \<in> rcand_provider ` set (rp_eligible_routes plan) \<longrightarrow>
              ri_provider (rp_selected plan) = p) \<and>
           (rp_decision plan = RememberedRoute \<longrightarrow>
              rpi_remembered_provider input = Some (ri_provider (rp_selected plan)))"
  using assms
proof (cases rule: plan_cases)
  case (1 m es c)
  from 1(2,4) obtain r where r: "r \<in> set (cms_routes m)"
    "eligible_route registry (rpi_configured_providers input) m r = Some c"
    by (auto simp: in_map_filter)
  have "\<forall>c \<in> set es. rcand_public_model_id c = ii_public_model_id (rpi_intent input)"
  proof
    fix c'
    assume "c' \<in> set es"
    then obtain r' where "eligible_route registry (rpi_configured_providers input) m r' = Some c'"
      using 1(2) by (auto simp: in_map_filter)
    from eligible_route_Some [OF this] show "rcand_public_model_id c' = ii_public_model_id (rpi_intent input)"
      using completion_model_id [OF 1(1)] by simp
  qed
  then have cands: "\<forall>c \<in> set (rp_eligible_routes plan).
      rcand_public_model_id c = ii_public_model_id (rpi_intent input)"
    by (simp add: 1(3))
  have sticky: "\<forall>p. rpi_remembered_provider input = Some p \<and>
      p \<in> rcand_provider ` set (rp_eligible_routes plan) \<longrightarrow> ri_provider (rp_selected plan) = p"
    unfolding 1(3) using 1(6) by blast
  have fields: "enabled_route registry r" "contains_provider (rpi_configured_providers input) (mrs_provider r)"
    "ri_provider (rp_selected plan) = mrs_provider r"
    "ri_provider_model_id (rp_selected plan) = mrs_provider_model_id r"
    "ri_response_model_id (rp_selected plan) = mrs_response_model_id r"
    "ri_public_model_id (rp_selected plan) = ii_public_model_id (rpi_intent input)"
    using 1(5) eligible_route_Some [OF r(2)] completion_model_id [OF 1(1)]
    by (simp_all add: selects_def)
  show ?thesis
    using 1(1,7) r(1) fields cands sticky by blast
qed

section \<open>Plans under the compiled registry\<close>

lemma unat_effective_weight:
  "unat (ucast (a :: u16) * ucast (b :: u16) :: u32) = unat a * unat b"
proof -
  have "unat a \<le> 2 ^ 16 - 1" and "unat b \<le> 2 ^ 16 - 1"
    using unsigned_less [of a, where ?'a = nat] unsigned_less [of b, where ?'a = nat] by simp_all
  then have "unat a * unat b \<le> (2 ^ 16 - 1) * (2 ^ 16 - 1)" by (rule mult_le_mono)
  then have "unat a * unat b < 2 ^ 32" by simp
  then show ?thesis by (simp add: unat_word_ariths)
qed

lemma eligible_weight:
  assumes "eligible_route reg conf m r = Some c"
  shows "\<exists>p. registry_provider reg (mrs_provider r) = Some p \<and>
             weight_of c = unat (ps_weight p) * unat (mrs_weight r) \<and> 0 < weight_of c"
proof -
  obtain p where p: "registry_provider reg (mrs_provider r) = Some p" "mrs_weight r \<noteq> 0" "ps_weight p \<noteq> 0"
    and c: "rcand_effective_weight c = ucast (ps_weight p) * ucast (mrs_weight r)"
    using assms by (auto simp: eligible_route_def split: if_splits option.splits)
  have "weight_of c = unat (ps_weight p) * unat (mrs_weight r)"
    unfolding weight_of_def c by (rule unat_effective_weight)
  then show ?thesis using p by (simp add: unat_gt_0)
qed

text \<open>Every compiled provider weighs at most 100, every route at most 700, and no model has three routes.\<close>

lemma registry_weights:
  "\<forall>m \<in> set (pr_completion_models PROVIDER_REGISTRY).
     length (cms_routes m) \<le> 2 \<and>
     (\<forall>r \<in> set (cms_routes m). unat (mrs_weight r) \<le> 700 \<and> enabled_route PROVIDER_REGISTRY r)"
  by (simp add: registry_lists route_tables enabled_route_def registry_provider_def word_gt_0)

lemma registry_provider_weight:
  "registry_provider PROVIDER_REGISTRY p = Some s \<Longrightarrow> unat (ps_weight s) \<le> 100"
  by (auto simp: registry_provider_def registry_lists split: if_splits)

lemma sum_list_bound: "(\<And>x. x \<in> set xs \<Longrightarrow> f x \<le> (k :: nat)) \<Longrightarrow> sum_list (map f xs) \<le> length xs * k"
  by (induction xs) (auto intro!: add_mono)

lemma compiled_no_wrap:
  assumes "m \<in> set (pr_completion_models PROVIDER_REGISTRY)"
    and es: "es = List.map_filter (eligible_route PROVIDER_REGISTRY conf m) (cms_routes m)"
  shows "no_wrap es \<and> (es \<noteq> [] \<longrightarrow> 0 < total_of es)"
proof -
  have w: "0 < weight_of c \<and> weight_of c \<le> 70000" if c: "c \<in> set es" for c
  proof -
    obtain r where r: "r \<in> set (cms_routes m)" "eligible_route PROVIDER_REGISTRY conf m r = Some c"
      using c es by (auto simp: in_map_filter)
    from eligible_weight [OF r(2)] obtain p where
      p: "registry_provider PROVIDER_REGISTRY (mrs_provider r) = Some p"
        "weight_of c = unat (ps_weight p) * unat (mrs_weight r)" "0 < weight_of c" by blast
    have "unat (ps_weight p) * unat (mrs_weight r) \<le> 100 * 700"
      using registry_provider_weight [OF p(1)] registry_weights assms(1) r(1)
      by (intro mult_le_mono) auto
    then show ?thesis using p by simp
  qed
  have "length es \<le> length (cms_routes m)"
    unfolding es List.map_filter_def by simp
  then have "length es \<le> 2"
    using registry_weights assms(1) by fastforce
  moreover have "total_of es \<le> length es * 70000"
    unfolding total_of_def using w by (intro sum_list_bound) auto
  ultimately have "no_wrap es" by (auto simp: no_wrap_def)
  moreover have "0 < total_of es" if "es \<noteq> []"
    using w [of "hd es"] weight_le_total [of "hd es" es] that by auto
  ultimately show ?thesis by blast
qed

lemma select_weighted_route_total:
  assumes "no_wrap es" and "0 < total_of es"
  shows "select_weighted_route b es \<noteq> None"
proof -
  have loop: "rs \<noteq> [] \<Longrightarrow> select_loop b W cum rs \<noteq> None" for W cum rs
    by (induction b W cum rs rule: select_loop.induct) (auto simp: Let_def)
  have "es \<noteq> []" using assms(2) by (auto simp: total_of_def)
  moreover have "foldl (\<lambda>acc r. acc + rcand_effective_weight r) (0 :: u32) es \<noteq> 0"
    using unat_foldl_weights [of 0 es] assms by (auto simp: no_wrap_def)
  ultimately show ?thesis
    using loop by (simp add: select_weighted_route_def Let_def)
qed

text \<open>
  C36: with the compiled registry, planning succeeds exactly when the model is routed and one of its
  providers is configured; it never gives up because of the weights.
\<close>

theorem compiled_plan_total:
  "(\<exists>plan. plan_completion_route PROVIDER_REGISTRY input = Inr plan) \<longleftrightarrow>
   (\<exists>m r. registry_completion_model PROVIDER_REGISTRY (ii_public_model_id (rpi_intent input)) = Some m \<and>
      r \<in> set (cms_routes m) \<and> contains_provider (rpi_configured_providers input) (mrs_provider r))"
  (is "?L \<longleftrightarrow> ?R")
proof
  assume ?L
  then obtain plan where "plan_completion_route PROVIDER_REGISTRY input = Inr plan" by blast
  then show ?R
  proof (cases rule: plan_cases)
    case (1 m es c)
    then show ?thesis by (auto simp: in_map_filter dest!: eligible_route_Some)
  qed
next
  assume ?R
  then obtain m r where m: "registry_completion_model PROVIDER_REGISTRY (ii_public_model_id (rpi_intent input)) = Some m"
    and r: "r \<in> set (cms_routes m)" "contains_provider (rpi_configured_providers input) (mrs_provider r)"
    by blast
  have mem: "m \<in> set (pr_completion_models PROVIDER_REGISTRY)"
    using completion_model_id [OF m] by simp
  then have "enabled_route PROVIDER_REGISTRY r"
    using r(1) registry_weights by blast
  define es where "es = List.map_filter (eligible_route PROVIDER_REGISTRY (rpi_configured_providers input) m)
      (cms_routes m)"
  obtain c where "eligible_route PROVIDER_REGISTRY (rpi_configured_providers input) m r = Some c"
    using eligible_route_iff [of PROVIDER_REGISTRY _ m r] \<open>enabled_route PROVIDER_REGISTRY r\<close> r(2) by blast
  then have "c \<in> set es" using r(1) by (auto simp: es_def in_map_filter)
  then have "es \<noteq> []" by auto
  then obtain w where "select_weighted_route
      (stable_account_bucket (ii_account_uuid (rpi_intent input))) es = Some w"
    using compiled_no_wrap [OF mem es_def] select_weighted_route_total by blast
  then show ?L
    using m \<open>es \<noteq> []\<close>
    by (auto simp: plan_completion_route_def es_def [symmetric] Let_def split: option.splits)
qed

definition sample_intent :: "inference_uuid \<Rightarrow> string \<Rightarrow> inference_intent" where
  "sample_intent account model = new_intent 1 account model model Plan_Paid ChatCompletions Interactive"

theorem plan_is_sound_witness:
  "\<exists>plan. plan_completion_route PROVIDER_REGISTRY
       \<lparr>rpi_intent = sample_intent 7 KIMI_K3_MODEL_ID,
        rpi_configured_providers = with_provider no_providers Tinfoil, rpi_remembered_provider = None\<rparr>
     = Inr plan \<and> ri_public_model_id (rp_selected plan) = KIMI_K3_MODEL_ID"
proof -
  let ?input = "\<lparr>rpi_intent = sample_intent 7 KIMI_K3_MODEL_ID,
      rpi_configured_providers = with_provider no_providers Tinfoil, rpi_remembered_provider = None\<rparr>"
  have "\<exists>plan. plan_completion_route PROVIDER_REGISTRY ?input = Inr plan"
    by (simp add: plan_completion_route_def sample_intent_def new_intent_def registry_tables
        registry_completion_model_def eligible_route_def registry_provider_def List.map_filter_def
        no_providers_def)
  then obtain plan where "plan_completion_route PROVIDER_REGISTRY ?input = Inr plan" by blast
  from plan_is_sound [OF this] this show ?thesis
    by (auto simp: sample_intent_def new_intent_def)
qed

section \<open>The compiled shares\<close>

lemma unat_stable_account_bucket: "unat (stable_account_bucket a) = unat a mod 100"
proof -
  have m: "unat (a mod 100) = unat a mod 100" by (simp add: unat_mod)
  then have "unat (a mod 100) < 2 ^ 8" by simp
  then show ?thesis
    by (simp add: stable_account_bucket_def unsigned_ucast_eq take_bit_nat_eq_self m)
qed

lemma two_route_choice:
  assumes "no_wrap [a, b]" and "0 < total_of [a, b]"
  shows "select_weighted_route k [a, b] =
     Some (if unat k < weight_of a * 100 div total_of [a, b] then a else b)"
proof (cases "unat k < weight_of a * 100 div total_of [a, b]")
  case True
  then show ?thesis
    using weighted_choice_intervals_lemma [OF assms, of 0 k] by (simp add: interval_start_def)
next
  case False
  then show ?thesis
    using weighted_choice_intervals_lemma [OF assms, of 1 k] by (simp add: interval_start_def)
qed

lemma two_route_plan:
  assumes "registry_completion_model PROVIDER_REGISTRY (ii_public_model_id (rpi_intent input)) = Some m"
    and "List.map_filter (eligible_route PROVIDER_REGISTRY (rpi_configured_providers input) m) (cms_routes m)
           = [a, b]"
    and "rpi_remembered_provider input = None"
  shows "\<exists>plan. plan_completion_route PROVIDER_REGISTRY input = Inr plan \<and>
     ri_provider (rp_selected plan) = rcand_provider
       (if unat (ii_account_uuid (rpi_intent input)) mod 100 < weight_of a * 100 div total_of [a, b]
        then a else b)"
proof -
  have "no_wrap [a, b]" and "0 < total_of [a, b]"
    using compiled_no_wrap [OF _ assms(2) [symmetric]] completion_model_id [OF assms(1)] by auto
  note choice = two_route_choice [OF this, of "stable_account_bucket (ii_account_uuid (rpi_intent input))",
      unfolded unat_stable_account_bucket]
  show ?thesis
    by (simp add: plan_completion_route_def assms choice Let_def)
qed

definition glm_share :: "nat \<Rightarrow> provider_id" where
  "glm_share bucket = (if bucket < 75 then Continuum else Tinfoil)"

definition deepseek_share :: "nat \<Rightarrow> provider_id" where
  "deepseek_share bucket = (if bucket < 1 then Tinfoil else Maple I02)"

text \<open>
  C37: the compiled weights give the shares the tables announce. An account without a remembered provider
  is sent for GLM 5.3 to Continuum on its first 75 of 100 buckets and to Tinfoil on the rest, and for the
  stock DeepSeek model to Tinfoil on one bucket and to the dedicated instance on the other 99.
\<close>

theorem compiled_shares:
  assumes "rpi_remembered_provider input = None"
    and "contains_provider (rpi_configured_providers input) Tinfoil"
    and "contains_provider (rpi_configured_providers input) Continuum"
    and "contains_provider (rpi_configured_providers input) (Maple I02)"
    and "(ii_public_model_id (rpi_intent input), share)
           \<in> {(GLM_5_3_MODEL_ID, glm_share), (DEEPSEEK_V4_1_FLASH_MODEL_ID, deepseek_share)}"
  shows "\<exists>plan. plan_completion_route PROVIDER_REGISTRY input = Inr plan \<and>
           ri_provider (rp_selected plan) = share (unat (ii_account_uuid (rpi_intent input)) mod 100)"
proof -
  let ?conf = "rpi_configured_providers input"
  have glm: "registry_completion_model PROVIDER_REGISTRY GLM_5_3_MODEL_ID
      = Some (completion_model GLM_5_3_MODEL_ID GLM_5_3_ROUTES)"
    and ds: "registry_completion_model PROVIDER_REGISTRY DEEPSEEK_V4_1_FLASH_MODEL_ID
      = Some (completion_model DEEPSEEK_V4_1_FLASH_MODEL_ID DEEPSEEK_V4_1_FLASH_ROUTES)"
    by (simp_all add: registry_completion_model_def registry_lists model_ids)
  obtain a b where glm_es: "List.map_filter (eligible_route PROVIDER_REGISTRY ?conf
        (completion_model GLM_5_3_MODEL_ID GLM_5_3_ROUTES)) GLM_5_3_ROUTES = [a, b]"
    and glm_w: "weight_of a = 21000" "weight_of b = 7000"
      "rcand_provider a = Continuum" "rcand_provider b = Tinfoil"
    using assms(2,3)
    by (simp add: List.map_filter_def eligible_route_def registry_provider_def registry_lists
        GLM_5_3_ROUTES_def weight_of_def)
  obtain a' b' where ds_es: "List.map_filter (eligible_route PROVIDER_REGISTRY ?conf
        (completion_model DEEPSEEK_V4_1_FLASH_MODEL_ID DEEPSEEK_V4_1_FLASH_ROUTES))
        DEEPSEEK_V4_1_FLASH_ROUTES = [a', b']"
    and ds_w: "weight_of a' = 700" "weight_of b' = 69300"
      "rcand_provider a' = Tinfoil" "rcand_provider b' = Maple I02"
    using assms(2,4)
    by (simp add: List.map_filter_def eligible_route_def registry_provider_def registry_lists
        DEEPSEEK_V4_1_FLASH_ROUTES_def weight_of_def)
  consider (glm) "ii_public_model_id (rpi_intent input) = GLM_5_3_MODEL_ID" "share = glm_share"
    | (ds) "ii_public_model_id (rpi_intent input) = DEEPSEEK_V4_1_FLASH_MODEL_ID" "share = deepseek_share"
    using assms(5) by blast
  then show ?thesis
  proof cases
    case glm
    then show ?thesis
      using two_route_plan [of input "completion_model GLM_5_3_MODEL_ID GLM_5_3_ROUTES" a b]
        \<open>registry_completion_model PROVIDER_REGISTRY GLM_5_3_MODEL_ID = _\<close> glm_es glm_w assms(1)
      by (auto simp: completion_model_def total_of_def glm_share_def split: if_splits)
  next
    case ds
    then show ?thesis
      using two_route_plan [of input
          "completion_model DEEPSEEK_V4_1_FLASH_MODEL_ID DEEPSEEK_V4_1_FLASH_ROUTES" a' b']
        \<open>registry_completion_model PROVIDER_REGISTRY DEEPSEEK_V4_1_FLASH_MODEL_ID = _\<close> ds_es ds_w assms(1)
      by (auto simp: completion_model_def total_of_def deepseek_share_def split: if_splits)
  qed
qed

theorem compiled_shares_witness:
  "\<exists>plan. plan_completion_route PROVIDER_REGISTRY
       \<lparr>rpi_intent = sample_intent 74 GLM_5_3_MODEL_ID,
        rpi_configured_providers =
          with_provider (with_provider (with_provider no_providers Tinfoil) Continuum) (Maple I02),
        rpi_remembered_provider = None\<rparr> = Inr plan \<and>
     ri_provider (rp_selected plan) = Continuum"
  using compiled_shares [of "\<lparr>rpi_intent = sample_intent 74 GLM_5_3_MODEL_ID,
      rpi_configured_providers =
        with_provider (with_provider (with_provider no_providers Tinfoil) Continuum) (Maple I02),
      rpi_remembered_provider = None\<rparr>" glm_share]
  by (simp add: sample_intent_def new_intent_def glm_share_def)

end
