(* ===== verification/Health_Protocol.thy ===== *)
theory Health_Protocol
  imports Route_Health
begin

text \<open>
  The half-open protocol over whole runs of the route health state: requests that claim probes,
  terminal observations with and without a lease, and dropped leases, in every order. The invariant
  says that the probes in flight are exactly the claims of the leases in flight; from it follow mutual
  exclusion, that only a matching probe heals an opened gate, and that every claim returns.
\<close>

section \<open>Claims of a lease\<close>

definition gate_active :: "shadow_health_inner \<Rightarrow> probe_gate_key \<Rightarrow> active_probe option" where
  "gate_active inner gate = (case gate_view inner gate of None \<Rightarrow> None | Some (_, _, a) \<Rightarrow> a)"

definition gate_until :: "shadow_health_inner \<Rightarrow> probe_gate_key \<Rightarrow> instant option" where
  "gate_until inner gate = (case gate_view inner gate of None \<Rightarrow> None | Some (u, _, _) \<Rightarrow> u)"

definition gate_generation :: "shadow_health_inner \<Rightarrow> probe_gate_key \<Rightarrow> u64" where
  "gate_generation inner gate = (case gate_view inner gate of None \<Rightarrow> 0 | Some (_, n, _) \<Rightarrow> n)"

definition claim_active :: "probe_lease_id \<Rightarrow> probe_gate_claim \<Rightarrow> active_probe" where
  "claim_active lease claim =
     \<lparr>ap_lease_id = lease, ap_generation_at_claim = pgc_generation_at_claim claim\<rparr>"

lemma active_probe_matches_iff:
  "active_probe_matches a lease (pgc_generation_at_claim c) \<longleftrightarrow> a = Some (claim_active lease c)"
  by (auto simp: active_probe_matches_def claim_active_def split: option.splits)

lemma distinct_map_Cons_neq: "distinct (map f (x # xs)) \<Longrightarrow> y \<in> set xs \<Longrightarrow> f y \<noteq> f x"
  by (metis distinct.simps(2) image_eqI list.set_map list.simps(9))

lemma release_probe_claims_view:
  assumes "distinct (map pgc_gate claims)"
  shows "gate_view (release_probe_claims inner lease claims) h =
    (case gate_view inner h of
       None \<Rightarrow> None
     | Some (u, n, a) \<Rightarrow>
         Some (u, n, if \<exists>c \<in> set claims. pgc_gate c = h \<and> a = Some (claim_active lease c) then None else a))"
  using assms unfolding release_probe_claims_def
proof (induction claims arbitrary: inner)
  case Nil
  then show ?case by (auto split: option.splits)
next
  case (Cons c claims)
  have ne: "pgc_gate d \<noteq> pgc_gate c" if "d \<in> set claims" for d
    using that Cons.prems by (metis distinct_map_Cons_neq)
  have dist: "distinct (map pgc_gate claims)" using Cons.prems by simp
  show ?case
    unfolding foldl_Cons Cons.IH [OF dist]
    using ne by (auto simp: health_simps active_probe_matches_iff split: option.splits)
qed

lemma resolve_probe_success_view:
  assumes "distinct (map pgc_gate claims)"
  shows "gate_view (resolve_probe_success inner lease claims) h =
    (case gate_view inner h of
       None \<Rightarrow> None
     | Some (u, n, a) \<Rightarrow>
         if \<exists>c \<in> set claims. pgc_gate c = h \<and> a = Some (claim_active lease c) then
           if \<exists>c \<in> set claims. pgc_gate c = h \<and> a = Some (claim_active lease c) \<and> n = pgc_generation_at_claim c
           then Some (None, advance_generation n, None) else Some (u, n, None)
         else Some (u, n, a))"
  using assms unfolding resolve_probe_success_def
proof (induction claims arbitrary: inner)
  case Nil
  then show ?case by (auto split: option.splits)
next
  case (Cons c claims)
  have ne: "pgc_gate d \<noteq> pgc_gate c" if "d \<in> set claims" for d
    using that Cons.prems by (metis distinct_map_Cons_neq)
  have dist: "distinct (map pgc_gate claims)" using Cons.prems by simp
  show ?case
    unfolding foldl_Cons Cons.IH [OF dist]
    using ne by (auto simp: health_simps active_probe_matches_iff split: option.splits if_splits)
qed

lemma claim_gates_view:
  assumes "distinct gates" and "\<forall>g \<in> set gates. gate_view inner g \<noteq> None"
  shows "\<exists>inner' claims. claim_gates inner lease gates = Some (inner', claims) \<and>
           map pgc_gate claims = gates \<and>
           (\<forall>h. h \<notin> set gates \<longrightarrow> gate_view inner' h = gate_view inner h) \<and>
           (\<forall>c \<in> set claims. \<exists>u n a. gate_view inner (pgc_gate c) = Some (u, n, a) \<and>
              gate_view inner' (pgc_gate c) =
                Some (u, pgc_generation_at_claim c, Some (claim_active lease c)))"
  using assms
proof (induction gates arbitrary: inner)
  case Nil
  then show ?case by simp
next
  case (Cons g gates)
  then obtain u n a where v: "gate_view inner g = Some (u, n, a)" by auto
  obtain inner1 where c1: "claim_probe_gate inner g lease = Some (inner1, advance_generation n)"
    and v1: "\<And>h. gate_view inner1 h =
      (if h = g then Some (u, advance_generation n,
         Some \<lparr>ap_lease_id = lease, ap_generation_at_claim = advance_generation n\<rparr>)
       else gate_view inner h)"
    using claim_probe_gate_view [OF v] by blast
  have "distinct gates" "\<forall>h \<in> set gates. gate_view inner1 h \<noteq> None"
    using Cons.prems v1 by auto
  from Cons.IH [OF this] obtain inner' claims where IH:
    "claim_gates inner1 lease gates = Some (inner', claims)" "map pgc_gate claims = gates"
    "\<forall>h. h \<notin> set gates \<longrightarrow> gate_view inner' h = gate_view inner1 h"
    "\<forall>c \<in> set claims. \<exists>u n a. gate_view inner1 (pgc_gate c) = Some (u, n, a) \<and>
       gate_view inner' (pgc_gate c) = Some (u, pgc_generation_at_claim c, Some (claim_active lease c))"
    by blast
  have ne: "pgc_gate c \<noteq> g" if "c \<in> set claims" for c
    using that IH(2) Cons.prems(1) by (metis distinct.simps(2) image_eqI list.set_map)
  let ?c = "\<lparr>pgc_gate = g, pgc_generation_at_claim = advance_generation n\<rparr>"
  have "claim_gates inner lease (g # gates) = Some (inner', ?c # claims)"
    using c1 IH(1) by simp
  moreover have "\<forall>h. h \<notin> set (g # gates) \<longrightarrow> gate_view inner' h = gate_view inner h"
    using IH(3) v1 by auto
  moreover have "gate_view inner' g = Some (u, advance_generation n, Some (claim_active lease ?c))"
    using IH(3) v1 Cons.prems(1) by (simp add: claim_active_def)
  moreover have "\<forall>c \<in> set claims. \<exists>u n a. gate_view inner (pgc_gate c) = Some (u, n, a) \<and>
      gate_view inner' (pgc_gate c) = Some (u, pgc_generation_at_claim c, Some (claim_active lease c))"
    using IH(4) v1 ne by simp
  moreover have "map pgc_gate (?c # claims) = g # gates" using IH(2) by simp
  ultimately show ?case
    by (intro exI [of _ inner'] exI [of _ "?c # claims"]) (simp add: v)
qed

section \<open>Lease identifiers\<close>

definition active_ids :: "shadow_health_inner \<Rightarrow> probe_lease_id set" where
  "active_ids inner = {ap_lease_id a | a g. gate_active inner g = Some a}"

lemma lease_id_in_use_iff: "lease_id_in_use inner i \<longleftrightarrow> i \<in> active_ids inner"
proof
  assume "lease_id_in_use inner i"
  then consider (rh) r s where "fmlookup (shi_route_health inner) r = Some s" "has_lease_id i (rh_active_probe s)"
    | (cap) p s where "fmlookup (shi_capacity inner) p = Some s" "has_lease_id i (cap_active_probe s)"
    by (auto simp: lease_id_in_use_def fmlookup_ran_iff)
  then show "i \<in> active_ids inner"
  proof cases
    case rh
    then have "gate_active inner (Gate_RouteHealth r) = rh_active_probe s"
      by (simp add: gate_active_def gate_view_def)
    with rh(2) show ?thesis by (auto simp: active_ids_def has_lease_id_def split: option.splits)
  next
    case cap
    then have "gate_active inner (Gate_Capacity p) = cap_active_probe s"
      by (simp add: gate_active_def gate_view_def)
    with cap(2) show ?thesis by (auto simp: active_ids_def has_lease_id_def split: option.splits)
  qed
next
  assume "i \<in> active_ids inner"
  then obtain a g where a: "gate_active inner g = Some a" "ap_lease_id a = i" by (auto simp: active_ids_def)
  show "lease_id_in_use inner i"
  proof (cases g)
    case (Gate_RouteHealth r)
    with a obtain s where "fmlookup (shi_route_health inner) r = Some s" "has_lease_id i (rh_active_probe s)"
      by (auto simp: gate_active_def gate_view_def has_lease_id_def split: option.splits)
    then show ?thesis unfolding lease_id_in_use_def by (meson fmranI)
  next
    case (Gate_Capacity p)
    with a obtain s where "fmlookup (shi_capacity inner) p = Some s" "has_lease_id i (cap_active_probe s)"
      by (auto simp: gate_active_def gate_view_def has_lease_id_def split: option.splits)
    then show ?thesis unfolding lease_id_in_use_def by (meson fmranI)
  qed
qed

lemma gate_view_counter [simp]:
  "gate_view (inner\<lparr>shi_next_probe_lease_id := n\<rparr>) = gate_view inner"
  by (rule ext) (simp add: gate_view_def split: probe_gate_key.splits)

lemma active_ids_counter [simp]:
  "active_ids (inner\<lparr>shi_next_probe_lease_id := n\<rparr>) = active_ids inner"
  by (simp add: active_ids_def gate_active_def)

lemma next_probe_lease_id_finds:
  assumes "shi_next_probe_lease_id inner + of_nat k \<noteq> 0"
    and "ProbeLeaseId (shi_next_probe_lease_id inner + of_nat k) \<notin> active_ids inner" and "0 < k"
  shows "\<exists>i. next_probe_lease_id inner = Some (inner\<lparr>shi_next_probe_lease_id := i\<rparr>, ProbeLeaseId i) \<and>
           i \<noteq> 0 \<and> ProbeLeaseId i \<notin> active_ids inner"
  using assms
proof (induction k arbitrary: inner)
  case 0
  then show ?case by simp
next
  case (Suc k)
  let ?n = "shi_next_probe_lease_id inner + 1"
  let ?inner = "inner\<lparr>shi_next_probe_lease_id := ?n\<rparr>"
  show ?case
  proof (cases "?n \<noteq> 0 \<and> ProbeLeaseId ?n \<notin> active_ids inner")
    case True
    then show ?thesis
      by (subst next_probe_lease_id.simps) (simp add: Let_def lease_id_in_use_iff)
  next
    case False
    with Suc.prems have "0 < k" by (cases k) auto
    moreover have "shi_next_probe_lease_id ?inner + of_nat k = shi_next_probe_lease_id inner + of_nat (Suc k)"
      by simp
    ultimately obtain i where "next_probe_lease_id ?inner = Some (?inner\<lparr>shi_next_probe_lease_id := i\<rparr>, ProbeLeaseId i)"
      "i \<noteq> 0" "ProbeLeaseId i \<notin> active_ids inner"
      using Suc.IH [of ?inner] Suc.prems(1,2) by (auto simp: add.assoc)
    with False show ?thesis
      by (subst next_probe_lease_id.simps) (auto simp: Let_def lease_id_in_use_iff)
  qed
qed

lemma next_probe_lease_id_total:
  assumes "finite (active_ids inner)" and "card (active_ids inner) < 2 ^ 64 - 1"
  shows "\<exists>i. next_probe_lease_id inner = Some (inner\<lparr>shi_next_probe_lease_id := i\<rparr>, ProbeLeaseId i) \<and>
           i \<noteq> 0 \<and> ProbeLeaseId i \<notin> active_ids inner"
proof -
  have "\<exists>w :: u64. w \<noteq> 0 \<and> ProbeLeaseId w \<notin> active_ids inner"
  proof (rule ccontr)
    assume "\<not> ?thesis"
    then have "ProbeLeaseId ` (UNIV - {0}) \<subseteq> active_ids inner" by auto
    then have "card (ProbeLeaseId ` (UNIV - {0 :: u64})) \<le> card (active_ids inner)"
      using assms(1) by (rule card_mono [rotated])
    moreover have "card (ProbeLeaseId ` (UNIV - {0 :: u64})) = 2 ^ 64 - 1"
      by (subst card_image) (auto simp: inj_on_def card_word)
    ultimately show False using assms(2) by simp
  qed
  then obtain w :: u64 where w: "w \<noteq> 0" "ProbeLeaseId w \<notin> active_ids inner" by blast
  define d where "d = w - shi_next_probe_lease_id inner"
  define k where "k = (if d = 0 then 2 ^ 64 else unat d)"
  have "of_nat k = d"
    by (simp add: k_def)
  then have "shi_next_probe_lease_id inner + of_nat k = w" by (simp add: d_def)
  moreover have "0 < k" by (simp add: k_def unat_gt_0)
  ultimately show ?thesis using next_probe_lease_id_finds [of inner k] w by simp
qed

definition known_gates :: "shadow_health_inner \<Rightarrow> probe_gate_key set" where
  "known_gates inner = {g. gate_view inner g \<noteq> None}"

lemma known_gates_eq:
  "known_gates inner = Gate_RouteHealth ` fset (fmdom (shi_route_health inner)) \<union>
     Gate_Capacity ` fset (fmdom (shi_capacity inner))"
  (is "_ = ?R")
proof (rule set_eqI)
  show "g \<in> known_gates inner \<longleftrightarrow> g \<in> ?R" for g
    by (cases g) (auto simp: known_gates_def gate_view_def fmdom_notI intro: fmdomI)
qed

lemma finite_known_gates [simp]: "finite (known_gates inner)"
  by (simp add: known_gates_eq)

lemma active_ids_known:
  "finite (active_ids inner) \<and> card (active_ids inner) \<le> card (known_gates inner)"
proof -
  have "active_ids inner \<subseteq> (\<lambda>g. ap_lease_id (the (gate_active inner g))) ` known_gates inner"
    by (force simp: active_ids_def known_gates_def gate_active_def split: option.splits)
  then show ?thesis
    by (meson card_image_le card_mono finite_imageI finite_known_gates finite_subset le_trans)
qed

section \<open>Runs\<close>

record health_world =
  hw_inner :: shadow_health_inner
  hw_leases :: "probe_lease list"
  hw_clock :: instant

text \<open>
  One operation under the lock. A lease in flight is owned by one request; it leaves the world when its
  request observes its terminal or drops the lease.
\<close>

inductive health_step :: "shadow_health_state \<Rightarrow> health_world \<Rightarrow> health_world \<Rightarrow> bool"
  for self :: shadow_health_state where
  step_claim:
    "hw_clock w \<le> now \<Longrightarrow>
     try_claim_probe_locked self (hw_inner w) route now = Some (inner, Ready (Some lease)) \<Longrightarrow>
     health_step self w \<lparr>hw_inner = inner, hw_leases = lease # hw_leases w, hw_clock = now\<rparr>"
| step_no_claim:
    "hw_clock w \<le> now \<Longrightarrow>
     try_claim_probe_locked self (hw_inner w) route now = Some (inner, result) \<Longrightarrow>
     \<nexists>lease. result = Ready (Some lease) \<Longrightarrow>
     health_step self w \<lparr>hw_inner = inner, hw_leases = hw_leases w, hw_clock = now\<rparr>"
| step_observe:
    "hw_clock w \<le> now \<Longrightarrow>
     health_step self w
       \<lparr>hw_inner = fst (observe_terminal self (hw_inner w) terminal mode now), hw_leases = hw_leases w,
        hw_clock = now\<rparr>"
| step_observe_probe:
    "hw_clock w \<le> now \<Longrightarrow> hw_leases w = before @ lease # after \<Longrightarrow>
     health_step self w
       \<lparr>hw_inner = fst (observe_terminal_with_probe self (hw_inner w) terminal mode (Some lease) now),
        hw_leases = before @ after, hw_clock = now\<rparr>"
| step_drop:
    "hw_clock w \<le> now \<Longrightarrow> hw_leases w = before @ lease # after \<Longrightarrow>
     health_step self w
       \<lparr>hw_inner = drop_probe_lease (shs_inner self) (hw_inner w) lease, hw_leases = before @ after,
        hw_clock = now\<rparr>"

inductive health_reach ::
  "provider_registry \<Rightarrow> shadow_health_policy \<Rightarrow> shadow_health_state \<Rightarrow> health_world \<Rightarrow> bool"
  for registry :: provider_registry and policy :: shadow_health_policy where
  reach_new:
    "new_with_policy registry policy address = (self, inner) \<Longrightarrow>
     health_reach registry policy self \<lparr>hw_inner = inner, hw_leases = [], hw_clock = now\<rparr>"
| reach_step:
    "health_reach registry policy self w \<Longrightarrow> health_step self w w' \<Longrightarrow>
     health_reach registry policy self w'"

section \<open>The invariant\<close>

text \<open>The probe of a gate that a lease in flight owns.\<close>

definition lease_owns :: "probe_lease \<Rightarrow> probe_gate_key \<Rightarrow> active_probe \<Rightarrow> bool" where
  "lease_owns lease g a \<longleftrightarrow>
     (\<exists>claims c. pl_claims lease = Some claims \<and> c \<in> set claims \<and> pgc_gate c = g \<and>
        a = claim_active (pl_lease_id lease) c)"

definition lease_ok :: "nat \<Rightarrow> shadow_health_inner \<Rightarrow> probe_lease \<Rightarrow> bool" where
  "lease_ok address inner lease \<longleftrightarrow>
     pl_inner lease = address \<and>
     (\<exists>claims. pl_claims lease = Some claims \<and> claims \<noteq> [] \<and> distinct (map pgc_gate claims) \<and>
        (\<forall>c \<in> set claims. gate_active inner (pgc_gate c) = Some (claim_active (pl_lease_id lease) c) \<and>
           pgc_gate c \<in> set (route_gates (pl_route lease))))"

definition health_inv :: "provider_registry \<Rightarrow> shadow_health_state \<Rightarrow> health_world \<Rightarrow> bool" where
  "health_inv registry self w \<longleftrightarrow>
     known_gates (hw_inner w) = \<Union> (set ` route_gates ` set (registry_route_keys registry)) \<and>
     list_all (lease_ok (shs_inner self) (hw_inner w)) (hw_leases w) \<and>
     distinct (map pl_lease_id (hw_leases w)) \<and>
     (\<forall>g a. gate_active (hw_inner w) g = Some a \<longrightarrow> (\<exists>l \<in> set (hw_leases w). lease_owns l g a)) \<and>
     (\<forall>g a. gate_active (hw_inner w) g = Some a \<longrightarrow> gate_until (hw_inner w) g \<noteq> None) \<and>
     (\<forall>g t. gate_until (hw_inner w) g = Some t \<longrightarrow> t \<le> hw_clock w + policy_cooldown (shs_policy self))"

text \<open>How a cooldown may change without being healed: it stays, or it is set no shorter than before.\<close>

definition extends :: "shadow_health_state \<Rightarrow> instant \<Rightarrow> instant option \<Rightarrow> instant option \<Rightarrow> bool" where
  "extends self now u u' \<longleftrightarrow> u' = u \<or>
     (\<exists>v. u' = Some v \<and> now \<le> v \<and> (\<forall>t. u = Some t \<longrightarrow> t \<le> v) \<and>
        ((\<forall>t. u = Some t \<longrightarrow> t \<le> now + policy_cooldown (shs_policy self)) \<longrightarrow>
           v \<le> now + policy_cooldown (shs_policy self)))"

definition owned_by :: "probe_lease list \<Rightarrow> probe_gate_key \<Rightarrow> active_probe option \<Rightarrow> bool" where
  "owned_by leases g a \<longleftrightarrow> (\<exists>l \<in> set leases. \<exists>a0. a = Some a0 \<and> lease_owns l g a0)"

text \<open>
  An operation that consumes the leases \<open>gone\<close>: it clears exactly their probes, and it heals a gate only
  together with one of their probes.
\<close>

definition evolves ::
  "shadow_health_state \<Rightarrow> instant \<Rightarrow> probe_lease list \<Rightarrow> shadow_health_inner \<Rightarrow> shadow_health_inner \<Rightarrow> bool" where
  "evolves self now gone inner inner' \<longleftrightarrow>
     (\<forall>h. case gate_view inner h of
        None \<Rightarrow> gate_view inner' h = None
      | Some (u, n, a) \<Rightarrow>
          (\<exists>u' n'. gate_view inner' h = Some (u', n', if owned_by gone h a then None else a) \<and>
             (extends self now u u' \<or> u' = None \<and> owned_by gone h a)))"

lemma evolves_None: "evolves self now gone i i' \<Longrightarrow> gate_view i h = None \<Longrightarrow> gate_view i' h = None"
  unfolding evolves_def by (drule spec [of _ h]) simp

lemma evolves_Some:
  assumes "evolves self now gone i i'" and "gate_view i h = Some (u, n, a)"
  obtains u' n' where "gate_view i' h = Some (u', n', if owned_by gone h a then None else a)"
    and "extends self now u u' \<or> u' = None \<and> owned_by gone h a"
proof -
  have "\<exists>u' n'. gate_view i' h = Some (u', n', if owned_by gone h a then None else a) \<and>
      (extends self now u u' \<or> u' = None \<and> owned_by gone h a)"
    using assms(1) unfolding evolves_def by (drule_tac spec [of _ h]) (simp add: assms(2))
  then show thesis using that by blast
qed

lemma extends_refl [simp]: "extends self now u u"
  by (simp add: extends_def)

lemma extends_trans:
  assumes "extends self now u u2" and "extends self now u2 u3"
  shows "extends self now u u3"
proof (cases "u2 = u \<or> u3 = u2")
  case True
  then show ?thesis using assms by auto
next
  case False
  let ?P = "now + policy_cooldown (shs_policy self)"
  from False assms obtain v2 v3 where v: "u2 = Some v2" "u3 = Some v3" "now \<le> v2" "now \<le> v3"
    and le: "\<forall>t. u = Some t \<longrightarrow> t \<le> v2" "v2 \<le> v3"
    and b: "(\<forall>t. u = Some t \<longrightarrow> t \<le> ?P) \<longrightarrow> v2 \<le> ?P" "v2 \<le> ?P \<longrightarrow> v3 \<le> ?P"
    unfolding extends_def by auto
  from le have "\<forall>t. u = Some t \<longrightarrow> t \<le> v3" using le_trans by blast
  with v b show ?thesis unfolding extends_def by blast
qed

lemma owned_by_Nil [simp]: "\<not> owned_by [] g a"
  by (simp add: owned_by_def)

lemma evolves_refl [simp]: "evolves self now [] inner inner"
  by (auto simp: evolves_def split: option.splits)

lemma evolves_trans:
  assumes "evolves self now [] i1 i2" and "evolves self now gone i2 i3"
  shows "evolves self now gone i1 i3"
  unfolding evolves_def
proof
  fix h
  show "case gate_view i1 h of None \<Rightarrow> gate_view i3 h = None
      | Some (u, n, a) \<Rightarrow> \<exists>u' n'. gate_view i3 h = Some (u', n', if owned_by gone h a then None else a) \<and>
          (extends self now u u' \<or> u' = None \<and> owned_by gone h a)"
  proof (cases "gate_view i1 h")
    case None
    then have "gate_view i2 h = None" using evolves_None [OF assms(1)] by blast
    then have "gate_view i3 h = None" using evolves_None [OF assms(2)] by blast
    with None show ?thesis by simp
  next
    case (Some v)
    obtain u n a where v: "v = (u, n, a)" by (cases v)
    have "gate_view i1 h = Some (u, n, a)" using Some v by simp
    from evolves_Some [OF assms(1) this] obtain u2 n2 where
      2: "gate_view i2 h = Some (u2, n2, a)" "extends self now u u2" by auto
    obtain u3 n3 where 3: "gate_view i3 h = Some (u3, n3, if owned_by gone h a then None else a)"
      "extends self now u2 u3 \<or> u3 = None \<and> owned_by gone h a"
      using evolves_Some [OF assms(2) 2(1)] by blast
    have "extends self now u u3" if "extends self now u2 u3"
      using extends_trans [OF 2(2) that] .
    with 3 Some v show ?thesis by auto
  qed
qed

lemma evolves_mutation: "evolves self now [] inner (apply_mutation self inner route mutation now)"
  unfolding evolves_def
proof
  fix h
  show "case gate_view inner h of
      None \<Rightarrow> gate_view (apply_mutation self inner route mutation now) h = None
    | Some (u, n, a) \<Rightarrow> \<exists>u' n'. gate_view (apply_mutation self inner route mutation now) h =
        Some (u', n', if owned_by [] h a then None else a) \<and>
        (extends self now u u' \<or> u' = None \<and> owned_by [] h a)"
    using apply_mutation_view [of inner h] apply_mutation_view_None [of inner h]
    by (cases "gate_view inner h") (auto simp: extends_def)
qed

lemma evolves_success: "evolves self now [] inner (success_at inner route)"
  using evolves_mutation [of self now inner route Mut_Completed] by (simp add: apply_mutation_def)

lemma owned_by_claims:
  assumes "pl_claims lease = Some claims"
  shows "owned_by [lease] h a \<longleftrightarrow>
    (\<exists>c \<in> set claims. pgc_gate c = h \<and> a = Some (claim_active (pl_lease_id lease) c))"
  using assms by (auto simp: owned_by_def lease_owns_def)

lemma evolves_release:
  assumes "pl_claims lease = Some claims" and "distinct (map pgc_gate claims)"
  shows "evolves self now [lease] inner (release_probe_claims inner (pl_lease_id lease) claims)"
  by (auto simp: evolves_def release_probe_claims_view [OF assms(2)] owned_by_claims [OF assms(1)]
      split: option.splits)

lemma evolves_resolve:
  assumes "pl_claims lease = Some claims" and "distinct (map pgc_gate claims)"
  shows "evolves self now [lease] inner (resolve_probe_success inner (pl_lease_id lease) claims)"
  by (auto simp: evolves_def resolve_probe_success_view [OF assms(2)] owned_by_claims [OF assms(1)]
      split: option.splits)

lemma evolves_then_success:
  assumes "evolves self now gone inner inner'"
  shows "evolves self now gone inner (success_at inner' route)"
  using assms by (fastforce simp: evolves_def gate_view_success split: option.splits)

lemma evolves_drop:
  assumes "lease_ok (shs_inner self) inner0 lease"
  shows "evolves self now [lease] inner (drop_probe_lease (shs_inner self) inner lease)"
proof -
  obtain claims where "pl_claims lease = Some claims" "distinct (map pgc_gate claims)"
    "pl_inner lease = shs_inner self"
    using assms by (auto simp: lease_ok_def)
  then show ?thesis using evolves_release by (simp add: drop_probe_lease_def)
qed

text \<open>The state after an observation, by what the observation does.\<close>

lemma observe_terminal_state:
  "fst (observe_terminal self inner terminal mode now) =
     (let route = identity_route_key (ia_route (terminal_attempt terminal)) in
      if fmlookup (shi_route_health inner) route = None \<or> mode \<noteq> Update then inner
      else apply_mutation self inner route (snd (snd (classify_terminal route terminal))) now)"
  by (auto simp: observe_terminal_def observe_terminal_locked_def Let_def apply_mutation_def
      split: prod.splits option.splits if_splits)

lemma evolves_observe: "evolves self now [] inner (fst (observe_terminal self inner terminal mode now))"
  by (simp add: observe_terminal_state Let_def evolves_mutation)

definition resolved_state ::
  "shadow_health_state \<Rightarrow> shadow_health_inner \<Rightarrow> route_key \<Rightarrow> mutation \<Rightarrow> probe_lease_id \<Rightarrow>
   probe_gate_claim list \<Rightarrow> instant \<Rightarrow> shadow_health_inner" where
  "resolved_state self inner route mutation lease_id claims now =
     (if mutation = Mut_Completed then success_at (resolve_probe_success inner lease_id claims) route
      else release_probe_claims (apply_mutation self inner route mutation now) lease_id claims)"

lemma observe_with_probe_state:
  assumes "pl_claims lease = Some claims" and "pl_inner lease = shs_inner self"
  shows "fst (observe_terminal_with_probe self inner terminal mode (Some lease) now) =
     (let route = identity_route_key (ia_route (terminal_attempt terminal));
          mutation = snd (snd (classify_terminal route terminal)) in
      if fmlookup (shi_route_health inner) route \<noteq> None \<and> mode = Update then
        (if pl_route lease = route then resolved_state self inner route mutation (pl_lease_id lease) claims now
         else drop_probe_lease (shs_inner self) (apply_mutation self inner route mutation now) lease)
      else drop_probe_lease (shs_inner self) inner lease)"
proof -
  let ?route = "identity_route_key (ia_route (terminal_attempt terminal))"
  obtain signal pool mutation where c: "classify_terminal ?route terminal = (signal, pool, mutation)"
    by (metis prod_cases3)
  show ?thesis
    using assms c
    by (cases mutation; cases "pl_route lease = ?route"; cases mode;
        cases "fmlookup (shi_route_health inner) ?route")
      (simp_all add: observe_terminal_with_probe_def observe_terminal_locked_def Let_def
        take_matching_claims_def resolved_state_def drop_probe_lease_def apply_mutation_def)
qed

lemma evolves_observe_probe:
  assumes "lease_ok (shs_inner self) inner0 lease"
  shows "evolves self now [lease] inner
           (fst (observe_terminal_with_probe self inner terminal mode (Some lease) now))"
proof -
  obtain claims where c: "pl_claims lease = Some claims" "distinct (map pgc_gate claims)"
    "pl_inner lease = shs_inner self"
    using assms by (auto simp: lease_ok_def)
  have "evolves self now [lease] inner
      (resolved_state self inner route mutation (pl_lease_id lease) claims now)" for route mutation
    unfolding resolved_state_def
    using evolves_then_success [OF evolves_resolve [OF c(1,2)]]
      evolves_trans [OF evolves_mutation evolves_release [OF c(1,2)]] by simp
  then show ?thesis
    using evolves_drop [OF assms] evolves_trans [OF evolves_mutation evolves_drop [OF assms]]
    by (simp add: observe_with_probe_state [OF c(1,3)] Let_def)
qed

section \<open>The invariant holds in every reachable state\<close>

lemma evolves_inv:
  assumes inv: "health_inv registry self w" and le: "hw_clock w \<le> now"
    and ls: "hw_leases w = before @ gone @ after"
    and ev: "evolves self now gone (hw_inner w) inner'"
  shows "health_inv registry self \<lparr>hw_inner = inner', hw_leases = before @ after, hw_clock = now\<rparr>"
proof -
  let ?i = "hw_inner w"
  have known: "known_gates inner' = known_gates ?i"
  proof (rule set_eqI)
    fix h
    show "h \<in> known_gates inner' \<longleftrightarrow> h \<in> known_gates ?i"
    proof (cases "gate_view ?i h")
      case None
      then show ?thesis using evolves_None [OF ev] by (simp add: known_gates_def)
    next
      case (Some v)
      then obtain u n a where v: "gate_view ?i h = Some (u, n, a)" by (cases v) auto
      from evolves_Some [OF ev v] obtain u' n' a' where "gate_view inner' h = Some (u', n', a')" by blast
      with v show ?thesis by (simp add: known_gates_def)
    qed
  qed
  have active: "gate_active inner' h = (if owned_by gone h (gate_active ?i h) then None else gate_active ?i h)"
    and until: "extends self now (gate_until ?i h) (gate_until inner' h) \<or>
      gate_until inner' h = None \<and> owned_by gone h (gate_active ?i h)" for h
  proof -
    have "gate_active inner' h = (if owned_by gone h (gate_active ?i h) then None else gate_active ?i h) \<and>
      (extends self now (gate_until ?i h) (gate_until inner' h) \<or>
       gate_until inner' h = None \<and> owned_by gone h (gate_active ?i h))"
    proof (cases "gate_view ?i h")
      case None
      then show ?thesis using evolves_None [OF ev]
        by (auto simp: gate_active_def gate_until_def owned_by_def)
    next
      case (Some v)
      then obtain u n a where v: "gate_view ?i h = Some (u, n, a)" by (cases v) auto
      from evolves_Some [OF ev v] obtain u' n' where
        "gate_view inner' h = Some (u', n', if owned_by gone h a then None else a)"
        "extends self now u u' \<or> u' = None \<and> owned_by gone h a" by blast
      with v show ?thesis by (simp add: gate_active_def gate_until_def)
    qed
    then show "gate_active inner' h = (if owned_by gone h (gate_active ?i h) then None else gate_active ?i h)"
      and "extends self now (gate_until ?i h) (gate_until inner' h) \<or>
        gate_until inner' h = None \<and> owned_by gone h (gate_active ?i h)" by auto
  qed
  have ids: "pl_lease_id l \<noteq> pl_lease_id l'" if "l \<in> set (before @ after)" "l' \<in> set gone" for l l'
    using inv ls that by (force simp: health_inv_def)
  have not_owned: "\<not> owned_by gone g (Some (claim_active (pl_lease_id l) c))"
    if "l \<in> set (before @ after)" for l c g
    using ids [OF that] by (auto simp: owned_by_def lease_owns_def claim_active_def)
  have ok: "lease_ok (shs_inner self) inner' l" if "l \<in> set (before @ after)" for l
  proof -
    have "lease_ok (shs_inner self) ?i l"
      using inv ls that by (auto simp: health_inv_def list_all_iff)
    then show ?thesis using not_owned [OF that] by (auto simp: lease_ok_def active)
  qed
  have owner: "\<exists>l \<in> set (before @ after). lease_owns l g a" if "gate_active inner' g = Some a" for g a
  proof -
    have "gate_active ?i g = Some a" "\<not> owned_by gone g (Some a)"
      using that active [of g] by (auto split: if_splits)
    moreover from this(1) obtain l where "l \<in> set (hw_leases w)" "lease_owns l g a"
      using inv unfolding health_inv_def by blast
    ultimately show ?thesis using ls by (auto simp: owned_by_def)
  qed
  have opn: "gate_until inner' g \<noteq> None" if "gate_active inner' g = Some a" for g a
  proof -
    have a: "gate_active ?i g = Some a" "\<not> owned_by gone g (gate_active ?i g)"
      using that active [of g] by (auto split: if_splits)
    then have "gate_until ?i g \<noteq> None" using inv by (simp add: health_inv_def)
    then show ?thesis using until [of g] a(2) by (auto simp: extends_def)
  qed
  have bnd: "t \<le> now + policy_cooldown (shs_policy self)" if "gate_until inner' g = Some t" for g t
  proof -
    have "\<forall>t. gate_until ?i g = Some t \<longrightarrow> t \<le> now + policy_cooldown (shs_policy self)"
      using inv le by (fastforce simp: health_inv_def)
    then show ?thesis using until [of g] that by (auto simp: extends_def)
  qed
  have dist: "distinct (map pl_lease_id (before @ after))"
    using inv ls by (auto simp: health_inv_def)
  show ?thesis
    using inv known ok owner opn bnd dist unfolding health_inv_def by (simp add: list_all_iff)
qed

lemma survey_gates_Some:
  assumes "survey_gates inner now (e, rem, p) gates = Some (e', rem', p')"
  shows "e' = e @ filter (\<lambda>g. probe_gate_status inner g now = Some ExpiredOpen) gates \<and>
         (p' \<longleftrightarrow> p \<or> (\<exists>g \<in> set gates. probe_gate_status inner g now = Some Gate_ProbeInFlight)) \<and>
         (rem' = None \<longleftrightarrow> rem = None \<and> (\<forall>g \<in> set gates. \<forall>d. probe_gate_status inner g now \<noteq> Some (StillOpen d))) \<and>
         (\<forall>g \<in> set gates. probe_gate_status inner g now \<noteq> None)"
  using assms
proof (induction gates arbitrary: e rem p)
  case Nil
  then show ?case by auto
next
  case (Cons g gates)
  show ?case
  proof (cases "probe_gate_status inner g now")
    case None
    with Cons.prems show ?thesis by simp
  next
    case (Some status)
    with Cons.prems Cons.IH show ?thesis
      by (cases status) (fastforce simp: opt_max_def)+
  qed
qed

lemma try_claim_lease:
  assumes "try_claim_probe_locked self inner route now = Some (inner', Ready (Some lease))"
  obtains expired inner1 claims where
    "expired = filter (\<lambda>g. probe_gate_status inner g now = Some ExpiredOpen) (route_gates route)"
    and "\<forall>g \<in> set (route_gates route). probe_gate_status inner g now \<in> {Some Gate_Healthy, Some ExpiredOpen}"
    and "expired \<noteq> []" and "next_probe_lease_id inner = Some (inner1, pl_lease_id lease)"
    and "claim_gates inner1 (pl_lease_id lease) expired = Some (inner', claims)"
    and "lease = \<lparr>pl_inner = shs_inner self, pl_route = route, pl_lease_id = pl_lease_id lease,
                  pl_claims = Some claims\<rparr>"
proof -
  obtain expired remaining flight where
    sv: "survey_gates inner now ([], None, False) (route_gates route) = Some (expired, remaining, flight)"
    and fl: "\<not> flight" "remaining = None" "expired \<noteq> []"
    using assms by (auto simp: try_claim_probe_locked_def Let_def split: option.splits if_splits)
  obtain inner1 id claims where
    "next_probe_lease_id inner = Some (inner1, id)" "claim_gates inner1 id expired = Some (inner', claims)"
    "lease = \<lparr>pl_inner = shs_inner self, pl_route = route, pl_lease_id = id, pl_claims = Some claims\<rparr>"
    using assms sv fl
    by (auto simp: try_claim_probe_locked_def Let_def split: option.splits if_splits)
  moreover have "\<forall>g \<in> set (route_gates route). probe_gate_status inner g now \<in> {Some Gate_Healthy, Some ExpiredOpen}"
  proof
    fix g
    assume "g \<in> set (route_gates route)"
    moreover obtain st where "probe_gate_status inner g now = Some st"
      using survey_gates_Some [OF sv] calculation by fastforce
    ultimately show "probe_gate_status inner g now \<in> {Some Gate_Healthy, Some ExpiredOpen}"
      using survey_gates_Some [OF sv] fl(1,2) by (cases st) auto
  qed
  ultimately show thesis
    using survey_gates_Some [OF sv] fl(3) that by fastforce
qed

lemma try_claim_no_lease:
  assumes "try_claim_probe_locked self inner route now = Some (inner', result)"
    and "\<nexists>lease. result = Ready (Some lease)"
  shows "inner' = inner"
  using assms by (auto simp: try_claim_probe_locked_def Let_def split: option.splits if_splits)

lemma gate_active_until_status:
  "probe_gate_status inner g now = Some ExpiredOpen \<Longrightarrow> gate_active inner g = None \<and> gate_until inner g \<noteq> None"
  by (auto simp: probe_gate_status_view gate_active_def gate_until_def split: option.splits if_splits prod.splits)

text \<open>A claim takes fresh probes of exactly the expired gates of the route and changes no cooldown.\<close>

lemma claim_lease_view:
  assumes "try_claim_probe_locked self inner route now = Some (inner', Ready (Some lease))"
    and "card (known_gates inner) < 2 ^ 64 - 1"
  shows "lease_ok (shs_inner self) inner' lease \<and> pl_lease_id lease \<notin> active_ids inner \<and>
         known_gates inner' = known_gates inner \<and>
         (\<forall>g. gate_until inner' g = gate_until inner g) \<and>
         (\<forall>g. case gate_active inner' g of
                None \<Rightarrow> gate_active inner g = None
              | Some a \<Rightarrow> gate_active inner g = Some a \<or>
                  lease_owns lease g a \<and> gate_active inner g = None \<and> gate_until inner g \<noteq> None) \<and>
         (\<forall>g a. gate_active inner g = Some a \<longrightarrow> gate_active inner' g = Some a)"
  using assms(1)
proof (rule try_claim_lease)
  fix expired inner1 claims
  let ?id = "pl_lease_id lease"
  assume e: "expired = filter (\<lambda>g. probe_gate_status inner g now = Some ExpiredOpen) (route_gates route)"
    and ne: "expired \<noteq> []" and nid: "next_probe_lease_id inner = Some (inner1, ?id)"
    and cg: "claim_gates inner1 ?id expired = Some (inner', claims)"
    and l: "lease = \<lparr>pl_inner = shs_inner self, pl_route = route, pl_lease_id = ?id, pl_claims = Some claims\<rparr>"
  have fin: "finite (active_ids inner)" "card (active_ids inner) < 2 ^ 64 - 1"
    using active_ids_known [of inner] assms(2) by auto
  obtain i where i: "inner1 = inner\<lparr>shi_next_probe_lease_id := i\<rparr>" "?id = ProbeLeaseId i"
    "?id \<notin> active_ids inner"
    using next_probe_lease_id_total [OF fin] nid by auto
  have dist: "distinct expired" unfolding e by (rule distinct_filter) (simp add: route_gates_def)
  have ex: "gate_active inner g = None \<and> gate_until inner g \<noteq> None \<and> gate_view inner g \<noteq> None"
    if "g \<in> set expired" for g
    using gate_active_until_status [of inner g now] that
    by (auto simp: e gate_until_def split: option.splits)
  obtain claims' inner2 where cv: "claim_gates inner1 ?id expired = Some (inner2, claims')"
    "map pgc_gate claims' = expired" "\<forall>h. h \<notin> set expired \<longrightarrow> gate_view inner2 h = gate_view inner1 h"
    "\<forall>c \<in> set claims'. \<exists>u n a. gate_view inner1 (pgc_gate c) = Some (u, n, a) \<and>
       gate_view inner2 (pgc_gate c) = Some (u, pgc_generation_at_claim c, Some (claim_active ?id c))"
    using claim_gates_view [OF dist, of inner1 ?id] ex i(1) by auto
  then have eq: "inner2 = inner'" "claims' = claims" using cg by auto
  have out: "gate_view inner' h = gate_view inner h" if "h \<notin> set expired" for h
    using cv(3) eq i(1) that by simp
  have inn: "\<exists>c \<in> set claims. pgc_gate c = h \<and> (\<exists>u n a. gate_view inner h = Some (u, n, a) \<and>
      gate_view inner' h = Some (u, pgc_generation_at_claim c, Some (claim_active ?id c)))"
    if "h \<in> set expired" for h
  proof -
    have "h \<in> pgc_gate ` set claims" using that cv(2) eq by (metis list.set_map)
    then obtain c where c: "c \<in> set claims" "pgc_gate c = h" by blast
    then show ?thesis using cv(4) eq i(1) by auto
  qed
  have "lease_ok (shs_inner self) inner' lease"
  proof -
    have "gate_active inner' (pgc_gate c) = Some (claim_active ?id c)" if "c \<in> set claims" for c
      using cv(4) eq that by (force simp: gate_active_def)
    moreover have "pgc_gate c \<in> set (route_gates route)" if "c \<in> set claims" for c
    proof -
      have "pgc_gate c \<in> set expired" using cv(2) eq(2) that by (metis image_eqI list.set_map)
      then show ?thesis by (simp add: e)
    qed
    moreover have "claims \<noteq> []" "distinct (map pgc_gate claims)" using cv(2) eq ne dist by auto
    ultimately show ?thesis using l by (metis lease_ok_def probe_lease.select_convs(1,2,4))
  qed
  moreover have "known_gates inner' = known_gates inner"
    using out inn by (fastforce simp: known_gates_def)
  moreover have "gate_until inner' g = gate_until inner g" for g
    using out [of g] inn [of g] by (cases "g \<in> set expired") (auto simp: gate_until_def)
  moreover have own: "gate_active inner' g = (if g \<in> set expired then gate_active inner' g else gate_active inner g)" for g
    using out [of g] by (simp add: gate_active_def)
  moreover have "\<exists>a. gate_active inner' g = Some a \<and> lease_owns lease g a" if "g \<in> set expired" for g
    using inn [OF that] l
    by (auto simp: gate_active_def lease_owns_def) (metis probe_lease.select_convs(4))
  ultimately show ?thesis
    using ex i(3) by (auto split: option.splits if_splits) (metis option.distinct(1) option.inject)+
qed

text \<open>The topology of the registry is small enough for the lease counter.\<close>

definition countable_topology :: "provider_registry \<Rightarrow> bool" where
  "countable_topology registry \<longleftrightarrow> 2 * length (registry_route_keys registry) < 2 ^ 64 - 1"

lemma topology_card:
  "card (\<Union> (set ` route_gates ` set (registry_route_keys registry))) \<le> 2 * length (registry_route_keys registry)"
proof -
  let ?ks = "registry_route_keys registry"
  have "\<Union> (set ` route_gates ` set ?ks) = set (concat (map route_gates ?ks))" by simp
  also have "card \<dots> \<le> length (concat (map route_gates ?ks))" by (rule card_length)
  also have "length (concat (map route_gates ?ks)) = 2 * length ?ks"
    by (induction ?ks rule: rev_induct) (simp_all add: route_gates_def length_concat comp_def sum_list_triv)
  finally show ?thesis .
qed

lemma inv_known_gates_card:
  "health_inv registry self w \<Longrightarrow> countable_topology registry \<Longrightarrow> card (known_gates (hw_inner w)) < 2 ^ 64 - 1"
  using topology_card [of registry] by (simp add: health_inv_def countable_topology_def)

lemma inv_lease_ok:
  "health_inv registry self w \<Longrightarrow> l \<in> set (hw_leases w) \<Longrightarrow> lease_ok (shs_inner self) (hw_inner w) l"
  by (simp add: health_inv_def list_all_iff)

lemma inv_owner:
  "health_inv registry self w \<Longrightarrow> gate_active (hw_inner w) g = Some a \<Longrightarrow>
   \<exists>l \<in> set (hw_leases w). lease_owns l g a"
  unfolding health_inv_def by blast

lemma claim_inv:
  assumes inv: "health_inv registry self w" and top: "countable_topology registry" and le: "hw_clock w \<le> now"
    and cl: "try_claim_probe_locked self (hw_inner w) route now = Some (inner', Ready (Some lease))"
  shows "health_inv registry self \<lparr>hw_inner = inner', hw_leases = lease # hw_leases w, hw_clock = now\<rparr>"
proof -
  let ?i = "hw_inner w"
  note v = claim_lease_view [OF cl inv_known_gates_card [OF inv top]]
  have keep: "gate_active ?i g = Some a \<Longrightarrow> gate_active inner' g = Some a"
    and unt: "gate_until inner' g = gate_until ?i g" for g a
    using v by blast+
  have new: "gate_active ?i g = Some a \<or> lease_owns lease g a \<and> gate_until ?i g \<noteq> None"
    if "gate_active inner' g = Some a" for g a
    using v that by (auto dest: spec [of _ g])
  have ids: "pl_lease_id l \<in> active_ids ?i" if "l \<in> set (hw_leases w)" for l
  proof -
    from inv_lease_ok [OF inv that] obtain claims where "pl_claims l = Some claims" "claims \<noteq> []"
      "\<forall>c \<in> set claims. gate_active ?i (pgc_gate c) = Some (claim_active (pl_lease_id l) c)"
      by (auto simp: lease_ok_def)
    then obtain c where "gate_active ?i (pgc_gate c) = Some (claim_active (pl_lease_id l) c)"
      by (metis list.set_sel(1))
    then show ?thesis
      unfolding active_ids_def
      by (intro CollectI exI [of _ "claim_active (pl_lease_id l) c"] exI [of _ "pgc_gate c"])
        (simp add: claim_active_def)
  qed
  have ok: "lease_ok (shs_inner self) inner' l" if "l \<in> set (hw_leases w)" for l
  proof -
    have "lease_ok (shs_inner self) ?i l" using inv_lease_ok [OF inv that] .
    then show ?thesis using keep by (auto simp: lease_ok_def)
  qed
  have dist: "distinct (map pl_lease_id (lease # hw_leases w))"
    using ids v inv by (auto simp: health_inv_def)
  have owner: "\<exists>l \<in> set (lease # hw_leases w). lease_owns l g a" if "gate_active inner' g = Some a" for g a
    using new [OF that] inv unfolding health_inv_def by (metis list.set_intros)
  have opn: "gate_until inner' g \<noteq> None" if "gate_active inner' g = Some a" for g a
    using new [OF that] inv unt unfolding health_inv_def by metis
  have bnd: "t \<le> now + policy_cooldown (shs_policy self)" if "gate_until inner' g = Some t" for g t
  proof -
    have "t \<le> hw_clock w + policy_cooldown (shs_policy self)"
      using inv that unt [of g] by (simp add: health_inv_def)
    then show ?thesis using le by simp
  qed
  show ?thesis
    using inv v ok dist owner opn bnd unfolding health_inv_def by (simp add: list_all_iff)
qed

lemma step_inv:
  assumes "health_step self w w'" and "health_inv registry self w" and "countable_topology registry"
  shows "health_inv registry self w'"
  using assms(1)
proof cases
  case (step_claim now route inner lease)
  then show ?thesis using claim_inv [OF assms(2,3)] by simp
next
  case (step_no_claim now route inner result)
  then have "inner = hw_inner w" using try_claim_no_lease by blast
  then show ?thesis
    using evolves_inv [OF assms(2), of now "hw_leases w" "[]" "[]" inner] step_no_claim by simp
next
  case (step_observe now terminal mode)
  then show ?thesis
    using evolves_inv [OF assms(2), of now "hw_leases w" "[]" "[]"] evolves_observe by simp
next
  case (step_observe_probe now before lease after terminal mode)
  then have "lease_ok (shs_inner self) (hw_inner w) lease"
    using assms(2) by (simp add: health_inv_def)
  then show ?thesis
    using evolves_inv [OF assms(2), of now before "[lease]" after] evolves_observe_probe step_observe_probe
    by simp
next
  case (step_drop now before lease after)
  then have "lease_ok (shs_inner self) (hw_inner w) lease"
    using assms(2) by (simp add: health_inv_def)
  then show ?thesis
    using evolves_inv [OF assms(2), of now before "[lease]" after] evolves_drop step_drop by simp
qed

lemma fmlookup_or_default:
  "fmlookup (or_default k d m) k' = (if k' = k \<and> fmlookup m k = None then Some d else fmlookup m k')"
  by (simp add: or_default_def split: option.splits)

lemma new_with_policy_state:
  "new_with_policy registry policy address =
     (\<lparr>shs_policy = policy, shs_inner = address\<rparr>, snd (new_with_policy registry policy address))"
  by (simp add: new_with_policy_def Let_def case_prod_beta)

lemma new_with_policy_view:
  "gate_view (snd (new_with_policy registry policy address)) g =
     (if g \<in> \<Union> (set ` route_gates ` set (registry_route_keys registry)) then Some (None, 0, None) else None)"
proof -
  let ?f = "\<lambda>(rh, cap) k. (or_default k default_route_health_state rh,
              or_default (ProviderModel k) default_capacity_state cap)"
  have "fmlookup (fst (foldl ?f (fmempty, fmempty) ks)) r =
          (if r \<in> set ks then Some default_route_health_state else None) \<and>
        fmlookup (snd (foldl ?f (fmempty, fmempty) ks)) (ProviderModel r) =
          (if r \<in> set ks then Some default_capacity_state else None)" for ks r
    by (induction ks rule: rev_induct) (auto simp: fmlookup_or_default case_prod_beta split: if_splits)
  note look = this [THEN conjunct1] this [THEN conjunct2]
  show ?thesis
  proof (cases g)
    case (Gate_RouteHealth r)
    then show ?thesis
      by (auto simp: new_with_policy_def gate_view_def look case_prod_beta Let_def route_gates_def)
        (simp_all add: default_route_health_state_def)
  next
    case (Gate_Capacity pool)
    then show ?thesis
      by (cases pool)
        (auto simp: new_with_policy_def gate_view_def look case_prod_beta Let_def route_gates_def,
          simp_all add: default_capacity_state_def)
  qed
qed

lemma new_inv:
  assumes "new_with_policy registry policy address = (self, inner)"
  shows "health_inv registry self \<lparr>hw_inner = inner, hw_leases = [], hw_clock = now\<rparr>"
proof -
  have "gate_view inner g =
      (if g \<in> \<Union> (set ` route_gates ` set (registry_route_keys registry)) then Some (None, 0, None) else None)" for g
    using new_with_policy_view [of registry policy address g] assms by simp
  then show ?thesis
    by (auto simp: health_inv_def known_gates_def gate_active_def gate_until_def split: if_splits)
qed

lemma reach_inv:
  assumes "health_reach registry policy self w" and "countable_topology registry"
  shows "health_inv registry self w \<and> shs_policy self = policy"
  using assms
proof (induction rule: health_reach.induct)
  case (reach_new address self inner now)
  then show ?case using new_inv new_with_policy_state [of registry policy address] by auto
next
  case (reach_step self w w')
  then show ?case using step_inv by blast
qed

section \<open>Mutual exclusion and healing\<close>

text \<open>
  C6: the half-open probes are mutually exclusive and none is lost. In every reachable state a probe in
  flight at a gate is owned by exactly one lease in flight, and every claim of a lease in flight is the
  probe that its gate shows, under the lease identifier and the generation of the claim.
\<close>

theorem half_open_probes_exclusive:
  assumes "health_reach registry policy self w" and "countable_topology registry"
  shows "(\<forall>g a. gate_active (hw_inner w) g = Some a \<longrightarrow>
            (\<exists>!i. i < length (hw_leases w) \<and> lease_owns (hw_leases w ! i) g a)) \<and>
         (\<forall>l \<in> set (hw_leases w). \<exists>claims. pl_claims l = Some claims \<and> claims \<noteq> [] \<and>
            (\<forall>c \<in> set claims. gate_active (hw_inner w) (pgc_gate c) = Some (claim_active (pl_lease_id l) c)))"
proof -
  have inv: "health_inv registry self w" using reach_inv [OF assms] by blast
  have "\<exists>!i. i < length (hw_leases w) \<and> lease_owns (hw_leases w ! i) g a"
    if "gate_active (hw_inner w) g = Some a" for g a
  proof -
    from inv_owner [OF inv that] obtain l where "l \<in> set (hw_leases w)" "lease_owns l g a" by blast
    then obtain i where i: "i < length (hw_leases w)" "lease_owns (hw_leases w ! i) g a"
      by (auto simp: in_set_conv_nth)
    moreover have "j = i" if "j < length (hw_leases w)" "lease_owns (hw_leases w ! j) g a" for j
    proof -
      have "pl_lease_id (hw_leases w ! i) = pl_lease_id (hw_leases w ! j)"
        using i(2) that(2) by (auto simp: lease_owns_def claim_active_def)
      moreover have "distinct (map pl_lease_id (hw_leases w))" using inv by (simp add: health_inv_def)
      ultimately show ?thesis using i(1) that(1) by (simp add: distinct_conv_nth) (metis length_map nth_map)
    qed
    ultimately show ?thesis by blast
  qed
  moreover have "\<exists>claims. pl_claims l = Some claims \<and> claims \<noteq> [] \<and>
      (\<forall>c \<in> set claims. gate_active (hw_inner w) (pgc_gate c) = Some (claim_active (pl_lease_id l) c))"
    if "l \<in> set (hw_leases w)" for l
    using inv_lease_ok [OF inv that] unfolding lease_ok_def by blast
  ultimately show ?thesis by blast
qed

lemma until_extends:
  assumes "evolves self now [] i i'"
  shows "extends self now (gate_until i g) (gate_until i' g)"
proof (cases "gate_view i g")
  case None
  then show ?thesis using evolves_None [OF assms] by (simp add: gate_until_def)
next
  case (Some v)
  then obtain u n a where v: "gate_view i g = Some (u, n, a)" by (cases v) auto
  from evolves_Some [OF assms v] obtain u' n' where "gate_view i' g = Some (u', n', a)" "extends self now u u'"
    by auto
  with v show ?thesis by (simp add: gate_until_def)
qed

lemma extends_keeps_open: "extends self now u u' \<Longrightarrow> u = Some t \<Longrightarrow> \<exists>t' \<ge> t. u' = Some t'"
  by (auto simp: extends_def)

lemma gate_until_release:
  "distinct (map pgc_gate claims) \<Longrightarrow> gate_until (release_probe_claims i lease claims) g = gate_until i g"
  by (auto simp: gate_until_def release_probe_claims_view split: option.splits)

lemma classify_terminal_completed:
  "snd (snd (classify_terminal route terminal)) = Mut_Completed \<longleftrightarrow> (\<exists>attempt evidence. terminal = Completed attempt evidence)"
  by (cases terminal)
    (auto simp: classify_terminal_def classify_failure_def Let_def split: option.splits if_splits)

lemma gate_until_success: "gate_until (success_at i route) g = gate_until i g"
  by (auto simp: gate_until_def gate_view_success split: option.splits)

lemma gate_until_resolve:
  assumes "distinct (map pgc_gate claims)" and "gate_until i g = Some u"
  shows "gate_until (resolve_probe_success i lease claims) g = Some u \<or>
         gate_until (resolve_probe_success i lease claims) g = None \<and>
         (\<exists>c \<in> set claims. pgc_gate c = g \<and> gate_active i g = Some (claim_active lease c) \<and>
            gate_generation i g = pgc_generation_at_claim c)"
  using assms
  by (auto simp: gate_until_def gate_active_def gate_generation_def resolve_probe_success_view
      split: option.splits if_splits)

text \<open>Observing with a lease either leaves the gate open, or it is the healing observation.\<close>

lemma observe_probe_heals:
  assumes ok: "lease_ok (shs_inner self) i lease" and u: "gate_until i g = Some u"
    and i': "i' = fst (observe_terminal_with_probe self i terminal mode (Some lease) now)"
  shows "(\<exists>u' \<ge> u. gate_until i' g = Some u') \<or>
    gate_until i' g = None \<and> mode = Update \<and>
    (\<exists>attempt evidence claims c. terminal = Completed attempt evidence \<and>
       identity_route_key (ia_route attempt) = pl_route lease \<and> pl_claims lease = Some claims \<and>
       c \<in> set claims \<and> pgc_gate c = g \<and> gate_active i g = Some (claim_active (pl_lease_id lease) c) \<and>
       gate_generation i g = pgc_generation_at_claim c)"
proof -
  obtain claims where c: "pl_claims lease = Some claims" "distinct (map pgc_gate claims)"
    "pl_inner lease = shs_inner self"
    using ok by (auto simp: lease_ok_def)
  let ?route = "identity_route_key (ia_route (terminal_attempt terminal))"
  let ?m = "snd (snd (classify_terminal ?route terminal))"
  have mut: "\<exists>u' \<ge> u. gate_until (apply_mutation self i ?route ?m now) g = Some u'"
    using extends_keeps_open [OF until_extends [OF evolves_mutation] u] by blast
  show ?thesis
  proof (cases "fmlookup (shi_route_health i) ?route \<noteq> None \<and> mode = Update \<and>
      pl_route lease = ?route \<and> ?m = Mut_Completed")
    case True
    then obtain attempt evidence where t: "terminal = Completed attempt evidence"
      by (auto simp: classify_terminal_completed)
    have "gate_until i' g = gate_until (resolve_probe_success i (pl_lease_id lease) claims) g"
      using True i' by (simp add: observe_with_probe_state [OF c(1,3)] Let_def resolved_state_def gate_until_success)
    then show ?thesis
      using gate_until_resolve [OF c(2) u, of "pl_lease_id lease"] True t c(1) by auto
  next
    case False
    then have "gate_until i' g = gate_until i g \<or>
        gate_until i' g = gate_until (apply_mutation self i ?route ?m now) g"
      using i' c
      by (auto simp: observe_with_probe_state [OF c(1,3)] Let_def resolved_state_def drop_probe_lease_def
          gate_until_release)
    then show ?thesis using mut u by auto
  qed
qed

text \<open>
  C12: an opened gate is healed only by its own probe. A step never shortens an open cooldown, and it
  closes the gate only when it is the successful terminal of the lease that owns the gate's probe, on the
  lease's route, with no failure of the gate since the claim (the generation is still the claimed one).
\<close>

theorem opened_gate_heals_only_by_probe:
  assumes "health_reach registry policy self w" and "countable_topology registry"
    and "health_step self w w'" and "gate_until (hw_inner w) g = Some u"
  shows "(\<exists>u' \<ge> u. gate_until (hw_inner w') g = Some u') \<or>
    gate_until (hw_inner w') g = None \<and>
    (\<exists>before lease after attempt evidence claims c.
       hw_leases w = before @ lease # after \<and> hw_leases w' = before @ after \<and>
       hw_inner w' = fst (observe_terminal_with_probe self (hw_inner w) (Completed attempt evidence) Update
                            (Some lease) (hw_clock w')) \<and>
       identity_route_key (ia_route attempt) = pl_route lease \<and> pl_claims lease = Some claims \<and>
       c \<in> set claims \<and> pgc_gate c = g \<and>
       gate_active (hw_inner w) g = Some (claim_active (pl_lease_id lease) c) \<and>
       gate_generation (hw_inner w) g = pgc_generation_at_claim c)"
proof -
  have inv: "health_inv registry self w" using reach_inv [OF assms(1,2)] by blast
  have same: ?thesis if "gate_until (hw_inner w') g = gate_until (hw_inner w) g"
    using that assms(4) by auto
  from assms(3) show ?thesis
  proof cases
    case (step_claim now route inner lease)
    have "gate_until inner g = gate_until (hw_inner w) g"
      using claim_lease_view [OF step_claim(3) inv_known_gates_card [OF inv assms(2)]] by blast
    then have "gate_until (hw_inner w') g = gate_until (hw_inner w) g" using step_claim(1) by simp
    then show ?thesis by (rule same)
  next
    case (step_no_claim now route inner result)
    have "inner = hw_inner w" by (rule try_claim_no_lease [OF step_no_claim(3,4)])
    then have "gate_until (hw_inner w') g = gate_until (hw_inner w) g" using step_no_claim(1) by simp
    then show ?thesis by (rule same)
  next
    case (step_observe now terminal mode)
    then show ?thesis
      using extends_keeps_open [OF until_extends [OF evolves_observe] assms(4)] by auto
  next
    case (step_observe_probe now before lease after terminal mode)
    then have "lease_ok (shs_inner self) (hw_inner w) lease" using inv_lease_ok [OF inv] by simp
    from observe_probe_heals [OF this assms(4), of "hw_inner w'" terminal mode now] step_observe_probe
    show ?thesis by fastforce
  next
    case (step_drop now before lease after)
    then have "lease_ok (shs_inner self) (hw_inner w) lease" using inv_lease_ok [OF inv] by simp
    then have "gate_until (drop_probe_lease (shs_inner self) (hw_inner w) lease) g = gate_until (hw_inner w) g"
      by (auto simp: drop_probe_lease_def lease_ok_def gate_until_release)
    then have "gate_until (hw_inner w') g = gate_until (hw_inner w) g" using step_drop(1) by simp
    then show ?thesis by (rule same)
  qed
qed

end
