(* ===== verification/Health_Claims.thy ===== *)
theory Health_Claims
  imports Health_Protocol
begin

text \<open>
  A concrete run, and what a claim reports: it agrees with the snapshot the router reads, it always
  returns, and a refusal for an open circuit ends at the reported time. The threshold of route failures is
  compared with a specification that keeps the whole failure log.
\<close>

section \<open>A concrete run\<close>

definition one_route_registry :: provider_registry where
  "one_route_registry =
     \<lparr>pr_providers = PROVIDERS,
      pr_completion_models = [completion_model GPT_OSS_120B_MODEL_ID GPT_OSS_120B_ROUTES],
      pr_decision_models = []\<rparr>"

definition one_route :: route_key where
  "one_route = \<lparr>rk_provider = Tinfoil, rk_provider_model_id = GPT_OSS_120B_MODEL_ID\<rparr>"

definition one_attempt :: inference_attempt where
  "one_attempt = \<lparr>ia_request_id = 1, ia_execution_id = 2, ia_attempt_id = 3,
     ia_route = new_route_identity Tinfoil GPT_OSS_120B_MODEL_ID GPT_OSS_120B_MODEL_ID GPT_OSS_120B_MODEL_ID
       StaticSplit None\<rparr>"

definition one_rejection :: attempt_terminal where
  "one_rejection = Failed one_attempt (with_upstream_response
     (new_failure CapacityRejected AwaitingResponse ProvenPreAcceptance) 429 None None)"

definition one_self :: shadow_health_state where
  "one_self = \<lparr>shs_policy = default_health_policy, shs_inner = 7\<rparr>"

definition one_start :: shadow_health_inner where
  "one_start =
     \<lparr>shi_route_health = fmupd one_route default_route_health_state fmempty,
      shi_capacity = fmupd (ProviderModel one_route) default_capacity_state fmempty,
      shi_next_probe_lease_id = 0\<rparr>"

definition one_opened :: shadow_health_inner where
  "one_opened = one_start\<lparr>shi_capacity := fmupd (ProviderModel one_route)
     \<lparr>cap_open_until = Some (from_secs 30), cap_generation = 1, cap_active_probe = None\<rparr> fmempty\<rparr>"

definition one_probed :: shadow_health_inner where
  "one_probed = one_opened\<lparr>shi_next_probe_lease_id := 1,
     shi_capacity := fmupd (ProviderModel one_route)
       \<lparr>cap_open_until = Some (from_secs 30), cap_generation = 2,
        cap_active_probe = Some \<lparr>ap_lease_id = ProbeLeaseId 1, ap_generation_at_claim = 2\<rparr>\<rparr> fmempty\<rparr>"

definition one_lease :: probe_lease where
  "one_lease = \<lparr>pl_inner = 7, pl_route = one_route, pl_lease_id = ProbeLeaseId 1,
     pl_claims = Some [\<lparr>pgc_gate = Gate_Capacity (ProviderModel one_route), pgc_generation_at_claim = 2\<rparr>]\<rparr>"

lemma one_start_eq: "new_with_policy one_route_registry default_health_policy 7 = (one_self, one_start)"
  by (simp add: new_with_policy_def registry_route_keys_def one_route_registry_def completion_model_def
      GPT_OSS_120B_ROUTES_def or_default_def one_self_def one_start_def one_route_def)

lemma one_opened_eq: "fst (observe_terminal one_self one_start one_rejection Update 0) = one_opened"
  by (simp add: observe_terminal_state one_rejection_def one_attempt_def identity_route_key_def
      new_route_identity_def classify_terminal_def classify_failure_def with_upstream_response_def
      new_failure_def one_start_def one_route_def one_opened_def apply_mutation_def one_self_def
      default_health_policy_def default_capacity_state_def advance_generation_def extend_open_until_def
      instant_checked_add_def instant_bound_def nanos_per_sec_def from_secs_def MIN_CAPACITY_COOLDOWN_def
      MAX_CAPACITY_COOLDOWN_def Let_def)

lemma one_probe_id: "next_probe_lease_id one_opened = Some (one_opened\<lparr>shi_next_probe_lease_id := 1\<rparr>, ProbeLeaseId 1)"
proof -
  have "\<not> lease_id_in_use (one_opened\<lparr>shi_next_probe_lease_id := 1\<rparr>) (ProbeLeaseId 1)"
    by (auto simp: lease_id_in_use_iff active_ids_def gate_active_def gate_view_def one_opened_def one_start_def
        default_route_health_state_def split: probe_gate_key.splits option.splits if_splits)
  then show ?thesis
    by (subst next_probe_lease_id.simps) (simp add: one_opened_def one_start_def Let_def)
qed

lemma one_probed_eq:
  "try_claim_probe_locked one_self one_opened one_route (from_secs 30) = Some (one_probed, Ready (Some one_lease))"
proof -
  have "survey_gates one_opened (from_secs 30) ([], None, False) (route_gates one_route)
      = Some ([Gate_Capacity (ProviderModel one_route)], None, False)"
    by (simp add: route_gates_def probe_gate_status_def one_opened_def one_start_def
        default_route_health_state_def)
  moreover have "claim_gates (one_opened\<lparr>shi_next_probe_lease_id := 1\<rparr>) (ProbeLeaseId 1)
      [Gate_Capacity (ProviderModel one_route)]
      = Some (one_probed, [\<lparr>pgc_gate = Gate_Capacity (ProviderModel one_route), pgc_generation_at_claim = 2\<rparr>])"
    by (simp add: claim_probe_gate_def one_opened_def one_start_def one_probed_def advance_generation_def Let_def)
  ultimately show ?thesis
    by (simp add: try_claim_probe_locked_def Let_def one_probe_id one_lease_def one_self_def)
qed

definition one_world :: health_world where
  "one_world = \<lparr>hw_inner = one_probed, hw_leases = [one_lease], hw_clock = from_secs 30\<rparr>"

lemma one_countable: "countable_topology one_route_registry"
  by (simp add: countable_topology_def registry_route_keys_def one_route_registry_def completion_model_def
      GPT_OSS_120B_ROUTES_def)

lemma one_opened_reach:
  "health_reach one_route_registry default_health_policy one_self
     \<lparr>hw_inner = one_opened, hw_leases = [], hw_clock = 0\<rparr>"
proof -
  have "health_reach one_route_registry default_health_policy one_self
      \<lparr>hw_inner = one_start, hw_leases = [], hw_clock = 0\<rparr>"
    by (rule reach_new [OF one_start_eq])
  then show ?thesis
    using health_step.step_observe [of "\<lparr>hw_inner = one_start, hw_leases = [], hw_clock = 0\<rparr>" 0 one_self
        one_rejection Update]
    by (auto simp: one_opened_eq intro: reach_step)
qed

lemma one_world_reach: "health_reach one_route_registry default_health_policy one_self one_world"
proof -
  have "health_step one_self \<lparr>hw_inner = one_opened, hw_leases = [], hw_clock = 0\<rparr> one_world"
    using health_step.step_claim [of "\<lparr>hw_inner = one_opened, hw_leases = [], hw_clock = 0\<rparr>" "from_secs 30"
        one_self one_route one_probed one_lease]
    by (simp add: one_probed_eq one_world_def)
  then show ?thesis by (rule reach_step [OF one_opened_reach])
qed

theorem half_open_probes_exclusive_witness:
  "\<exists>!i. i < length (hw_leases one_world) \<and> lease_owns (hw_leases one_world ! i)
     (Gate_Capacity (ProviderModel one_route)) \<lparr>ap_lease_id = ProbeLeaseId 1, ap_generation_at_claim = 2\<rparr>"
proof -
  have "gate_active (hw_inner one_world) (Gate_Capacity (ProviderModel one_route))
      = Some \<lparr>ap_lease_id = ProbeLeaseId 1, ap_generation_at_claim = 2\<rparr>"
    by (simp add: one_world_def one_probed_def gate_active_def gate_view_def)
  then show ?thesis
    using half_open_probes_exclusive [OF one_world_reach one_countable] by blast
qed

definition one_healed :: health_world where
  "one_healed = \<lparr>hw_inner = fst (observe_terminal_with_probe one_self one_probed
       (Completed one_attempt ProviderDone) Update (Some one_lease) (from_secs 31)),
     hw_leases = [], hw_clock = from_secs 31\<rparr>"

theorem opened_gate_heals_only_by_probe_witness:
  "gate_until (hw_inner one_world) (Gate_Capacity (ProviderModel one_route)) = Some (from_secs 30) \<and>
   gate_until (hw_inner one_healed) (Gate_Capacity (ProviderModel one_route)) = None \<and>
   (\<exists>before lease after. hw_leases one_world = before @ lease # after \<and> hw_leases one_healed = before @ after)"
proof -
  let ?g = "Gate_Capacity (ProviderModel one_route)"
  have step: "health_step one_self one_world one_healed"
    using health_step.step_observe_probe [of one_world "from_secs 31" "[]" one_lease "[]" one_self
        "Completed one_attempt ProviderDone" Update]
    by (simp add: one_world_def one_healed_def from_secs_def)
  have open1: "gate_until (hw_inner one_world) ?g = Some (from_secs 30)"
    by (simp add: one_world_def one_probed_def gate_until_def gate_view_def)
  have "pl_claims one_lease = Some [\<lparr>pgc_gate = ?g, pgc_generation_at_claim = 2\<rparr>]" "pl_inner one_lease = shs_inner one_self"
    by (simp_all add: one_lease_def one_self_def)
  note st = observe_with_probe_state [OF this]
  have route: "identity_route_key (ia_route one_attempt) = one_route"
    by (simp add: one_attempt_def identity_route_key_def new_route_identity_def one_route_def)
  have "hw_inner one_healed = success_at (resolve_probe_success one_probed (pl_lease_id one_lease)
      [\<lparr>pgc_gate = ?g, pgc_generation_at_claim = 2\<rparr>]) one_route"
    by (simp add: one_healed_def st Let_def route classify_terminal_def resolved_state_def)
      (simp add: one_lease_def one_probed_def one_opened_def one_start_def)
  moreover have "gate_view one_probed ?g =
      Some (Some (from_secs 30), 2, Some \<lparr>ap_lease_id = ProbeLeaseId 1, ap_generation_at_claim = 2\<rparr>)"
    by (simp add: one_probed_def gate_view_def)
  ultimately have closed: "gate_until (hw_inner one_healed) ?g = None"
    by (simp add: gate_until_success)
      (simp add: gate_until_def resolve_probe_success_view claim_active_def one_lease_def)
  from opened_gate_heals_only_by_probe [OF one_world_reach one_countable step open1] closed open1
  show ?thesis by auto
qed

section \<open>What a claim reports\<close>

text \<open>The two gates of a route decide a claim.\<close>

definition gate_verdict :: "instant \<Rightarrow> instant option \<times> u64 \<times> active_probe option \<Rightarrow> gate_status" where
  "gate_verdict now view =
     (case view of (u, n, a) \<Rightarrow>
        if a \<noteq> None then Gate_ProbeInFlight
        else case u of None \<Rightarrow> Gate_Healthy | Some t \<Rightarrow> if now < t then StillOpen (t - now) else ExpiredOpen)"

lemma probe_gate_status_verdict:
  "probe_gate_status inner g now = map_option (gate_verdict now) (gate_view inner g)"
  by (cases "gate_view inner g") (auto simp: probe_gate_status_view gate_verdict_def split: prod.splits)

lemma claim_leases:
  assumes "card (known_gates inner) < 2 ^ 64 - 1" and "expired \<noteq> []" and "distinct expired"
    and "\<forall>g \<in> set expired. gate_view inner g \<noteq> None"
    and "survey_gates inner now ([], None, False) (route_gates route) = Some (expired, None, False)"
  shows "\<exists>inner' lease. try_claim_probe_locked self inner route now = Some (inner', Ready (Some lease))"
proof -
  have fin: "finite (active_ids inner)" "card (active_ids inner) < 2 ^ 64 - 1"
    using active_ids_known [of inner] assms(1) by auto
  obtain i where n: "next_probe_lease_id inner = Some (inner\<lparr>shi_next_probe_lease_id := i\<rparr>, ProbeLeaseId i)"
    using next_probe_lease_id_total [OF fin] by blast
  obtain inner' claims where "claim_gates (inner\<lparr>shi_next_probe_lease_id := i\<rparr>) (ProbeLeaseId i) expired = Some (inner', claims)"
    using claim_gates_view [OF assms(3), of "inner\<lparr>shi_next_probe_lease_id := i\<rparr>" "ProbeLeaseId i"] assms(4) by auto
  then show ?thesis using n assms(2,5) by (simp add: try_claim_probe_locked_def Let_def)
qed

lemma claim_by_verdicts:
  fixes self :: shadow_health_state
  assumes "gate_view inner (Gate_RouteHealth route) = Some v1"
    and "gate_view inner (Gate_Capacity (ProviderModel route)) = Some v2"
    and "card (known_gates inner) < 2 ^ 64 - 1"
  defines "m \<equiv> hp_minimum_capacity_cooldown (shs_policy self)"
  shows "case (gate_verdict now v1, gate_verdict now v2) of
      (Gate_ProbeInFlight, StillOpen d) \<Rightarrow>
        try_claim_probe_locked self inner route now = Some (inner, Rejected Reject_ProbeInFlight (max d m))
    | (StillOpen d, Gate_ProbeInFlight) \<Rightarrow>
        try_claim_probe_locked self inner route now = Some (inner, Rejected Reject_ProbeInFlight (max d m))
    | (Gate_ProbeInFlight, _) \<Rightarrow>
        try_claim_probe_locked self inner route now = Some (inner, Rejected Reject_ProbeInFlight m)
    | (_, Gate_ProbeInFlight) \<Rightarrow>
        try_claim_probe_locked self inner route now = Some (inner, Rejected Reject_ProbeInFlight m)
    | (StillOpen d, StillOpen d') \<Rightarrow>
        try_claim_probe_locked self inner route now = Some (inner, Rejected CircuitOpen (max d d'))
    | (StillOpen d, _) \<Rightarrow> try_claim_probe_locked self inner route now = Some (inner, Rejected CircuitOpen d)
    | (_, StillOpen d) \<Rightarrow> try_claim_probe_locked self inner route now = Some (inner, Rejected CircuitOpen d)
    | (Gate_Healthy, Gate_Healthy) \<Rightarrow> try_claim_probe_locked self inner route now = Some (inner, Ready None)
    | _ \<Rightarrow> \<exists>inner' lease. try_claim_probe_locked self inner route now = Some (inner', Ready (Some lease))"
proof -
  have st: "probe_gate_status inner (Gate_RouteHealth route) now = Some (gate_verdict now v1)"
    "probe_gate_status inner (Gate_Capacity (ProviderModel route)) now = Some (gate_verdict now v2)"
    using assms(1,2) by (simp_all add: probe_gate_status_verdict)
  have lease: "\<exists>inner' lease. try_claim_probe_locked self inner route now = Some (inner', Ready (Some lease))"
    if "survey_gates inner now ([], None, False) (route_gates route) = Some (expired, None, False)"
      "expired \<noteq> []" "distinct expired" "set expired \<subseteq> set (route_gates route)" for expired
  proof -
    have "\<forall>g \<in> set expired. gate_view inner g \<noteq> None"
      using that(4) assms(1,2) by (metis empty_iff insert_iff list.set(1,2) option.distinct(1) route_gates_def subsetD)
    then show ?thesis using claim_leases [OF assms(3) that(2,3) _ that(1)] by blast
  qed
  show ?thesis
  proof (cases "gate_verdict now v1 \<in> {Gate_Healthy, ExpiredOpen} \<and> gate_verdict now v2 \<in> {Gate_Healthy, ExpiredOpen} \<and>
      (gate_verdict now v1, gate_verdict now v2) \<noteq> (Gate_Healthy, Gate_Healthy)")
    case True
    let ?e = "filter (\<lambda>g. probe_gate_status inner g now = Some ExpiredOpen) (route_gates route)"
    have "survey_gates inner now ([], None, False) (route_gates route) = Some (?e, None, False)" "?e \<noteq> []"
      using True by (auto simp: route_gates_def st)
    from lease [OF this] have "\<exists>inner' lease. try_claim_probe_locked self inner route now = Some (inner', Ready (Some lease))"
      by (simp add: route_gates_def)
    then show ?thesis using True by auto
  next
    case False
    then show ?thesis
      by (cases "gate_verdict now v1"; cases "gate_verdict now v2")
        (simp_all add: try_claim_probe_locked_def route_gates_def st opt_max_def Let_def m_def)
  qed
qed

lemma snapshot_views:
  assumes "snapshot_locked self inner route now = Some snap"
  obtains s1 s2 where "fmlookup (shi_route_health inner) route = Some s1"
    and "fmlookup (shi_capacity inner) (ProviderModel route) = Some s2"
    and "srs_effective snap = stronger_disposition
           (stronger_disposition Healthy (route_health_disposition s1
              (hp_route_failure_window (shs_policy self)) (hp_minimum_capacity_cooldown (shs_policy self)) now))
           (capacity_disposition s2 (hp_minimum_capacity_cooldown (shs_policy self)) now)"
  using assms
  by (auto simp: snapshot_locked_def strongest_disposition_def Let_def split: option.splits)

lemma route_disposition_verdict:
  assumes "fmlookup (shi_route_health inner) route = Some s" and "gate_view inner (Gate_RouteHealth route) = Some v"
  shows "route_health_disposition s window m now =
    (case gate_verdict now v of
       Gate_ProbeInFlight \<Rightarrow> ProbeInFlight m | StillOpen d \<Rightarrow> WouldOpen d | ExpiredOpen \<Rightarrow> WouldProbe
     | Gate_Healthy \<Rightarrow> route_health_disposition (s\<lparr>rh_open_until := None, rh_active_probe := None\<rparr>) window m now)"
  using assms
  by (auto simp: gate_view_def gate_verdict_def route_health_disposition_def duration_since_def
      split: option.splits)

lemma capacity_disposition_verdict:
  assumes "fmlookup (shi_capacity inner) pool = Some s" and "gate_view inner (Gate_Capacity pool) = Some v"
  shows "capacity_disposition s m now =
    (case gate_verdict now v of
       Gate_ProbeInFlight \<Rightarrow> ProbeInFlight m | StillOpen d \<Rightarrow> WouldOpen d | ExpiredOpen \<Rightarrow> WouldProbe
     | Gate_Healthy \<Rightarrow> Healthy)"
  using assms
  by (auto simp: gate_view_def gate_verdict_def capacity_disposition_def duration_since_def
      split: option.splits)

lemma healthy_disposition:
  "route_health_disposition (s\<lparr>rh_open_until := None, rh_active_probe := None\<rparr>) window m now = Healthy \<or>
   (\<exists>n. route_health_disposition (s\<lparr>rh_open_until := None, rh_active_probe := None\<rparr>) window m now = Watch n)"
  by (simp add: route_health_disposition_def Let_def)

lemma claim_follows_snapshot:
  assumes "snapshot_locked self inner route now = Some snap" and "card (known_gates inner) < 2 ^ 64 - 1"
  shows "case srs_effective snap of
      Healthy \<Rightarrow> try_claim_probe_locked self inner route now = Some (inner, Ready None)
    | Watch n \<Rightarrow> try_claim_probe_locked self inner route now = Some (inner, Ready None)
    | WouldOpen d \<Rightarrow> try_claim_probe_locked self inner route now = Some (inner, Rejected CircuitOpen d)
    | ProbeInFlight d \<Rightarrow>
        try_claim_probe_locked self inner route now = Some (inner, Rejected Reject_ProbeInFlight d)
    | WouldProbe \<Rightarrow>
        (\<exists>inner' lease. try_claim_probe_locked self inner route now = Some (inner', Ready (Some lease)))"
proof -
  obtain s1 s2 where s: "fmlookup (shi_route_health inner) route = Some s1"
    "fmlookup (shi_capacity inner) (ProviderModel route) = Some s2"
    and e: "srs_effective snap = stronger_disposition
       (stronger_disposition Healthy (route_health_disposition s1
          (hp_route_failure_window (shs_policy self)) (hp_minimum_capacity_cooldown (shs_policy self)) now))
       (capacity_disposition s2 (hp_minimum_capacity_cooldown (shs_policy self)) now)"
    by (rule snapshot_views [OF assms(1)])
  obtain v1 v2 where v: "gate_view inner (Gate_RouteHealth route) = Some v1"
    "gate_view inner (Gate_Capacity (ProviderModel route)) = Some v2"
    using s by (simp add: gate_view_def)
  note d = route_disposition_verdict [OF s(1) v(1)] capacity_disposition_verdict [OF s(2) v(2)]
  note h = healthy_disposition [of s1 "hp_route_failure_window (shs_policy self)"
      "hp_minimum_capacity_cooldown (shs_policy self)" now]
  show ?thesis
    using claim_by_verdicts [OF v assms(2), of self now] h
    by (cases "gate_verdict now v1"; cases "gate_verdict now v2")
      (auto simp: e d max.commute split: shadow_disposition.splits)
qed

text \<open>
  C15: a claim decides as the snapshot announces, on every branch and with the same waiting time: a route
  shown healthy or under watch is admitted without a probe, one shown open or with a probe in flight is
  refused with the announced remaining time, and one shown ready for a probe gets a lease.
\<close>

theorem claim_agrees_with_snapshot:
  assumes "snapshot_locked self inner route now = Some snap" and "card (known_gates inner) < 2 ^ 64 - 1"
  shows "case srs_effective snap of
      Healthy \<Rightarrow> try_claim_probe_locked self inner route now = Some (inner, Ready None)
    | Watch n \<Rightarrow> try_claim_probe_locked self inner route now = Some (inner, Ready None)
    | WouldOpen d \<Rightarrow> try_claim_probe_locked self inner route now = Some (inner, Rejected CircuitOpen d)
    | ProbeInFlight d \<Rightarrow>
        try_claim_probe_locked self inner route now = Some (inner, Rejected Reject_ProbeInFlight d)
    | WouldProbe \<Rightarrow>
        (\<exists>inner' lease. try_claim_probe_locked self inner route now = Some (inner', Ready (Some lease)))"
  using assms by (rule claim_follows_snapshot)

theorem claim_agrees_with_snapshot_witness:
  "srs_effective (the (snapshot_locked one_self one_probed one_route (from_secs 31))) =
     ProbeInFlight (from_secs 30) \<and>
   try_claim_probe_locked one_self one_probed one_route (from_secs 31) =
     Some (one_probed, Rejected Reject_ProbeInFlight (from_secs 30))"
proof -
  have snap: "snapshot_locked one_self one_probed one_route (from_secs 31) = Some
      \<lparr>srs_route_health = Healthy, srs_deployment_capacity = ProbeInFlight (from_secs 30),
       srs_rate_limit_capacity = ProbeInFlight (from_secs 30), srs_effective = ProbeInFlight (from_secs 30)\<rparr>"
    by (simp add: snapshot_locked_def one_probed_def one_opened_def one_start_def one_self_def
        default_health_policy_def default_route_health_state_def route_health_disposition_def
        capacity_disposition_def strongest_disposition_def MIN_CAPACITY_COOLDOWN_def Let_def)
  have card: "card (known_gates one_probed) < 2 ^ 64 - 1"
    using inv_known_gates_card [OF conjunct1 [OF reach_inv [OF one_world_reach one_countable]] one_countable]
    by (simp add: one_world_def)
  from claim_agrees_with_snapshot [OF snap card] snap show ?thesis by simp
qed

section \<open>Claims return, and an open circuit ends\<close>

lemma known_route_views:
  assumes "health_inv registry self w" and "route \<in> set (registry_route_keys registry)"
  obtains v1 v2 where "gate_view (hw_inner w) (Gate_RouteHealth route) = Some v1"
    and "gate_view (hw_inner w) (Gate_Capacity (ProviderModel route)) = Some v2"
proof -
  have "Gate_RouteHealth route \<in> known_gates (hw_inner w)" "Gate_Capacity (ProviderModel route) \<in> known_gates (hw_inner w)"
    using assms by (auto simp: health_inv_def route_gates_def)
  then show thesis using that by (auto simp: known_gates_def)
qed

lemma inv_cooldown:
  "health_inv registry self w \<Longrightarrow> gate_until (hw_inner w) g = Some t \<Longrightarrow>
   t \<le> hw_clock w + policy_cooldown (shs_policy self)"
  unfolding health_inv_def by blast

lemma verdict_open_bounds:
  assumes "health_inv registry self w" and "hw_clock w \<le> now" and "gate_view (hw_inner w) g = Some v"
    and "gate_verdict now v = StillOpen d"
  shows "0 < d \<and> d \<le> policy_cooldown (shs_policy self) \<and>
         (\<forall>t \<ge> now. gate_verdict t v = (if t < now + d then StillOpen (now + d - t) else ExpiredOpen))"
proof -
  obtain u n where v: "v = (Some u, n, None)" "now < u" "d = u - now"
    using assms(4) by (cases v) (auto simp: gate_verdict_def split: option.splits if_splits)
  then have "u \<le> hw_clock w + policy_cooldown (shs_policy self)"
    using inv_cooldown [OF assms(1), of g u] assms(3) by (simp add: gate_until_def)
  then show ?thesis using v assms(2) by (auto simp: gate_verdict_def)
qed

lemma verdict_settled:
  "gate_verdict now v \<in> {Gate_Healthy, ExpiredOpen} \<Longrightarrow> now \<le> t \<Longrightarrow> gate_verdict t v = gate_verdict now v"
  by (cases v) (auto simp: gate_verdict_def split: option.splits if_splits)

lemma verdict_probe_owner:
  assumes "health_inv registry self w" and "gate_view (hw_inner w) g = Some v"
    and "gate_verdict now v = Gate_ProbeInFlight" and "g \<in> set (route_gates route)"
  shows "\<exists>l \<in> set (hw_leases w). pl_route l = route"
proof -
  obtain a where "gate_active (hw_inner w) g = Some a"
    using assms(2,3) by (cases v) (auto simp: gate_active_def gate_verdict_def split: option.splits if_splits)
  from inv_owner [OF assms(1) this] obtain l where l: "l \<in> set (hw_leases w)" "lease_owns l g a" by blast
  then have "g \<in> set (route_gates (pl_route l))"
    using inv_lease_ok [OF assms(1) l(1)] by (auto simp: lease_owns_def lease_ok_def)
  then have "pl_route l = route" using assms(4) by (auto simp: route_gates_def)
  with l show ?thesis by blast
qed

lemma open_circuit_ends:
  assumes inv: "health_inv registry self w" and le: "hw_clock w \<le> now" and top: "countable_topology registry"
    and v: "gate_view (hw_inner w) (Gate_RouteHealth route) = Some v1"
      "gate_view (hw_inner w) (Gate_Capacity (ProviderModel route)) = Some v2"
    and r: "try_claim_probe_locked self (hw_inner w) route now = Some (i', Rejected CircuitOpen d)"
  shows "0 < d \<and> d \<le> policy_cooldown (shs_policy self) \<and>
    (\<forall>t \<ge> now + d. \<exists>i'' lease. try_claim_probe_locked self (hw_inner w) route t = Some (i'', Ready (Some lease)))"
proof -
  note card = inv_known_gates_card [OF inv top]
  note now = claim_by_verdicts [OF v card, of self now]
  have b1: "0 < x \<and> x \<le> policy_cooldown (shs_policy self) \<and>
      (\<forall>t \<ge> now. gate_verdict t v1 = (if t < now + x then StillOpen (now + x - t) else ExpiredOpen))"
    if "gate_verdict now v1 = StillOpen x" for x by (rule verdict_open_bounds [OF inv le v(1) that])
  have b2: "0 < x \<and> x \<le> policy_cooldown (shs_policy self) \<and>
      (\<forall>t \<ge> now. gate_verdict t v2 = (if t < now + x then StillOpen (now + x - t) else ExpiredOpen))"
    if "gate_verdict now v2 = StillOpen x" for x by (rule verdict_open_bounds [OF inv le v(2) that])
  have d: "(\<exists>x y. gate_verdict now v1 = StillOpen x \<and> gate_verdict now v2 = StillOpen y \<and> d = max x y) \<or>
      (\<exists>x. gate_verdict now v1 = StillOpen x \<and> gate_verdict now v2 \<in> {Gate_Healthy, ExpiredOpen} \<and> d = x) \<or>
      (\<exists>y. gate_verdict now v1 \<in> {Gate_Healthy, ExpiredOpen} \<and> gate_verdict now v2 = StillOpen y \<and> d = y)"
    using now r by (cases "gate_verdict now v1"; cases "gate_verdict now v2") auto
  have ready: "\<exists>i'' lease. try_claim_probe_locked self (hw_inner w) route t = Some (i'', Ready (Some lease))"
    if "now + d \<le> t" for t
  proof -
    have "gate_verdict t v1 \<in> {Gate_Healthy, ExpiredOpen} \<and> gate_verdict t v2 \<in> {Gate_Healthy, ExpiredOpen} \<and>
        (gate_verdict t v1 = ExpiredOpen \<or> gate_verdict t v2 = ExpiredOpen)"
      using d b1 b2 that verdict_settled [of now v1 t] verdict_settled [of now v2 t] by (elim disjE) (auto split: if_splits)
    then show ?thesis using claim_by_verdicts [OF v card, of self t]
      by (cases "gate_verdict t v1"; cases "gate_verdict t v2") auto
  qed
  have "0 < d \<and> d \<le> policy_cooldown (shs_policy self)" using d b1 b2 by (elim disjE) (auto simp: max_def)
  with ready show ?thesis by blast
qed

text \<open>
  C16: a claim always returns: the lease counter finds a free identifier and no expectation fails. A
  route is unknown exactly when the registry does not have it, a probe in flight belongs to a request on
  the same route, and a refusal for an open circuit names a positive waiting time within the policy's
  cooldown after which a request is admitted with a probe, unless something else happens first.
\<close>

theorem claim_returns_and_recovers:
  assumes "health_reach registry policy self w" and "countable_topology registry" and "hw_clock w \<le> now"
  shows "\<exists>i' result. try_claim_probe_locked self (hw_inner w) route now = Some (i', result) \<and>
    ((\<exists>d. result = Rejected UnknownRoute d) \<longleftrightarrow> route \<notin> set (registry_route_keys registry)) \<and>
    (\<forall>d. result = Rejected Reject_ProbeInFlight d \<longrightarrow> (\<exists>l \<in> set (hw_leases w). pl_route l = route)) \<and>
    (\<forall>d. result = Rejected CircuitOpen d \<longrightarrow> 0 < d \<and> d \<le> policy_cooldown policy \<and>
       (\<forall>t \<ge> now + d. \<exists>i'' lease.
          try_claim_probe_locked self (hw_inner w) route t = Some (i'', Ready (Some lease))))"
proof -
  have inv: "health_inv registry self w" and pol: "shs_policy self = policy"
    using reach_inv [OF assms(1,2)] by auto
  show ?thesis
  proof (cases "route \<in> set (registry_route_keys registry)")
    case False
    then have "Gate_RouteHealth route \<notin> known_gates (hw_inner w)"
      using inv by (auto simp: health_inv_def route_gates_def)
    then have "gate_view (hw_inner w) (Gate_RouteHealth route) = None" unfolding known_gates_def by blast
    then show ?thesis using False
      by (simp add: try_claim_probe_locked_def Let_def route_gates_def probe_gate_status_verdict)
  next
    case True
    obtain v1 v2 where v: "gate_view (hw_inner w) (Gate_RouteHealth route) = Some v1"
      "gate_view (hw_inner w) (Gate_Capacity (ProviderModel route)) = Some v2"
      by (rule known_route_views [OF inv True])
    note now = claim_by_verdicts [OF v inv_known_gates_card [OF inv assms(2)], of self now]
    obtain i' result where r: "try_claim_probe_locked self (hw_inner w) route now = Some (i', result)"
      and known: "\<nexists>d. result = Rejected UnknownRoute d"
      and flight: "(\<exists>d. result = Rejected Reject_ProbeInFlight d) \<longrightarrow>
        gate_verdict now v1 = Gate_ProbeInFlight \<or> gate_verdict now v2 = Gate_ProbeInFlight"
      using now by (cases "gate_verdict now v1"; cases "gate_verdict now v2") auto
    have "\<exists>l \<in> set (hw_leases w). pl_route l = route" if "result = Rejected Reject_ProbeInFlight d" for d
      using flight that verdict_probe_owner [OF inv v(1), of now route] verdict_probe_owner [OF inv v(2), of now route]
      by (auto simp: route_gates_def)
    moreover have "0 < d \<and> d \<le> policy_cooldown policy \<and>
       (\<forall>t \<ge> now + d. \<exists>i'' lease. try_claim_probe_locked self (hw_inner w) route t = Some (i'', Ready (Some lease)))"
      if "result = Rejected CircuitOpen d" for d
      using open_circuit_ends [OF inv assms(3,2) v, of i' d] r that pol by simp
    ultimately show ?thesis using r known True by blast
  qed
qed

theorem claim_returns_and_recovers_witness:
  "try_claim_probe_locked one_self one_opened one_route 0 = Some (one_opened, Rejected CircuitOpen (from_secs 30)) \<and>
   (\<exists>i'' lease. try_claim_probe_locked one_self one_opened one_route (from_secs 30) = Some (i'', Ready (Some lease)))"
proof -
  have r: "try_claim_probe_locked one_self one_opened one_route 0 = Some (one_opened, Rejected CircuitOpen (from_secs 30))"
    by (simp add: try_claim_probe_locked_def Let_def route_gates_def probe_gate_status_def one_opened_def
        one_start_def default_route_health_state_def opt_max_def duration_since_def from_secs_def)
  moreover have "\<exists>i'' lease. try_claim_probe_locked one_self one_opened one_route (from_secs 30) = Some (i'', Ready (Some lease))"
    using claim_returns_and_recovers [OF one_opened_reach one_countable, of 0 one_route] r by auto
  ultimately show ?thesis by blast
qed

section \<open>The failure threshold\<close>

datatype route_event = Route_Succeeded | Route_Failed instant

fun route_event_step :: "shadow_health_policy \<Rightarrow> route_health_state \<Rightarrow> route_event \<Rightarrow> route_health_state" where
  "route_event_step policy s Route_Succeeded = apply_route_success s"
| "route_event_step policy s (Route_Failed t) = apply_route_failure s policy t"

text \<open>The specification keeps every failure since the last success.\<close>

fun failure_log :: "instant list \<Rightarrow> route_event list \<Rightarrow> instant list" where
  "failure_log log [] = log"
| "failure_log log (Route_Succeeded # es) = failure_log [] es"
| "failure_log log (Route_Failed t # es) = failure_log (log @ [t]) es"

definition trips_at :: "shadow_health_policy \<Rightarrow> route_event list \<Rightarrow> instant \<Rightarrow> bool" where
  "trips_at policy before t \<longleftrightarrow> failure_threshold policy \<le>
     length (filter (within_window t (hp_route_failure_window policy)) (failure_log [] before)) + 1"

definition trips :: "shadow_health_policy \<Rightarrow> route_event list \<Rightarrow> bool" where
  "trips policy es \<longleftrightarrow> (\<exists>before t after. es = before @ Route_Failed t # after \<and> trips_at policy before t)"

definition event_times :: "route_event list \<Rightarrow> instant list" where
  "event_times es = List.map_filter (\<lambda>e. case e of Route_Succeeded \<Rightarrow> None | Route_Failed t \<Rightarrow> Some t) es"

lemma event_times_simps [simp]:
  "event_times [] = []" "event_times (xs @ ys) = event_times xs @ event_times ys"
  "event_times (Route_Succeeded # es) = event_times es"
  "event_times (Route_Failed t # es) = t # event_times es"
  by (simp_all add: event_times_def List.map_filter_def)

lemma failure_log_snoc:
  "failure_log log (es @ [Route_Succeeded]) = []"
  "failure_log log (es @ [Route_Failed t]) = failure_log log es @ [t]"
  by (induction log es rule: failure_log.induct) simp_all

lemma trips_snoc:
  "trips policy (es @ [e]) \<longleftrightarrow> trips policy es \<or> (\<exists>t. e = Route_Failed t \<and> trips_at policy es t)"
proof
  assume "trips policy (es @ [e])"
  then obtain before t after where eq: "es @ [e] = before @ Route_Failed t # after" and tr: "trips_at policy before t"
    by (auto simp: trips_def)
  then show "trips policy es \<or> (\<exists>t. e = Route_Failed t \<and> trips_at policy es t)"
    by (cases after rule: rev_cases) (auto simp: trips_def)
next
  assume "trips policy es \<or> (\<exists>t. e = Route_Failed t \<and> trips_at policy es t)"
  then show "trips policy (es @ [e])"
  proof
    assume "trips policy es"
    then obtain before t after where "es = before @ Route_Failed t # after" "trips_at policy before t"
      by (auto simp: trips_def)
    then have "es @ [e] = before @ Route_Failed t # (after @ [e])" "trips_at policy before t" by simp_all
    then show ?thesis unfolding trips_def by blast
  qed (auto simp: trips_def)
qed

lemma length_pop_to_threshold: "length (pop_to_threshold n ts) = min n (length ts)"
  by (induction n ts rule: pop_to_threshold.induct) auto

lemma pop_to_threshold_id: "length ts \<le> n \<Longrightarrow> pop_to_threshold n ts = ts"
  by (cases ts) simp_all

lemma within_window_earlier: "within_window t' window x \<Longrightarrow> t \<le> t' \<Longrightarrow> within_window t window x"
  by (auto simp: within_window_def checked_duration_since_def split: if_splits)

lemma within_window_now [simp]: "within_window t window t"
  by (simp add: within_window_def checked_duration_since_def)

lemma filter_window_twice:
  "t \<le> t' \<Longrightarrow> filter (within_window t' window) (filter (within_window t window) xs) = filter (within_window t' window) xs"
  by (induction xs) (auto dest: within_window_earlier)

lemma failure_threshold_pos: "0 < failure_threshold policy"
proof -
  have "(1 :: u8) \<le> max (hp_route_failures_to_open policy) 1" by simp
  then have "unat (1 :: u8) \<le> unat (max (hp_route_failures_to_open policy) 1)" by (simp only: word_le_nat_alt)
  then show ?thesis by (simp add: failure_threshold_def)
qed

lemma apply_route_failure_open:
  "rh_open_until s \<noteq> None \<Longrightarrow> rh_open_until (apply_route_failure s policy t) \<noteq> None"
  by (simp add: apply_route_failure_view)

lemma apply_route_failure_closed:
  fixes policy :: shadow_health_policy
  assumes "rh_open_until s = None"
  defines "fs \<equiv> \<lambda>t. filter (within_window t (hp_route_failure_window policy)) (rh_failure_times s)"
  shows "rh_open_until (apply_route_failure s policy t) \<noteq> None \<longleftrightarrow> failure_threshold policy \<le> length (fs t) + 1"
    and "rh_open_until (apply_route_failure s policy t) = None \<Longrightarrow>
      rh_failure_times (apply_route_failure s policy t) = fs t @ [t]"
  using assms
  by (auto simp: apply_route_failure_def Let_def length_pop_to_threshold pop_to_threshold_id extend_open_until_def
      split: if_splits)

text \<open>
  The run next to the log: an unopened route remembers exactly what the log says about every window that
  ends now or later.
\<close>

lemma threshold_simulation:
  fixes policy :: shadow_health_policy
  assumes "sorted (event_times es)"
  defines "s \<equiv> foldl (route_event_step policy) default_route_health_state es"
  shows "(rh_open_until s \<noteq> None \<longleftrightarrow> trips policy es) \<and>
    (\<not> trips policy es \<longrightarrow> (\<forall>t. (\<forall>x \<in> set (event_times es). x \<le> t) \<longrightarrow>
       filter (within_window t (hp_route_failure_window policy)) (rh_failure_times s) =
       filter (within_window t (hp_route_failure_window policy)) (failure_log [] es)))"
  using assms(1) unfolding s_def
proof (induction es rule: rev_induct)
  case Nil
  then show ?case by (simp add: default_route_health_state_def trips_def)
next
  case (snoc e es)
  let ?s = "foldl (route_event_step policy) default_route_health_state es"
  let ?W = "hp_route_failure_window policy"
  have IH: "rh_open_until ?s \<noteq> None \<longleftrightarrow> trips policy es"
    "\<not> trips policy es \<Longrightarrow> \<forall>x \<in> set (event_times es). x \<le> t \<Longrightarrow>
       filter (within_window t ?W) (rh_failure_times ?s) = filter (within_window t ?W) (failure_log [] es)" for t
    using snoc by (simp_all add: sorted_append)
  show ?case
  proof (cases e)
    case Route_Succeeded
    then show ?thesis using IH
      by (auto simp: trips_snoc failure_log_snoc apply_route_success_view)
        (auto simp: apply_route_success_def Let_def)
  next
    case (Route_Failed t)
    then have le: "\<forall>x \<in> set (event_times es). x \<le> t" using snoc.prems by (simp add: sorted_append)
    show ?thesis
    proof (cases "trips policy es")
      case True
      then show ?thesis using Route_Failed IH(1) apply_route_failure_open by (simp add: trips_snoc)
    next
      case False
      then have "rh_open_until ?s = None" using IH(1) by simp
      note ap = apply_route_failure_closed [OF this, of policy t]
      have "filter (within_window t' ?W) (filter (within_window t ?W) (rh_failure_times ?s) @ [t]) =
          filter (within_window t' ?W) (failure_log [] es @ [t])" if "t \<le> t'" for t'
        using IH(2) [OF False le] that by (simp add: filter_window_twice del: filter_filter)
      then have same: "filter (within_window t' ?W) (rh_failure_times (apply_route_failure ?s policy t)) =
          filter (within_window t' ?W) (failure_log [] (es @ [e]))"
        if "t \<le> t'" "rh_open_until (apply_route_failure ?s policy t) = None" for t'
        using that ap(2) Route_Failed by (simp add: failure_log_snoc del: filter_append)
      have "rh_open_until (apply_route_failure ?s policy t) \<noteq> None \<longleftrightarrow> trips policy (es @ [e])"
        using ap(1) IH(2) [OF False le] False Route_Failed by (simp add: trips_snoc trips_at_def)
      with same show ?thesis using Route_Failed by (simp del: not_None_eq) blast
    qed
  qed
qed

text \<open>
  C19: a route opens exactly when a failure is the last of as many failures as the threshold asks for
  within the failure window and since the last success. Trimming the recorded failures to the window and
  to the threshold loses nothing.
\<close>

theorem route_opens_at_threshold:
  assumes "sorted (event_times es)"
  shows "rh_open_until (foldl (route_event_step policy) default_route_health_state es) \<noteq> None \<longleftrightarrow>
         (\<exists>before t after. es = before @ Route_Failed t # after \<and> trips_at policy before t)"
  using threshold_simulation [OF assms, of policy] by (simp add: trips_def)

theorem route_opens_at_threshold_witness:
  "rh_open_until (foldl (route_event_step default_health_policy) default_route_health_state
     [Route_Failed 0, Route_Succeeded, Route_Failed (from_secs 10), Route_Failed (from_secs 40),
      Route_Failed (from_secs 70)]) \<noteq> None"
proof -
  have "trips_at default_health_policy [Route_Failed 0, Route_Succeeded, Route_Failed (from_secs 10),
      Route_Failed (from_secs 40)] (from_secs 70)"
    by (simp add: trips_at_def failure_threshold_def default_health_policy_def ROUTE_FAILURES_TO_OPEN_def
        ROUTE_FAILURE_WINDOW_def within_window_def checked_duration_since_def from_secs_def nanos_per_sec_def)
  then show ?thesis
    using route_opens_at_threshold [of "[Route_Failed 0, Route_Succeeded, Route_Failed (from_secs 10),
        Route_Failed (from_secs 40), Route_Failed (from_secs 70)]" default_health_policy]
    by (simp add: from_secs_def) (metis append_Cons append_Nil)
qed

end
