(* ===== verification/Sticky_Routes.thy ===== *)
theory Sticky_Routes
  imports Bounded_Ttl_Cache Inference_Types
begin

text \<open>
  The per-account route memory of \<open>services/opensecret/src/inference/sticky_routes.rs\<close>, a client of the
  bounded cache: one remembered route per account, surface and selector, forgotten one hour after the
  last accepted request. The lock is taken once per operation and ignores poisoning, so a run is a
  sequence of recordings and lookups.
\<close>

section \<open>The memory\<close>

definition STICKY_ROUTE_IDLE_TTL :: duration where
  "STICKY_ROUTE_IDLE_TTL = from_secs (60 * 60)"

definition STICKY_ROUTE_CAPACITY :: nat where
  "STICKY_ROUTE_CAPACITY = 50000"

record sticky_route_key =
  srk_account_uuid :: inference_uuid
  srk_surface :: inference_surface
  srk_selector :: string

record sticky_route =
  sr_public_model_id :: string
  sr_provider :: provider_id
  sr_provider_model_id :: string

record 's sticky_route_memory =
  srm_entries :: "'s bounded_ttl_cache"
  srm_idle_ttl :: duration

type_synonym 's sticky_ops = "('s, sticky_route_key, sticky_route timed_entry) clru_ops"

definition new_sticky_memory :: "'s sticky_ops \<Rightarrow> nat \<Rightarrow> duration \<Rightarrow> 's sticky_route_memory" where
  "new_sticky_memory ops capacity idle_ttl =
     \<lparr>srm_entries = new_ttl_cache ops capacity idle_ttl, srm_idle_ttl = idle_ttl\<rparr>"

definition default_sticky_memory :: "'s sticky_ops \<Rightarrow> 's sticky_route_memory" where
  "default_sticky_memory ops = new_sticky_memory ops STICKY_ROUTE_CAPACITY STICKY_ROUTE_IDLE_TTL"

definition lookup_at ::
  "'s sticky_ops \<Rightarrow> 's sticky_route_memory \<Rightarrow> inference_uuid \<Rightarrow> inference_surface \<Rightarrow> string \<Rightarrow> instant \<Rightarrow>
   's sticky_route_memory \<times> sticky_route option" where
  "lookup_at ops self account_uuid surface selector now =
     (let key = \<lparr>srk_account_uuid = account_uuid, srk_surface = surface, srk_selector = selector\<rparr>;
          (entries, found) = get_live_at ops (srm_entries self) key now
      in (self\<lparr>srm_entries := entries\<rparr>, found))"

text \<open>\<open>None\<close> is a panic of the cache.\<close>

definition record_at ::
  "'s sticky_ops \<Rightarrow> 's sticky_route_memory \<Rightarrow> inference_uuid \<Rightarrow> inference_surface \<Rightarrow> string \<Rightarrow> sticky_route \<Rightarrow>
   instant \<Rightarrow> 's sticky_route_memory option" where
  "record_at ops self account_uuid surface selector route now =
     (let key = \<lparr>srk_account_uuid = account_uuid, srk_surface = surface, srk_selector = selector\<rparr>
      in map_option (\<lambda>(entries, _). self\<lparr>srm_entries := entries\<rparr>)
           (insert_evicting_at ops (srm_entries self) key route now))"

section \<open>Runs\<close>

datatype sticky_event =
    Record_Route inference_uuid inference_surface string sticky_route instant
  | Lookup_Route inference_uuid inference_surface string instant

fun sticky_event_time :: "sticky_event \<Rightarrow> instant" where
  "sticky_event_time (Record_Route _ _ _ _ t) = t"
| "sticky_event_time (Lookup_Route _ _ _ t) = t"

fun run_sticky ::
  "'s sticky_ops \<Rightarrow> 's sticky_route_memory \<Rightarrow> sticky_event list \<Rightarrow> 's sticky_route_memory option" where
  "run_sticky ops m [] = Some m"
| "run_sticky ops m (Record_Route a s q r t # es) =
     (case record_at ops m a s q r t of None \<Rightarrow> None | Some m' \<Rightarrow> run_sticky ops m' es)"
| "run_sticky ops m (Lookup_Route a s q t # es) = run_sticky ops (fst (lookup_at ops m a s q t)) es"

text \<open>The specification remembers everything: the last route recorded under exactly this key.\<close>

fun last_recorded ::
  "inference_uuid \<Rightarrow> inference_surface \<Rightarrow> string \<Rightarrow> (sticky_route \<times> instant) option \<Rightarrow> sticky_event list \<Rightarrow>
   (sticky_route \<times> instant) option" where
  "last_recorded a s q acc [] = acc"
| "last_recorded a s q acc (Record_Route a' s' q' r t # es) =
     last_recorded a s q (if a' = a \<and> s' = s \<and> q' = q then Some (r, t) else acc) es"
| "last_recorded a s q acc (Lookup_Route _ _ _ _ # es) = last_recorded a s q acc es"

fun cache_event_of :: "sticky_event \<Rightarrow> (sticky_route_key, sticky_route) cache_event" where
  "cache_event_of (Record_Route a s q r t) =
     Insert_Event \<lparr>srk_account_uuid = a, srk_surface = s, srk_selector = q\<rparr> r t"
| "cache_event_of (Lookup_Route a s q t) =
     Get_Event \<lparr>srk_account_uuid = a, srk_surface = s, srk_selector = q\<rparr> t"

lemma run_sticky_cache:
  assumes "run_sticky ops m es = Some m'"
  shows "run_events (insert_evicting_at ops) (get_live_at ops) (srm_entries m) (map cache_event_of es)
           = Some (srm_entries m')"
  using assms
proof (induction es arbitrary: m)
  case Nil
  then show ?case by simp
next
  case (Cons e es)
  then show ?case
    by (cases e) (auto simp: record_at_def lookup_at_def Let_def case_prod_beta split: option.splits
        dest!: Cons.IH)
qed

lemma latest_insert_sticky:
  "latest_insert \<lparr>srk_account_uuid = a, srk_surface = s, srk_selector = q\<rparr> acc (map cache_event_of es)
     = last_recorded a s q acc es"
  by (induction a s q acc es rule: last_recorded.induct) simp_all

lemma event_time_sticky: "map event_time (map cache_event_of es) = map sticky_event_time es"
  by (induction es) (simp, rename_tac e es, case_tac e, simp_all)

lemma sticky_store: "clru_cache ops \<Longrightarrow> ttl_store ops"
  by (simp add: ttl_store_def)

lemma lookup_at_view:
  assumes "clru_cache ops"
  shows "snd (lookup_at ops m a s q t) =
    live ops (srm_entries m) t \<lparr>srk_account_uuid = a, srk_surface = s, srk_selector = q\<rparr>"
  by (simp add: lookup_at_def Let_def case_prod_beta ttl_store.get_live_at_list [OF sticky_store [OF assms]])

lemma run_sticky_view:
  assumes "clru_cache ops" and "run_sticky ops (default_sticky_memory ops) es = Some m"
    and "sorted (map sticky_event_time es)" and "\<forall>e \<in> set es. sticky_event_time e \<le> t"
  shows "(snd (lookup_at ops m a s q t) = seen_from STICKY_ROUTE_IDLE_TTL t (last_recorded a s q None es) \<or>
          snd (lookup_at ops m a s q t) = None) \<and>
         ttl_inv ops t (srm_entries m) \<and> btc_ttl (srm_entries m) = STICKY_ROUTE_IDLE_TTL"
proof -
  have st: "ttl_store ops" by (rule sticky_store [OF assms(1)])
  let ?c = "new_ttl_cache ops STICKY_ROUTE_CAPACITY STICKY_ROUTE_IDLE_TTL"
  let ?k = "\<lparr>srk_account_uuid = a, srk_surface = s, srk_selector = q\<rparr>"
  have inv: "ttl_inv ops 0 ?c"
    by (rule ttl_store.ttl_inv_new [OF st]) (simp add: STICKY_ROUTE_CAPACITY_def)
  have run: "run_events (insert_evicting_at ops) (get_live_at ops) ?c (map cache_event_of es) = Some (srm_entries m)"
    using run_sticky_cache [OF assms(2)] by (simp add: default_sticky_memory_def new_sticky_memory_def)
  have srt: "sorted (map event_time (map cache_event_of es))" using assms(3) by (simp only: event_time_sticky)
  have "event_time (cache_event_of e) = sticky_event_time e" for e by (cases e) simp_all
  then have le: "\<forall>e \<in> set (map cache_event_of es). 0 \<le> event_time e \<and> event_time e \<le> t"
    using assms(4) by simp
  have ttl: "btc_ttl ?c = STICKY_ROUTE_IDLE_TTL" by (simp add: new_ttl_cache_def)
  have none: "live ops ?c t ?k = None"
    using assms(1) by (simp add: live_def live_value_def new_ttl_cache_def clru_cache.iter_with_memory)
  have "live ops (srm_entries m) t ?k = seen_from (btc_ttl ?c) t (latest_insert ?k None (map cache_event_of es)) \<or>
      live ops (srm_entries m) t ?k = None"
    "btc_ttl (srm_entries m) = btc_ttl ?c"
    using ttl_cache.run_events_view [OF ttl_store.is_ttl_cache [OF st] run inv srt le, of ?k None] none by simp_all
  moreover have "ttl_inv ops t (srm_entries m)"
    using ttl_cache.run_events_inv [OF ttl_store.is_ttl_cache [OF st] run inv srt le] by simp
  ultimately show ?thesis
    by (simp add: lookup_at_view [OF assms(1)] latest_insert_sticky ttl)
qed


definition sample_sticky :: sticky_route where
  "sample_sticky = \<lparr>sr_public_model_id = ''m'', sr_provider = Continuum, sr_provider_model_id = ''pm''\<rparr>"


end
