(* ===== verification/Provider_Router.thy ===== *)
theory Provider_Router
  imports Sticky_Routes Route_Planning Health_Claims
begin

text \<open>
  The router that joins registry, health, route memory and planning
  (\<open>services/opensecret/src/provider_routing.rs\<close>) and the proxies it may use (\<open>proxy_config.rs\<close>).
  A selection makes one or more passes: filter the configured routes of the requested model, take one
  health snapshot of them, plan among the available providers, and look up the proxy of the selected
  provider; when a dedicated instance has lost its attestation in between, the route is excluded and the
  selection starts over. Other requests run concurrently, so what a pass sees of the shared state is the
  parameter \<open>pass_view\<close>, one for every pass. Whether the attested transport of an instance is ready is
  decided by the transport library and is part of the view.
\<close>

section \<open>Proxies\<close>

record proxy_config =
  pc_base_url :: string
  pc_api_key :: "string option"
  pc_provider_name :: string

record proxy_router =
  prx_default_proxy :: proxy_config
  prx_tinfoil_proxy :: proxy_config
  prx_maple_proxies :: "(maple_instance_id, proxy_config) hash_map"
  prx_maple_readiness :: bool

text \<open>White space of an ASCII string: \<open>str.trim().is_empty()\<close>.\<close>

definition is_whitespace :: "char \<Rightarrow> bool" where
  "is_whitespace c = (of_char c \<in> {9 :: nat, 10, 11, 12, 13, 32})"

definition blank :: "string \<Rightarrow> bool" where
  "blank s = list_all is_whitespace s"

text \<open>\<open>None\<close> is the failed assertion.\<close>

definition new_proxy_router :: "string \<Rightarrow> string option \<Rightarrow> string \<Rightarrow> proxy_router option" where
  "new_proxy_router openai_base openai_key tinfoil_base =
     (if blank tinfoil_base then None
      else Some \<lparr>prx_default_proxy =
             \<lparr>pc_base_url = openai_base,
              pc_api_key = (if str_contains openai_base ''api.openai.com'' then openai_key else None),
              pc_provider_name =
                (if str_contains openai_base ''api.openai.com'' then ''openai'' else ''continuum'')\<rparr>,
           prx_tinfoil_proxy =
             \<lparr>pc_base_url = tinfoil_base, pc_api_key = None, pc_provider_name = ''tinfoil''\<rparr>,
           prx_maple_proxies = fmempty, prx_maple_readiness = False\<rparr>)"

fun endpoint_base_url :: "maple_instance_id \<Rightarrow> string" where
  "endpoint_base_url I01 = ''https://i01.tfinf.maple.ai''"
| "endpoint_base_url I02 = ''https://i02.tfinf.maple.ai''"

definition with_maple_api_key :: "proxy_router \<Rightarrow> string option \<Rightarrow> proxy_router" where
  "with_maple_api_key self api_key =
     self\<lparr>prx_maple_proxies :=
       (case api_key of
          None \<Rightarrow> fmempty
        | Some key \<Rightarrow>
            if blank key then fmempty
            else fmap_of_list (map (\<lambda>instance.
                   (instance, \<lparr>pc_base_url = endpoint_base_url instance, pc_api_key = Some key,
                               pc_provider_name = provider_as_str (Maple instance)\<rparr>)) ALL_INSTANCES))\<rparr>"

definition with_maple_readiness :: "proxy_router \<Rightarrow> proxy_router" where
  "with_maple_readiness self = self\<lparr>prx_maple_readiness := True\<rparr>"

definition get_maple_proxy ::
  "proxy_router \<Rightarrow> (maple_instance_id \<Rightarrow> bool) \<Rightarrow> maple_instance_id \<Rightarrow> proxy_config option" where
  "get_maple_proxy self ready instance =
     (case fmlookup (prx_maple_proxies self) instance of
        None \<Rightarrow> None
      | Some proxy \<Rightarrow> if prx_maple_readiness self \<and> ready instance then Some proxy else None)"

definition continuum_proxy :: "proxy_router \<Rightarrow> proxy_config option" where
  "continuum_proxy self =
     (if pc_provider_name (prx_default_proxy self) = ''continuum'' then Some (prx_default_proxy self) else None)"

fun proxy_for_provider ::
  "proxy_router \<Rightarrow> (maple_instance_id \<Rightarrow> bool) \<Rightarrow> provider_id \<Rightarrow> proxy_config option" where
  "proxy_for_provider proxy_router ready Tinfoil = Some (prx_tinfoil_proxy proxy_router)"
| "proxy_for_provider proxy_router ready Continuum =
     (let proxy = prx_default_proxy proxy_router
      in if pc_provider_name proxy = provider_as_str Continuum then Some proxy else None)"
| "proxy_for_provider proxy_router ready (Maple instance) = get_maple_proxy proxy_router ready instance"

section \<open>Selection\<close>

record selected_provider_route =
  spr_provider :: provider_id
  spr_proxy :: proxy_config
  spr_public_model_id :: string
  spr_provider_model_id :: string
  spr_response_model_id :: string
  spr_bucket :: "u8 option"
  spr_selection_source :: route_selection_source

definition selected_identity :: "selected_provider_route \<Rightarrow> route_identity" where
  "selected_identity self =
     new_route_identity (spr_provider self) (spr_public_model_id self) (spr_provider_model_id self)
       (spr_response_model_id self) (spr_selection_source self) (spr_bucket self)"

datatype provider_routing_error =
    Routing_UnsupportedModel string
  | Routing_NoEligibleRoute string
  | CapacityUnavailable string duration

fun provider_routing_error_from_plan :: "route_planning_error \<Rightarrow> provider_routing_error" where
  "provider_routing_error_from_plan (UnsupportedModel model) = Routing_UnsupportedModel model"
| "provider_routing_error_from_plan (NoEligibleRoute model) = Routing_NoEligibleRoute model"

definition ceil_retry_after :: "duration \<Rightarrow> duration" where
  "ceil_retry_after d =
     from_secs (max (min (as_secs d + (if 0 < subsec_nanos d then 1 else 0)) (2 ^ 64 - 1)) 1)"

fun route_is_available_for_new_request :: "shadow_disposition \<Rightarrow> bool" where
  "route_is_available_for_new_request (WouldOpen _) = False"
| "route_is_available_for_new_request (ProbeInFlight _) = False"
| "route_is_available_for_new_request _ = True"

text \<open>The loop over the routes and their snapshots; \<open>None\<close> is the \<open>unreachable!\<close>.\<close>

fun available_loop ::
  "((provider_id \<times> route_key) \<times> shadow_route_snapshot) list \<Rightarrow> configured_providers \<Rightarrow> duration option \<Rightarrow>
   (configured_providers \<times> duration option) option" where
  "available_loop [] available earliest_recovery = Some (available, earliest_recovery)"
| "available_loop (((provider, _), snapshot) # rest) available earliest_recovery =
     (case srs_effective snapshot of
        WouldOpen remaining \<Rightarrow>
          available_loop rest available (opt_min earliest_recovery (ceil_retry_after remaining))
      | ProbeInFlight retry_after \<Rightarrow>
          available_loop rest available (opt_min earliest_recovery (ceil_retry_after retry_after))
      | disposition \<Rightarrow>
          if route_is_available_for_new_request disposition
          then available_loop rest (with_provider available provider) earliest_recovery
          else None)"

definition available_providers_for_model ::
  "(provider_id \<times> route_key) list \<Rightarrow> shadow_route_snapshot list \<Rightarrow> (duration + configured_providers) option" where
  "available_providers_for_model configured_routes snapshots =
     (case available_loop (zip configured_routes snapshots) no_providers None of
        None \<Rightarrow> None
      | Some (available, earliest_recovery) \<Rightarrow>
          Some (if available = no_providers
                then Inl (case earliest_recovery of Some d \<Rightarrow> d | None \<Rightarrow> MIN_CAPACITY_COOLDOWN)
                else Inr available))"

definition configured_route_key ::
  "provider_registry \<Rightarrow> proxy_router \<Rightarrow> (maple_instance_id \<Rightarrow> bool) \<Rightarrow> route_key hash_set \<Rightarrow> model_route_spec \<Rightarrow>
   (provider_id \<times> route_key) option" where
  "configured_route_key registry proxy_router ready excluded route =
     (case registry_provider registry (mrs_provider route) of
        None \<Rightarrow> None
      | Some provider \<Rightarrow>
          if \<not> mrs_enabled route \<or> mrs_weight route = 0 \<or> \<not> ps_enabled provider \<or> ps_weight provider = 0
             \<or> proxy_for_provider proxy_router ready (mrs_provider route) = None then None
          else
            let key = \<lparr>rk_provider = mrs_provider route, rk_provider_model_id = mrs_provider_model_id route\<rparr>
            in if key |\<in>| excluded then None else Some (mrs_provider route, key))"

definition configured_route_keys ::
  "provider_registry \<Rightarrow> proxy_router \<Rightarrow> (maple_instance_id \<Rightarrow> bool) \<Rightarrow> completion_model_spec \<Rightarrow>
   route_key hash_set \<Rightarrow> (provider_id \<times> route_key) list" where
  "configured_route_keys registry proxy_router ready model excluded =
     List.map_filter (configured_route_key registry proxy_router ready excluded) (cms_routes model)"

definition remembered_provider_for ::
  "'s sticky_ops \<Rightarrow> 's sticky_route_memory \<Rightarrow> inference_intent \<Rightarrow> instant \<Rightarrow> provider_id option" where
  "remembered_provider_for ops sticky intent now =
     (case snd (lookup_at ops sticky (ii_account_uuid intent) (ii_surface intent)
                  (ii_requested_model_id intent) now) of
        None \<Rightarrow> None
      | Some route \<Rightarrow>
          if sr_public_model_id route = ii_public_model_id intent then Some (sr_provider route) else None)"

definition remember_route ::
  "'s sticky_ops \<Rightarrow> 's sticky_route_memory \<Rightarrow> inference_intent \<Rightarrow> selected_provider_route \<Rightarrow> instant \<Rightarrow>
   's sticky_route_memory option" where
  "remember_route ops sticky intent route now =
     record_at ops sticky (ii_account_uuid intent) (ii_surface intent) (ii_requested_model_id intent)
       \<lparr>sr_public_model_id = spr_public_model_id route, sr_provider = spr_provider route,
        sr_provider_model_id = spr_provider_model_id route\<rparr> now"

text \<open>What one pass sees: the health state and its clock, the memory, and the readiness of the instances.\<close>

record 's pass_view =
  pv_health :: shadow_health_inner
  pv_now :: instant
  pv_sticky :: "'s sticky_route_memory"
  pv_lookup_now :: instant
  pv_ready_plan :: "maple_instance_id \<Rightarrow> bool"
  pv_ready_send :: "maple_instance_id \<Rightarrow> bool"

text \<open>One pass up to the planned identity.\<close>

definition plan_pass ::
  "'s sticky_ops \<Rightarrow> provider_registry \<Rightarrow> shadow_health_state \<Rightarrow> proxy_router \<Rightarrow> 's pass_view \<Rightarrow>
   inference_intent \<Rightarrow> route_key hash_set \<Rightarrow> (provider_routing_error + route_identity) option" where
  "plan_pass ops registry shadow_health proxy_router view intent excluded =
     (case registry_completion_model registry (ii_public_model_id intent) of
        None \<Rightarrow> Some (Inl (Routing_UnsupportedModel (ii_public_model_id intent)))
      | Some model \<Rightarrow>
          let configured = configured_route_keys registry proxy_router (pv_ready_plan view) model excluded
          in if configured = [] then Some (Inl (Routing_NoEligibleRoute (ii_public_model_id intent)))
             else case snapshot_routes shadow_health (pv_health view) (map snd configured) (pv_now view) of
               None \<Rightarrow> Some (Inl (CapacityUnavailable (ii_public_model_id intent) MIN_CAPACITY_COOLDOWN))
             | Some snapshots \<Rightarrow>
                 (case available_providers_for_model configured snapshots of
                    None \<Rightarrow> None
                  | Some (Inl retry_after) \<Rightarrow>
                      Some (Inl (CapacityUnavailable (ii_public_model_id intent) retry_after))
                  | Some (Inr available) \<Rightarrow>
                      (case plan_completion_route registry
                              \<lparr>rpi_intent = intent, rpi_configured_providers = available,
                               rpi_remembered_provider =
                                 remembered_provider_for ops (pv_sticky view) intent (pv_lookup_now view)\<rparr> of
                         Inl e \<Rightarrow> Some (Inl (provider_routing_error_from_plan e))
                       | Inr plan \<Rightarrow> Some (Inr (rp_selected plan)))))"

text \<open>The passes; \<open>None\<close> is a selection that does not return.\<close>

partial_function (option) select_health_aware_route ::
  "'s sticky_ops \<Rightarrow> provider_registry \<Rightarrow> shadow_health_state \<Rightarrow> proxy_router \<Rightarrow> (nat \<Rightarrow> 's pass_view) \<Rightarrow> nat \<Rightarrow>
   inference_intent \<Rightarrow> route_key hash_set \<Rightarrow> (provider_routing_error + selected_provider_route) option" where
  "select_health_aware_route ops registry shadow_health proxy_router views pass intent excluded =
     (case plan_pass ops registry shadow_health proxy_router (views pass) intent excluded of
        None \<Rightarrow> None
      | Some (Inl e) \<Rightarrow> Some (Inl e)
      | Some (Inr selected) \<Rightarrow>
          (case proxy_for_provider proxy_router (pv_ready_send (views pass)) (ri_provider selected) of
             None \<Rightarrow>
               select_health_aware_route ops registry shadow_health proxy_router views (Suc pass) intent
                 (finsert (identity_route_key selected) excluded)
           | Some proxy \<Rightarrow>
               Some (Inr \<lparr>spr_provider = ri_provider selected, spr_proxy = proxy,
                          spr_public_model_id = ri_public_model_id selected,
                          spr_provider_model_id = ri_provider_model_id selected,
                          spr_response_model_id = ri_response_model_id selected,
                          spr_bucket = ri_bucket selected,
                          spr_selection_source = ri_selection_source selected\<rparr>)))"

definition select_active_completion_route ::
  "'s sticky_ops \<Rightarrow> provider_registry \<Rightarrow> shadow_health_state \<Rightarrow> proxy_router \<Rightarrow> (nat \<Rightarrow> 's pass_view) \<Rightarrow>
   inference_intent \<Rightarrow> (provider_routing_error + selected_provider_route) option" where
  "select_active_completion_route ops registry shadow_health proxy_router views intent =
     select_health_aware_route ops registry shadow_health proxy_router views 0 intent {||}"

definition select_active_completion_route_excluding ::
  "'s sticky_ops \<Rightarrow> provider_registry \<Rightarrow> shadow_health_state \<Rightarrow> proxy_router \<Rightarrow> (nat \<Rightarrow> 's pass_view) \<Rightarrow>
   inference_intent \<Rightarrow> route_key hash_set \<Rightarrow> (provider_routing_error + selected_provider_route) option" where
  "select_active_completion_route_excluding ops registry shadow_health proxy_router views intent excluded =
     select_health_aware_route ops registry shadow_health proxy_router views 0 intent excluded"

section \<open>Availability of models and the shadow plan\<close>

definition candidate_routes ::
  "provider_registry \<Rightarrow> proxy_router \<Rightarrow> (maple_instance_id \<Rightarrow> bool) \<Rightarrow> string \<Rightarrow> (provider_id \<times> route_key) list option" where
  "candidate_routes registry proxy_router ready public_model_id =
     (case registry_completion_model registry public_model_id of
        None \<Rightarrow> None
      | Some model \<Rightarrow>
          let routes = configured_route_keys registry proxy_router ready model {||}
          in if routes = [] then None else Some routes)"

text \<open>One candidate with the snapshots of its group; \<open>None\<close> is the \<open>unreachable!\<close>.\<close>

definition candidate_availability ::
  "(provider_id \<times> route_key) list option \<Rightarrow> shadow_route_snapshot list option \<Rightarrow> model_availability option" where
  "candidate_availability configured snapshots =
     (case (configured, snapshots) of
        (None, _) \<Rightarrow> Some NotConfigured
      | (Some _, None) \<Rightarrow> Some (Unavailable MIN_CAPACITY_COOLDOWN)
      | (Some routes, Some snapshots) \<Rightarrow>
          (case available_providers_for_model routes snapshots of
             None \<Rightarrow> None
           | Some (Inr providers) \<Rightarrow> Some (Available providers)
           | Some (Inl retry_after) \<Rightarrow> Some (Unavailable retry_after)))"

definition model_availability_map ::
  "provider_registry \<Rightarrow> shadow_health_state \<Rightarrow> shadow_health_inner \<Rightarrow> proxy_router \<Rightarrow> (maple_instance_id \<Rightarrow> bool) \<Rightarrow>
   string list \<Rightarrow> instant \<Rightarrow> (string, model_availability) hash_map option" where
  "model_availability_map registry shadow_health inner proxy_router ready public_model_ids now =
     (let candidates = map (\<lambda>i. (i, candidate_routes registry proxy_router ready i)) public_model_ids;
          route_groups = map (\<lambda>(_, configured). case configured of None \<Rightarrow> [] | Some routes \<Rightarrow> map snd routes)
                           candidates;
          snapshots = snapshot_route_groups shadow_health inner route_groups now
      in map_option fmap_of_list (map_option rev (collect_options
           (map (\<lambda>((i, configured), snapshots). map_option (Pair i) (candidate_availability configured snapshots))
              (zip candidates snapshots)))))"

definition shadow_completion_plan ::
  "'s sticky_ops \<Rightarrow> provider_registry \<Rightarrow> proxy_router \<Rightarrow> (maple_instance_id \<Rightarrow> bool) \<Rightarrow> 's sticky_route_memory \<Rightarrow>
   inference_intent \<Rightarrow> instant \<Rightarrow> route_planning_error + route_plan" where
  "shadow_completion_plan ops registry proxy_router ready sticky intent now =
     (let configured_providers = foldl (\<lambda>configured provider.
            if proxy_for_provider proxy_router ready (ps_id provider) \<noteq> None
            then with_provider configured (ps_id provider) else configured)
            no_providers (pr_providers registry)
      in plan_completion_route registry
           \<lparr>rpi_intent = intent, rpi_configured_providers = configured_providers,
            rpi_remembered_provider = remembered_provider_for ops sticky intent now\<rparr>)"

datatype credential_free_route_outcome =
    Outcome_Selected route_identity
  | Outcome_UnsupportedModel
  | Outcome_NoEligibleRoute

datatype shadow_route_comparison =
    Comparison_Match credential_free_route_outcome "plan_decision option" nat
  | Comparison_Mismatch credential_free_route_outcome credential_free_route_outcome "plan_decision option" nat

definition compare_shadow_route ::
  "provider_routing_error + selected_provider_route \<Rightarrow> route_planning_error + route_plan \<Rightarrow> shadow_route_comparison" where
  "compare_shadow_route active shadow =
     (let active_outcome = (case active of
            Inr route \<Rightarrow> Outcome_Selected (selected_identity route)
          | Inl (Routing_UnsupportedModel _) \<Rightarrow> Outcome_UnsupportedModel
          | Inl (Routing_NoEligibleRoute _) \<Rightarrow> Outcome_NoEligibleRoute
          | Inl (CapacityUnavailable _ _) \<Rightarrow> Outcome_NoEligibleRoute);
          (shadow_outcome, decision, candidate_count) = (case shadow of
            Inr plan \<Rightarrow> (Outcome_Selected (rp_selected plan), Some (rp_decision plan),
                         length (rp_eligible_routes plan))
          | Inl (UnsupportedModel _) \<Rightarrow> (Outcome_UnsupportedModel, None, 0)
          | Inl (NoEligibleRoute _) \<Rightarrow> (Outcome_NoEligibleRoute, None, 0))
      in if active_outcome = shadow_outcome
         then Comparison_Match active_outcome decision candidate_count
         else Comparison_Mismatch active_outcome shadow_outcome decision candidate_count)"

section \<open>Available providers\<close>

lemma available_loop_total:
  "\<exists>available' earliest'. available_loop rs available earliest_recovery = Some (available', earliest') \<and>
     (\<forall>p. contains_provider available' p \<longleftrightarrow> contains_provider available p \<or>
        (\<exists>k s. ((p, k), s) \<in> set rs \<and> route_is_available_for_new_request (srs_effective s)))"
proof (induction rs arbitrary: available earliest_recovery)
  case Nil
  then show ?case by simp
next
  case (Cons r rs)
  obtain p k s where r: "r = ((p, k), s)" by (metis surj_pair)
  show ?case
  proof (cases "route_is_available_for_new_request (srs_effective s)")
    case True
    have "available_loop (r # rs) available earliest_recovery =
        available_loop rs (with_provider available p) earliest_recovery"
      using r True by (cases "srs_effective s") simp_all
    moreover have "(\<exists>k' s'. ((q, k'), s') \<in> set (r # rs) \<and> route_is_available_for_new_request (srs_effective s')) \<longleftrightarrow>
        q = p \<or> (\<exists>k' s'. ((q, k'), s') \<in> set rs \<and> route_is_available_for_new_request (srs_effective s'))" for q
      using True unfolding r by (metis Pair_inject list.set_intros set_ConsD)
    ultimately show ?thesis using Cons.IH [of "with_provider available p" earliest_recovery]
      by (simp only: contains_with_provider) metis
  next
    case False
    then obtain e where "available_loop (r # rs) available earliest_recovery = available_loop rs available e"
      using r by (cases "srs_effective s") auto
    moreover have "(\<exists>k' s'. ((q, k'), s') \<in> set (r # rs) \<and> route_is_available_for_new_request (srs_effective s')) \<longleftrightarrow>
        (\<exists>k' s'. ((q, k'), s') \<in> set rs \<and> route_is_available_for_new_request (srs_effective s'))" for q
      using False unfolding r by (metis Pair_inject list.set_intros(2) set_ConsD)
    ultimately show ?thesis using Cons.IH [of available e] by (simp only:)
  qed
qed

lemma no_providers_iff: "available = no_providers \<longleftrightarrow> (\<forall>p. \<not> contains_provider available p)"
proof
  assume "\<forall>p. \<not> contains_provider available p"
  then have "\<not> contains_provider available Tinfoil" "\<not> contains_provider available Continuum"
    "\<not> contains_provider available (Maple I01)" "\<not> contains_provider available (Maple I02)" by blast+
  then show "available = no_providers" by (cases available) (simp add: no_providers_def)
qed simp

lemma available_providers_cases:
  "(\<exists>d. available_providers_for_model routes snaps = Some (Inl d) \<and>
      (\<forall>p k s. ((p, k), s) \<in> set (zip routes snaps) \<longrightarrow> \<not> route_is_available_for_new_request (srs_effective s))) \<or>
   (\<exists>available. available_providers_for_model routes snaps = Some (Inr available) \<and>
      (\<forall>p. contains_provider available p \<longleftrightarrow>
         (\<exists>k s. ((p, k), s) \<in> set (zip routes snaps) \<and> route_is_available_for_new_request (srs_effective s))))"
proof -
  obtain available earliest' where "available_loop (zip routes snaps) no_providers None = Some (available, earliest')"
    and av: "\<forall>p. contains_provider available p \<longleftrightarrow>
      (\<exists>k s. ((p, k), s) \<in> set (zip routes snaps) \<and> route_is_available_for_new_request (srs_effective s))"
    using available_loop_total [of "zip routes snaps" no_providers None] by auto
  then show ?thesis
    by (cases "available = no_providers") (auto simp: available_providers_for_model_def no_providers_iff)
qed

section \<open>One pass\<close>

lemma collect_options_zip:
  "collect_options (map f xs) = Some ys \<Longrightarrow> (x, y) \<in> set (zip xs ys) \<Longrightarrow> f x = Some y"
proof (induction xs arbitrary: ys)
  case (Cons z xs)
  then show ?case by (cases "f z") auto
qed simp

lemma configured_route_key_Some:
  assumes "configured_route_key registry proxy ready excluded r = Some (p, k)"
  shows "p = mrs_provider r \<and> k = \<lparr>rk_provider = mrs_provider r, rk_provider_model_id = mrs_provider_model_id r\<rparr> \<and>
         k |\<notin>| excluded \<and> enabled_route registry r \<and> proxy_for_provider proxy ready p \<noteq> None"
  using assms
  by (auto simp: configured_route_key_def enabled_route_def Let_def word_gt_0 split: option.splits if_splits)

lemma plan_pass_selected:
  assumes dist: "distinct_providers registry"
    and pass: "plan_pass ops registry self proxy view intent excluded = Some (Inr sel)"
  obtains m r k snap where "registry_completion_model registry (ii_public_model_id intent) = Some m"
    and "r \<in> set (cms_routes m)"
    and "configured_route_key registry proxy (pv_ready_plan view) excluded r = Some (mrs_provider r, k)"
    and "snapshot_locked self (pv_health view) k (pv_now view) = Some snap"
    and "route_is_available_for_new_request (srs_effective snap)"
    and "ri_provider sel = mrs_provider r" and "ri_provider_model_id sel = mrs_provider_model_id r"
    and "ri_response_model_id sel = mrs_response_model_id r"
    and "ri_public_model_id sel = ii_public_model_id intent" and "identity_route_key sel = k"
proof -
  obtain m where m: "registry_completion_model registry (ii_public_model_id intent) = Some m"
    using pass by (auto simp: plan_pass_def split: option.splits)
  define cs where "cs = configured_route_keys registry proxy (pv_ready_plan view) m excluded"
  obtain snaps where sn: "snapshot_routes self (pv_health view) (map snd cs) (pv_now view) = Some snaps"
    using pass m by (auto simp: plan_pass_def cs_def Let_def split: option.splits if_splits)
  obtain av where av: "available_providers_for_model cs snaps = Some (Inr av)"
    using pass m sn by (auto simp: plan_pass_def cs_def Let_def split: option.splits if_splits sum.splits)
  obtain plan where plan: "plan_completion_route registry
      \<lparr>rpi_intent = intent, rpi_configured_providers = av,
       rpi_remembered_provider = remembered_provider_for ops (pv_sticky view) intent (pv_lookup_now view)\<rparr> = Inr plan"
    and sel: "sel = rp_selected plan"
    using pass m sn av by (auto simp: plan_pass_def cs_def Let_def split: option.splits if_splits sum.splits)
  from plan show thesis
  proof (rule plan_cases)
    fix m' es c
    assume "registry_completion_model registry (ii_public_model_id (rpi_intent \<lparr>rpi_intent = intent,
          rpi_configured_providers = av, rpi_remembered_provider =
            remembered_provider_for ops (pv_sticky view) intent (pv_lookup_now view)\<rparr>)) = Some m'"
      and "es = List.map_filter (eligible_route registry (rpi_configured_providers \<lparr>rpi_intent = intent,
          rpi_configured_providers = av, rpi_remembered_provider =
            remembered_provider_for ops (pv_sticky view) intent (pv_lookup_now view)\<rparr>) m') (cms_routes m')"
      and "c \<in> set es" and sc: "selects plan c"
    then obtain r where r: "r \<in> set (cms_routes m)" "eligible_route registry av m r = Some c"
      using m by (auto simp: in_map_filter)
    note rd = eligible_route_Some [OF r(2)]
    have "contains_provider av (mrs_provider r)" using rd by auto
    then obtain k s where ks: "((mrs_provider r, k), s) \<in> set (zip cs snaps)"
      and ok: "route_is_available_for_new_request (srs_effective s)"
      using available_providers_cases [of cs snaps] av by auto
    from ks have "(mrs_provider r, k) \<in> set cs" by (rule set_zip_leftD)
    then obtain r' where r': "r' \<in> set (cms_routes m)"
      "configured_route_key registry proxy (pv_ready_plan view) excluded r' = Some (mrs_provider r, k)"
      by (auto simp: cs_def configured_route_keys_def in_map_filter)
    have "m \<in> set (pr_completion_models registry)" using completion_model_id [OF m] by simp
    then have "r' = r"
      using dist r'(1) r(1) configured_route_key_Some [OF r'(2)]
      by (auto simp: distinct_providers_def distinct_map dest!: bspec inj_onD)
    have "(\<lambda>x. snapshot_locked self (pv_health view) (snd x) (pv_now view)) (mrs_provider r, k) = Some s"
      by (rule collect_options_zip [OF _ ks]) (use sn in \<open>simp add: snapshot_routes_def comp_def\<close>)
    moreover have "k = \<lparr>rk_provider = mrs_provider r, rk_provider_model_id = mrs_provider_model_id r\<rparr>"
      using configured_route_key_Some [OF r'(2)] \<open>r' = r\<close> by simp
    moreover have "cms_public_model_id m = ii_public_model_id intent" using completion_model_id [OF m] by simp
    ultimately show thesis
      using that [OF m r(1), of k s] r'(2) \<open>r' = r\<close> ok sc rd sel
      by (auto simp: selects_def identity_route_key_def)
  qed
qed

section \<open>The whole selection\<close>

definition model_keys :: "completion_model_spec \<Rightarrow> route_key set" where
  "model_keys m = (\<lambda>r. \<lparr>rk_provider = mrs_provider r, rk_provider_model_id = mrs_provider_model_id r\<rparr>) ` set (cms_routes m)"

text \<open>What a selected route owes to its request, seen from the pass that selected it.\<close>

definition sound_selection ::
  "provider_registry \<Rightarrow> shadow_health_state \<Rightarrow> proxy_router \<Rightarrow> 's pass_view \<Rightarrow> inference_intent \<Rightarrow> route_key hash_set \<Rightarrow>
   selected_provider_route \<Rightarrow> bool" where
  "sound_selection registry self proxy view intent excluded route \<longleftrightarrow>
     (\<exists>m r k snap. registry_completion_model registry (ii_public_model_id intent) = Some m \<and>
        r \<in> set (cms_routes m) \<and> enabled_route registry r \<and>
        k = \<lparr>rk_provider = mrs_provider r, rk_provider_model_id = mrs_provider_model_id r\<rparr> \<and> k |\<notin>| excluded \<and>
        spr_provider route = mrs_provider r \<and> spr_provider_model_id route = mrs_provider_model_id r \<and>
        spr_response_model_id route = mrs_response_model_id r \<and>
        spr_public_model_id route = ii_public_model_id intent \<and>
        proxy_for_provider proxy (pv_ready_send view) (mrs_provider r) = Some (spr_proxy route) \<and>
        snapshot_locked self (pv_health view) k (pv_now view) = Some snap \<and>
        route_is_available_for_new_request (srs_effective snap))"

lemma sound_selection_excluded:
  "sound_selection registry self proxy view intent (finsert k excluded) route \<Longrightarrow>
   sound_selection registry self proxy view intent excluded route"
  unfolding sound_selection_def by (metis finsertCI)

lemma selection_run:
  assumes "distinct_providers registry"
  shows "\<exists>result. select_health_aware_route ops registry self proxy views pass intent excluded = Some result \<and>
    (\<forall>route. result = Inr route \<longrightarrow> (\<exists>n \<ge> pass. sound_selection registry self proxy (views n) intent excluded route))"
proof (induction "case registry_completion_model registry (ii_public_model_id intent) of
      None \<Rightarrow> 0 | Some m \<Rightarrow> card (model_keys m - fset excluded)"
    arbitrary: pass excluded rule: less_induct)
  case less
  let ?pp = "plan_pass ops registry self proxy (views pass) intent excluded"
  have "?pp \<noteq> None"
  proof -
    have "available_providers_for_model cs snaps \<noteq> None" for cs snaps
      using available_providers_cases [of cs snaps] by auto
    then show ?thesis
      by (auto simp: plan_pass_def Let_def simp del: not_None_eq split: option.splits sum.splits)
  qed
  then consider (err) e where "?pp = Some (Inl e)" | (sel) sel where "?pp = Some (Inr sel)"
    by (metis not_None_eq old.sum.exhaust)
  then show ?case
  proof cases
    case err
    then show ?thesis by (subst select_health_aware_route.simps) simp
  next
    case sel
    from assms sel obtain m r k snap where
      m: "registry_completion_model registry (ii_public_model_id intent) = Some m" and r: "r \<in> set (cms_routes m)"
      and ck: "configured_route_key registry proxy (pv_ready_plan (views pass)) excluded r = Some (mrs_provider r, k)"
      and sn: "snapshot_locked self (pv_health (views pass)) k (pv_now (views pass)) = Some snap"
      "route_is_available_for_new_request (srs_effective snap)"
      and f: "ri_provider sel = mrs_provider r" "ri_provider_model_id sel = mrs_provider_model_id r"
      "ri_response_model_id sel = mrs_response_model_id r" "ri_public_model_id sel = ii_public_model_id intent"
      "identity_route_key sel = k"
      by (rule plan_pass_selected)
    note k = configured_route_key_Some [OF ck]
    show ?thesis
    proof (cases "proxy_for_provider proxy (pv_ready_send (views pass)) (ri_provider sel)")
      case None
      have "k \<in> model_keys m - fset excluded" using k r by (auto simp: model_keys_def)
      then have "card (model_keys m - fset (finsert k excluded)) < card (model_keys m - fset excluded)"
        by (intro psubset_card_mono) (auto simp: model_keys_def)
      then obtain result where
        "select_health_aware_route ops registry self proxy views (Suc pass) intent (finsert k excluded) = Some result"
        "\<forall>route. result = Inr route \<longrightarrow>
           (\<exists>n \<ge> Suc pass. sound_selection registry self proxy (views n) intent (finsert k excluded) route)"
        using less.hyps [of "finsert k excluded" "Suc pass"] m by auto
      moreover have "select_health_aware_route ops registry self proxy views pass intent excluded =
          select_health_aware_route ops registry self proxy views (Suc pass) intent (finsert k excluded)"
        by (subst select_health_aware_route.simps) (simp add: None sel f(5))
      ultimately show ?thesis using sound_selection_excluded Suc_leD by metis
    next
      case (Some pr)
      have "sound_selection registry self proxy (views pass) intent excluded
          \<lparr>spr_provider = ri_provider sel, spr_proxy = pr, spr_public_model_id = ri_public_model_id sel,
           spr_provider_model_id = ri_provider_model_id sel, spr_response_model_id = ri_response_model_id sel,
           spr_bucket = ri_bucket sel, spr_selection_source = ri_selection_source sel\<rparr>"
        unfolding sound_selection_def using m r k sn f Some by auto
      then show ?thesis
        using Some sel by (subst select_health_aware_route.simps) auto
    qed
  qed
qed

text \<open>
  C18: selecting a route always comes to an end, for a registry whose models have one route per provider:
  a pass that finds its instance no longer attested excludes that route, and there are only finitely many.
\<close>

theorem selection_terminates:
  assumes "distinct_providers registry"
  shows "\<exists>result. select_health_aware_route ops registry self proxy views pass intent excluded = Some result"
  using selection_run [OF assms] by blast

definition sample_proxies :: proxy_router where
  "sample_proxies = with_maple_readiness (with_maple_api_key
     (the (new_proxy_router ''https://continuum.example'' None ''https://tinfoil.example'')) (Some ''key''))"

text \<open>Views in which every instance is attested while planning and none when the request is sent.\<close>

definition fading_view :: "nat \<Rightarrow> (nat \<times> (sticky_route_key \<times> sticky_route timed_entry) list) pass_view" where
  "fading_view n =
     \<lparr>pv_health = one_start, pv_now = 0, pv_sticky = default_sticky_memory list_clru, pv_lookup_now = 0,
      pv_ready_plan = (\<lambda>_. True), pv_ready_send = (\<lambda>_. False)\<rparr>"

theorem selection_terminates_witness:
  "\<exists>result. select_health_aware_route list_clru PROVIDER_REGISTRY one_self sample_proxies fading_view 0
     (sample_intent 5 GLM_5_3_MODEL_ID) {||} = Some result"
  using selection_terminates [OF registry_distinct_providers] by blast

text \<open>
  C17: a selected route belongs to the public model that was asked for and to no other, it is enabled and
  not excluded, its proxy is the one of its provider at the moment of sending, and the health snapshot of
  the selecting pass admits it: a claim at that instant is ready.
\<close>

theorem selected_route_sound:
  assumes "distinct_providers registry"
    and "select_health_aware_route ops registry self proxy views pass intent excluded = Some (Inr route)"
    and "\<And>n. card (known_gates (pv_health (views n))) < 2 ^ 64 - 1"
  shows "\<exists>n \<ge> pass. \<exists>m r k.
      registry_completion_model registry (ii_public_model_id intent) = Some m \<and>
      r \<in> set (cms_routes m) \<and> enabled_route registry r \<and>
      k = \<lparr>rk_provider = mrs_provider r, rk_provider_model_id = mrs_provider_model_id r\<rparr> \<and> k |\<notin>| excluded \<and>
      spr_provider route = mrs_provider r \<and> spr_provider_model_id route = mrs_provider_model_id r \<and>
      spr_response_model_id route = mrs_response_model_id r \<and>
      spr_public_model_id route = ii_public_model_id intent \<and>
      proxy_for_provider proxy (pv_ready_send (views n)) (mrs_provider r) = Some (spr_proxy route) \<and>
      (\<exists>inner lease. try_claim_probe_locked self (pv_health (views n)) k (pv_now (views n)) = Some (inner, Ready lease))"
proof -
  obtain n where n: "n \<ge> pass" "sound_selection registry self proxy (views n) intent excluded route"
    using selection_run [OF assms(1), of ops self proxy views pass intent excluded] assms(2) by auto
  from n(2) obtain m r k snap where s:
    "registry_completion_model registry (ii_public_model_id intent) = Some m" "r \<in> set (cms_routes m)"
    "enabled_route registry r"
    "k = \<lparr>rk_provider = mrs_provider r, rk_provider_model_id = mrs_provider_model_id r\<rparr>" "k |\<notin>| excluded"
    "spr_provider route = mrs_provider r" "spr_provider_model_id route = mrs_provider_model_id r"
    "spr_response_model_id route = mrs_response_model_id r" "spr_public_model_id route = ii_public_model_id intent"
    "proxy_for_provider proxy (pv_ready_send (views n)) (mrs_provider r) = Some (spr_proxy route)"
    and snap: "snapshot_locked self (pv_health (views n)) k (pv_now (views n)) = Some snap"
    "route_is_available_for_new_request (srs_effective snap)"
    unfolding sound_selection_def by blast
  have "\<exists>inner lease. try_claim_probe_locked self (pv_health (views n)) k (pv_now (views n)) = Some (inner, Ready lease)"
    using claim_follows_snapshot [OF snap(1) assms(3)] snap(2) by (cases "srs_effective snap") auto
  with n(1) s show ?thesis by blast
qed

lemma sample_selection:
  "\<exists>route. select_health_aware_route list_clru one_route_registry one_self sample_proxies fading_view 0
     (sample_intent 5 GPT_OSS_120B_MODEL_ID) {||} = Some (Inr route)"
proof -
  let ?i = "sample_intent 5 GPT_OSS_120B_MODEL_ID"
  let ?m = "completion_model GPT_OSS_120B_MODEL_ID GPT_OSS_120B_ROUTES"
  have pub: "ii_public_model_id ?i = GPT_OSS_120B_MODEL_ID" by (simp add: sample_intent_def new_intent_def)
  have m: "registry_completion_model one_route_registry GPT_OSS_120B_MODEL_ID = Some ?m"
    by (simp add: registry_completion_model_def one_route_registry_def completion_model_def)
  have tin: "registry_provider one_route_registry Tinfoil = Some (hd PROVIDERS)"
    by (simp add: registry_provider_def one_route_registry_def PROVIDERS_def)
  have cs: "configured_route_keys one_route_registry sample_proxies ready ?m {||} = [(Tinfoil, one_route)]" for ready
    by (simp add: configured_route_keys_def List.map_filter_def configured_route_key_def completion_model_def
        GPT_OSS_120B_ROUTES_def tin PROVIDERS_def one_route_def)
  have sn: "snapshot_routes one_self one_start [one_route] 0 = Some
      [\<lparr>srs_route_health = Healthy, srs_deployment_capacity = Healthy, srs_rate_limit_capacity = Healthy,
        srs_effective = Healthy\<rparr>]"
    by (simp add: snapshot_routes_def snapshot_locked_def one_start_def default_route_health_state_def
        default_capacity_state_def route_health_disposition_def capacity_disposition_def
        strongest_disposition_def Let_def)
  have av: "available_providers_for_model [(Tinfoil, one_route)]
      [\<lparr>srs_route_health = Healthy, srs_deployment_capacity = Healthy, srs_rate_limit_capacity = Healthy,
        srs_effective = Healthy\<rparr>] = Some (Inr (with_provider no_providers Tinfoil))"
    by (simp add: available_providers_for_model_def no_providers_def)
  obtain plan where plan: "plan_completion_route one_route_registry
      \<lparr>rpi_intent = ?i, rpi_configured_providers = with_provider no_providers Tinfoil,
       rpi_remembered_provider = remembered_provider_for list_clru (default_sticky_memory list_clru) ?i 0\<rparr> = Inr plan"
    "ri_provider (rp_selected plan) = Tinfoil"
    by (simp add: plan_completion_route_def pub m Let_def completion_model_def GPT_OSS_120B_ROUTES_def
        List.map_filter_def eligible_route_def tin PROVIDERS_def)
  have "plan_pass list_clru one_route_registry one_self sample_proxies (fading_view 0) ?i {||}
      = Some (Inr (rp_selected plan))"
    by (simp add: plan_pass_def pub m Let_def cs fading_view_def sn av plan del: with_provider.simps)
  then show ?thesis
    by (subst select_health_aware_route.simps) (simp add: plan(2))
qed

theorem selected_route_sound_witness:
  "\<exists>route. select_health_aware_route list_clru one_route_registry one_self sample_proxies fading_view 0
     (sample_intent 5 GPT_OSS_120B_MODEL_ID) {||} = Some (Inr route) \<and>
     spr_public_model_id route = GPT_OSS_120B_MODEL_ID"
proof -
  obtain route where r: "select_health_aware_route list_clru one_route_registry one_self sample_proxies fading_view 0
     (sample_intent 5 GPT_OSS_120B_MODEL_ID) {||} = Some (Inr route)"
    using sample_selection by blast
  have d: "distinct_providers one_route_registry"
    by (simp add: distinct_providers_def one_route_registry_def completion_model_def GPT_OSS_120B_ROUTES_def)
  have "health_reach one_route_registry default_health_policy one_self
      \<lparr>hw_inner = one_start, hw_leases = [], hw_clock = 0\<rparr>"
    by (rule reach_new [OF one_start_eq])
  then have "card (known_gates one_start) < 2 ^ 64 - 1"
    using inv_known_gates_card [OF conjunct1 [OF reach_inv] one_countable] one_countable by fastforce
  then have "card (known_gates (pv_health (fading_view n))) < 2 ^ 64 - 1" for n by (simp add: fading_view_def)
  from selected_route_sound [OF d r this] r show ?thesis
    by (auto simp: sample_intent_def new_intent_def)
qed

end
