(* ===== verification/Crypto_Primitives.thy ===== *)
theory Crypto_Primitives
  imports Maple_Prelude
begin

text \<open>
  The interface to the cryptographic crates and text codecs the transport is built on. None of that
  code belongs to the repository, so it is a parameter of the model: \<open>crypto_ops\<close> collects the calls to
  \<open>sha2\<close>, \<open>hkdf\<close>, \<open>x25519_dalek\<close>, \<open>subtle\<close> and \<open>chacha20poly1305\<close>, \<open>codec_ops\<close> those to \<open>hex\<close> and
  \<open>base64\<close>. The locales state the documented behaviour the transport relies on, and reference
  instances show that the laws can hold.
\<close>

section \<open>Cryptographic operations\<close>

text \<open>
  A secret key has an abstract type. \<open>cr_from_prk\<close> is \<open>Hkdf::from_prk\<close>, which refuses a short key;
  \<open>cr_expand\<close> is \<open>Hkdf::expand\<close> into a buffer of the given length; \<open>cr_encrypt\<close> and \<open>cr_decrypt\<close> take the
  key, the nonce, the associated data and the message, and the ciphertext carries its tag at the end.
\<close>

record 'sk crypto_ops =
  cr_sha256 :: "bytes \<Rightarrow> bytes"
  cr_extract :: "bytes \<Rightarrow> bytes \<Rightarrow> bytes"
  cr_from_prk :: "bytes \<Rightarrow> bytes option"
  cr_expand :: "bytes \<Rightarrow> bytes \<Rightarrow> nat \<Rightarrow> bytes option"
  cr_public :: "'sk \<Rightarrow> bytes"
  cr_dh :: "'sk \<Rightarrow> bytes \<Rightarrow> bytes"
  cr_ct_eq :: "bytes \<Rightarrow> bytes \<Rightarrow> bool"
  cr_encrypt :: "bytes \<Rightarrow> bytes \<Rightarrow> bytes \<Rightarrow> bytes \<Rightarrow> bytes option"
  cr_decrypt :: "bytes \<Rightarrow> bytes \<Rightarrow> bytes \<Rightarrow> bytes \<Rightarrow> bytes option"

text \<open>
  The longest message ChaCha20-Poly1305 encrypts: the block counter is a 32-bit number and block zero
  keys the authenticator.
\<close>

definition aead_max :: nat where
  "aead_max = 2 ^ 38 - 64"

definition hkdf_max :: nat where
  "hkdf_max = 255 * 32"

text \<open>
  The AEAD is deterministic once key, nonce and associated data are fixed, so that the ciphertexts it
  opens are exactly those it produces. HKDF refuses only pseudorandom keys shorter than the hash and
  outputs beyond 255 blocks. A public key has 32 bytes and both parties of an X25519 exchange compute the
  same secret.
\<close>

locale crypto_primitives =
  fixes ops :: "'sk crypto_ops"
  assumes decrypt_encrypt: "cr_encrypt ops k n a m = Some c \<Longrightarrow> cr_decrypt ops k n a c = Some m"
    and encrypt_decrypt: "cr_decrypt ops k n a c = Some m \<Longrightarrow> cr_encrypt ops k n a m = Some c"
    and encrypt_total: "length m \<le> aead_max \<Longrightarrow> \<exists>c. cr_encrypt ops k n a m = Some c"
    and encrypt_length: "cr_encrypt ops k n a m = Some c \<Longrightarrow> length c = length m + 16"
    and extract_length: "length (cr_extract ops salt ikm) = 32"
    and from_prk_long: "32 \<le> length k \<Longrightarrow> cr_from_prk ops k = Some k"
    and expand_total: "len \<le> hkdf_max \<Longrightarrow> \<exists>out. cr_expand ops p i len = Some out"
    and expand_length: "cr_expand ops p i len = Some out \<Longrightarrow> length out = len"
    and public_length: "length (cr_public ops sk) = 32"
    and dh_commutes: "cr_dh ops sk1 (cr_public ops sk2) = cr_dh ops sk2 (cr_public ops sk1)"
    and ct_eq_iff: "cr_ct_eq ops x y \<longleftrightarrow> x = y"
begin

text \<open>Two messages have the same ciphertext only when they are equal.\<close>

lemma encrypt_inject:
  assumes "cr_encrypt ops k n a m = Some c" and "cr_encrypt ops k n a m' = Some c"
  shows "m = m'"
  using decrypt_encrypt [OF assms(1)] decrypt_encrypt [OF assms(2)] by simp

lemma decrypt_unique:
  assumes "cr_decrypt ops k n a c = Some m" and "cr_decrypt ops k n a c' = Some m"
  shows "c = c'"
  using encrypt_decrypt [OF assms(1)] encrypt_decrypt [OF assms(2)] by simp

end

section \<open>Text codecs\<close>

record codec_ops =
  hx_encode :: "bytes \<Rightarrow> string"
  hx_decode :: "string \<Rightarrow> bytes option"
  b64_encode :: "bytes \<Rightarrow> string"
  b64_decode :: "string \<Rightarrow> bytes option"
  b64_decode_slice :: "string \<Rightarrow> nat \<Rightarrow> bytes option"

definition is_ascii_lowercase :: "char \<Rightarrow> bool" where
  "is_ascii_lowercase c \<longleftrightarrow> 97 \<le> (of_char c :: nat) \<and> (of_char c :: nat) \<le> 122"

text \<open>The bytes \<open>matches!(byte, b'a'..=b'f')\<close> or \<open>is_ascii_digit\<close> accept.\<close>

definition is_lower_hex :: "char \<Rightarrow> bool" where
  "is_lower_hex c \<longleftrightarrow> is_ascii_digit c \<or> 97 \<le> (of_char c :: nat) \<and> (of_char c :: nat) \<le> 102"

text \<open>
  \<open>hex::encode\<close> writes two lower-case digits per byte and \<open>hex::decode_to_slice\<close> reads them back. The
  standard alphabet of \<open>base64\<close> writes four characters per started group of three bytes;
  \<open>b64_decode_slice\<close> decodes into a buffer of the given size and fails when the bytes do not fit.
\<close>

locale text_codec =
  fixes cod :: codec_ops
  assumes hx_decode_encode: "hx_decode cod (hx_encode cod b) = Some b"
    and hx_encode_decode: "list_all is_lower_hex s \<Longrightarrow> hx_decode cod s = Some b \<Longrightarrow> hx_encode cod b = s"
    and hx_decode_total: "list_all is_lower_hex s \<Longrightarrow> even (length s) \<Longrightarrow> \<exists>b. hx_decode cod s = Some b"
    and hx_encode_lower: "list_all is_lower_hex (hx_encode cod b)"
    and hx_encode_length: "length (hx_encode cod b) = 2 * length b"
    and b64_decode_encode: "b64_decode cod (b64_encode cod b) = Some b"
    and b64_decode_slice_encode: "length b \<le> size_limit \<Longrightarrow>
      b64_decode_slice cod (b64_encode cod b) size_limit = Some b"
    and b64_encode_length: "length (b64_encode cod b) = 4 * ((length b + 2) div 3)"

section \<open>Reference instances\<close>

text \<open>
  A deterministic instance with the right lengths: the tag, the digest and the derived bytes are check
  sums, and the key exchange is Diffie-Hellman in the multiplicative group of a small prime field.
\<close>

definition byte_sum :: "bytes \<Rightarrow> u8" where
  "byte_sum bs = foldr (+) bs 1"

definition ref_tag :: "bytes \<Rightarrow> bytes \<Rightarrow> bytes \<Rightarrow> bytes \<Rightarrow> bytes" where
  "ref_tag k n a m = replicate 16 (byte_sum (k @ n @ a @ m))"

definition ref_encrypt :: "bytes \<Rightarrow> bytes \<Rightarrow> bytes \<Rightarrow> bytes \<Rightarrow> bytes option" where
  "ref_encrypt k n a m = (if length m \<le> aead_max then Some (m @ ref_tag k n a m) else None)"

definition ref_decrypt :: "bytes \<Rightarrow> bytes \<Rightarrow> bytes \<Rightarrow> bytes \<Rightarrow> bytes option" where
  "ref_decrypt k n a c =
     (let m = take (length c - 16) c in
      if length m \<le> aead_max \<and> c = m @ ref_tag k n a m then Some m else None)"

definition ref_prime :: nat where
  "ref_prime = 65537"

definition ref_ops :: "nat crypto_ops" where
  "ref_ops = \<lparr>cr_sha256 = (\<lambda>bs. replicate 32 (byte_sum bs)),
     cr_extract = (\<lambda>salt ikm. replicate 32 (byte_sum (salt @ ikm))),
     cr_from_prk = (\<lambda>k. if 32 \<le> length k then Some k else None),
     cr_expand = (\<lambda>p i n. if n \<le> hkdf_max then Some (replicate n (byte_sum (p @ i))) else None),
     cr_public = (\<lambda>s. be_bytes 32 (3 ^ s mod ref_prime)),
     cr_dh = (\<lambda>s pk. be_bytes 32 (be_value pk ^ s mod ref_prime)),
     cr_ct_eq = (=), cr_encrypt = ref_encrypt, cr_decrypt = ref_decrypt\<rparr>"

lemma ref_tag_length [simp]: "length (ref_tag k n a m) = 16"
  by (simp add: ref_tag_def)

lemma ref_decrypt_encrypt: "ref_encrypt k n a m = Some c \<longleftrightarrow> ref_decrypt k n a c = Some m"
  by (auto simp: ref_encrypt_def ref_decrypt_def Let_def split: if_splits)

lemma ref_dh_commutes:
  "be_bytes 32 (be_value (be_bytes 32 (3 ^ c mod ref_prime)) ^ s mod ref_prime) =
   be_bytes 32 (be_value (be_bytes 32 (3 ^ s mod ref_prime)) ^ c mod ref_prime)"
proof -
  have small: "x mod ref_prime mod 256 ^ 32 = x mod ref_prime" for x
  proof -
    have "x mod ref_prime < ref_prime"
      by (simp add: ref_prime_def)
    also have "ref_prime < 256 ^ 32"
      by (simp add: ref_prime_def)
    finally show ?thesis by simp
  qed
  have "(3 ^ c mod ref_prime) ^ s mod ref_prime = (3 ^ s mod ref_prime) ^ c mod ref_prime"
    by (simp add: power_mod flip: power_mult) (simp add: mult.commute)
  then show ?thesis
    unfolding be_value_be_bytes small by (rule arg_cong)
qed

interpretation ref_crypto: crypto_primitives ref_ops
proof unfold_locales
  fix s c
  show "cr_dh ref_ops s (cr_public ref_ops c) = cr_dh ref_ops c (cr_public ref_ops s)"
    using ref_dh_commutes [of c s] by (simp add: ref_ops_def del: be_bytes.simps)
qed (auto simp: ref_ops_def ref_decrypt_encrypt [symmetric] ref_encrypt_def split: if_splits)

text \<open>Hexadecimal digits, and a text form of three bytes in four characters.\<close>

definition hex_digit :: "nat \<Rightarrow> char" where
  "hex_digit d = (if d < 10 then char_of (48 + d) else char_of (87 + d))"

definition hex_value :: "char \<Rightarrow> nat option" where
  "hex_value c =
     (let v = of_char c in
      if 48 \<le> v \<and> v \<le> 57 then Some (v - 48)
      else if 97 \<le> v \<and> v \<le> 102 then Some (v - 87)
      else if 65 \<le> v \<and> v \<le> 70 then Some (v - 55) else None)"

fun ref_hex_encode :: "bytes \<Rightarrow> string" where
  "ref_hex_encode [] = []"
| "ref_hex_encode (b # bs) = hex_digit (unat b div 16) # hex_digit (unat b mod 16) # ref_hex_encode bs"

fun ref_hex_decode :: "string \<Rightarrow> bytes option" where
  "ref_hex_decode [] = Some []"
| "ref_hex_decode [c] = None"
| "ref_hex_decode (c # d # cs) =
     (case (hex_value c, hex_value d, ref_hex_decode cs) of
        (Some h, Some l, Some bs) \<Rightarrow> Some (of_nat (h * 16 + l) # bs)
      | _ \<Rightarrow> None)"

definition byte_char :: "u8 \<Rightarrow> char" where
  "byte_char b = char_of (unat b)"

definition char_byte :: "char \<Rightarrow> u8" where
  "char_byte c = of_nat (of_char c)"

fun ref_b64_encode :: "bytes \<Rightarrow> string" where
  "ref_b64_encode [] = []"
| "ref_b64_encode [a] = [byte_char a, CHR ''='', CHR ''='', CHR ''1'']"
| "ref_b64_encode [a, b] = [byte_char a, byte_char b, CHR ''='', CHR ''2'']"
| "ref_b64_encode (a # b # c # bs) = byte_char a # byte_char b # byte_char c # CHR ''3'' # ref_b64_encode bs"

fun ref_b64_decode :: "string \<Rightarrow> bytes option" where
  "ref_b64_decode [] = Some []"
| "ref_b64_decode (a # b # c # d # cs) =
     (if d = CHR ''1'' \<and> cs = [] then Some [char_byte a]
      else if d = CHR ''2'' \<and> cs = [] then Some [char_byte a, char_byte b]
      else map_option (\<lambda>bs. char_byte a # char_byte b # char_byte c # bs) (ref_b64_decode cs))"
| "ref_b64_decode _ = None"

definition ref_codec :: codec_ops where
  "ref_codec = \<lparr>hx_encode = ref_hex_encode, hx_decode = ref_hex_decode,
     b64_encode = ref_b64_encode, b64_decode = ref_b64_decode,
     b64_decode_slice = (\<lambda>s n. case ref_b64_decode s of None \<Rightarrow> None
        | Some b \<Rightarrow> if length b \<le> n then Some b else None)\<rparr>"

lemma unat_u8_less: "unat (b :: u8) < 256"
  using unsigned_less [of b, where ?'a = nat] by simp

lemma char_byte_char [simp]: "char_byte (byte_char b) = b"
  using unat_u8_less [of b] by (simp add: char_byte_def byte_char_def)

lemma hex_value_digit: "d < 16 \<Longrightarrow> hex_value (hex_digit d) = Some d"
  by (simp add: hex_value_def hex_digit_def)

lemma hex_digit_value: "is_lower_hex c \<Longrightarrow> \<exists>d < 16. hex_value c = Some d \<and> hex_digit d = c"
proof -
  assume hex: "is_lower_hex c"
  define v where "v = (of_char c :: nat)"
  have c: "c = char_of v"
    by (simp add: v_def)
  consider "48 \<le> v" "v \<le> 57" | "97 \<le> v" "v \<le> 102"
    using hex unfolding is_lower_hex_def is_ascii_digit_def v_def by blast
  then show ?thesis
  proof cases
    case 1
    then have "hex_value c = Some (v - 48)" and "hex_digit (v - 48) = c" and "v - 48 < 16"
      by (simp_all add: hex_value_def hex_digit_def c)
    then show ?thesis by blast
  next
    case 2
    then have "hex_value c = Some (v - 87)" and "hex_digit (v - 87) = c" and "v - 87 < 16"
      by (simp_all add: hex_value_def hex_digit_def c)
    then show ?thesis by blast
  qed
qed

lemma hex_digit_lower: "d < 16 \<Longrightarrow> is_lower_hex (hex_digit d)"
  by (simp add: is_lower_hex_def is_ascii_digit_def hex_digit_def)

lemma nibbles_less: "unat (b :: u8) div 16 < 16"
  using unat_u8_less [of b] by simp

lemma ref_hex_decode_encode: "ref_hex_decode (ref_hex_encode bs) = Some bs"
  by (induction bs) (simp_all add: hex_value_digit nibbles_less)

lemma ref_hex_encode_lower: "list_all is_lower_hex (ref_hex_encode bs)"
  by (induction bs) (simp_all add: hex_digit_lower nibbles_less)

lemma ref_hex_canonical:
  assumes "list_all is_lower_hex s" and "even (length s)"
  shows "\<exists>bs. ref_hex_decode s = Some bs \<and> ref_hex_encode bs = s"
  using assms
proof (induction s rule: ref_hex_decode.induct)
  case (3 c d cs)
  then obtain bs where bs: "ref_hex_decode cs = Some bs" "ref_hex_encode bs = cs"
    by auto
  obtain h l where hl: "h < 16" "hex_value c = Some h" "hex_digit h = c"
      "l < 16" "hex_value d = Some l" "hex_digit l = d"
    using 3(2) hex_digit_value [of c] hex_digit_value [of d] by auto
  then have "unat (of_nat (h * 16 + l) :: u8) = h * 16 + l"
    by (simp add: unat_of_nat del: of_nat_add of_nat_mult)
  moreover have "(h * 16 + l) div 16 = h" and "(h * 16 + l) mod 16 = l"
    using hl by auto
  ultimately show ?case
    using bs hl by (simp del: of_nat_add of_nat_mult)
qed auto

lemma ref_hex_decode_even: "ref_hex_decode s = Some b \<Longrightarrow> even (length s)"
  by (induction s arbitrary: b rule: ref_hex_decode.induct) (auto split: option.splits)

lemma ref_b64_decode_encode: "ref_b64_decode (ref_b64_encode bs) = Some bs"
  by (induction bs rule: ref_b64_encode.induct) simp_all

lemma ref_b64_encode_length: "length (ref_b64_encode bs) = 4 * ((length bs + 2) div 3)"
proof (induction bs rule: ref_b64_encode.induct)
  case (4 a b c bs)
  have "(length (a # b # c # bs) + 2) div 3 = (length bs + 2) div 3 + 1"
    by simp
  then show ?case
    unfolding ref_b64_encode.simps using 4 by simp
qed simp_all

interpretation ref_text: text_codec ref_codec
proof unfold_locales
  fix s :: string and b :: bytes
  show "list_all is_lower_hex s \<Longrightarrow> hx_decode ref_codec s = Some b \<Longrightarrow> hx_encode ref_codec b = s"
    using ref_hex_canonical [of s] ref_hex_decode_even [of s b] by (auto simp: ref_codec_def)
  show "list_all is_lower_hex s \<Longrightarrow> even (length s) \<Longrightarrow> \<exists>b. hx_decode ref_codec s = Some b"
    using ref_hex_canonical [of s] by (auto simp: ref_codec_def)
  show "length (hx_encode ref_codec b) = 2 * length b"
    unfolding ref_codec_def by (induction b) simp_all
  show "length (b64_encode ref_codec b) = 4 * ((length b + 2) div 3)"
    by (simp add: ref_codec_def ref_b64_encode_length)
qed (simp_all add: ref_codec_def ref_hex_decode_encode ref_hex_encode_lower ref_b64_decode_encode)

end
