(* ===== verification/Transport_Crypto.thy ===== *)
theory Transport_Crypto
  imports Crypto_Primitives
begin

text \<open>
  The key schedule and the record protection of the second attested transport on the server,
  \<open>transport_v2/crypto.rs\<close>: identifiers and their text form, the handshake transcript, the derivation of
  the directional keys, request records, and the response sealer with its sequence number. The byte
  arrays of fixed size are byte lists; \<open>secrets_ok\<close> states the sizes, and the derivation establishes it.
\<close>

section \<open>Constants\<close>

definition ascii :: "string \<Rightarrow> bytes" where
  "ascii s = map (\<lambda>c. of_nat (of_char c)) s"

definition HANDSHAKE_CHALLENGE_BYTES :: nat where
  "HANDSHAKE_CHALLENGE_BYTES = 32"

definition X25519_PUBLIC_KEY_BYTES :: nat where
  "X25519_PUBLIC_KEY_BYTES = 32"

definition SESSION_ID_BYTES :: nat where
  "SESSION_ID_BYTES = 16"

definition REQUEST_ID_BYTES :: nat where
  "REQUEST_ID_BYTES = 16"

definition RECORD_NONCE_BYTES :: nat where
  "RECORD_NONCE_BYTES = 12"

definition RECORD_TAG_BYTES :: nat where
  "RECORD_TAG_BYTES = 16"

definition MIN_REQUEST_RECORD_BYTES :: nat where
  "MIN_REQUEST_RECORD_BYTES = REQUEST_ID_BYTES + RECORD_TAG_BYTES"

definition HANDSHAKE_DOMAIN :: bytes where
  "HANDSHAKE_DOMAIN = ascii ''opensecret/transport-v2/session/v1''"

definition ATTESTATION_USER_DATA_DOMAIN :: bytes where
  "ATTESTATION_USER_DATA_DOMAIN = ascii ''opensecret/transport-v2/session/v1/client-public-key''"

definition REQUEST_KEY_INFO :: bytes where
  "REQUEST_KEY_INFO = ascii ''opensecret/transport-v2/request-key/v1''"

definition RESPONSE_KEY_INFO :: bytes where
  "RESPONSE_KEY_INFO = ascii ''opensecret/transport-v2/response-key/v1''"

definition SESSION_ID_INFO :: bytes where
  "SESSION_ID_INFO = ascii ''opensecret/transport-v2/session-id/v1''"

definition REQUEST_SUBKEY_INFO :: bytes where
  "REQUEST_SUBKEY_INFO = ascii ''opensecret/transport-v2/request-subkey/v1''"

definition RESPONSE_SUBKEY_INFO :: bytes where
  "RESPONSE_SUBKEY_INFO = ascii ''opensecret/transport-v2/response-subkey/v1''"

definition REQUEST_RECORD_DOMAIN :: bytes where
  "REQUEST_RECORD_DOMAIN = ascii ''opensecret/transport-v2/request-record/v1''"

definition RESPONSE_RECORD_DOMAIN :: bytes where
  "RESPONSE_RECORD_DOMAIN = ascii ''opensecret/transport-v2/response-record/v1''"

lemmas size_defs = HANDSHAKE_CHALLENGE_BYTES_def X25519_PUBLIC_KEY_BYTES_def SESSION_ID_BYTES_def
  REQUEST_ID_BYTES_def RECORD_NONCE_BYTES_def RECORD_TAG_BYTES_def MIN_REQUEST_RECORD_BYTES_def

section \<open>Identifiers\<close>

datatype crypto_error =
  NonContributoryKey | KeyDerivation | TruncatedRecord | Encryption | Authentication | SequenceExhausted

type_synonym session_id = bytes
type_synonym request_id = bytes

text \<open>\<open>Display for SessionId\<close> and \<open>FromStr for SessionId\<close>.\<close>

definition session_id_to_string :: "codec_ops \<Rightarrow> session_id \<Rightarrow> string" where
  "session_id_to_string cod sid = hx_encode cod sid"

definition session_id_from_str :: "codec_ops \<Rightarrow> string \<Rightarrow> unit + session_id" where
  "session_id_from_str cod encoded =
     (if length encoded \<noteq> SESSION_ID_BYTES * 2 \<or> \<not> list_all is_lower_hex encoded then Inl ()
      else ok_or () (hx_decode cod encoded))"

section \<open>Handshake\<close>

record handshake_transcript =
  ht_challenge :: bytes
  ht_client_public_key :: bytes
  ht_server_public_key :: bytes

definition transcript_digest :: "'sk crypto_ops \<Rightarrow> handshake_transcript \<Rightarrow> bytes" where
  "transcript_digest ops t =
     cr_sha256 ops (HANDSHAKE_DOMAIN @ [0] @ ht_challenge t @ ht_client_public_key t @
       ht_server_public_key t)"

definition attestation_user_data :: "bytes \<Rightarrow> bytes" where
  "attestation_user_data client_public_key = ATTESTATION_USER_DATA_DOMAIN @ [0] @ client_public_key"

record session_secrets =
  sec_session_id :: session_id
  sec_request_key :: bytes
  sec_response_key :: bytes

definition key_info :: "bytes \<Rightarrow> bytes \<Rightarrow> bytes" where
  "key_info label digest = label @ [0] @ digest"

definition derive_session_secrets ::
    "'sk crypto_ops \<Rightarrow> bytes \<Rightarrow> handshake_transcript \<Rightarrow> crypto_error + session_secrets" where
  "derive_session_secrets ops shared_secret t =
     (if cr_ct_eq ops shared_secret (replicate 32 0) then Inl NonContributoryKey
      else let digest = transcript_digest ops t;
               hkdf = cr_extract ops (ht_challenge t) shared_secret in
        and_then (ok_or KeyDerivation (cr_expand ops hkdf (key_info REQUEST_KEY_INFO digest) 32))
          (\<lambda>request_key.
        and_then (ok_or KeyDerivation (cr_expand ops hkdf (key_info RESPONSE_KEY_INFO digest) 32))
          (\<lambda>response_key.
        and_then (ok_or KeyDerivation
            (cr_expand ops hkdf (key_info SESSION_ID_INFO digest) SESSION_ID_BYTES))
          (\<lambda>session_id.
        Inr \<lparr>sec_session_id = session_id, sec_request_key = request_key,
             sec_response_key = response_key\<rparr>))))"

definition derive_server_session ::
    "'sk crypto_ops \<Rightarrow> 'sk \<Rightarrow> handshake_transcript \<Rightarrow> crypto_error + session_secrets" where
  "derive_server_session ops server_secret t =
     derive_session_secrets ops (cr_dh ops server_secret (ht_client_public_key t)) t"

definition derive_client_session ::
    "'sk crypto_ops \<Rightarrow> 'sk \<Rightarrow> handshake_transcript \<Rightarrow> crypto_error + session_secrets" where
  "derive_client_session ops client_secret t =
     derive_session_secrets ops (cr_dh ops client_secret (ht_server_public_key t)) t"

section \<open>Records\<close>

definition derive_record_subkey ::
    "'sk crypto_ops \<Rightarrow> bytes \<Rightarrow> bytes \<Rightarrow> session_id \<Rightarrow> request_id \<Rightarrow> crypto_error + bytes" where
  "derive_record_subkey ops base_key label sid rid =
     and_then (ok_or KeyDerivation (cr_from_prk ops base_key))
       (\<lambda>hkdf. ok_or KeyDerivation (cr_expand ops hkdf (label @ [0] @ sid @ rid) 32))"

definition request_aad :: "session_id \<Rightarrow> request_id \<Rightarrow> bytes" where
  "request_aad sid rid = REQUEST_RECORD_DOMAIN @ [0] @ sid @ rid"

definition response_aad :: "session_id \<Rightarrow> request_id \<Rightarrow> u64 \<Rightarrow> bytes" where
  "response_aad sid rid sequence = RESPONSE_RECORD_DOMAIN @ [0] @ sid @ rid @ u64_to_be_bytes sequence"

definition response_nonce :: "u64 \<Rightarrow> bytes" where
  "response_nonce sequence = take 4 (replicate RECORD_NONCE_BYTES 0) @ u64_to_be_bytes sequence"

definition seal_detached_nonce ::
    "'sk crypto_ops \<Rightarrow> bytes \<Rightarrow> bytes \<Rightarrow> bytes \<Rightarrow> bytes \<Rightarrow> crypto_error + bytes" where
  "seal_detached_nonce ops key aad nonce plaintext =
     ok_or Encryption (cr_encrypt ops key nonce aad plaintext)"

definition open_detached_nonce ::
    "'sk crypto_ops \<Rightarrow> bytes \<Rightarrow> bytes \<Rightarrow> bytes \<Rightarrow> bytes \<Rightarrow> crypto_error + bytes" where
  "open_detached_nonce ops key aad nonce rec =
     (if length rec < RECORD_TAG_BYTES then Inl TruncatedRecord
      else ok_or Authentication (cr_decrypt ops key nonce aad rec))"

definition encrypt_request ::
    "'sk crypto_ops \<Rightarrow> session_secrets \<Rightarrow> request_id \<Rightarrow> bytes \<Rightarrow> crypto_error + bytes" where
  "encrypt_request ops self rid plaintext =
     and_then (derive_record_subkey ops (sec_request_key self) REQUEST_SUBKEY_INFO
         (sec_session_id self) rid) (\<lambda>key.
     and_then (seal_detached_nonce ops key (request_aad (sec_session_id self) rid)
         (replicate RECORD_NONCE_BYTES 0) plaintext) (\<lambda>ciphertext.
     Inr (rid @ ciphertext)))"

definition decrypt_request ::
    "'sk crypto_ops \<Rightarrow> session_secrets \<Rightarrow> bytes \<Rightarrow> crypto_error + (request_id \<times> bytes)" where
  "decrypt_request ops self rec =
     (if length rec < MIN_REQUEST_RECORD_BYTES then Inl TruncatedRecord
      else let rid = take REQUEST_ID_BYTES rec in
        and_then (derive_record_subkey ops (sec_request_key self) REQUEST_SUBKEY_INFO
            (sec_session_id self) rid) (\<lambda>key.
        and_then (open_detached_nonce ops key (request_aad (sec_session_id self) rid)
            (replicate RECORD_NONCE_BYTES 0) (drop REQUEST_ID_BYTES rec)) (\<lambda>plaintext.
        Inr (rid, plaintext))))"

record resp_sealer =
  rs_session_id :: session_id
  rs_request_id :: request_id
  rs_key :: bytes
  rs_next_sequence :: u64

definition response_sealer ::
    "'sk crypto_ops \<Rightarrow> session_secrets \<Rightarrow> request_id \<Rightarrow> crypto_error + resp_sealer" where
  "response_sealer ops self rid =
     and_then (derive_record_subkey ops (sec_response_key self) RESPONSE_SUBKEY_INFO
         (sec_session_id self) rid) (\<lambda>key.
     Inr \<lparr>rs_session_id = sec_session_id self, rs_request_id = rid, rs_key = key,
          rs_next_sequence = 0\<rparr>)"

definition decrypt_response ::
    "'sk crypto_ops \<Rightarrow> session_secrets \<Rightarrow> request_id \<Rightarrow> u64 \<Rightarrow> bytes \<Rightarrow> crypto_error + bytes" where
  "decrypt_response ops self rid sequence rec =
     and_then (derive_record_subkey ops (sec_response_key self) RESPONSE_SUBKEY_INFO
         (sec_session_id self) rid) (\<lambda>key.
     open_detached_nonce ops key (response_aad (sec_session_id self) rid sequence)
       (response_nonce sequence) rec)"

text \<open>
  \<open>ResponseSealer::seal_next\<close> advances the sequence number before it encrypts. When the number is
  exhausted the error leaves the sealer as it was.
\<close>

definition seal_next ::
    "'sk crypto_ops \<Rightarrow> resp_sealer \<Rightarrow> bytes \<Rightarrow> (crypto_error + bytes) \<times> resp_sealer" where
  "seal_next ops self plaintext =
     (let sequence = rs_next_sequence self in
      case u64_checked_add sequence 1 of
        None \<Rightarrow> (Inl SequenceExhausted, self)
      | Some next_seq \<Rightarrow>
          (seal_detached_nonce ops (rs_key self)
             (response_aad (rs_session_id self) (rs_request_id self) sequence)
             (response_nonce sequence) plaintext,
           self\<lparr>rs_next_sequence := next_seq\<rparr>))"

text \<open>The outcomes of a sequence of calls on one sealer, and the sealer they leave.\<close>

fun seal_run ::
    "'sk crypto_ops \<Rightarrow> resp_sealer \<Rightarrow> bytes list \<Rightarrow> (crypto_error + bytes) list \<times> resp_sealer" where
  "seal_run ops self [] = ([], self)"
| "seal_run ops self (p # ps) =
     (let (r, self') = seal_next ops self p; (rs, self'') = seal_run ops self' ps
      in (r # rs, self''))"

section \<open>Sizes\<close>

definition secrets_ok :: "session_secrets \<Rightarrow> bool" where
  "secrets_ok s \<longleftrightarrow> length (sec_session_id s) = 16 \<and> length (sec_request_key s) = 32 \<and>
     length (sec_response_key s) = 32"

lemma length_ascii [simp]: "length (ascii s) = length s"
  by (simp add: ascii_def)

lemma response_nonce_length [wire_simps]: "length (response_nonce q) = RECORD_NONCE_BYTES"
  by (simp add: response_nonce_def size_defs)

lemma response_nonce_inject [simp]: "response_nonce q = response_nonce q' \<longleftrightarrow> q = q'"
  by (simp add: response_nonce_def)

text \<open>
  Associated data determine session, request and sequence number, and request data never equal
  response data: the two domains differ in their twenty-seventh byte.
\<close>

lemma request_aad_inject:
  assumes "length sid = length sid'"
  shows "request_aad sid rid = request_aad sid' rid' \<longleftrightarrow> sid = sid' \<and> rid = rid'"
  using assms by (simp add: request_aad_def)

lemma response_aad_inject:
  assumes "length sid = length sid'" and "length rid = length rid'"
  shows "response_aad sid rid q = response_aad sid' rid' q' \<longleftrightarrow> sid = sid' \<and> rid = rid' \<and> q = q'"
  using assms by (simp add: response_aad_def)

lemma domains_differ: "request_aad sid rid \<noteq> response_aad sid' rid' q"
proof
  assume "request_aad sid rid = response_aad sid' rid' q"
  then have "request_aad sid rid ! 26 = response_aad sid' rid' q ! 26" by simp
  then show False
    by (simp add: request_aad_def response_aad_def REQUEST_RECORD_DOMAIN_def
        RESPONSE_RECORD_DOMAIN_def ascii_def nth_append)
qed

section \<open>The key schedule\<close>

text \<open>
  Under the laws of the primitives the derivations fail only on a non-contributory exchange: the keys
  have the size HKDF wants and the outputs are short.
\<close>

context crypto_primitives
begin

lemma expand_small:
  assumes "len \<le> 32" obtains out where "cr_expand ops p i len = Some out" and "length out = len"
proof -
  from assms have "len \<le> hkdf_max" by (simp add: hkdf_max_def)
  from expand_total [OF this] obtain out where "cr_expand ops p i len = Some out" by blast
  with that expand_length show ?thesis by blast
qed

lemma derive_record_subkey_total:
  assumes "length key = 32"
  obtains sub where "derive_record_subkey ops key label sid rid = Inr sub" and "length sub = 32"
proof -
  obtain out where "cr_expand ops key (label @ [0] @ sid @ rid) 32 = Some out" "length out = 32"
    by (rule expand_small [of 32 key "label @ [0] @ sid @ rid"]) auto
  with that [of out] assms show ?thesis
    by (simp add: derive_record_subkey_def from_prk_long)
qed

lemma derive_session_secrets_cases:
  obtains (zero) "shared = replicate 32 0" "derive_session_secrets ops shared t = Inl NonContributoryKey"
  | (derived) s where "shared \<noteq> replicate 32 0" "derive_session_secrets ops shared t = Inr s" "secrets_ok s"
proof (cases "shared = replicate 32 0")
  case True
  then show ?thesis
    by (intro zero) (simp_all add: derive_session_secrets_def ct_eq_iff)
next
  case False
  define hkdf where "hkdf = cr_extract ops (ht_challenge t) shared"
  define info where "info l = key_info l (transcript_digest ops t)" for l
  obtain k1 where k1: "cr_expand ops hkdf (info REQUEST_KEY_INFO) 32 = Some k1" "length k1 = 32"
    by (rule expand_small [of 32]) auto
  obtain k2 where k2: "cr_expand ops hkdf (info RESPONSE_KEY_INFO) 32 = Some k2" "length k2 = 32"
    by (rule expand_small [of 32]) auto
  obtain i where i: "cr_expand ops hkdf (info SESSION_ID_INFO) 16 = Some i" "length i = 16"
    by (rule expand_small [of 16]) auto
  show ?thesis
    by (rule derived [of "\<lparr>sec_session_id = i, sec_request_key = k1, sec_response_key = k2\<rparr>"])
       (use False k1 k2 i in \<open>simp_all add: derive_session_secrets_def ct_eq_iff Let_def SESSION_ID_BYTES_def
          secrets_ok_def hkdf_def info_def\<close>)
qed

section \<open>Request records\<close>

text \<open>What sealing produces opens again, and nothing else opens to the same plaintext.\<close>

lemma open_sealed:
  "open_detached_nonce ops key aad nonce rec = Inr m \<longleftrightarrow> seal_detached_nonce ops key aad nonce m = Inr rec"
  using decrypt_encrypt [of key nonce aad m rec] encrypt_decrypt [of key nonce aad rec m]
    encrypt_length [of key nonce aad m rec]
  by (auto simp: open_detached_nonce_def seal_detached_nonce_def size_defs)

lemma seal_total:
  assumes "length m \<le> aead_max"
  obtains c where "seal_detached_nonce ops key aad nonce m = Inr c" and "length c = length m + 16"
proof -
  from encrypt_total [OF assms] obtain c where "cr_encrypt ops key nonce aad m = Some c" by blast
  with that [of c] encrypt_length show ?thesis by (simp add: seal_detached_nonce_def)
qed

lemma encrypt_request_total:
  assumes "secrets_ok s" and "length m \<le> aead_max"
  obtains c where "encrypt_request ops s rid m = Inr (rid @ c)" and "length c = length m + 16"
proof -
  from assms(1) have "length (sec_request_key s) = 32" by (simp add: secrets_ok_def)
  then obtain key where key: "derive_record_subkey ops (sec_request_key s) REQUEST_SUBKEY_INFO
      (sec_session_id s) rid = Inr key"
    by (rule derive_record_subkey_total)
  from assms(2) obtain c where "seal_detached_nonce ops key (request_aad (sec_session_id s) rid)
      (replicate RECORD_NONCE_BYTES 0) m = Inr c" and len: "length c = length m + 16"
    by (rule seal_total)
  with that [of c] key show ?thesis by (simp add: encrypt_request_def)
qed

lemma decrypt_request_iff:
  "decrypt_request ops s rec = Inr (rid, m) \<longleftrightarrow>
     length rid = REQUEST_ID_BYTES \<and> encrypt_request ops s rid m = Inr rec"
proof
  assume dec: "decrypt_request ops s rec = Inr (rid, m)"
  then have len: "MIN_REQUEST_RECORD_BYTES \<le> length rec"
    by (auto simp: decrypt_request_def split: if_splits)
  with dec show "length rid = REQUEST_ID_BYTES \<and> encrypt_request ops s rid m = Inr rec"
    by (auto simp: decrypt_request_def encrypt_request_def and_then_eq_Inr open_sealed size_defs Let_def)
next
  assume enc: "length rid = REQUEST_ID_BYTES \<and> encrypt_request ops s rid m = Inr rec"
  then obtain key c where key: "derive_record_subkey ops (sec_request_key s) REQUEST_SUBKEY_INFO
        (sec_session_id s) rid = Inr key"
      and c: "seal_detached_nonce ops key (request_aad (sec_session_id s) rid)
        (replicate RECORD_NONCE_BYTES 0) m = Inr c" and rec: "rec = rid @ c"
    by (auto simp: encrypt_request_def and_then_eq_Inr)
  from c have "length c = length m + 16"
    using encrypt_length by (simp add: seal_detached_nonce_def)
  with enc key c rec show "decrypt_request ops s rec = Inr (rid, m)"
    by (simp add: decrypt_request_def Let_def open_sealed [THEN iffD2] size_defs)
qed

end

section \<open>The response sequence\<close>

lemma unat_u64_less: "unat (q :: u64) < 2 ^ 64"
  using unsigned_less [of q, where ?'a = nat] by simp

lemma u64_add_of_nat:
  assumes "unat (q :: u64) + i < 2 ^ 64"
  shows "unat (q + of_nat i) = unat q + i"
proof -
  have "unat (of_nat i :: u64) = i"
    using assms by (simp add: unat_of_nat)
  then show ?thesis
    using assms by (simp add: unat_add_lem [THEN iffD1])
qed

lemma seal_next_cases:
  "seal_next ops self m =
     (if unat (rs_next_sequence self) + 1 < 2 ^ 64
      then (seal_detached_nonce ops (rs_key self)
              (response_aad (rs_session_id self) (rs_request_id self) (rs_next_sequence self))
              (response_nonce (rs_next_sequence self)) m,
            self\<lparr>rs_next_sequence := rs_next_sequence self + 1\<rparr>)
      else (Inl SequenceExhausted, self))"
  by (simp add: seal_next_def u64_checked_add_def Let_def)

text \<open>
  Call \<open>i\<close> on a sealer uses sequence number \<open>i\<close> past the sealer's, whatever the earlier calls returned,
  until the numbers run out; from then on every call fails.
\<close>

lemma seal_run_nth:
  assumes "i < length ps"
  shows "fst (seal_run ops self ps) ! i =
     (let q = rs_next_sequence self + of_nat i in
      if unat (rs_next_sequence self) + i + 1 < 2 ^ 64
      then seal_detached_nonce ops (rs_key self) (response_aad (rs_session_id self) (rs_request_id self) q)
             (response_nonce q) (ps ! i)
      else Inl SequenceExhausted)"
  using assms
proof (induction ps arbitrary: self i)
  case (Cons p ps)
  show ?case
  proof (cases i)
    case 0
    then show ?thesis by (simp add: seal_next_cases case_prod_beta Let_def)
  next
    case (Suc j)
    with Cons.prems have j: "j < length ps" by simp
    show ?thesis
    proof (cases "unat (rs_next_sequence self) + 1 < 2 ^ 64")
      case True
      then have "unat (rs_next_sequence self + 1) = unat (rs_next_sequence self) + 1"
        using u64_add_of_nat [of "rs_next_sequence self" 1] by simp
      with True Cons.IH [OF j, of "self\<lparr>rs_next_sequence := rs_next_sequence self + 1\<rparr>"] Suc
      show ?thesis
        by (simp add: seal_next_cases case_prod_beta Let_def add.assoc)
    next
      case False
      with Cons.IH [OF j, of self] Suc show ?thesis
        by (simp add: seal_next_cases case_prod_beta Let_def)
    qed
  qed
qed simp

lemma seal_run_length [simp]: "length (fst (seal_run ops self ps)) = length ps"
  by (induction ps arbitrary: self) (simp_all add: case_prod_beta Let_def)

section \<open>Properties\<close>

text \<open>
  C13: one response never encrypts twice under the same nonce. Whatever plaintexts are sealed and
  whichever calls fail, call \<open>i\<close> on a sealer encrypts under the nonce and the associated data of sequence
  number \<open>i\<close> past the sealer's, two calls that encrypt have different nonces and different associated
  data, and once the 64-bit numbers are exhausted every further call is refused without encrypting.
\<close>

theorem response_nonces_never_reused:
  "(\<forall>i < length ps. fst (seal_run ops self ps) ! i =
      (if unat (rs_next_sequence self) + i + 1 < 2 ^ 64
       then seal_detached_nonce ops (rs_key self)
              (response_aad (rs_session_id self) (rs_request_id self) (rs_next_sequence self + of_nat i))
              (response_nonce (rs_next_sequence self + of_nat i)) (ps ! i)
       else Inl SequenceExhausted)) \<and>
   (\<forall>i j. i < j \<and> unat (rs_next_sequence self) + j + 1 < 2 ^ 64 \<longrightarrow>
      response_nonce (rs_next_sequence self + of_nat i) \<noteq>
        response_nonce (rs_next_sequence self + of_nat j) \<and>
      response_aad (rs_session_id self) (rs_request_id self) (rs_next_sequence self + of_nat i) \<noteq>
        response_aad (rs_session_id self) (rs_request_id self) (rs_next_sequence self + of_nat j))"
proof (intro conjI allI impI)
  fix i j :: nat
  assume less: "i < j \<and> unat (rs_next_sequence self) + j + 1 < 2 ^ 64"
  then have "unat (rs_next_sequence self + of_nat i) = unat (rs_next_sequence self) + i"
      and "unat (rs_next_sequence self + of_nat j) = unat (rs_next_sequence self) + j"
    by (simp_all add: u64_add_of_nat)
  with less have ne: "rs_next_sequence self + of_nat i \<noteq> rs_next_sequence self + of_nat j"
    by (metis add_left_cancel less_irrefl)
  then show "response_nonce (rs_next_sequence self + of_nat i) \<noteq>
      response_nonce (rs_next_sequence self + of_nat j)"
    unfolding response_nonce_inject .
  from ne show "response_aad (rs_session_id self) (rs_request_id self) (rs_next_sequence self + of_nat i) \<noteq>
      response_aad (rs_session_id self) (rs_request_id self) (rs_next_sequence self + of_nat j)"
    by (simp only: response_aad_inject not_False_eq_True) simp
qed (simp add: seal_run_nth Let_def)

text \<open>A sealer two records before exhaustion: two records are sealed, the third and fourth are refused.\<close>

definition late_sealer :: resp_sealer where
  "late_sealer = \<lparr>rs_session_id = replicate 16 7, rs_request_id = replicate 16 9,
     rs_key = replicate 32 1, rs_next_sequence = - 3\<rparr>"

lemma late_sealer_sequence: "unat (rs_next_sequence late_sealer) = 2 ^ 64 - 3"
  by (simp add: late_sealer_def)

theorem response_nonces_never_reused_witness:
  "isl (fst (seal_run ref_ops late_sealer [[1], [2], [3], [4]]) ! 0) = False \<and>
   fst (seal_run ref_ops late_sealer [[1], [2], [3], [4]]) ! 2 = Inl SequenceExhausted \<and>
   response_nonce (- 3 + of_nat 0) \<noteq> response_nonce (- 3 + of_nat 1)"
  using response_nonces_never_reused [of "[[1], [2], [3], [4]]" ref_ops late_sealer]
  unfolding late_sealer_sequence
  by (simp add: seal_detached_nonce_def ref_ops_def ref_encrypt_def aead_max_def late_sealer_def)

text \<open>
  the text form of a session identifier. Printing a sixteen-byte identifier and parsing it gives it
  back, and a text parses only when it is the printed form of the identifier it yields; in particular
  upper-case digits and texts of another length are refused.
\<close>

theorem session_id_text_round_trip:
  assumes "text_codec cod"
  shows "(\<forall>sid. length sid = SESSION_ID_BYTES \<longrightarrow>
      session_id_from_str cod (session_id_to_string cod sid) = Inr sid) \<and>
    (\<forall>enc sid. session_id_from_str cod enc = Inr sid \<longleftrightarrow>
      length sid = SESSION_ID_BYTES \<and> enc = session_id_to_string cod sid)"
proof -
  note laws = text_codec.hx_decode_encode [OF assms] text_codec.hx_encode_lower [OF assms]
    text_codec.hx_encode_length [OF assms]
  have "length sid = 16 \<and> hx_encode cod sid = enc"
    if "length enc = 32" "list_all is_lower_hex enc" "hx_decode cod enc = Some sid" for enc sid
  proof -
    from text_codec.hx_encode_decode [OF assms that(2,3)] have "hx_encode cod sid = enc" .
    with laws(3) [of sid] that(1) show ?thesis by simp
  qed
  with laws show ?thesis
    by (auto simp: session_id_from_str_def session_id_to_string_def size_defs)
qed

theorem session_id_text_round_trip_witness:
  "session_id_from_str ref_codec (session_id_to_string ref_codec (replicate 16 255)) =
     Inr (replicate 16 255) \<and>
   session_id_from_str ref_codec ''FF'' \<noteq> Inr [255]"
  using session_id_text_round_trip [OF ref_text.text_codec_axioms]
  by (simp add: size_defs)

end
