(* ===== verification/Wire_Formats.thy ===== *)
theory Wire_Formats
  imports Crypto_Primitives
begin

text \<open>
  The interface to the \<open>serde_json\<close> and \<open>http\<close> crates, and the data both ends of the transport exchange
  through them. A writer or reader works on the values of the JSON document, so that the conversions the
  repository itself defines (the base64 form of a cache root, the checks on names and sizes) stay in the
  model. A Rust \<open>str\<close> is the list of its UTF-8 bytes, as \<^typ>\<open>string\<close>.
\<close>

section \<open>Documents\<close>

datatype credential_kind = Bearer | ApiKey | Resumption

record credential =
  cred_kind :: credential_kind
  cred_value :: string

record logical_header =
  lh_name :: string
  lh_value :: string

text \<open>The fields of the request metadata object; the cache root is the string of the document.\<close>

record wire_metadata =
  wm_version :: u8
  wm_credential :: "credential option"
  wm_cache_namespace_root :: "string option"
  wm_method :: string
  wm_target :: string
  wm_headers :: "logical_header list"
  wm_body_present :: bool

record json_ops =
  js_write_metadata :: "wire_metadata \<Rightarrow> bytes option"
  js_read_metadata :: "bytes \<Rightarrow> wire_metadata option"
  js_write_start :: "u16 \<times> logical_header list \<Rightarrow> bytes option"
  js_read_start :: "bytes \<Rightarrow> (u16 \<times> logical_header list) option"
  js_write_failure :: "string \<Rightarrow> bytes option"
  js_read_failure :: "bytes \<Rightarrow> string option"

record uri =
  uri_scheme :: "string option"
  uri_authority :: "string option"
  uri_path_and_query :: "string option"

text \<open>
  \<open>http_method\<close> and \<open>http_header_name\<close> return the parsed name as \<open>as_str\<close> shows it; \<open>http_header_value\<close> tells
  whether \<open>HeaderValue::from_str\<close> accepts, and \<open>http_to_str\<close> is \<open>HeaderValue::to_str\<close>.
\<close>

record http_ops =
  http_method :: "string \<Rightarrow> string option"
  http_uri :: "string \<Rightarrow> uri option"
  http_header_name :: "string \<Rightarrow> string option"
  http_header_value :: "string \<Rightarrow> bool"
  http_to_str :: "string \<Rightarrow> string option"

text \<open>
  A JSON document reads back as it was written, and the document of a short error code is written and
  short; a method name parses to itself and is not empty; a header value of visible characters reads as
  it is, texts of the codecs among them.
\<close>

locale wire_formats = text_codec cod for cod :: codec_ops +
  fixes js :: json_ops and http :: http_ops
  assumes read_metadata: "js_write_metadata js wm = Some b \<Longrightarrow> js_read_metadata js b = Some wm"
    and read_start: "js_write_start js start = Some b \<Longrightarrow> js_read_start js b = Some start"
    and read_failure: "js_write_failure js code = Some b \<Longrightarrow> js_read_failure js b = Some code"
    and write_failure: "length code \<le> 64 \<Longrightarrow> \<exists>b. js_write_failure js code = Some b \<and> length b \<le> 1024"
    and method_parsed: "http_method http m = Some m' \<Longrightarrow> m' \<noteq> [] \<and> http_method http m' = Some m'"
    and to_str_visible: "list_all (\<lambda>c. 32 \<le> (of_char c :: nat) \<and> (of_char c :: nat) < 127) v \<Longrightarrow>
      http_to_str http v = Some v"
    and to_str_hex: "http_to_str http (hx_encode cod b) = Some (hx_encode cod b)"
    and to_str_b64: "http_to_str http (b64_encode cod b) = Some (b64_encode cod b)"

section \<open>Reference instance\<close>

text \<open>
  A prefix code: every character and every list element is preceded by a one, and a zero ends the
  list. Method names are upper-case letters, header names lower-case letters and dashes, and a target
  parses as a path.
\<close>

fun put_str :: "string \<Rightarrow> bytes" where
  "put_str [] = [0]"
| "put_str (c # cs) = 1 # char_byte c # put_str cs"

fun get_str :: "bytes \<Rightarrow> (string \<times> bytes) option" where
  "get_str (b # bs) =
     (if b = 0 then Some ([], bs)
      else case bs of [] \<Rightarrow> None | c # bs' \<Rightarrow> map_option (\<lambda>(s, r). (byte_char c # s, r)) (get_str bs'))"
| "get_str [] = None"

fun put_headers :: "logical_header list \<Rightarrow> bytes" where
  "put_headers [] = [0]"
| "put_headers (h # hs) = 1 # put_str (lh_name h) @ put_str (lh_value h) @ put_headers hs"

text \<open>Reading takes at most as many headers as its bound, which the length of the document supplies.\<close>

fun get_headers :: "nat \<Rightarrow> bytes \<Rightarrow> (logical_header list \<times> bytes) option" where
  "get_headers n [] = None"
| "get_headers n (b # bs) =
     (if b = 0 then Some ([], bs)
      else case n of 0 \<Rightarrow> None | Suc k \<Rightarrow>
        (case get_str bs of None \<Rightarrow> None | Some (nm, r) \<Rightarrow>
           (case get_str r of None \<Rightarrow> None | Some (v, r') \<Rightarrow>
              map_option (\<lambda>(hs, r''). (\<lparr>lh_name = nm, lh_value = v\<rparr> # hs, r'')) (get_headers k r'))))"

definition put_start :: "u16 \<times> logical_header list \<Rightarrow> bytes option" where
  "put_start st = Some (be_bytes 2 (unat (fst st)) @ put_headers (snd st))"

definition get_start :: "bytes \<Rightarrow> (u16 \<times> logical_header list) option" where
  "get_start b =
     (case get_headers (length b) (drop 2 b) of
        Some (hs, []) \<Rightarrow> Some (of_nat (be_value (take 2 b)), hs)
      | _ \<Rightarrow> None)"

definition get_failure :: "bytes \<Rightarrow> string option" where
  "get_failure b = (case get_str b of Some (s, []) \<Rightarrow> Some s | _ \<Rightarrow> None)"

definition put_kind :: "credential_kind \<Rightarrow> u8" where
  "put_kind k = (case k of Bearer \<Rightarrow> 0 | ApiKey \<Rightarrow> 1 | Resumption \<Rightarrow> 2)"

definition get_kind :: "u8 \<Rightarrow> credential_kind" where
  "get_kind b = (if b = 0 then Bearer else if b = 1 then ApiKey else Resumption)"

definition put_credential :: "credential option \<Rightarrow> bytes" where
  "put_credential c = (case c of None \<Rightarrow> [0] | Some c \<Rightarrow> 1 # put_kind (cred_kind c) # put_str (cred_value c))"

definition get_credential :: "bytes \<Rightarrow> (credential option \<times> bytes) option" where
  "get_credential b =
     (case b of [] \<Rightarrow> None | t # r \<Rightarrow>
        if t = 0 then Some (None, r)
        else case r of [] \<Rightarrow> None | k # r' \<Rightarrow>
          map_option (\<lambda>(s, r''). (Some \<lparr>cred_kind = get_kind k, cred_value = s\<rparr>, r'')) (get_str r'))"

definition put_root :: "string option \<Rightarrow> bytes" where
  "put_root r = (case r of None \<Rightarrow> [0] | Some s \<Rightarrow> 1 # put_str s)"

definition get_root :: "bytes \<Rightarrow> (string option \<times> bytes) option" where
  "get_root b =
     (case b of [] \<Rightarrow> None | t # r \<Rightarrow>
        if t = 0 then Some (None, r) else map_option (\<lambda>(s, r'). (Some s, r')) (get_str r))"

definition put_metadata :: "wire_metadata \<Rightarrow> bytes option" where
  "put_metadata m = Some (wm_version m # (if wm_body_present m then 1 else 0) #
     put_credential (wm_credential m) @ put_root (wm_cache_namespace_root m) @ put_str (wm_method m) @
     put_str (wm_target m) @ put_headers (wm_headers m))"

definition get_metadata :: "bytes \<Rightarrow> wire_metadata option" where
  "get_metadata b =
     (case b of v # p # r \<Rightarrow>
        (case get_credential r of None \<Rightarrow> None | Some (c, r1) \<Rightarrow>
        (case get_root r1 of None \<Rightarrow> None | Some (root, r2) \<Rightarrow>
        (case get_str r2 of None \<Rightarrow> None | Some (m, r3) \<Rightarrow>
        (case get_str r3 of None \<Rightarrow> None | Some (t, r4) \<Rightarrow>
        (case get_headers (length b) r4 of
           Some (hs, []) \<Rightarrow> Some \<lparr>wm_version = v, wm_credential = c, wm_cache_namespace_root = root,
             wm_method = m, wm_target = t, wm_headers = hs, wm_body_present = (p = 1)\<rparr>
         | _ \<Rightarrow> None)))))
      | _ \<Rightarrow> None)"

definition ref_json :: json_ops where
  "ref_json = \<lparr>js_write_metadata = put_metadata, js_read_metadata = get_metadata,
     js_write_start = put_start, js_read_start = get_start,
     js_write_failure = (\<lambda>s. Some (put_str s)), js_read_failure = get_failure\<rparr>"

definition is_ascii_uppercase :: "char \<Rightarrow> bool" where
  "is_ascii_uppercase c \<longleftrightarrow> 65 \<le> (of_char c :: nat) \<and> (of_char c :: nat) \<le> 90"

definition ref_http :: http_ops where
  "ref_http = \<lparr>http_method = (\<lambda>m. if m \<noteq> [] \<and> list_all is_ascii_uppercase m then Some m else None),
     http_uri = (\<lambda>t. Some \<lparr>uri_scheme = None, uri_authority = None, uri_path_and_query = Some t\<rparr>),
     http_header_name = (\<lambda>s. if s \<noteq> [] \<and> list_all (\<lambda>c. is_ascii_lowercase c \<or> c = CHR ''-'') s
                            then Some s else None),
     http_header_value = list_all (\<lambda>c. 32 \<le> (of_char c :: nat) \<and> (of_char c :: nat) < 127),
     http_to_str = Some\<rparr>"

lemma byte_char_byte [simp]: "byte_char (char_byte c) = c"
proof -
  have "(of_char c :: nat) mod 256 = of_char c"
    by simp
  then show ?thesis by (simp add: byte_char_def char_byte_def unat_of_nat)
qed

lemma get_put_str [simp]: "get_str (put_str s @ r) = Some (s, r)"
  by (induction s) simp_all

lemma get_put_headers [simp]:
  "length hs \<le> n \<Longrightarrow> get_headers n (put_headers hs @ r) = Some (hs, r)"
proof (induction hs arbitrary: n)
  case (Cons h hs)
  then obtain k where "n = Suc k" and "length hs \<le> k"
    by (cases n) auto
  with Cons.IH [of k] show ?case by simp
qed simp

lemma length_put_headers: "length hs \<le> length (put_headers hs)"
  by (induction hs) auto

lemma get_put_kind [simp]: "get_kind (put_kind k) = k"
  by (cases k) (simp_all add: get_kind_def put_kind_def)

lemma get_put_credential [simp]: "get_credential (put_credential c @ r) = Some (c, r)"
  by (simp add: get_credential_def put_credential_def split: option.splits)

lemma get_put_root [simp]: "get_root (put_root c @ r) = Some (c, r)"
  by (simp add: get_root_def put_root_def split: option.splits)

lemma get_put_metadata:
  assumes "put_metadata m = Some b" shows "get_metadata b = Some m"
proof -
  have "length (wm_headers m) \<le> length b"
    using assms length_put_headers [of "wm_headers m"] by (auto simp: put_metadata_def)
  then have "get_headers (length b) (put_headers (wm_headers m)) = Some (wm_headers m, [])"
    using get_put_headers [of "wm_headers m" "length b" "[]"] by simp
  with assms show ?thesis
    by (auto simp: put_metadata_def get_metadata_def)
qed

lemma get_put_start:
  assumes "put_start st = Some b" shows "get_start b = Some st"
proof -
  obtain status hs where st: "st = (status, hs)" by (cases st)
  with assms have b: "b = be_bytes 2 (unat status) @ put_headers hs"
    by (simp add: put_start_def)
  then have "length hs \<le> length b"
    using length_put_headers [of hs] by simp
  then have "get_headers (length b) (put_headers hs) = Some (hs, [])"
    using get_put_headers [of hs "length b" "[]"] by simp
  moreover have "drop 2 b = put_headers hs" and "take 2 b = be_bytes 2 (unat status)"
    by (simp_all add: b)
  moreover have "be_value (be_bytes 2 (unat status)) = unat status"
    using unsigned_less [of status, where ?'a = nat] by (simp add: be_value_be_bytes)
  ultimately show ?thesis
    by (simp add: get_start_def st)
qed

lemma get_put_failure: "get_failure (put_str s) = Some s"
  using get_put_str [of s "[]"] by (simp add: get_failure_def)

lemma length_put_str: "length (put_str s) = 2 * length s + 1"
  by (induction s) simp_all

interpretation ref_wire: wire_formats ref_codec ref_json ref_http
  by unfold_locales
     (auto simp: ref_json_def ref_http_def get_put_metadata get_put_start get_put_failure length_put_str
       split: if_splits)

end
