(* ===== verification/Transport_Envelope.thy ===== *)
theory Transport_Envelope
  imports Transport_Crypto Wire_Formats
begin

text \<open>
  The request envelope of the server, \<open>transport_v2/envelope.rs\<close>, with the cache root of
  \<open>provider_cache.rs\<close> in its metadata: validation of credentials, methods, targets, headers and bodies,
  and the encoding as a length-prefixed JSON object followed by the raw body.
\<close>

section \<open>Constants and errors\<close>

definition VERSION :: u8 where
  "VERSION = 2"

definition METADATA_LENGTH_BYTES :: nat where
  "METADATA_LENGTH_BYTES = 4"

definition MAX_METADATA_BYTES :: nat where
  "MAX_METADATA_BYTES = 128 * 1024"

definition MAX_BODY_BYTES :: nat where
  "MAX_BODY_BYTES = 50 * 1024 * 1024"

definition MAX_ENCODED_REQUEST_BYTES :: nat where
  "MAX_ENCODED_REQUEST_BYTES = METADATA_LENGTH_BYTES + MAX_METADATA_BYTES + MAX_BODY_BYTES"

definition MAX_CREDENTIAL_BYTES :: nat where
  "MAX_CREDENTIAL_BYTES = 16 * 1024"

definition MAX_METHOD_BYTES :: nat where
  "MAX_METHOD_BYTES = 32"

definition MAX_TARGET_BYTES :: nat where
  "MAX_TARGET_BYTES = 16 * 1024"

definition MAX_HEADER_COUNT :: nat where
  "MAX_HEADER_COUNT = 64"

datatype envelope_error =
  EnvTruncated | EnvelopeTooLarge | MetadataTooLarge | BodyTooLarge | EnvInvalidMetadata | InvalidVersion
  | BodyPresenceMismatch | InvalidCredential | InvalidMethod | InvalidTarget | EnvTooManyHeaders
  | InvalidHeaderName | InvalidHeaderValue | GatewayControlledHeader

section \<open>Cache roots\<close>

definition CACHE_NAMESPACE_ROOT_BYTES :: nat where
  "CACHE_NAMESPACE_ROOT_BYTES = 32"

definition CACHE_NAMESPACE_ROOT_BASE64_BYTES :: nat where
  "CACHE_NAMESPACE_ROOT_BASE64_BYTES = 44"

definition serialize_root :: "codec_ops \<Rightarrow> bytes \<Rightarrow> string" where
  "serialize_root cod root = b64_encode cod root"

text \<open>The visitor of \<open>Deserialize for CacheNamespaceRoot\<close>; every failure is one serde error.\<close>

definition deserialize_root :: "codec_ops \<Rightarrow> string \<Rightarrow> bytes option" where
  "deserialize_root cod s =
     (if length s \<noteq> CACHE_NAMESPACE_ROOT_BASE64_BYTES then None
      else case b64_decode_slice cod s CACHE_NAMESPACE_ROOT_BYTES of
        None \<Rightarrow> None
      | Some decoded \<Rightarrow>
          if length decoded \<noteq> CACHE_NAMESPACE_ROOT_BYTES then None
          else let canonical = b64_encode cod decoded in
            if length canonical > CACHE_NAMESPACE_ROOT_BASE64_BYTES then None
            else if length canonical \<noteq> length s \<or> canonical \<noteq> s then None
            else Some decoded)"

section \<open>Validation\<close>

definition validate_credential :: "credential \<Rightarrow> envelope_error + unit" where
  "validate_credential c =
     (if cred_value c = [] \<or> length (cred_value c) > MAX_CREDENTIAL_BYTES \<or>
         \<not> list_all (\<lambda>b. 0x21 \<le> (of_char b :: nat) \<and> (of_char b :: nat) \<le> 0x7e) (cred_value c)
      then Inl InvalidCredential else Inr ())"

definition credential_new :: "credential_kind \<Rightarrow> string \<Rightarrow> envelope_error + credential" where
  "credential_new kind v =
     (let c = \<lparr>cred_kind = kind, cred_value = v\<rparr> in
      and_then (validate_credential c) (\<lambda>_. Inr c))"

definition validate_method :: "http_ops \<Rightarrow> string \<Rightarrow> envelope_error + unit" where
  "validate_method http m =
     (if m = [] \<or> length m > MAX_METHOD_BYTES \<or> http_method http m = None
      then Inl InvalidMethod else Inr ())"

definition validate_target :: "http_ops \<Rightarrow> string \<Rightarrow> envelope_error + unit" where
  "validate_target http target =
     (if target = [] \<or> length target > MAX_TARGET_BYTES \<or> take 1 target \<noteq> ''/'' \<or>
         take 2 target = ''//'' \<or> CHR ''#'' \<in> set target \<or> CHR 0x5C \<in> set target
      then Inl InvalidTarget
      else and_then (ok_or InvalidTarget (http_uri http target)) (\<lambda>u.
        if uri_scheme u \<noteq> None \<or> uri_authority u \<noteq> None \<or>
           (case uri_path_and_query u of None \<Rightarrow> True | Some pq \<Rightarrow> pq \<noteq> target)
        then Inl InvalidTarget else Inr ()))"

definition is_gateway_controlled_header :: "string \<Rightarrow> bool" where
  "is_gateway_controlled_header name \<longleftrightarrow>
     name \<in> {''authorization'', ''proxy-authorization'', ''cookie'', ''set-cookie'', ''host'',
       ''content-length'', ''transfer-encoding'', ''connection'', ''keep-alive'', ''te'', ''trailer'',
       ''upgrade'', ''forwarded'', ''via'', ''x-forwarded-for'', ''x-forwarded-host'',
       ''x-forwarded-proto'', ''x-opensecret-routing-key'', ''x-session-id''}"

definition validate_header :: "http_ops \<Rightarrow> logical_header \<Rightarrow> envelope_error + unit" where
  "validate_header http h =
     and_then (ok_or InvalidHeaderName (http_header_name http (lh_name h))) (\<lambda>parsed.
       if parsed \<noteq> lh_name h then Inl InvalidHeaderName
       else if is_gateway_controlled_header parsed then Inl GatewayControlledHeader
       else if \<not> http_header_value http (lh_value h) then Inl InvalidHeaderValue
       else Inr ())"

definition logical_header_new :: "http_ops \<Rightarrow> string \<Rightarrow> string \<Rightarrow> envelope_error + logical_header" where
  "logical_header_new http name v =
     (let h = \<lparr>lh_name = name, lh_value = v\<rparr> in and_then (validate_header http h) (\<lambda>_. Inr h))"

fun validate_each_header :: "http_ops \<Rightarrow> logical_header list \<Rightarrow> envelope_error + unit" where
  "validate_each_header http [] = Inr ()"
| "validate_each_header http (h # hs) =
     and_then (validate_header http h) (\<lambda>_. validate_each_header http hs)"

definition validate_headers :: "http_ops \<Rightarrow> logical_header list \<Rightarrow> envelope_error + unit" where
  "validate_headers http hs =
     (if length hs > MAX_HEADER_COUNT then Inl EnvTooManyHeaders else validate_each_header http hs)"

definition validate_body_len :: "nat \<Rightarrow> envelope_error + unit" where
  "validate_body_len n = (if n > MAX_BODY_BYTES then Inl BodyTooLarge else Inr ())"

section \<open>Envelopes\<close>

record request_envelope =
  env_request_id :: request_id
  env_credential :: "credential option"
  env_cache_namespace_root :: "bytes option"
  env_method :: string
  env_target :: string
  env_headers :: "logical_header list"
  env_body :: "bytes option"

definition body_len :: "bytes option \<Rightarrow> nat" where
  "body_len b = (case b of None \<Rightarrow> 0 | Some bs \<Rightarrow> length bs)"

definition envelope_validate :: "http_ops \<Rightarrow> request_envelope \<Rightarrow> envelope_error + unit" where
  "envelope_validate http self =
     and_then (case env_credential self of None \<Rightarrow> Inr () | Some c \<Rightarrow> validate_credential c) (\<lambda>_.
     and_then (validate_method http (env_method self)) (\<lambda>_.
     and_then (validate_target http (env_target self)) (\<lambda>_.
     and_then (validate_headers http (env_headers self)) (\<lambda>_.
     validate_body_len (body_len (env_body self))))))"

definition envelope_from_parts :: "http_ops \<Rightarrow> request_envelope \<Rightarrow> envelope_error + request_envelope" where
  "envelope_from_parts http envelope = and_then (envelope_validate http envelope) (\<lambda>_. Inr envelope)"

definition envelope_encode ::
    "codec_ops \<Rightarrow> json_ops \<Rightarrow> http_ops \<Rightarrow> request_envelope \<Rightarrow> envelope_error + bytes" where
  "envelope_encode cod js http self =
     and_then (envelope_validate http self) (\<lambda>_.
     let metadata = \<lparr>wm_version = VERSION, wm_credential = env_credential self,
           wm_cache_namespace_root = map_option (serialize_root cod) (env_cache_namespace_root self),
           wm_method = env_method self, wm_target = env_target self, wm_headers = env_headers self,
           wm_body_present = (env_body self \<noteq> None)\<rparr> in
     and_then (ok_or EnvInvalidMetadata (js_write_metadata js metadata)) (\<lambda>encoded_metadata.
     if length encoded_metadata > MAX_METADATA_BYTES then Inl MetadataTooLarge
     else let body = (case env_body self of None \<Rightarrow> [] | Some b \<Rightarrow> b) in
       and_then (validate_body_len (length body)) (\<lambda>_.
       Inr (u32_to_be_bytes (of_nat (length encoded_metadata)) @ encoded_metadata @ body))))"

definition envelope_decode ::
    "codec_ops \<Rightarrow> json_ops \<Rightarrow> http_ops \<Rightarrow> request_id \<Rightarrow> bytes \<Rightarrow> envelope_error + request_envelope" where
  "envelope_decode cod js http rid encoded =
     (if length encoded < METADATA_LENGTH_BYTES then Inl EnvTruncated
      else if length encoded > MAX_ENCODED_REQUEST_BYTES then Inl EnvelopeTooLarge
      else let metadata_len = unat (u32_from_be_bytes (take METADATA_LENGTH_BYTES encoded)) in
        if metadata_len > MAX_METADATA_BYTES then Inl MetadataTooLarge
        else let metadata_end = METADATA_LENGTH_BYTES + metadata_len in
        if metadata_end \<ge> 2 ^ 64 then Inl EnvelopeTooLarge
        else if metadata_end > length encoded then Inl EnvTruncated
        else
        and_then (ok_or EnvInvalidMetadata
            (js_read_metadata js (take metadata_len (drop METADATA_LENGTH_BYTES encoded)))) (\<lambda>metadata.
        and_then (case wm_cache_namespace_root metadata of
              None \<Rightarrow> Inr None
            | Some s \<Rightarrow> ok_or EnvInvalidMetadata (map_option Some (deserialize_root cod s))) (\<lambda>root.
        if wm_version metadata \<noteq> VERSION then Inl InvalidVersion
        else let body_bytes = drop metadata_end encoded in
          and_then (validate_body_len (length body_bytes)) (\<lambda>_.
          and_then (if wm_body_present metadata then Inr (Some body_bytes)
              else if body_bytes = [] then Inr None
              else Inl BodyPresenceMismatch) (\<lambda>body.
          envelope_from_parts http
            \<lparr>env_request_id = rid, env_credential = wm_credential metadata,
             env_cache_namespace_root = root, env_method = wm_method metadata,
             env_target = wm_target metadata, env_headers = wm_headers metadata, env_body = body\<rparr>)))))"

end
