(* ===== verification/Transport_Framing.thy ===== *)
theory Transport_Framing
  imports Transport_Envelope
begin

text \<open>
  Response records and their framing on the server, \<open>transport_v2/framing.rs\<close>: a start record with
  status and headers, chunks, and an end or error record, each a tag byte followed by its payload; a
  sealed record travels behind its length in four bytes.
\<close>

definition MAX_RESPONSE_CHUNK_BYTES :: nat where
  "MAX_RESPONSE_CHUNK_BYTES = 64 * 1024"

definition MAX_RESPONSE_METADATA_BYTES :: nat where
  "MAX_RESPONSE_METADATA_BYTES = 64 * 1024"

definition MAX_RESPONSE_ERROR_CODE_BYTES :: nat where
  "MAX_RESPONSE_ERROR_CODE_BYTES = 64"

definition MAX_RESPONSE_RECORD_PLAINTEXT_BYTES :: nat where
  "MAX_RESPONSE_RECORD_PLAINTEXT_BYTES = 1 + MAX_RESPONSE_CHUNK_BYTES"

definition MAX_RESPONSE_RECORD_CIPHERTEXT_BYTES :: nat where
  "MAX_RESPONSE_RECORD_CIPHERTEXT_BYTES = MAX_RESPONSE_RECORD_PLAINTEXT_BYTES + RECORD_TAG_BYTES"

definition START_TAG :: u8 where
  "START_TAG = 1"

definition CHUNK_TAG :: u8 where
  "CHUNK_TAG = 2"

definition END_TAG :: u8 where
  "END_TAG = 3"

definition ERROR_TAG :: u8 where
  "ERROR_TAG = 4"

definition MAX_RESPONSE_HEADER_COUNT :: nat where
  "MAX_RESPONSE_HEADER_COUNT = 32"

lemmas framing_limits = MAX_RESPONSE_CHUNK_BYTES_def MAX_RESPONSE_METADATA_BYTES_def
  MAX_RESPONSE_ERROR_CODE_BYTES_def MAX_RESPONSE_RECORD_PLAINTEXT_BYTES_def
  MAX_RESPONSE_RECORD_CIPHERTEXT_BYTES_def MAX_RESPONSE_HEADER_COUNT_def

datatype framing_error =
  RecordTooLarge | FrameInvalidMetadata | InvalidStatus | FrameTooManyHeaders
  | InvalidHeader envelope_error | InvalidErrorCode | InvalidCiphertextLength

record response_start =
  rst_status :: u16
  rst_headers :: "logical_header list"

fun revalidate_headers :: "http_ops \<Rightarrow> logical_header list \<Rightarrow> framing_error + unit" where
  "revalidate_headers http [] = Inr ()"
| "revalidate_headers http (h # hs) =
     and_then (map_err InvalidHeader (logical_header_new http (lh_name h) (lh_value h)))
       (\<lambda>_. revalidate_headers http hs)"

definition response_start_validate :: "http_ops \<Rightarrow> response_start \<Rightarrow> framing_error + unit" where
  "response_start_validate http self =
     (if \<not> (200 \<le> rst_status self \<and> rst_status self \<le> 599) then Inl InvalidStatus
      else if length (rst_headers self) > MAX_RESPONSE_HEADER_COUNT then Inl FrameTooManyHeaders
      else revalidate_headers http (rst_headers self))"

definition response_start_new :: "http_ops \<Rightarrow> u16 \<Rightarrow> logical_header list \<Rightarrow> framing_error + response_start" where
  "response_start_new http status headers =
     (let start = \<lparr>rst_status = status, rst_headers = headers\<rparr> in
      and_then (response_start_validate http start) (\<lambda>_. Inr start))"

datatype response_record = RecStart response_start | RecChunk bytes | RecEnd | RecError string

definition error_code_char :: "char \<Rightarrow> bool" where
  "error_code_char c \<longleftrightarrow> is_ascii_lowercase c \<or> is_ascii_digit c \<or> c = CHR ''_''"

definition validate_error_code :: "string \<Rightarrow> framing_error + unit" where
  "validate_error_code code =
     (if code = [] \<or> length code > MAX_RESPONSE_ERROR_CODE_BYTES \<or> \<not> list_all error_code_char code
      then Inl InvalidErrorCode else Inr ())"

definition encode_metadata :: "u8 \<Rightarrow> bytes option \<Rightarrow> framing_error + bytes" where
  "encode_metadata tag written =
     and_then (ok_or FrameInvalidMetadata written) (\<lambda>metadata.
       if length metadata > MAX_RESPONSE_METADATA_BYTES \<or>
          length metadata + 1 > MAX_RESPONSE_RECORD_PLAINTEXT_BYTES
       then Inl RecordTooLarge
       else Inr (tag # metadata))"

definition record_encode :: "json_ops \<Rightarrow> http_ops \<Rightarrow> response_record \<Rightarrow> framing_error + bytes" where
  "record_encode js http self =
     (case self of
        RecStart start \<Rightarrow>
          and_then (response_start_validate http start)
            (\<lambda>_. encode_metadata START_TAG (js_write_start js (rst_status start, rst_headers start)))
      | RecChunk bytes \<Rightarrow>
          if length bytes > MAX_RESPONSE_CHUNK_BYTES then Inl RecordTooLarge
          else Inr (CHUNK_TAG # bytes)
      | RecEnd \<Rightarrow> Inr [END_TAG]
      | RecError code \<Rightarrow>
          and_then (validate_error_code code)
            (\<lambda>_. encode_metadata ERROR_TAG (js_write_failure js code)))"

definition frame_ciphertext :: "bytes \<Rightarrow> framing_error + bytes" where
  "frame_ciphertext ciphertext =
     (if length ciphertext < RECORD_TAG_BYTES \<or> length ciphertext > MAX_RESPONSE_RECORD_CIPHERTEXT_BYTES
      then Inl InvalidCiphertextLength
      else if length ciphertext \<ge> 2 ^ 32 then Inl InvalidCiphertextLength
      else Inr (u32_to_be_bytes (of_nat (length ciphertext)) @ ciphertext))"

lemma logical_header_eta: "\<lparr>lh_name = lh_name h, lh_value = lh_value h\<rparr> = h"
  by (cases h) simp

lemma revalidate_headers_iff:
  "revalidate_headers http hs = Inr () \<longleftrightarrow> list_all (\<lambda>h. validate_header http h = Inr ()) hs"
  by (induction hs) (auto simp: and_then_eq_Inr logical_header_new_def logical_header_eta)

text \<open>Every encoded record fits the plaintext limit of the frame.\<close>

lemma record_encode_length:
  "record_encode js http r = Inr b \<Longrightarrow> 1 \<le> length b \<and> length b \<le> MAX_RESPONSE_RECORD_PLAINTEXT_BYTES"
  by (auto simp: record_encode_def encode_metadata_def and_then_eq_Inr framing_limits
      split: response_record.splits if_splits)

lemma frame_ciphertext_fits:
  assumes "16 \<le> length c" and "length c \<le> MAX_RESPONSE_RECORD_CIPHERTEXT_BYTES"
  shows "frame_ciphertext c = Inr (u32_to_be_bytes (of_nat (length c)) @ c)"
  using assms by (simp add: frame_ciphertext_def framing_limits size_defs)

end
