(* ===== verification/Sdk_Crypto.thy ===== *)
theory Sdk_Crypto
  imports Transport_Crypto
begin

text \<open>
  The client side of the record protection, \<open>sdk/rust/src/transport_v2/crypto.rs\<close>, with the error type
  of \<open>transport_v2/mod.rs\<close>. The SDK has its own copy of the key schedule; the lemmas show that the two
  copies compute the same bytes, and the properties are about a client and a server that talk to each
  other.
\<close>

section \<open>Model\<close>

datatype session_recovery_hint = SessionNotFoundHint | RequestDecryptionFailedHint

datatype transport_v2_error =
  V2InvalidConfiguration | V2RandomnessUnavailable | V2AttestationRejected | V2InvalidSessionResponse
  | V2SessionExpired | V2KeyDerivation | V2NonContributoryKey | V2InvalidRequest | V2Encryption
  | V2Authentication | V2UntrustedOuterResponse | V2SessionRecoveryHint session_recovery_hint | V2Http
  | V2InvalidFrame | V2InvalidRecord | V2InvalidSequence | V2TruncatedResponse | V2PostTerminalData

definition SDK_MIN_REQUEST_RECORD_BYTES :: nat where
  "SDK_MIN_REQUEST_RECORD_BYTES = 16 + 16"

definition SDK_RECORD_TAG_BYTES :: nat where
  "SDK_RECORD_TAG_BYTES = 16"

definition SDK_RECORD_NONCE_BYTES :: nat where
  "SDK_RECORD_NONCE_BYTES = 12"

definition SDK_SESSION_ID_BYTES :: nat where
  "SDK_SESSION_ID_BYTES = 16"

definition SDK_HANDSHAKE_DOMAIN :: bytes where
  "SDK_HANDSHAKE_DOMAIN = ascii ''opensecret/transport-v2/session/v1''"

definition SDK_ATTESTATION_USER_DATA_DOMAIN :: bytes where
  "SDK_ATTESTATION_USER_DATA_DOMAIN = ascii ''opensecret/transport-v2/session/v1/client-public-key''"

definition SDK_REQUEST_KEY_INFO :: bytes where
  "SDK_REQUEST_KEY_INFO = ascii ''opensecret/transport-v2/request-key/v1''"

definition SDK_RESPONSE_KEY_INFO :: bytes where
  "SDK_RESPONSE_KEY_INFO = ascii ''opensecret/transport-v2/response-key/v1''"

definition SDK_SESSION_ID_INFO :: bytes where
  "SDK_SESSION_ID_INFO = ascii ''opensecret/transport-v2/session-id/v1''"

definition SDK_REQUEST_SUBKEY_INFO :: bytes where
  "SDK_REQUEST_SUBKEY_INFO = ascii ''opensecret/transport-v2/request-subkey/v1''"

definition SDK_RESPONSE_SUBKEY_INFO :: bytes where
  "SDK_RESPONSE_SUBKEY_INFO = ascii ''opensecret/transport-v2/response-subkey/v1''"

definition SDK_REQUEST_RECORD_DOMAIN :: bytes where
  "SDK_REQUEST_RECORD_DOMAIN = ascii ''opensecret/transport-v2/request-record/v1''"

definition SDK_RESPONSE_RECORD_DOMAIN :: bytes where
  "SDK_RESPONSE_RECORD_DOMAIN = ascii ''opensecret/transport-v2/response-record/v1''"

definition sdk_session_id_to_string :: "codec_ops \<Rightarrow> session_id \<Rightarrow> string" where
  "sdk_session_id_to_string cod sid = hx_encode cod sid"

definition sdk_session_id_from_str :: "codec_ops \<Rightarrow> string \<Rightarrow> transport_v2_error + session_id" where
  "sdk_session_id_from_str cod encoded =
     (if length encoded \<noteq> SDK_SESSION_ID_BYTES * 2 \<or> \<not> list_all is_lower_hex encoded
      then Inl V2InvalidSessionResponse
      else ok_or V2InvalidSessionResponse (hx_decode cod encoded))"

record sdk_transcript =
  st_challenge :: bytes
  st_client_public_key :: bytes
  st_server_public_key :: bytes

definition sdk_transcript_digest :: "'sk crypto_ops \<Rightarrow> sdk_transcript \<Rightarrow> bytes" where
  "sdk_transcript_digest ops t =
     cr_sha256 ops (SDK_HANDSHAKE_DOMAIN @ [0] @ st_challenge t @ st_client_public_key t @
       st_server_public_key t)"

definition sdk_attestation_user_data :: "bytes \<Rightarrow> bytes" where
  "sdk_attestation_user_data client_public_key =
     SDK_ATTESTATION_USER_DATA_DOMAIN @ [0] @ client_public_key"

record sdk_secrets =
  ss_session_id :: session_id
  ss_request_key :: bytes
  ss_response_key :: bytes

definition sdk_key_info :: "bytes \<Rightarrow> bytes \<Rightarrow> bytes" where
  "sdk_key_info label digest = label @ [0] @ digest"

definition sdk_derive_session_secrets ::
    "'sk crypto_ops \<Rightarrow> bytes \<Rightarrow> sdk_transcript \<Rightarrow> transport_v2_error + sdk_secrets" where
  "sdk_derive_session_secrets ops shared_secret t =
     (if cr_ct_eq ops shared_secret (replicate 32 0) then Inl V2NonContributoryKey
      else let digest = sdk_transcript_digest ops t;
               hkdf = cr_extract ops (st_challenge t) shared_secret in
        and_then (ok_or V2KeyDerivation (cr_expand ops hkdf (sdk_key_info SDK_REQUEST_KEY_INFO digest) 32))
          (\<lambda>request_key.
        and_then (ok_or V2KeyDerivation (cr_expand ops hkdf (sdk_key_info SDK_RESPONSE_KEY_INFO digest) 32))
          (\<lambda>response_key.
        and_then (ok_or V2KeyDerivation
            (cr_expand ops hkdf (sdk_key_info SDK_SESSION_ID_INFO digest) SDK_SESSION_ID_BYTES))
          (\<lambda>session_id.
        Inr \<lparr>ss_session_id = session_id, ss_request_key = request_key,
             ss_response_key = response_key\<rparr>))))"

definition sdk_derive_client_session ::
    "'sk crypto_ops \<Rightarrow> 'sk \<Rightarrow> sdk_transcript \<Rightarrow> transport_v2_error + sdk_secrets" where
  "sdk_derive_client_session ops client_secret t =
     sdk_derive_session_secrets ops (cr_dh ops client_secret (st_server_public_key t)) t"

definition sdk_derive_record_subkey ::
    "'sk crypto_ops \<Rightarrow> bytes \<Rightarrow> bytes \<Rightarrow> session_id \<Rightarrow> request_id \<Rightarrow> transport_v2_error + bytes" where
  "sdk_derive_record_subkey ops base_key label sid rid =
     and_then (ok_or V2KeyDerivation (cr_from_prk ops base_key))
       (\<lambda>hkdf. ok_or V2KeyDerivation (cr_expand ops hkdf (label @ [0] @ sid @ rid) 32))"

definition sdk_request_aad :: "session_id \<Rightarrow> request_id \<Rightarrow> bytes" where
  "sdk_request_aad sid rid = SDK_REQUEST_RECORD_DOMAIN @ [0] @ sid @ rid"

definition sdk_response_aad :: "session_id \<Rightarrow> request_id \<Rightarrow> u64 \<Rightarrow> bytes" where
  "sdk_response_aad sid rid sequence =
     SDK_RESPONSE_RECORD_DOMAIN @ [0] @ sid @ rid @ u64_to_be_bytes sequence"

definition sdk_response_nonce :: "u64 \<Rightarrow> bytes" where
  "sdk_response_nonce sequence =
     take 4 (replicate SDK_RECORD_NONCE_BYTES 0) @ u64_to_be_bytes sequence"

definition sdk_seal ::
    "'sk crypto_ops \<Rightarrow> bytes \<Rightarrow> bytes \<Rightarrow> bytes \<Rightarrow> bytes \<Rightarrow> transport_v2_error + bytes" where
  "sdk_seal ops key aad nonce plaintext = ok_or V2Encryption (cr_encrypt ops key nonce aad plaintext)"

definition sdk_open ::
    "'sk crypto_ops \<Rightarrow> bytes \<Rightarrow> bytes \<Rightarrow> bytes \<Rightarrow> bytes \<Rightarrow> transport_v2_error + bytes" where
  "sdk_open ops key aad nonce rec =
     (if length rec < SDK_RECORD_TAG_BYTES then Inl V2InvalidFrame
      else ok_or V2Authentication (cr_decrypt ops key nonce aad rec))"

definition sdk_encrypt_request ::
    "'sk crypto_ops \<Rightarrow> sdk_secrets \<Rightarrow> request_id \<Rightarrow> bytes \<Rightarrow> transport_v2_error + bytes" where
  "sdk_encrypt_request ops self rid plaintext =
     and_then (sdk_derive_record_subkey ops (ss_request_key self) SDK_REQUEST_SUBKEY_INFO
         (ss_session_id self) rid) (\<lambda>key.
     and_then (sdk_seal ops key (sdk_request_aad (ss_session_id self) rid)
         (replicate SDK_RECORD_NONCE_BYTES 0) plaintext) (\<lambda>ciphertext.
     Inr (rid @ ciphertext)))"

record response_opener =
  ro_session_id :: session_id
  ro_request_id :: request_id
  ro_key :: bytes
  ro_next_sequence :: u64

definition sdk_response_opener ::
    "'sk crypto_ops \<Rightarrow> sdk_secrets \<Rightarrow> request_id \<Rightarrow> transport_v2_error + response_opener" where
  "sdk_response_opener ops self rid =
     and_then (sdk_derive_record_subkey ops (ss_response_key self) SDK_RESPONSE_SUBKEY_INFO
         (ss_session_id self) rid) (\<lambda>key.
     Inr \<lparr>ro_session_id = ss_session_id self, ro_request_id = rid, ro_key = key,
          ro_next_sequence = 0\<rparr>)"

text \<open>
  \<open>ResponseOpener::open_next\<close> opens the record before it advances the sequence number, and leaves the
  opener as it was when the record does not open or the numbers are exhausted.
\<close>

definition open_next ::
    "'sk crypto_ops \<Rightarrow> response_opener \<Rightarrow> bytes \<Rightarrow> (transport_v2_error + bytes) \<times> response_opener" where
  "open_next ops self rec =
     (let sequence = ro_next_sequence self in
      case sdk_open ops (ro_key self)
          (sdk_response_aad (ro_session_id self) (ro_request_id self) sequence)
          (sdk_response_nonce sequence) rec of
        Inl e \<Rightarrow> (Inl e, self)
      | Inr plaintext \<Rightarrow>
          (case u64_checked_add sequence 1 of
             None \<Rightarrow> (Inl V2InvalidSequence, self)
           | Some next_seq \<Rightarrow> (Inr plaintext, self\<lparr>ro_next_sequence := next_seq\<rparr>)))"

section \<open>Both copies agree\<close>

text \<open>The client's view of the server's values, field by field.\<close>

definition sdk_error :: "crypto_error \<Rightarrow> transport_v2_error" where
  "sdk_error e = (case e of NonContributoryKey \<Rightarrow> V2NonContributoryKey | KeyDerivation \<Rightarrow> V2KeyDerivation
     | TruncatedRecord \<Rightarrow> V2InvalidFrame | Encryption \<Rightarrow> V2Encryption
     | Authentication \<Rightarrow> V2Authentication | SequenceExhausted \<Rightarrow> V2InvalidSequence)"

definition sdk_view :: "session_secrets \<Rightarrow> sdk_secrets" where
  "sdk_view s = \<lparr>ss_session_id = sec_session_id s, ss_request_key = sec_request_key s,
     ss_response_key = sec_response_key s\<rparr>"

definition sdk_transcript_of :: "handshake_transcript \<Rightarrow> sdk_transcript" where
  "sdk_transcript_of t = \<lparr>st_challenge = ht_challenge t,
     st_client_public_key = ht_client_public_key t, st_server_public_key = ht_server_public_key t\<rparr>"

definition opener_of :: "resp_sealer \<Rightarrow> response_opener" where
  "opener_of s = \<lparr>ro_session_id = rs_session_id s, ro_request_id = rs_request_id s,
     ro_key = rs_key s, ro_next_sequence = rs_next_sequence s\<rparr>"

definition map_result :: "('e \<Rightarrow> 'f) \<Rightarrow> ('a \<Rightarrow> 'b) \<Rightarrow> 'e + 'a \<Rightarrow> 'f + 'b" where
  "map_result f g r = (case r of Inl e \<Rightarrow> Inl (f e) | Inr x \<Rightarrow> Inr (g x))"

lemma map_result_simps [simp]:
  "map_result f g (Inl e) = Inl (f e)" "map_result f g (Inr x) = Inr (g x)"
  by (simp_all add: map_result_def)

lemma map_result_and_then:
  assumes "\<And>x. h (u x) = map_result f g (k x)"
  shows "and_then (map_result f u r) h = map_result f g (and_then r k)"
  using assms by (cases r) simp_all

lemma map_result_ok_or: "map_result f g (ok_or e x) = ok_or (f e) (map_option g x)"
  by (cases x) simp_all

lemmas sdk_constants = SDK_HANDSHAKE_DOMAIN_def SDK_ATTESTATION_USER_DATA_DOMAIN_def
  SDK_REQUEST_KEY_INFO_def SDK_RESPONSE_KEY_INFO_def SDK_SESSION_ID_INFO_def
  SDK_REQUEST_SUBKEY_INFO_def SDK_RESPONSE_SUBKEY_INFO_def SDK_REQUEST_RECORD_DOMAIN_def
  SDK_RESPONSE_RECORD_DOMAIN_def SDK_SESSION_ID_BYTES_def SDK_RECORD_NONCE_BYTES_def
  SDK_RECORD_TAG_BYTES_def

lemmas server_constants = HANDSHAKE_DOMAIN_def ATTESTATION_USER_DATA_DOMAIN_def
  REQUEST_KEY_INFO_def RESPONSE_KEY_INFO_def SESSION_ID_INFO_def REQUEST_SUBKEY_INFO_def
  RESPONSE_SUBKEY_INFO_def REQUEST_RECORD_DOMAIN_def RESPONSE_RECORD_DOMAIN_def size_defs

lemma sdk_labels [simp]:
  "SDK_REQUEST_SUBKEY_INFO = REQUEST_SUBKEY_INFO" "SDK_RESPONSE_SUBKEY_INFO = RESPONSE_SUBKEY_INFO"
  "SDK_REQUEST_KEY_INFO = REQUEST_KEY_INFO" "SDK_RESPONSE_KEY_INFO = RESPONSE_KEY_INFO"
  "SDK_SESSION_ID_INFO = SESSION_ID_INFO" "SDK_RECORD_NONCE_BYTES = RECORD_NONCE_BYTES"
  "SDK_SESSION_ID_BYTES = SESSION_ID_BYTES" "SDK_RECORD_TAG_BYTES = RECORD_TAG_BYTES"
  by (simp_all add: sdk_constants server_constants)

lemma sdk_data [simp]:
  "sdk_request_aad = request_aad" "sdk_response_aad = response_aad" "sdk_response_nonce = response_nonce"
  "sdk_key_info = key_info" "sdk_attestation_user_data = attestation_user_data"
  by (simp_all add: fun_eq_iff sdk_request_aad_def request_aad_def sdk_response_aad_def response_aad_def
      sdk_response_nonce_def response_nonce_def sdk_key_info_def key_info_def
      sdk_attestation_user_data_def attestation_user_data_def sdk_constants server_constants)

lemma sdk_derive_record_subkey_eq [simp]:
  "sdk_derive_record_subkey ops k l sid rid = map_result sdk_error id (derive_record_subkey ops k l sid rid)"
  by (cases "cr_from_prk ops k")
     (simp_all add: sdk_derive_record_subkey_def derive_record_subkey_def map_result_ok_or sdk_error_def
       option.map_id)

lemma sdk_seal_eq [simp]:
  "sdk_seal ops k a n m = map_result sdk_error id (seal_detached_nonce ops k a n m)"
  by (simp add: sdk_seal_def seal_detached_nonce_def map_result_ok_or sdk_error_def option.map_id)

lemma sdk_open_eq [simp]:
  "sdk_open ops k a n m = map_result sdk_error id (open_detached_nonce ops k a n m)"
  by (simp add: sdk_open_def open_detached_nonce_def map_result_ok_or sdk_error_def option.map_id)

lemma sdk_encrypt_request_eq:
  "sdk_encrypt_request ops (sdk_view s) rid m = map_result sdk_error id (encrypt_request ops s rid m)"
  unfolding sdk_encrypt_request_def encrypt_request_def
  by (simp add: sdk_view_def) (rule map_result_and_then, simp, rule map_result_and_then, simp)

lemma sdk_response_opener_eq:
  "sdk_response_opener ops (sdk_view s) rid = map_result sdk_error opener_of (response_sealer ops s rid)"
  unfolding sdk_response_opener_def response_sealer_def
  by (simp add: sdk_view_def) (rule map_result_and_then, simp add: opener_of_def)

lemma sdk_transcript_digest_eq:
  "sdk_transcript_digest ops (sdk_transcript_of t) = transcript_digest ops t"
  by (simp add: sdk_transcript_digest_def transcript_digest_def sdk_transcript_of_def
      sdk_constants server_constants)

lemma sdk_derive_session_secrets_eq:
  "sdk_derive_session_secrets ops shared (sdk_transcript_of t) =
     map_result sdk_error sdk_view (derive_session_secrets ops shared t)"
proof (cases "cr_ct_eq ops shared (replicate 32 0)")
  case True
  then show ?thesis
    by (simp add: sdk_derive_session_secrets_def derive_session_secrets_def sdk_error_def)
next
  case False
  have ok: "ok_or V2KeyDerivation x = map_result sdk_error id (ok_or KeyDerivation x)"
    for x :: "bytes option"
    by (simp add: map_result_ok_or sdk_error_def option.map_id)
  have ch: "st_challenge (sdk_transcript_of t) = ht_challenge t"
    by (simp add: sdk_transcript_of_def)
  show ?thesis
    unfolding sdk_derive_session_secrets_def derive_session_secrets_def Let_def
      sdk_transcript_digest_eq sdk_data sdk_labels ok ch
    by (simp only: False if_False, (rule map_result_and_then, simp only: id_apply)+)
       (simp add: sdk_view_def)
qed

section \<open>The record channel\<close>

text \<open>
  What a response stream needs of its two ends: a sealer that hands out records, an opener that reads
  them, and the opener in step with each sealer. A run of sealed records then opens to the plaintexts in
  order, and the two ends stay in step.
\<close>

locale record_channel =
  fixes seal :: "'s \<Rightarrow> bytes \<Rightarrow> ('e + bytes) \<times> 's"
    and unseal :: "'o \<Rightarrow> bytes \<Rightarrow> ('f + bytes) \<times> 'o"
    and peer :: "'s \<Rightarrow> 'o"
  assumes unseal_sealed: "seal s m = (Inr c, s') \<Longrightarrow> unseal (peer s) c = (Inr m, peer s')"
    and unseal_authentic: "unseal (peer s) c = (Inr m, o') \<Longrightarrow> \<exists>s'. seal s m = (Inr c, s') \<and> o' = peer s'"
begin

fun seals :: "'s \<Rightarrow> bytes list \<Rightarrow> (bytes list \<times> 's) option" where
  "seals s [] = Some ([], s)"
| "seals s (m # ms) =
     (case seal s m of
        (Inl e, s') \<Rightarrow> None
      | (Inr c, s') \<Rightarrow> (case seals s' ms of None \<Rightarrow> None | Some (cs, s'') \<Rightarrow> Some (c # cs, s'')))"

fun unseals :: "'o \<Rightarrow> bytes list \<Rightarrow> (bytes list \<times> 'o) option" where
  "unseals st [] = Some ([], st)"
| "unseals st (c # cs) =
     (case unseal st c of
        (Inl e, st') \<Rightarrow> None
      | (Inr m, st') \<Rightarrow> (case unseals st' cs of None \<Rightarrow> None | Some (ms, st'') \<Rightarrow> Some (m # ms, st'')))"

lemma unseals_seals: "seals s ms = Some (cs, s') \<Longrightarrow> unseals (peer s) cs = Some (ms, peer s')"
proof (induction ms arbitrary: s cs s')
  case (Cons m ms)
  then obtain c s1 cs' where "seal s m = (Inr c, s1)" and "seals s1 ms = Some (cs', s')" and "cs = c # cs'"
    by (auto split: prod.splits sum.splits option.splits)
  with Cons.IH [of s1 cs' s'] show ?case
    by (simp add: unseal_sealed)
qed simp

lemma seals_snoc:
  "seals s ms = Some (cs, s1) \<Longrightarrow> seal s1 m = (Inr c, s2) \<Longrightarrow> seals s (ms @ [m]) = Some (cs @ [c], s2)"
  by (induction ms arbitrary: s cs) (auto split: prod.splits sum.splits option.splits)

text \<open>A list of records that opens is the sealing of what it opens to: no record is replaced or moved.\<close>

lemma unseals_authentic:
  "unseals (peer s) cs = Some (ms, st) \<Longrightarrow> \<exists>s'. seals s ms = Some (cs, s') \<and> st = peer s'"
proof (induction cs arbitrary: s ms)
  case (Cons c cs)
  then obtain m st1 ms' where open1: "unseal (peer s) c = (Inr m, st1)"
      and rest: "unseals st1 cs = Some (ms', st)" and ms: "ms = m # ms'"
    by (auto split: prod.splits sum.splits option.splits)
  from unseal_authentic [OF open1] obtain s1 where s1: "seal s m = (Inr c, s1)" "st1 = peer s1"
    by blast
  with Cons.IH [of s1 ms'] rest obtain s' where "seals s1 ms' = Some (cs, s')" and "st = peer s'"
    by auto
  with s1 ms show ?case by auto
qed auto

end

lemma opener_of_simps [simp]:
  "ro_session_id (opener_of s) = rs_session_id s" "ro_request_id (opener_of s) = rs_request_id s"
  "ro_key (opener_of s) = rs_key s" "ro_next_sequence (opener_of s) = rs_next_sequence s"
  by (simp_all add: opener_of_def)

lemma opener_of_advance:
  "(opener_of s)\<lparr>ro_next_sequence := q\<rparr> = opener_of (s\<lparr>rs_next_sequence := q\<rparr>)"
  by (simp add: opener_of_def)

text \<open>The server's sealer and the client's opener are such a channel.\<close>

sublocale crypto_primitives \<subseteq> chan: record_channel "seal_next ops" "open_next ops" opener_of
proof
  fix s m c s'
  assume "seal_next ops s m = (Inr c, s')"
  then have "u64_checked_add (rs_next_sequence s) 1 = Some (rs_next_sequence s + 1)"
      and "s' = s\<lparr>rs_next_sequence := rs_next_sequence s + 1\<rparr>"
      and "open_detached_nonce ops (rs_key s)
        (response_aad (rs_session_id s) (rs_request_id s) (rs_next_sequence s))
        (response_nonce (rs_next_sequence s)) c = Inr m"
    by (auto simp: seal_next_cases open_sealed u64_checked_add_def split: if_splits)
  then show "open_next ops (opener_of s) c = (Inr m, opener_of s')"
    by (simp add: open_next_def Let_def opener_of_advance)
next
  fix s c m st
  assume "open_next ops (opener_of s) c = (Inr m, st)"
  then show "\<exists>s'. seal_next ops s m = (Inr c, s') \<and> st = opener_of s'"
    by (auto simp: open_next_def Let_def opener_of_advance u64_checked_add_def seal_next_cases
        open_sealed map_result_def split: sum.splits option.splits if_splits)
qed

section \<open>Properties\<close>

text \<open>
  Both sides derive the same session from one transcript; they succeed exactly when the shared secret is
  not all zero.
\<close>

lemma derivations_agree:
  assumes "crypto_primitives ops"
    and "ht_client_public_key t = cr_public ops client_secret"
    and "ht_server_public_key t = cr_public ops server_secret"
  shows "sdk_derive_client_session ops client_secret (sdk_transcript_of t) =
      map_result sdk_error sdk_view (derive_server_session ops server_secret t) \<and>
    (if cr_dh ops server_secret (cr_public ops client_secret) = replicate 32 0
     then derive_server_session ops server_secret t = Inl NonContributoryKey
     else \<exists>s. derive_server_session ops server_secret t = Inr s \<and> secrets_ok s)"
proof -
  let ?dh = "cr_dh ops server_secret (cr_public ops client_secret)"
  have dh: "cr_dh ops client_secret (cr_public ops server_secret) = ?dh"
    using crypto_primitives.dh_commutes [OF assms(1)] by blast
  have server: "derive_server_session ops server_secret t = derive_session_secrets ops ?dh t"
    by (simp add: derive_server_session_def assms(2))
  have "st_server_public_key (sdk_transcript_of t) = cr_public ops server_secret"
    by (simp add: sdk_transcript_of_def assms(3))
  then have "sdk_derive_client_session ops client_secret (sdk_transcript_of t) =
      map_result sdk_error sdk_view (derive_session_secrets ops ?dh t)"
    by (simp add: sdk_derive_client_session_def dh sdk_derive_session_secrets_eq)
  moreover have "if ?dh = replicate 32 0 then derive_session_secrets ops ?dh t = Inl NonContributoryKey
      else \<exists>s. derive_session_secrets ops ?dh t = Inr s \<and> secrets_ok s"
    by (rule crypto_primitives.derive_session_secrets_cases [OF assms(1), of ?dh t]) simp_all
  ultimately show ?thesis
    unfolding server by blast
qed

definition ref_transcript :: handshake_transcript where
  "ref_transcript = \<lparr>ht_challenge = replicate 32 5, ht_client_public_key = cr_public ref_ops 3,
     ht_server_public_key = cr_public ref_ops 2\<rparr>"

lemma ref_shared_secret: "cr_dh ref_ops 2 (cr_public ref_ops 3) \<noteq> replicate 32 0"
proof -
  have "cr_dh ref_ops 2 (cr_public ref_ops 3) = be_bytes 32 729"
    by (simp add: ref_ops_def be_value_be_bytes ref_prime_def)
  then have "be_value (cr_dh ref_ops 2 (cr_public ref_ops 3)) = 729"
    by (simp add: be_value_be_bytes)
  moreover have "be_value (replicate 32 0) = 0"
    by (simp add: be_value_def eval_nat_numeral)
  ultimately show ?thesis by auto
qed


definition ref_secrets :: session_secrets where
  "ref_secrets = \<lparr>sec_session_id = replicate 16 7, sec_request_key = replicate 32 1,
     sec_response_key = replicate 32 2\<rparr>"


end
