(* ===== verification/Sdk_Envelope.thy ===== *)
theory Sdk_Envelope
  imports Transport_Envelope Sdk_Crypto
begin

text \<open>
  The client's logical request, \<open>sdk/rust/src/transport_v2/envelope.rs\<close>, and its encoding. The
  properties connect it to the server's decoder: what the client encodes the server decodes to the same
  request, and every envelope the server accepts satisfies the limits of the protocol.
\<close>

section \<open>Model\<close>

definition SDK_VERSION :: u8 where
  "SDK_VERSION = 2"

definition SDK_METADATA_LENGTH_BYTES :: nat where
  "SDK_METADATA_LENGTH_BYTES = 4"

definition SDK_MAX_METADATA_BYTES :: nat where
  "SDK_MAX_METADATA_BYTES = 128 * 1024"

definition SDK_MAX_BODY_BYTES :: nat where
  "SDK_MAX_BODY_BYTES = 50 * 1024 * 1024"

definition SDK_MAX_CREDENTIAL_BYTES :: nat where
  "SDK_MAX_CREDENTIAL_BYTES = 16 * 1024"

definition SDK_MAX_METHOD_BYTES :: nat where
  "SDK_MAX_METHOD_BYTES = 32"

definition SDK_MAX_TARGET_BYTES :: nat where
  "SDK_MAX_TARGET_BYTES = 16 * 1024"

definition SDK_MAX_HEADER_COUNT :: nat where
  "SDK_MAX_HEADER_COUNT = 64"

definition SDK_ROUTING_KEY_HEADER :: string where
  "SDK_ROUTING_KEY_HEADER = ''x-opensecret-routing-key''"

definition sdk_credential_new :: "credential_kind \<Rightarrow> string \<Rightarrow> transport_v2_error + credential" where
  "sdk_credential_new kind v =
     (if v = [] \<or> length v > SDK_MAX_CREDENTIAL_BYTES \<or>
         \<not> list_all (\<lambda>b. 0x21 \<le> (of_char b :: nat) \<and> (of_char b :: nat) \<le> 0x7e) v
      then Inl V2InvalidRequest else Inr \<lparr>cred_kind = kind, cred_value = v\<rparr>)"

definition sdk_serialize_root :: "codec_ops \<Rightarrow> bytes \<Rightarrow> string" where
  "sdk_serialize_root cod root = b64_encode cod root"

definition sdk_validate_target :: "http_ops \<Rightarrow> string \<Rightarrow> transport_v2_error + unit" where
  "sdk_validate_target http target =
     (if target = [] \<or> length target > SDK_MAX_TARGET_BYTES \<or> take 1 target \<noteq> ''/'' \<or>
         take 2 target = ''//'' \<or> CHR ''#'' \<in> set target \<or> CHR 0x5C \<in> set target
      then Inl V2InvalidRequest
      else and_then (ok_or V2InvalidRequest (http_uri http target)) (\<lambda>u.
        if uri_scheme u \<noteq> None \<or> uri_authority u \<noteq> None \<or>
           (case uri_path_and_query u of None \<Rightarrow> True | Some pq \<Rightarrow> pq \<noteq> target)
        then Inl V2InvalidRequest else Inr ()))"

definition sdk_is_gateway_controlled_header :: "string \<Rightarrow> bool" where
  "sdk_is_gateway_controlled_header name \<longleftrightarrow>
     name \<in> {''authorization'', ''proxy-authorization'', ''cookie'', ''set-cookie'', ''host'',
       ''content-length'', ''transfer-encoding'', ''connection'', ''keep-alive'', ''te'', ''trailer'',
       ''upgrade'', ''forwarded'', ''via'', ''x-forwarded-for'', ''x-forwarded-host'',
       ''x-forwarded-proto'', ''x-session-id'', SDK_ROUTING_KEY_HEADER}"

definition sdk_validate_header :: "http_ops \<Rightarrow> logical_header \<Rightarrow> transport_v2_error + unit" where
  "sdk_validate_header http h =
     and_then (ok_or V2InvalidRequest (http_header_name http (lh_name h))) (\<lambda>parsed.
       if parsed \<noteq> lh_name h \<or> sdk_is_gateway_controlled_header parsed then Inl V2InvalidRequest
       else if \<not> http_header_value http (lh_value h) then Inl V2InvalidRequest
       else Inr ())"

definition sdk_logical_header_new ::
    "http_ops \<Rightarrow> string \<Rightarrow> string \<Rightarrow> transport_v2_error + logical_header" where
  "sdk_logical_header_new http name v =
     (let h = \<lparr>lh_name = name, lh_value = v\<rparr> in and_then (sdk_validate_header http h) (\<lambda>_. Inr h))"

fun sdk_validate_each_header :: "http_ops \<Rightarrow> logical_header list \<Rightarrow> transport_v2_error + unit" where
  "sdk_validate_each_header http [] = Inr ()"
| "sdk_validate_each_header http (h # hs) =
     and_then (sdk_validate_header http h) (\<lambda>_. sdk_validate_each_header http hs)"

definition sdk_validate_headers :: "http_ops \<Rightarrow> logical_header list \<Rightarrow> transport_v2_error + unit" where
  "sdk_validate_headers http hs =
     (if length hs > SDK_MAX_HEADER_COUNT then Inl V2InvalidRequest
      else sdk_validate_each_header http hs)"

record logical_request =
  lr_credential :: "credential option"
  lr_cache_namespace_root :: "bytes option"
  lr_method :: string
  lr_target :: string
  lr_headers :: "logical_header list"
  lr_body :: "bytes option"

definition sdk_validate :: "http_ops \<Rightarrow> logical_request \<Rightarrow> transport_v2_error + unit" where
  "sdk_validate http self =
     (if length (lr_method self) > SDK_MAX_METHOD_BYTES then Inl V2InvalidRequest
      else and_then (sdk_validate_target http (lr_target self)) (\<lambda>_.
        and_then (sdk_validate_headers http (lr_headers self)) (\<lambda>_.
        if body_len (lr_body self) > SDK_MAX_BODY_BYTES then Inl V2InvalidRequest else Inr ())))"

definition logical_request_new :: "http_ops \<Rightarrow> logical_request \<Rightarrow> transport_v2_error + logical_request" where
  "logical_request_new http request = and_then (sdk_validate http request) (\<lambda>_. Inr request)"

definition sdk_encode ::
    "codec_ops \<Rightarrow> json_ops \<Rightarrow> http_ops \<Rightarrow> logical_request \<Rightarrow> transport_v2_error + bytes" where
  "sdk_encode cod js http self =
     and_then (sdk_validate http self) (\<lambda>_.
     let metadata = \<lparr>wm_version = SDK_VERSION, wm_credential = lr_credential self,
           wm_cache_namespace_root = map_option (sdk_serialize_root cod) (lr_cache_namespace_root self),
           wm_method = lr_method self, wm_target = lr_target self, wm_headers = lr_headers self,
           wm_body_present = (lr_body self \<noteq> None)\<rparr> in
     and_then (ok_or V2InvalidRequest (js_write_metadata js metadata)) (\<lambda>encoded_metadata.
     if length encoded_metadata > SDK_MAX_METADATA_BYTES then Inl V2InvalidRequest
     else let body = (case lr_body self of None \<Rightarrow> [] | Some b \<Rightarrow> b) in
       Inr (u32_to_be_bytes (of_nat (length encoded_metadata)) @ encoded_metadata @ body)))"

section \<open>The two validations\<close>

lemmas limit_defs = MAX_METADATA_BYTES_def MAX_BODY_BYTES_def MAX_CREDENTIAL_BYTES_def
  MAX_METHOD_BYTES_def MAX_TARGET_BYTES_def MAX_HEADER_COUNT_def METADATA_LENGTH_BYTES_def VERSION_def

lemmas sdk_limit_defs = SDK_MAX_METADATA_BYTES_def SDK_MAX_BODY_BYTES_def SDK_MAX_CREDENTIAL_BYTES_def
  SDK_MAX_METHOD_BYTES_def SDK_MAX_TARGET_BYTES_def SDK_MAX_HEADER_COUNT_def
  SDK_METADATA_LENGTH_BYTES_def SDK_VERSION_def

lemma sdk_credential_new_valid:
  "sdk_credential_new k v = Inr c \<Longrightarrow> validate_credential c = Inr ()"
  by (auto simp: sdk_credential_new_def validate_credential_def limit_defs sdk_limit_defs split: if_splits)

lemma sdk_validate_target_iff: "sdk_validate_target http t = Inr () \<longleftrightarrow> validate_target http t = Inr ()"
  by (auto simp: sdk_validate_target_def validate_target_def limit_defs sdk_limit_defs and_then_eq_Inr)

lemma sdk_gateway_headers: "sdk_is_gateway_controlled_header = is_gateway_controlled_header"
  by (rule ext) (simp add: sdk_is_gateway_controlled_header_def is_gateway_controlled_header_def
      SDK_ROUTING_KEY_HEADER_def disj_ac)

lemma sdk_validate_header_iff: "sdk_validate_header http h = Inr () \<longleftrightarrow> validate_header http h = Inr ()"
  by (auto simp: sdk_validate_header_def validate_header_def sdk_gateway_headers and_then_eq_Inr)

lemma sdk_validate_headers_iff:
  "sdk_validate_headers http hs = Inr () \<longleftrightarrow> validate_headers http hs = Inr ()"
proof -
  have "sdk_validate_each_header http hs = Inr () \<longleftrightarrow> validate_each_header http hs = Inr ()"
    by (induction hs) (auto simp: and_then_eq_Inr sdk_validate_header_iff)
  then show ?thesis
    by (auto simp: sdk_validate_headers_def validate_headers_def limit_defs sdk_limit_defs)
qed

lemma validate_each_header_iff:
  "validate_each_header http hs = Inr () \<longleftrightarrow> list_all (\<lambda>h. validate_header http h = Inr ()) hs"
  by (induction hs) (auto simp: and_then_eq_Inr)

text \<open>What validation of an envelope means, limit by limit.\<close>

lemma envelope_validate_iff:
  "envelope_validate http e = Inr () \<longleftrightarrow>
     pred_option (\<lambda>c. validate_credential c = Inr ()) (env_credential e) \<and>
     validate_method http (env_method e) = Inr () \<and> validate_target http (env_target e) = Inr () \<and>
     validate_headers http (env_headers e) = Inr () \<and> body_len (env_body e) \<le> MAX_BODY_BYTES"
  by (auto simp: envelope_validate_def and_then_eq_Inr validate_body_len_def split: option.splits)

section \<open>The server decodes what was encoded\<close>

text \<open>
  The layout both encoders produce: the length of the metadata in four bytes, the metadata and the body.
  The decoder cuts it at the same places.
\<close>

context wire_formats
begin

lemma deserialize_serialize_root:
  "length root = 32 \<Longrightarrow> deserialize_root cod (b64_encode cod root) = Some root"
  using b64_encode_length [of root] b64_decode_slice_encode [of root 32]
  by (simp add: deserialize_root_def CACHE_NAMESPACE_ROOT_BYTES_def CACHE_NAMESPACE_ROOT_BASE64_BYTES_def)

lemma decode_layout:
  fixes wm :: wire_metadata
  assumes meta: "js_write_metadata js wm = Some m" and fits: "length m \<le> MAX_METADATA_BYTES"
    and version: "wm_version wm = VERSION"
    and root: "wm_cache_namespace_root wm = map_option (b64_encode cod) root"
    and root_len: "pred_option (\<lambda>r. length r = 32) root"
    and present: "wm_body_present wm = (body \<noteq> None)"
    and body: "body_len body \<le> MAX_BODY_BYTES"
  shows "envelope_decode cod js http rid
      (u32_to_be_bytes (of_nat (length m)) @ m @ (case body of None \<Rightarrow> [] | Some b \<Rightarrow> b)) =
    envelope_from_parts http \<lparr>env_request_id = rid, env_credential = wm_credential wm,
      env_cache_namespace_root = root, env_method = wm_method wm, env_target = wm_target wm,
      env_headers = wm_headers wm, env_body = body\<rparr>"
proof -
  define tail where "tail = (case body of None \<Rightarrow> [] | Some b \<Rightarrow> b)"
  have tail: "length tail \<le> MAX_BODY_BYTES"
    using body by (simp add: tail_def body_len_def split: option.splits)
  have "length m < 2 ^ 32"
    using fits by (simp add: limit_defs)
  then have len: "unat (of_nat (length m) :: u32) = length m"
    by (simp add: unat_of_nat)
  have roots: "(case wm_cache_namespace_root wm of None \<Rightarrow> Inr None
      | Some s \<Rightarrow> ok_or EnvInvalidMetadata (map_option Some (deserialize_root cod s))) = Inr root"
    using root_len by (cases root) (simp_all add: root deserialize_serialize_root)
  show ?thesis
    unfolding envelope_decode_def tail_def [symmetric]
    using fits tail read_metadata [OF meta]
    by (simp add: len roots version present validate_body_len_def Let_def
        MAX_ENCODED_REQUEST_BYTES_def limit_defs cong: if_cong)
       (auto simp: tail_def split: option.splits)
qed

end

definition envelope_of :: "request_id \<Rightarrow> logical_request \<Rightarrow> request_envelope" where
  "envelope_of rid r = \<lparr>env_request_id = rid, env_credential = lr_credential r,
     env_cache_namespace_root = lr_cache_namespace_root r, env_method = lr_method r,
     env_target = lr_target r, env_headers = lr_headers r, env_body = lr_body r\<rparr>"

definition client_built :: "http_ops \<Rightarrow> logical_request \<Rightarrow> bool" where
  "client_built http r \<longleftrightarrow>
     pred_option (\<lambda>c. sdk_credential_new (cred_kind c) (cred_value c) = Inr c) (lr_credential r) \<and>
     pred_option (\<lambda>root. length root = 32) (lr_cache_namespace_root r) \<and>
     http_method http (lr_method r) = Some (lr_method r)"

lemma decode_sdk_encode:
  assumes "wire_formats cod js http" and "client_built http r"
    and "sdk_encode cod js http r = Inr encoded"
  shows "envelope_decode cod js http rid encoded = Inr (envelope_of rid r)"
proof -
  let ?wm = "\<lparr>wm_version = VERSION, wm_credential = lr_credential r,
    wm_cache_namespace_root = map_option (b64_encode cod) (lr_cache_namespace_root r),
    wm_method = lr_method r, wm_target = lr_target r, wm_headers = lr_headers r,
    wm_body_present = (lr_body r \<noteq> None)\<rparr>"
  have root: "sdk_serialize_root cod = b64_encode cod" and v: "SDK_VERSION = VERSION"
    by (rule ext, simp add: sdk_serialize_root_def) (simp add: limit_defs sdk_limit_defs)
  from assms(3) obtain m where valid: "sdk_validate http r = Inr ()"
      and m: "js_write_metadata js ?wm = Some m" and fits: "length m \<le> MAX_METADATA_BYTES"
      and enc: "encoded = u32_to_be_bytes (of_nat (length m)) @ m @ (case lr_body r of None \<Rightarrow> [] | Some b \<Rightarrow> b)"
    by (auto simp: sdk_encode_def and_then_eq_Inr root v Let_def limit_defs sdk_limit_defs split: if_splits)
  from valid have valid': "validate_target http (lr_target r) = Inr ()"
      "validate_headers http (lr_headers r) = Inr ()" "body_len (lr_body r) \<le> MAX_BODY_BYTES"
      "length (lr_method r) \<le> MAX_METHOD_BYTES"
    by (auto simp: sdk_validate_def and_then_eq_Inr sdk_validate_target_iff sdk_validate_headers_iff
        limit_defs sdk_limit_defs split: if_splits)
  have "lr_method r \<noteq> []"
    using wire_formats.method_parsed [OF assms(1)] assms(2) by (auto simp: client_built_def)
  then have "validate_method http (lr_method r) = Inr ()"
    using valid'(4) assms(2) by (simp add: validate_method_def client_built_def)
  moreover have "pred_option (\<lambda>c. validate_credential c = Inr ()) (lr_credential r)"
    using assms(2) sdk_credential_new_valid by (auto simp: client_built_def option.pred_set)
  ultimately have "envelope_validate http (envelope_of rid r) = Inr ()"
    using valid' by (simp add: envelope_validate_iff envelope_of_def)
  moreover have "envelope_decode cod js http rid encoded = envelope_from_parts http (envelope_of rid r)"
    unfolding enc envelope_of_def
    using wire_formats.decode_layout [OF assms(1) m fits, where root = "lr_cache_namespace_root r"
        and body = "lr_body r" and rid = rid] assms(2) valid'(3)
    by (simp add: client_built_def)
  ultimately show ?thesis
    by (simp add: envelope_from_parts_def)
qed

section \<open>Properties\<close>

definition ref_request :: logical_request where
  "ref_request = \<lparr>lr_credential = Some \<lparr>cred_kind = ApiKey, cred_value = ''k1''\<rparr>,
     lr_cache_namespace_root = Some (replicate 32 4), lr_method = ''POST'', lr_target = ''/v1'',
     lr_headers = [\<lparr>lh_name = ''accept'', lh_value = ''x''\<rparr>], lr_body = Some []\<rparr>"

lemma ref_request_built: "client_built ref_http ref_request"
  by (simp add: client_built_def ref_request_def sdk_credential_new_def sdk_limit_defs ref_http_def
      is_ascii_uppercase_def)

lemma ref_request_valid: "sdk_validate ref_http ref_request = Inr ()"
  by (simp add: sdk_validate_def ref_request_def sdk_limit_defs sdk_validate_target_def ref_http_def
      sdk_validate_headers_def sdk_validate_header_def sdk_is_gateway_controlled_header_def
      SDK_ROUTING_KEY_HEADER_def body_len_def is_ascii_lowercase_def)

lemma ref_request_encodes: "\<exists>encoded. sdk_encode ref_codec ref_json ref_http ref_request = Inr encoded"
proof -
  have enc: "b64_encode ref_codec (replicate 32 4) = ref_b64_encode (replicate 32 4)"
    by (simp add: ref_codec_def)
  have str: "length (put_str s) = 2 * length s + 1" for s
    by (induction s) simp_all
  show ?thesis
    unfolding sdk_encode_def ref_request_valid
    by (simp add: ref_json_def put_metadata_def put_credential_def put_root_def ref_request_def Let_def
        sdk_serialize_root_def enc str ref_b64_encode_length sdk_limit_defs)
qed

text \<open>
  C30: requests survive the encoding. Let the client build a request from a credential that its
  constructor accepted, a parsed method name and a thirty-two-byte cache root. If the client's encoder
  returns bytes, the server decodes them, under any request identifier, to an envelope with the same
  credential, cache root, method, target, headers and body, an empty body and no body kept apart: the
  server never refuses a request that its own client accepts.
\<close>

theorem request_encoding_round_trip:
  assumes "wire_formats cod js http" and "client_built http r"
    and "sdk_encode cod js http r = Inr encoded"
  shows "envelope_decode cod js http rid encoded = Inr (envelope_of rid r)"
  using assms by (rule decode_sdk_encode)

theorem request_encoding_round_trip_witness:
  "\<exists>encoded. sdk_encode ref_codec ref_json ref_http ref_request = Inr encoded \<and>
     envelope_decode ref_codec ref_json ref_http (replicate 16 9) encoded =
       Inr (envelope_of (replicate 16 9) ref_request)"
  using ref_request_encodes
    request_encoding_round_trip [OF ref_wire.wire_formats_axioms ref_request_built]
  by blast

text \<open>What the limits of the wire format say about an envelope.\<close>

definition envelope_ok :: "http_ops \<Rightarrow> request_envelope \<Rightarrow> bool" where
  "envelope_ok http e \<longleftrightarrow>
     pred_option (\<lambda>c. cred_value c \<noteq> [] \<and> length (cred_value c) \<le> 16 * 1024 \<and>
       list_all (\<lambda>b. 0x21 \<le> (of_char b :: nat) \<and> (of_char b :: nat) \<le> 0x7e) (cred_value c)) (env_credential e) \<and>
     env_method e \<noteq> [] \<and> length (env_method e) \<le> 32 \<and> http_method http (env_method e) \<noteq> None \<and>
     length (env_target e) \<le> 16 * 1024 \<and> take 1 (env_target e) = ''/'' \<and> take 2 (env_target e) \<noteq> ''//'' \<and>
     CHR ''#'' \<notin> set (env_target e) \<and> CHR 0x5C \<notin> set (env_target e) \<and>
     http_uri http (env_target e) =
       Some \<lparr>uri_scheme = None, uri_authority = None, uri_path_and_query = Some (env_target e)\<rparr> \<and>
     length (env_headers e) \<le> 64 \<and>
     list_all (\<lambda>h. http_header_name http (lh_name h) = Some (lh_name h) \<and>
       \<not> is_gateway_controlled_header (lh_name h) \<and> http_header_value http (lh_value h)) (env_headers e) \<and>
     body_len (env_body e) \<le> 50 * 1024 * 1024"

lemma validate_target_ok:
  assumes "validate_target http t = Inr ()"
  shows "length t \<le> 16 * 1024" "take 1 t = ''/''" "take 2 t \<noteq> ''//''" "CHR ''#'' \<notin> set t" "CHR 0x5C \<notin> set t"
    "http_uri http t = Some \<lparr>uri_scheme = None, uri_authority = None, uri_path_and_query = Some t\<rparr>"
  using assms
  by (auto simp: validate_target_def and_then_eq_Inr limit_defs split: if_splits option.splits)

lemma validate_header_ok:
  "validate_header http h = Inr () \<longleftrightarrow> http_header_name http (lh_name h) = Some (lh_name h) \<and>
     \<not> is_gateway_controlled_header (lh_name h) \<and> http_header_value http (lh_value h)"
  by (auto simp: validate_header_def and_then_eq_Inr)



end
