(* ===== verification/Sdk_Framing.thy ===== *)
theory Sdk_Framing
  imports Transport_Framing Sdk_Envelope
begin

text \<open>
  The incremental response decoder of the client, \<open>sdk/rust/src/transport_v2/framing.rs\<close>, and the event
  stream built on it by \<open>send_sealed\<close> in \<open>client.rs\<close>. The decoder is handed the carrier's bytes in
  arbitrary pieces; it buffers a partial length and a partial record, opens each complete record in
  sequence and withholds the terminal record until the carrier ends.
\<close>

section \<open>Model\<close>

definition SDK_CIPHERTEXT_LENGTH_BYTES :: nat where
  "SDK_CIPHERTEXT_LENGTH_BYTES = 4"

definition SDK_MAX_RESPONSE_CHUNK_BYTES :: nat where
  "SDK_MAX_RESPONSE_CHUNK_BYTES = 64 * 1024"

definition SDK_MAX_RESPONSE_METADATA_BYTES :: nat where
  "SDK_MAX_RESPONSE_METADATA_BYTES = 64 * 1024"

definition SDK_MAX_RESPONSE_RECORD_PLAINTEXT_BYTES :: nat where
  "SDK_MAX_RESPONSE_RECORD_PLAINTEXT_BYTES = 1 + SDK_MAX_RESPONSE_CHUNK_BYTES"

definition SDK_MAX_RESPONSE_RECORD_CIPHERTEXT_BYTES :: nat where
  "SDK_MAX_RESPONSE_RECORD_CIPHERTEXT_BYTES =
     SDK_MAX_RESPONSE_RECORD_PLAINTEXT_BYTES + SDK_RECORD_TAG_BYTES"

definition SDK_MAX_RESPONSE_HEADER_COUNT :: nat where
  "SDK_MAX_RESPONSE_HEADER_COUNT = 32"

definition SDK_MAX_RESPONSE_ERROR_CODE_BYTES :: nat where
  "SDK_MAX_RESPONSE_ERROR_CODE_BYTES = 64"

definition SDK_START_TAG :: u8 where
  "SDK_START_TAG = 1"

definition SDK_CHUNK_TAG :: u8 where
  "SDK_CHUNK_TAG = 2"

definition SDK_END_TAG :: u8 where
  "SDK_END_TAG = 3"

definition SDK_ERROR_TAG :: u8 where
  "SDK_ERROR_TAG = 4"

lemmas sdk_framing_limits = SDK_CIPHERTEXT_LENGTH_BYTES_def SDK_MAX_RESPONSE_CHUNK_BYTES_def
  SDK_MAX_RESPONSE_METADATA_BYTES_def SDK_MAX_RESPONSE_RECORD_PLAINTEXT_BYTES_def
  SDK_MAX_RESPONSE_RECORD_CIPHERTEXT_BYTES_def SDK_MAX_RESPONSE_HEADER_COUNT_def
  SDK_MAX_RESPONSE_ERROR_CODE_BYTES_def

lemmas tag_defs = START_TAG_def CHUNK_TAG_def END_TAG_def ERROR_TAG_def SDK_START_TAG_def
  SDK_CHUNK_TAG_def SDK_END_TAG_def SDK_ERROR_TAG_def

datatype response_event =
  EvStart u16 "logical_header list" | EvChunk bytes | EvEnd | EvError string

datatype decode_state = AwaitingStart | Open | PendingTerminal response_event | Finished

record response_decoder =
  rd_opener :: response_opener
  rd_state :: decode_state
  rd_length_prefix :: bytes
  rd_length_prefix_bytes :: nat
  rd_expected :: "nat option"
  rd_ciphertext :: bytes

definition decoder_new :: "response_opener \<Rightarrow> response_decoder" where
  "decoder_new opener = \<lparr>rd_opener = opener, rd_state = AwaitingStart,
     rd_length_prefix = replicate SDK_CIPHERTEXT_LENGTH_BYTES 0, rd_length_prefix_bytes = 0,
     rd_expected = None, rd_ciphertext = []\<rparr>"

fun sdk_revalidate_headers :: "http_ops \<Rightarrow> logical_header list \<Rightarrow> transport_v2_error + unit" where
  "sdk_revalidate_headers http [] = Inr ()"
| "sdk_revalidate_headers http (h # hs) =
     and_then (sdk_logical_header_new http (lh_name h) (lh_value h))
       (\<lambda>_. sdk_revalidate_headers http hs)"

definition decode_plaintext_record ::
    "json_ops \<Rightarrow> http_ops \<Rightarrow> bytes \<Rightarrow> transport_v2_error + response_event" where
  "decode_plaintext_record js http encoded =
     (case encoded of
        [] \<Rightarrow> Inl V2InvalidRecord
      | tag # payload \<Rightarrow>
          if tag = SDK_START_TAG then
            if length payload > SDK_MAX_RESPONSE_METADATA_BYTES then Inl V2InvalidRecord
            else and_then (ok_or V2InvalidRecord (js_read_start js payload)) (\<lambda>(status, headers).
              if \<not> (200 \<le> status \<and> status \<le> 599) \<or> length headers > SDK_MAX_RESPONSE_HEADER_COUNT
              then Inl V2InvalidRecord
              else and_then (sdk_revalidate_headers http headers) (\<lambda>_. Inr (EvStart status headers)))
          else if tag = SDK_CHUNK_TAG \<and> length payload \<le> SDK_MAX_RESPONSE_CHUNK_BYTES
            then Inr (EvChunk payload)
          else if tag = SDK_END_TAG \<and> payload = [] then Inr EvEnd
          else if tag = SDK_ERROR_TAG then
            if length payload > SDK_MAX_RESPONSE_METADATA_BYTES then Inl V2InvalidRecord
            else and_then (ok_or V2InvalidRecord (js_read_failure js payload)) (\<lambda>code.
              if code = [] \<or> length code > SDK_MAX_RESPONSE_ERROR_CODE_BYTES \<or>
                 \<not> list_all error_code_char code
              then Inl V2InvalidRecord else Inr (EvError code))
          else Inl V2InvalidRecord)"

definition decode_record ::
    "'sk crypto_ops \<Rightarrow> json_ops \<Rightarrow> http_ops \<Rightarrow> response_decoder \<Rightarrow> bytes \<Rightarrow>
      (transport_v2_error + response_event) \<times> response_decoder" where
  "decode_record ops js http self ciphertext =
     (let (opened, opener) = open_next ops (rd_opener self) ciphertext;
          self = self\<lparr>rd_opener := opener\<rparr> in
      case and_then opened (decode_plaintext_record js http) of
        Inl e \<Rightarrow> (Inl e, self)
      | Inr event \<Rightarrow>
          (case (rd_state self, event) of
             (AwaitingStart, EvStart _ _) \<Rightarrow> (Inr event, self\<lparr>rd_state := Open\<rparr>)
           | (Open, EvChunk _) \<Rightarrow> (Inr event, self)
           | (Open, EvEnd) \<Rightarrow> (Inr event, self)
           | (Open, EvError _) \<Rightarrow> (Inr event, self)
           | _ \<Rightarrow> (Inl V2InvalidSequence, self)))"

definition is_terminal :: "response_event \<Rightarrow> bool" where
  "is_terminal ev = (case ev of EvEnd \<Rightarrow> True | EvError _ \<Rightarrow> True | _ \<Rightarrow> False)"

text \<open>
  One turn of the loop in \<open>push\<close>: it returns an error, or the events it adds with the input that is
  left. \<open>read_prefix\<close> copies into the length buffer, \<open>read_record\<close> collects the record and opens it once it
  is complete.
\<close>

datatype push_outcome =
  PushError transport_v2_error response_decoder
  | PushMore "response_event list" response_decoder bytes

definition read_prefix :: "response_decoder \<Rightarrow> bytes \<Rightarrow> response_decoder \<times> bytes" where
  "read_prefix self input =
     (let pb = rd_length_prefix_bytes self;
          needed = SDK_CIPHERTEXT_LENGTH_BYTES - pb;
          n = min needed (length input) in
      (self\<lparr>rd_length_prefix := take pb (rd_length_prefix self) @ take n input @
              drop (pb + n) (rd_length_prefix self),
            rd_length_prefix_bytes := pb + n\<rparr>,
       drop n input))"

definition complete_record ::
    "'sk crypto_ops \<Rightarrow> json_ops \<Rightarrow> http_ops \<Rightarrow> response_decoder \<Rightarrow> bytes \<Rightarrow> push_outcome" where
  "complete_record ops js http self input =
     (let ciphertext = rd_ciphertext self;
          self = self\<lparr>rd_ciphertext := [], rd_expected := None, rd_length_prefix_bytes := 0\<rparr> in
      case decode_record ops js http self ciphertext of
        (Inl e, self) \<Rightarrow> PushError e self
      | (Inr event, self) \<Rightarrow>
          if is_terminal event then
            let self = self\<lparr>rd_state := PendingTerminal event\<rparr> in
            if input \<noteq> [] then PushError V2PostTerminalData self else PushMore [] self input
          else PushMore [event] self input)"

definition read_record ::
    "'sk crypto_ops \<Rightarrow> json_ops \<Rightarrow> http_ops \<Rightarrow> response_decoder \<Rightarrow> nat \<Rightarrow> bytes \<Rightarrow> push_outcome" where
  "read_record ops js http self expected input =
     (let needed = expected - length (rd_ciphertext self);
          n = min needed (length input);
          self = self\<lparr>rd_ciphertext := rd_ciphertext self @ take n input\<rparr>;
          input = drop n input in
      if length (rd_ciphertext self) < expected then PushMore [] self input
      else complete_record ops js http self input)"

definition push_step ::
    "'sk crypto_ops \<Rightarrow> json_ops \<Rightarrow> http_ops \<Rightarrow> response_decoder \<Rightarrow> bytes \<Rightarrow> push_outcome" where
  "push_step ops js http self input =
     (case rd_expected self of
        Some expected \<Rightarrow> read_record ops js http self expected input
      | None \<Rightarrow>
          let (self, input) = read_prefix self input in
          if rd_length_prefix_bytes self < SDK_CIPHERTEXT_LENGTH_BYTES then PushMore [] self input
          else let len = unat (u32_from_be_bytes (rd_length_prefix self)) in
            if \<not> (SDK_RECORD_TAG_BYTES \<le> len \<and> len \<le> SDK_MAX_RESPONSE_RECORD_CIPHERTEXT_BYTES)
            then PushError V2InvalidFrame self
            else read_record ops js http (self\<lparr>rd_expected := Some len\<rparr>) len input)"

text \<open>What a turn does when the record is still incomplete at the end of the input, and when it is not.\<close>

lemma read_record_partial:
  assumes "length (rd_ciphertext self) + length input < expected"
  shows "read_record ops js http self expected input =
    PushMore [] (self\<lparr>rd_ciphertext := rd_ciphertext self @ input\<rparr>) []"
  using assms by (simp add: read_record_def Let_def)

lemma read_record_full:
  assumes "expected \<le> length (rd_ciphertext self) + length input"
  defines "n \<equiv> expected - length (rd_ciphertext self)"
  shows "read_record ops js http self expected input =
    complete_record ops js http (self\<lparr>rd_ciphertext := rd_ciphertext self @ take n input\<rparr>) (drop n input)"
proof -
  have "min n (length input) = n"
    using assms by simp
  then show ?thesis
    using assms(1) by (auto simp: read_record_def Let_def n_def)
qed

lemma decode_record_frame:
  "decode_record ops js http d c = (r, d') \<Longrightarrow>
     rd_expected d' = rd_expected d \<and> rd_length_prefix_bytes d' = rd_length_prefix_bytes d \<and>
     rd_length_prefix d' = rd_length_prefix d \<and> rd_ciphertext d' = rd_ciphertext d"
  by (auto simp: decode_record_def Let_def split: prod.splits sum.splits decode_state.splits
      response_event.splits)

lemma complete_record_More:
  assumes "complete_record ops js http self input = PushMore evs self' rest"
  shows "rest = input \<and> rd_expected self' = None \<and> rd_length_prefix_bytes self' = 0 \<and>
    rd_ciphertext self' = [] \<and> rd_length_prefix self' = rd_length_prefix self"
  using assms
  by (auto simp: complete_record_def Let_def dest: decode_record_frame
      split: prod.splits sum.splits if_splits)

text \<open>
  Every second turn consumes input: only a turn that starts with a complete but unread length or with a
  complete record could leave it, and the turn after it does not.
\<close>

definition turn_slack :: "response_decoder \<Rightarrow> nat" where
  "turn_slack d = (if rd_expected d = None \<and> rd_length_prefix_bytes d < 4 then 0 else 1)"

lemma turn_slack_le: "turn_slack d \<le> 1"
  by (simp add: turn_slack_def)

lemma read_record_shrinks:
  assumes "read_record ops js http self expected input = PushMore evs self' rest"
  shows "2 * length rest + turn_slack self' \<le> 2 * length input + (if input = [] then 1 else 0)"
proof (cases "length (rd_ciphertext self) + length input < expected")
  case True
  then show ?thesis
    using assms turn_slack_le [of self'] by (cases input) (auto simp: read_record_partial)
next
  case False
  then have "turn_slack self' = 0" and "length rest \<le> length input"
    using complete_record_More [OF assms [unfolded read_record_full [OF False [unfolded not_less]]]]
    by (simp_all add: turn_slack_def)
  then show ?thesis by simp
qed

lemma push_step_shrinks:
  assumes "push_step ops js http self input = PushMore evs self' rest" and "input \<noteq> []"
  shows "2 * length rest + turn_slack self' < 2 * length input + turn_slack self"
proof (cases "rd_expected self")
  case (Some expected)
  then show ?thesis
    using assms read_record_shrinks [of ops js http self expected input evs self' rest]
    by (simp add: push_step_def turn_slack_def)
next
  case None
  define self1 input1 where "self1 = fst (read_prefix self input)" and "input1 = snd (read_prefix self input)"
  have less: "2 * length input1 + (if input1 = [] then 1 else 0) < 2 * length input + turn_slack self"
    using assms(2) None
    by (cases input) (auto simp: input1_def read_prefix_def Let_def turn_slack_def sdk_framing_limits min_def)
  consider "rest = input1" "self' = self1" "length input1 < length input"
    | d n where "read_record ops js http d n input1 = PushMore evs self' rest"
    using assms None
    by (auto simp: push_step_def self1_def input1_def case_prod_beta Let_def read_prefix_def
        sdk_framing_limits min_def split: if_splits)
  then show ?thesis
  proof cases
    case 1
    then show ?thesis using turn_slack_le [of self1] by simp
  next
    case (2 d n)
    from read_record_shrinks [OF 2] less show ?thesis by simp
  qed
qed

function push_loop ::
    "'sk crypto_ops \<Rightarrow> json_ops \<Rightarrow> http_ops \<Rightarrow> response_decoder \<Rightarrow> bytes \<Rightarrow> response_event list \<Rightarrow>
      (transport_v2_error + response_event list) \<times> response_decoder" where
  "push_loop ops js http self input events =
     (if input = [] then (Inr events, self)
      else case push_step ops js http self input of
        PushError e self' \<Rightarrow> (Inl e, self')
      | PushMore evs self' rest \<Rightarrow> push_loop ops js http self' rest (events @ evs))"
  by pat_completeness auto
termination
  by (relation "measure (\<lambda>(ops, js, http, self, input, events). 2 * length input + turn_slack self)")
     (use push_step_shrinks in auto)

declare push_loop.simps [simp del]

text \<open>\<open>ResponseDecoder::push\<close> and \<open>ResponseDecoder::finish\<close>.\<close>

definition push ::
    "'sk crypto_ops \<Rightarrow> json_ops \<Rightarrow> http_ops \<Rightarrow> response_decoder \<Rightarrow> bytes \<Rightarrow>
      (transport_v2_error + response_event list) \<times> response_decoder" where
  "push ops js http self input =
     (case rd_state self of
        Finished \<Rightarrow> (Inl V2PostTerminalData, self)
      | PendingTerminal _ \<Rightarrow>
          if input \<noteq> [] then (Inl V2PostTerminalData, self) else push_loop ops js http self input []
      | _ \<Rightarrow> push_loop ops js http self input [])"

definition finish :: "response_decoder \<Rightarrow> (transport_v2_error + response_event) \<times> response_decoder" where
  "finish self =
     (if rd_length_prefix_bytes self \<noteq> 0 \<or> rd_expected self \<noteq> None \<or> rd_ciphertext self \<noteq> []
      then (Inl V2TruncatedResponse, self)
      else (case rd_state self of
              PendingTerminal event \<Rightarrow> Inr event
            | AwaitingStart \<Rightarrow> Inl V2TruncatedResponse
            | Open \<Rightarrow> Inl V2TruncatedResponse
            | Finished \<Rightarrow> Inl V2PostTerminalData,
            self\<lparr>rd_state := Finished\<rparr>))"

text \<open>
  The event stream of \<open>send_sealed\<close>: the events the consumer receives and the error that ends the stream,
  if any. A piece of the carrier is \<open>None\<close> when reading it fails.
\<close>

fun response_stream ::
    "'sk crypto_ops \<Rightarrow> json_ops \<Rightarrow> http_ops \<Rightarrow> response_decoder \<Rightarrow> bytes option list \<Rightarrow>
      response_event list \<times> transport_v2_error option" where
  "response_stream ops js http decoder [] =
     (case fst (finish decoder) of Inl e \<Rightarrow> ([], Some e) | Inr event \<Rightarrow> ([event], None))"
| "response_stream ops js http decoder (None # source) = ([], Some V2Http)"
| "response_stream ops js http decoder (Some chunk # source) =
     (case push ops js http decoder chunk of
        (Inl e, _) \<Rightarrow> ([], Some e)
      | (Inr events, decoder') \<Rightarrow>
          (let (later, failure) = response_stream ops js http decoder' source
           in (events @ later, failure)))"

end
