(* ===== verification/Stream_Decoding.thy ===== *)
theory Stream_Decoding
  imports Sdk_Framing
begin

text \<open>
  How the client's decoder behaves on a stream. The decoder invariant, the independence of the
  fragmentation of the carrier, and the two directions of the protocol: a stream of sealed records
  decodes to their events, and a stream that ends well consists of records sealed in that order.
\<close>

section \<open>The decoder invariant\<close>

definition ended :: "response_decoder \<Rightarrow> bool" where
  "ended d = (case rd_state d of PendingTerminal _ \<Rightarrow> True | Finished \<Rightarrow> True | _ \<Rightarrow> False)"

definition decoder_ok :: "response_decoder \<Rightarrow> bool" where
  "decoder_ok d \<longleftrightarrow> length (rd_length_prefix d) = 4 \<and>
     (case rd_expected d of
        None \<Rightarrow> rd_length_prefix_bytes d < 4 \<and> rd_ciphertext d = []
      | Some n \<Rightarrow> rd_length_prefix_bytes d = 4 \<and> length (rd_ciphertext d) < n) \<and>
     (ended d \<longrightarrow> rd_expected d = None \<and> rd_length_prefix_bytes d = 0)"

lemma decoder_ok_new: "decoder_ok (decoder_new opener)"
  by (simp add: decoder_ok_def decoder_new_def ended_def sdk_framing_limits)

lemma decode_record_state:
  "decode_record ops js http d c = (Inr ev, d') \<Longrightarrow> rd_state d' = Open \<and> \<not> ended d'"
  by (auto simp: decode_record_def Let_def ended_def split: prod.splits sum.splits decode_state.splits
      response_event.splits)

lemma complete_record_ok:
  assumes "complete_record ops js http d input = PushMore evs d' rest"
    and "length (rd_length_prefix d) = 4"
  shows "decoder_ok d'"
  using complete_record_More [OF assms(1)] assms(2) by (simp add: decoder_ok_def)

text \<open>A record that completes leaves the rest of the input, unless it is the terminal one.\<close>

lemma complete_record_rest:
  "complete_record ops js http d input =
     (case complete_record ops js http d [] of
        PushError e d' \<Rightarrow> PushError e d'
      | PushMore evs d' r \<Rightarrow>
          if ended d' \<and> input \<noteq> [] then PushError V2PostTerminalData d' else PushMore evs d' input)"
  by (auto simp: complete_record_def Let_def ended_def dest: decode_record_state
      split: prod.splits sum.splits if_splits)

section \<open>Fragmentation\<close>

text \<open>The first byte of a longer input, taken alone: four cases, by what the byte completes.\<close>

definition with_prefix_byte :: "response_decoder \<Rightarrow> u8 \<Rightarrow> response_decoder" where
  "with_prefix_byte d x = d\<lparr>rd_length_prefix := (rd_length_prefix d)[rd_length_prefix_bytes d := x],
     rd_length_prefix_bytes := rd_length_prefix_bytes d + 1\<rparr>"

lemma with_prefix_byte_bytes [simp]:
  "rd_length_prefix_bytes (with_prefix_byte d x) = rd_length_prefix_bytes d + 1"
  by (simp add: with_prefix_byte_def)

lemma list_update_split:
  "i < length xs \<Longrightarrow> xs[i := x] = take i xs @ x # drop (Suc i) xs"
  by (simp add: upd_conv_take_nth_drop)

lemma read_prefix_byte:
  assumes "rd_length_prefix_bytes d < 4" and "length (rd_length_prefix d) = 4"
  shows "read_prefix d (x # xs) =
    (if rd_length_prefix_bytes d = 3 then (with_prefix_byte d x, xs) else read_prefix (with_prefix_byte d x) xs)"
proof -
  have "rd_length_prefix_bytes d < length (rd_length_prefix d)"
    using assms by simp
  then show ?thesis
    using assms
    by (auto simp: read_prefix_def Let_def with_prefix_byte_def sdk_framing_limits list_update_split
        min_def take_Cons' drop_Cons' add.commute)
qed

lemma step_prefix_byte:
  assumes "rd_expected d = None" and "rd_length_prefix_bytes d < 3" and "length (rd_length_prefix d) = 4"
  shows "push_step ops js http d [x] = PushMore [] (with_prefix_byte d x) []"
    and "push_step ops js http d (x # xs) = push_step ops js http (with_prefix_byte d x) xs"
proof -
  have none: "read_prefix (with_prefix_byte d x) [] = (with_prefix_byte d x, [])"
    by (simp add: read_prefix_def Let_def)
  show "push_step ops js http d [x] = PushMore [] (with_prefix_byte d x) []"
    using assms by (simp add: push_step_def read_prefix_byte none)
      (simp add: with_prefix_byte_def sdk_framing_limits)
  show "push_step ops js http d (x # xs) = push_step ops js http (with_prefix_byte d x) xs"
    using assms by (simp add: push_step_def read_prefix_byte) (simp add: with_prefix_byte_def)
qed

lemma step_last_prefix_byte:
  assumes "rd_expected d = None" and "rd_length_prefix_bytes d = 3" and "length (rd_length_prefix d) = 4"
    and "rd_ciphertext d = []"
  shows "push_step ops js http d (x # xs) =
    (case push_step ops js http d [x] of
       PushError e d' \<Rightarrow> PushError e d'
     | PushMore evs d' r \<Rightarrow> if xs = [] then PushMore evs d' r else push_step ops js http d' xs)"
proof -
  define n where "n = unat (u32_from_be_bytes (rd_length_prefix (with_prefix_byte d x)))"
  have wpb: "rd_length_prefix_bytes (with_prefix_byte d x) = 4"
    using assms by (simp add: with_prefix_byte_def)
  have step: "push_step ops js http d (x # ys) =
      (if 16 \<le> n \<and> n \<le> SDK_MAX_RESPONSE_RECORD_CIPHERTEXT_BYTES
       then read_record ops js http ((with_prefix_byte d x)\<lparr>rd_expected := Some n\<rparr>) n ys
       else PushError V2InvalidFrame (with_prefix_byte d x))" for ys
    using assms wpb
    by (simp add: push_step_def read_prefix_byte n_def Let_def SDK_CIPHERTEXT_LENGTH_BYTES_def
        SDK_RECORD_TAG_BYTES_def del: sdk_labels)
  have ct: "rd_ciphertext (with_prefix_byte d x) = []"
    using assms by (simp add: with_prefix_byte_def)
  then have idle: "(with_prefix_byte d x)\<lparr>rd_expected := e, rd_ciphertext := []\<rparr> =
      (with_prefix_byte d x)\<lparr>rd_expected := e\<rparr>" for e
    by (cases "with_prefix_byte d x") simp
  show ?thesis
    by (auto simp: step read_record_partial ct idle) (simp add: push_step_def)
qed

lemma step_last_prefix_More:
  assumes "rd_expected d = None" and "rd_length_prefix_bytes d = 3" and "length (rd_length_prefix d) = 4"
    and "rd_ciphertext d = []" and "push_step ops js http d [x] = PushMore evs d' r"
  obtains n where "evs = []" "r = []" "16 \<le> n" "d' = (with_prefix_byte d x)\<lparr>rd_expected := Some n\<rparr>"
proof -
  have idle: "rd_ciphertext (with_prefix_byte d x) = []"
    using assms by (simp add: with_prefix_byte_def)
  obtain n where "16 \<le> n"
      "read_record ops js http ((with_prefix_byte d x)\<lparr>rd_expected := Some n\<rparr>) n [] = PushMore evs d' r"
    using assms
    by (auto simp: push_step_def read_prefix_byte Let_def SDK_RECORD_TAG_BYTES_def
        SDK_CIPHERTEXT_LENGTH_BYTES_def simp del: sdk_labels split: if_splits)
  moreover have "(with_prefix_byte d x)\<lparr>rd_expected := e, rd_ciphertext := []\<rparr> =
      (with_prefix_byte d x)\<lparr>rd_expected := e\<rparr>" for e
    using idle by (cases "with_prefix_byte d x") simp
  ultimately show ?thesis
    using that [of n] by (simp add: read_record_partial idle)
qed

lemma step_record_byte:
  assumes "rd_expected d = Some n" and "length (rd_ciphertext d) + 1 < n"
  shows "push_step ops js http d [x] = PushMore [] (d\<lparr>rd_ciphertext := rd_ciphertext d @ [x]\<rparr>) []"
    and "push_step ops js http d (x # xs) =
      push_step ops js http (d\<lparr>rd_ciphertext := rd_ciphertext d @ [x]\<rparr>) xs"
proof -
  show "push_step ops js http d [x] = PushMore [] (d\<lparr>rd_ciphertext := rd_ciphertext d @ [x]\<rparr>) []"
    using assms by (simp add: push_step_def read_record_partial)
  obtain k where k: "n - length (rd_ciphertext d) = Suc k"
    using assms(2) by (cases "n - length (rd_ciphertext d)") auto
  then have "n - length (rd_ciphertext d @ [x]) = k" by simp
  with k assms show "push_step ops js http d (x # xs) =
      push_step ops js http (d\<lparr>rd_ciphertext := rd_ciphertext d @ [x]\<rparr>) xs"
    by (cases "length (rd_ciphertext d) + 1 + length xs < n")
       (simp_all add: push_step_def read_record_partial read_record_full)
qed

lemma step_last_record_byte:
  assumes "rd_expected d = Some n" and "length (rd_ciphertext d) + 1 = n"
  shows "push_step ops js http d (x # xs) =
    (case push_step ops js http d [x] of
       PushError e d' \<Rightarrow> PushError e d'
     | PushMore evs d' r \<Rightarrow>
         if ended d' \<and> xs \<noteq> [] then PushError V2PostTerminalData d' else PushMore evs d' xs)"
proof -
  have step: "push_step ops js http d (x # ys) =
      complete_record ops js http (d\<lparr>rd_ciphertext := rd_ciphertext d @ [x]\<rparr>) ys" for ys
    using assms by (simp add: push_step_def read_record_full flip: assms(2))
  show ?thesis
    unfolding step by (rule complete_record_rest)
qed

text \<open>
  A step on the first byte alone, followed by the rest, is the step on the whole input; the invariant is
  kept.
\<close>

lemma step_byte_ok:
  assumes "decoder_ok d" and "\<not> ended d" and "push_step ops js http d [x] = PushMore evs d' r"
  shows "decoder_ok d' \<and> r = []"
proof (cases "rd_expected d")
  case None
  with assms(1) have pb: "rd_length_prefix_bytes d < 4" "length (rd_length_prefix d) = 4" "rd_ciphertext d = []"
    by (auto simp: decoder_ok_def)
  have keep: "rd_expected (with_prefix_byte d x) = None" "rd_ciphertext (with_prefix_byte d x) = []"
      "length (rd_length_prefix (with_prefix_byte d x)) = 4" "\<not> ended (with_prefix_byte d x)"
      "rd_length_prefix_bytes (with_prefix_byte d x) = rd_length_prefix_bytes d + 1"
    using pb None assms(2) by (auto simp: with_prefix_byte_def ended_def)
  show ?thesis
  proof (cases "rd_length_prefix_bytes d < 3")
    case True
    with step_prefix_byte(1) [OF None True pb(2), of ops js http x] assms(3) keep show ?thesis
      by (auto simp: decoder_ok_def)
  next
    case False
    then have three: "rd_length_prefix_bytes d = 3" using pb by simp
    from step_last_prefix_More [OF None three pb(2,3) assms(3)] obtain n
      where "r = []" "16 \<le> n" "d' = (with_prefix_byte d x)\<lparr>rd_expected := Some n\<rparr>" by blast
    with keep three show ?thesis
      by (auto simp: decoder_ok_def ended_def)
  qed
next
  case (Some n)
  with assms(1) have len: "length (rd_ciphertext d) < n" "length (rd_length_prefix d) = 4"
      "rd_length_prefix_bytes d = 4"
    by (auto simp: decoder_ok_def)
  show ?thesis
  proof (cases "length (rd_ciphertext d) + 1 < n")
    case True
    with step_record_byte(1) [OF Some True, of ops js http x] assms Some len show ?thesis
      by (auto simp: decoder_ok_def ended_def)
  next
    case False
    with len have "length (rd_ciphertext d) + 1 = n" by simp
    with assms(3) Some have "complete_record ops js http (d\<lparr>rd_ciphertext := rd_ciphertext d @ [x]\<rparr>) [] =
        PushMore evs d' r"
      by (simp add: push_step_def read_record_full)
    from complete_record_ok [OF this] complete_record_More [OF this] len(2) show ?thesis
      by simp
  qed
qed

lemma not_ended: "\<not> ended d \<Longrightarrow> rd_state d \<noteq> Finished"
  by (auto simp: ended_def)

lemma complete_record_state:
  "complete_record ops js http d input = PushMore evs d' rest \<Longrightarrow> rd_state d' \<noteq> Finished"
  by (auto simp: complete_record_def Let_def dest: decode_record_state
      split: prod.splits sum.splits if_splits)

lemma read_record_state:
  assumes "read_record ops js http d n input = PushMore evs d' rest" and "rd_state d \<noteq> Finished"
  shows "rd_state d' \<noteq> Finished"
proof (cases "length (rd_ciphertext d) + length input < n")
  case True
  then show ?thesis using assms by (auto simp: read_record_partial)
next
  case False
  show ?thesis
    using complete_record_state [OF assms(1) [unfolded read_record_full [OF False [unfolded not_less]]]] .
qed

lemma step_byte_state:
  assumes "\<not> ended d" and "push_step ops js http d input = PushMore evs d' r"
  shows "rd_state d' \<noteq> Finished"
proof (cases "rd_expected d")
  case (Some n)
  then have "read_record ops js http d n input = PushMore evs d' r"
    using assms(2) by (simp add: push_step_def)
  then show ?thesis
    by (rule read_record_state) (rule not_ended [OF assms(1)])
next
  case None
  have keep: "rd_state (fst (read_prefix d input)) = rd_state d"
    by (simp add: read_prefix_def Let_def)
  consider "d' = fst (read_prefix d input)"
    | n where "read_record ops js http ((fst (read_prefix d input))\<lparr>rd_expected := Some n\<rparr>) n
        (snd (read_prefix d input)) = PushMore evs d' r"
    using assms(2) None by (auto simp: push_step_def Let_def case_prod_beta split: if_splits)
  then show ?thesis
  proof cases
    case 1
    then show ?thesis using keep not_ended [OF assms(1)] by simp
  next
    case (2 n)
    from read_record_state [OF 2] keep not_ended [OF assms(1)] show ?thesis by simp
  qed
qed

lemma step_Cons:
  assumes "decoder_ok d" and "\<not> ended d" and "xs \<noteq> []"
  shows "case push_step ops js http d [x] of
      PushError e d' \<Rightarrow> push_step ops js http d (x # xs) = PushError e d'
    | PushMore evs d' r \<Rightarrow>
        (if ended d' then push_step ops js http d (x # xs) = PushError V2PostTerminalData d'
         else push_step ops js http d (x # xs) = PushMore evs d' xs \<or>
              evs = [] \<and> push_step ops js http d (x # xs) = push_step ops js http d' xs)"
proof (cases "rd_expected d")
  case None
  with assms(1) have pb: "rd_length_prefix_bytes d < 4" "length (rd_length_prefix d) = 4" "rd_ciphertext d = []"
    by (auto simp: decoder_ok_def)
  show ?thesis
  proof (cases "rd_length_prefix_bytes d < 3")
    case True
    have "\<not> ended (with_prefix_byte d x)"
      using assms(2) by (simp add: with_prefix_byte_def ended_def)
    then show ?thesis
      using step_prefix_byte [OF None True pb(2), of ops js http x] by auto
  next
    case False
    with pb have three: "rd_length_prefix_bytes d = 3" by simp
    show ?thesis
    proof (cases "push_step ops js http d [x]")
      case (PushError e d')
      then show ?thesis
        by (simp add: step_last_prefix_byte [OF None three pb(2,3), of ops js http x xs])
    next
      case (PushMore evs d' r)
      from step_last_prefix_More [OF None three pb(2,3) PushMore] obtain n
        where "evs = []" and d': "d' = (with_prefix_byte d x)\<lparr>rd_expected := Some n\<rparr>" by blast
      moreover have "\<not> ended d'"
        using assms(2) by (simp add: d' ended_def with_prefix_byte_def)
      ultimately show ?thesis
        using PushMore assms(3)
        by (simp add: step_last_prefix_byte [OF None three pb(2,3), of ops js http x xs])
    qed
  qed
next
  case (Some n)
  with assms(1) have len: "length (rd_ciphertext d) < n" by (simp add: decoder_ok_def)
  show ?thesis
  proof (cases "length (rd_ciphertext d) + 1 < n")
    case True
    have "\<not> ended (d\<lparr>rd_ciphertext := c\<rparr>)" for c
      using assms(2) by (simp add: ended_def)
    then show ?thesis
      using step_record_byte [OF Some True, of ops js http x] by auto
  next
    case False
    with len have "length (rd_ciphertext d) + 1 = n" by simp
    from step_last_record_byte [OF Some this, of ops js http x xs] assms(3) show ?thesis
      by (auto split: push_outcome.splits)
  qed
qed

text \<open>Running one push after another: the first error ends the run, events accumulate.\<close>

definition then_push ::
    "('e + 'v list) \<times> 'd \<Rightarrow> ('d \<Rightarrow> ('e + 'v list) \<times> 'd) \<Rightarrow> ('e + 'v list) \<times> 'd" where
  "then_push r k =
     (case r of
        (Inl e, d) \<Rightarrow> (Inl e, d)
      | (Inr evs, d) \<Rightarrow> (case k d of (Inl e, d') \<Rightarrow> (Inl e, d') | (Inr evs', d') \<Rightarrow> (Inr (evs @ evs'), d')))"

lemma then_push_Inl [simp]: "then_push (Inl e, d) k = (Inl e, d)"
  by (simp add: then_push_def)

lemma then_push_assoc: "then_push (then_push r k) h = then_push r (\<lambda>d. then_push (k d) h)"
  by (auto simp: then_push_def split: prod.splits sum.splits)

lemma then_push_cong:
  "(\<And>evs d. r = (Inr evs, d) \<Longrightarrow> k d = h d) \<Longrightarrow> then_push r k = then_push r h"
  by (auto simp: then_push_def split: prod.splits sum.splits)

fun push_all ::
    "'sk crypto_ops \<Rightarrow> json_ops \<Rightarrow> http_ops \<Rightarrow> response_decoder \<Rightarrow> bytes list \<Rightarrow>
      (transport_v2_error + response_event list) \<times> response_decoder" where
  "push_all ops js http d [] = (Inr [], d)"
| "push_all ops js http d (p # ps) = then_push (push ops js http d p) (\<lambda>d'. push_all ops js http d' ps)"

lemma push_loop_Nil [simp]: "push_loop ops js http d [] evs = (Inr evs, d)"
  by (simp add: push_loop.simps)

lemma push_loop_events:
  "push_loop ops js http d input evs = then_push (Inr evs, d) (\<lambda>d. push_loop ops js http d input [])"
proof (induction "2 * length input + turn_slack d" arbitrary: d input evs rule: less_induct)
  case less
  show ?case
  proof (cases "input = []")
    case False
    show ?thesis
    proof (cases "push_step ops js http d input")
      case (PushError e d')
      with False show ?thesis
        by (simp add: then_push_def push_loop.simps [of ops js http d input])
    next
      case (PushMore evs' d' rest)
      have *: "push_loop ops js http d' rest es =
          then_push (Inr es, d') (\<lambda>d. push_loop ops js http d rest [])" for es
        by (rule less(1)) (rule push_step_shrinks [OF PushMore False])
      from False PushMore * [of "evs @ evs'"] * [of evs'] show ?thesis
        by (simp add: push_loop.simps [of ops js http d input] then_push_def split: prod.splits sum.splits)
    qed
  qed (simp add: then_push_def)
qed

lemma push_Nil: "rd_state d \<noteq> Finished \<Longrightarrow> push ops js http d [] = (Inr [], d)"
  by (simp add: push_def split: decode_state.splits)

lemma push_open: "\<not> ended d \<Longrightarrow> push ops js http d input = push_loop ops js http d input []"
  by (simp add: push_def ended_def split: decode_state.splits)

lemma push_byte:
  assumes "decoder_ok d" and "\<not> ended d"
  shows "push ops js http d [x] =
    (case push_step ops js http d [x] of PushError e d' \<Rightarrow> (Inl e, d') | PushMore evs d' r \<Rightarrow> (Inr evs, d'))"
proof (cases "push_step ops js http d [x]")
  case (PushError e d')
  then show ?thesis
    by (simp add: push_open assms(2) push_loop.simps [of ops js http d "[x]"])
next
  case (PushMore evs d' r)
  with step_byte_ok [OF assms PushMore] show ?thesis
    by (simp add: push_open assms(2) push_loop.simps [of ops js http d "[x]"])
qed

lemma push_Cons:
  assumes "decoder_ok d"
  shows "push ops js http d (x # xs) = then_push (push ops js http d [x]) (\<lambda>d'. push ops js http d' xs)"
proof (cases "ended d")
  case True
  then show ?thesis
    by (auto simp: push_def ended_def split: decode_state.splits)
next
  case False
  note loop = push_loop.simps [of ops js http d "x # xs"]
  show ?thesis
  proof (cases "xs = []")
    case True
    show ?thesis
    proof (cases "push_step ops js http d [x]")
      case (PushMore evs d' r)
      from step_byte_state [OF False PushMore] True PushMore show ?thesis
        by (simp add: push_byte [OF assms False] then_push_def push_Nil)
    qed (simp add: push_byte [OF assms False] True)
  next
    case xs: False
    show ?thesis
    proof (cases "push_step ops js http d [x]")
      case (PushError e d')
      with step_Cons [OF assms False xs, of ops js http x] show ?thesis
        by (simp add: push_byte [OF assms False]) (simp add: push_open False loop)
    next
      case (PushMore evs d' r)
      show ?thesis
      proof (cases "ended d'")
        case True
        with PushMore step_Cons [OF assms False xs, of ops js http x]
        have "push ops js http d (x # xs) = (Inl V2PostTerminalData, d')"
          by (simp add: push_open False loop)
        moreover have "push ops js http d' xs = (Inl V2PostTerminalData, d')"
          using True xs by (simp add: push_def ended_def split: decode_state.splits)
        ultimately show ?thesis
          using PushMore by (simp add: push_byte [OF assms False] then_push_def)
      next
        case open': False
        with PushMore step_Cons [OF assms False xs, of ops js http x]
        consider "push_step ops js http d (x # xs) = PushMore evs d' xs"
          | "evs = []" "push_step ops js http d (x # xs) = push_step ops js http d' xs" by auto
        then have "push_loop ops js http d (x # xs) [] = push_loop ops js http d' xs evs"
          by cases (use xs in \<open>simp_all add: loop push_loop.simps [of ops js http d' xs]\<close>)
        then have "push ops js http d (x # xs) = then_push (Inr evs, d') (\<lambda>d. push_loop ops js http d xs [])"
          using push_loop_events [of ops js http d' xs evs] by (simp add: push_open False)
        then show ?thesis
          using PushMore by (simp add: push_byte [OF assms False] then_push_def push_open open')
      qed
    qed
  qed
qed

lemma then_push_Inr:
  "then_push r k = (Inr evs, d') \<longleftrightarrow>
     (\<exists>evs1 d1 evs2. r = (Inr evs1, d1) \<and> k d1 = (Inr evs2, d') \<and> evs = evs1 @ evs2)"
  by (auto simp: then_push_def split: prod.splits sum.splits)

text \<open>The invariant of a decoder that still takes input.\<close>

definition decoder_inv :: "response_decoder \<Rightarrow> bool" where
  "decoder_inv d \<longleftrightarrow> decoder_ok d \<and> rd_state d \<noteq> Finished"

lemma decoder_inv_new: "decoder_inv (decoder_new opener)"
  by (simp add: decoder_inv_def decoder_ok_new) (simp add: decoder_new_def)

lemma push_byte_inv:
  assumes "decoder_inv d" and "push ops js http d [x] = (Inr evs, d')"
  shows "decoder_inv d'"
proof -
  have ok: "decoder_ok d" and "\<not> ended d"
    using assms by (auto simp: decoder_inv_def push_def ended_def split: decode_state.splits)
  with assms(2) obtain r where step: "push_step ops js http d [x] = PushMore evs d' r"
    by (auto simp: push_byte split: push_outcome.splits)
  show ?thesis
    using step_byte_ok [OF ok \<open>\<not> ended d\<close> step] step_byte_state [OF \<open>\<not> ended d\<close> step]
    by (simp add: decoder_inv_def)
qed

lemma push_inv:
  assumes "decoder_inv d" and "push ops js http d input = (Inr evs, d')"
  shows "decoder_inv d'"
  using assms
proof (induction input arbitrary: d evs)
  case Nil
  then show ?case by (simp add: push_Nil decoder_inv_def)
next
  case (Cons x xs)
  have "decoder_ok d" using Cons.prems(1) by (simp add: decoder_inv_def)
  then have "then_push (push ops js http d [x]) (\<lambda>d'. push ops js http d' xs) = (Inr evs, d')"
    using Cons.prems(2) by (metis push_Cons)
  then obtain evs1 d1 evs2
    where "push ops js http d [x] = (Inr evs1, d1)" "push ops js http d1 xs = (Inr evs2, d')"
    by (auto simp: then_push_Inr)
  with Cons.IH push_byte_inv [OF Cons.prems(1)] show ?case by blast
qed

lemma push_append:
  assumes "decoder_inv d"
  shows "push ops js http d (a @ b) = then_push (push ops js http d a) (\<lambda>d'. push ops js http d' b)"
  using assms
proof (induction a arbitrary: d)
  case Nil
  then show ?case
    by (cases "push ops js http d b") (auto simp: push_Nil decoder_inv_def then_push_def split: sum.splits)
next
  case (Cons x xs)
  have ok: "decoder_ok d" using Cons.prems by (simp add: decoder_inv_def)
  have "push ops js http d ((x # xs) @ b) =
      then_push (push ops js http d [x]) (\<lambda>d'. push ops js http d' (xs @ b))"
    using push_Cons [OF ok, of ops js http x "xs @ b"] by simp
  also have "\<dots> = then_push (push ops js http d [x])
      (\<lambda>d'. then_push (push ops js http d' xs) (\<lambda>d''. push ops js http d'' b))"
    by (rule then_push_cong) (rule Cons.IH, rule push_byte_inv [OF Cons.prems])
  also have "\<dots> = then_push (push ops js http d (x # xs)) (\<lambda>d''. push ops js http d'' b)"
    unfolding push_Cons [OF ok, of ops js http x xs] then_push_assoc ..
  finally show ?case .
qed

lemma push_all_concat:
  "decoder_inv d \<Longrightarrow> push_all ops js http d ps = push ops js http d (concat ps)"
proof (induction ps arbitrary: d)
  case Nil
  then show ?case by (simp add: push_Nil decoder_inv_def)
next
  case (Cons p ps)
  have "push_all ops js http d (p # ps) =
      then_push (push ops js http d p) (\<lambda>d'. push ops js http d' (concat ps))"
    unfolding push_all.simps
    by (rule then_push_cong) (rule Cons.IH, rule push_inv [OF Cons.prems])
  also have "\<dots> = push ops js http d (concat (p # ps))"
    unfolding concat.simps by (rule push_append [OF Cons.prems, symmetric])
  finally show ?case .
qed

text \<open>The event stream is the run of pushes followed by the end of the carrier.\<close>

lemma response_stream_failure:
  "snd (response_stream ops js http d (map Some ps)) =
     (case push_all ops js http d ps of
        (Inl e, _) \<Rightarrow> Some e
      | (Inr evs, d') \<Rightarrow> (case fst (finish d') of Inl e \<Rightarrow> Some e | Inr event \<Rightarrow> None))"
proof (induction ps arbitrary: d)
  case (Cons p ps)
  obtain r d1 where push: "push ops js http d p = (r, d1)" by fastforce
  show ?case
    using Cons.IH [of d1] push
    by (cases r) (simp_all add: then_push_def case_prod_beta split: sum.splits)
qed (auto split: sum.splits)

lemma response_stream_events:
  "push_all ops js http d ps = (Inr evs, d') \<Longrightarrow>
   fst (response_stream ops js http d (map Some ps)) =
     evs @ (case fst (finish d') of Inl e \<Rightarrow> [] | Inr event \<Rightarrow> [event])"
proof (induction ps arbitrary: d evs)
  case (Cons p ps)
  then obtain evs1 d1 evs2 where "push ops js http d p = (Inr evs1, d1)"
      and "push_all ops js http d1 ps = (Inr evs2, d')" and "evs = evs1 @ evs2"
    by (auto simp: then_push_Inr)
  with Cons.IH [of d1 evs2] show ?case by (simp add: case_prod_beta)
qed (simp split: sum.splits)

text \<open>What a consumer that reads the stream to its end learns: the error, or all events.\<close>

definition stream_result :: "'v list \<times> 'e option \<Rightarrow> 'e + 'v list" where
  "stream_result r = (case snd r of Some e \<Rightarrow> Inl e | None \<Rightarrow> Inr (fst r))"

lemma stream_result_push_all:
  "stream_result (response_stream ops js http d (map Some ps)) =
     (case push_all ops js http d ps of
        (Inl e, _) \<Rightarrow> Inl e
      | (Inr evs, d') \<Rightarrow> map_result id (\<lambda>event. evs @ [event]) (fst (finish d')))"
  using response_stream_failure [of ops js http d ps] response_stream_events [of ops js http d ps]
  by (cases "push_all ops js http d ps") (auto simp: stream_result_def split: sum.splits)


end

