(* ===== verification/Stream_Authenticity.thy ===== *)
theory Stream_Authenticity
  imports Stream_Decoding
begin

text \<open>
  The response stream as a protocol. Records sealed in order and framed decode to their events, and a
  stream that a client reads to a good end consists of records the server's key sealed, all of them, in
  order, from the first to the terminal one.
\<close>

section \<open>The grammar of a response\<close>

definition next_state :: "decode_state \<Rightarrow> response_event \<Rightarrow> decode_state option" where
  "next_state st ev =
     (case (st, ev) of
        (AwaitingStart, EvStart _ _) \<Rightarrow> Some Open
      | (Open, EvChunk _) \<Rightarrow> Some Open
      | (Open, EvEnd) \<Rightarrow> Some (PendingTerminal ev)
      | (Open, EvError _) \<Rightarrow> Some (PendingTerminal ev)
      | _ \<Rightarrow> None)"

fun run_states :: "decode_state \<Rightarrow> response_event list \<Rightarrow> decode_state option" where
  "run_states st [] = Some st"
| "run_states st (ev # evs) = (case next_state st ev of None \<Rightarrow> None | Some st' \<Rightarrow> run_states st' evs)"

lemma run_states_snoc:
  "run_states st (evs @ [ev]) = (case run_states st evs of None \<Rightarrow> None | Some st' \<Rightarrow> next_state st' ev)"
  by (induction evs arbitrary: st) (auto split: option.splits)

lemma run_states_Open:
  "run_states Open evs = Some (PendingTerminal t) \<Longrightarrow> \<exists>chunks. evs = map EvChunk chunks @ [t] \<and> is_terminal t"
proof (induction evs)
  case (Cons ev evs)
  show ?case
  proof (cases ev)
    case (EvChunk c)
    with Cons obtain chunks where "evs = map EvChunk chunks @ [t]" and "is_terminal t"
      by (auto simp: next_state_def)
    then have "ev # evs = map EvChunk (c # chunks) @ [t] \<and> is_terminal t"
      using EvChunk by simp
    then show ?thesis by blast
  next
    case EvEnd
    with Cons.prems show ?thesis
      by (cases evs) (auto simp: next_state_def is_terminal_def intro: exI [of _ "[]"])
  next
    case (EvError code)
    with Cons.prems show ?thesis
      by (cases evs) (auto simp: next_state_def is_terminal_def intro: exI [of _ "[]"])
  qed (use Cons.prems in \<open>auto simp: next_state_def\<close>)
qed simp

text \<open>A complete response: a start, chunks and one terminal event.\<close>

definition complete_response :: "response_event list \<Rightarrow> bool" where
  "complete_response evs \<longleftrightarrow>
     (\<exists>status headers chunks t. evs = EvStart status headers # map EvChunk chunks @ [t] \<and> is_terminal t)"

lemma run_states_complete:
  assumes "run_states AwaitingStart evs = Some (PendingTerminal t)"
  shows "complete_response evs \<and> evs = butlast evs @ [t] \<and> filter (\<lambda>ev. \<not> is_terminal ev) evs = butlast evs"
proof -
  obtain status headers rest where evs: "evs = EvStart status headers # rest"
      and rest: "run_states Open rest = Some (PendingTerminal t)"
    using assms by (cases evs) (auto simp: next_state_def split: response_event.splits option.splits)
  from run_states_Open [OF rest] obtain chunks where "rest = map EvChunk chunks @ [t]" and t: "is_terminal t"
    by blast
  then have shape: "evs = (EvStart status headers # map EvChunk chunks) @ [t]"
    using evs by simp
  have "filter (\<lambda>ev. \<not> is_terminal ev) (EvStart status headers # map EvChunk chunks) =
      EvStart status headers # map EvChunk chunks"
    by (simp add: is_terminal_def filter_id_conv)
  with shape t show ?thesis
    unfolding complete_response_def by auto
qed

text \<open>What an opened record is, and the states it leads to.\<close>

lemma decode_record_Inr:
  assumes "decode_record ops js http d c = (Inr ev, d')"
  shows "\<exists>p. open_next ops (rd_opener d) c = (Inr p, rd_opener d') \<and>
    decode_plaintext_record js http p = Inr ev \<and>
    next_state (rd_state d) ev = Some (if is_terminal ev then PendingTerminal ev else Open) \<and>
    rd_state d' = Open"
proof -
  obtain r opener where opened: "open_next ops (rd_opener d) c = (r, opener)" by fastforce
  with assms obtain p where r: "r = Inr p" "decode_plaintext_record js http p = Inr ev"
    by (auto simp: decode_record_def Let_def and_then_def split: sum.splits decode_state.splits
        response_event.splits)
  with assms opened show ?thesis
    by (auto simp: decode_record_def Let_def next_state_def is_terminal_def
        split: decode_state.splits response_event.splits)
qed

lemma decode_record_opened:
  assumes "open_next ops (rd_opener d) c = (Inr p, opener)" and "decode_plaintext_record js http p = Inr ev"
    and "next_state (rd_state d) ev = Some st"
  shows "decode_record ops js http d c = (Inr ev, d\<lparr>rd_opener := opener, rd_state := Open\<rparr>) \<and>
    st = (if is_terminal ev then PendingTerminal ev else Open)"
proof -
  have same: "rd_state d = Open \<Longrightarrow> d\<lparr>rd_opener := opener\<rparr> = d\<lparr>rd_opener := opener, rd_state := Open\<rparr>"
    by (cases d) simp
  show ?thesis
    using assms same
    by (auto simp: decode_record_def Let_def next_state_def is_terminal_def
        split: decode_state.splits response_event.splits)
qed

section \<open>Framed records\<close>

definition frame :: "bytes \<Rightarrow> bytes" where
  "frame c = u32_to_be_bytes (of_nat (length c)) @ c"

definition frame_sized :: "bytes \<Rightarrow> bool" where
  "frame_sized c \<longleftrightarrow> 16 \<le> length c \<and> length c \<le> SDK_MAX_RESPONSE_RECORD_CIPHERTEXT_BYTES"

definition idle :: "response_decoder \<Rightarrow> bool" where
  "idle d \<longleftrightarrow> rd_expected d = None \<and> rd_length_prefix_bytes d = 0 \<and> rd_ciphertext d = [] \<and>
     length (rd_length_prefix d) = 4"

lemma idle_new: "idle (decoder_new opener)"
  by (simp add: idle_def decoder_new_def sdk_framing_limits)

lemma frame_sized_unat:
  assumes "frame_sized c" shows "unat (of_nat (length c) :: u32) = length c"
proof -
  have "length c < 2 ^ 32"
    using assms by (simp add: frame_sized_def sdk_framing_limits SDK_RECORD_TAG_BYTES_def del: sdk_labels)
  then show ?thesis by (simp add: unat_of_nat)
qed

text \<open>A whole frame is one turn of the loop.\<close>

lemma step_frame:
  assumes "idle d" and "frame_sized c"
  shows "push_step ops js http d (frame c) =
    complete_record ops js http
      (d\<lparr>rd_length_prefix := u32_to_be_bytes (of_nat (length c)), rd_length_prefix_bytes := 4,
         rd_expected := Some (length c), rd_ciphertext := c\<rparr>) []"
proof -
  have "read_prefix d (frame c) = (d\<lparr>rd_length_prefix := u32_to_be_bytes (of_nat (length c)),
      rd_length_prefix_bytes := 4\<rparr>, c)"
    using assms(1) by (simp add: read_prefix_def frame_def idle_def Let_def SDK_CIPHERTEXT_LENGTH_BYTES_def)
  then show ?thesis
    using assms
    by (simp add: push_step_def idle_def Let_def SDK_CIPHERTEXT_LENGTH_BYTES_def frame_sized_unat
        read_record_full)
       (simp add: frame_sized_def RECORD_TAG_BYTES_def)
qed

lemma push_frame:
  assumes idle: "idle d" and "\<not> ended d" and sized: "frame_sized c"
    and opened: "open_next ops (rd_opener d) c = (Inr p, opener)"
    and dec: "decode_plaintext_record js http p = Inr ev" and st: "next_state (rd_state d) ev = Some st"
  shows "\<exists>d'. push ops js http d (frame c) = (Inr (if is_terminal ev then [] else [ev]), d') \<and> idle d' \<and>
    rd_opener d' = opener \<and> rd_state d' = st"
proof -
  define d1 where "d1 = d\<lparr>rd_length_prefix := u32_to_be_bytes (of_nat (length c)), rd_length_prefix_bytes := 0,
    rd_expected := None, rd_ciphertext := []\<rparr>"
  have "open_next ops (rd_opener d1) c = (Inr p, opener)" and "next_state (rd_state d1) ev = Some st"
    using opened st by (simp_all add: d1_def)
  from decode_record_opened [OF this(1) dec this(2)]
  have decoded: "decode_record ops js http d1 c = (Inr ev, d1\<lparr>rd_opener := opener, rd_state := Open\<rparr>)"
      and st': "st = (if is_terminal ev then PendingTerminal ev else Open)"
    by blast+
  define d2 where "d2 = (d1\<lparr>rd_opener := opener, rd_state := Open\<rparr>)\<lparr>rd_state := st\<rparr>"
  have d2: "d2 = d1\<lparr>rd_opener := opener, rd_state := st\<rparr>"
    by (simp add: d2_def)
  have reset: "d\<lparr>rd_length_prefix := u32_to_be_bytes (of_nat (length c)), rd_ciphertext := [],
      rd_expected := None, rd_length_prefix_bytes := 0\<rparr> = d1"
    by (simp add: d1_def)
  have "push_step ops js http d (frame c) = PushMore (if is_terminal ev then [] else [ev]) d2 []"
    unfolding step_frame [OF idle sized] complete_record_def
    using decoded st' by (simp add: Let_def reset d2)
  moreover have "frame c \<noteq> []"
    using sized by (auto simp: frame_def frame_sized_def)
  ultimately have "push ops js http d (frame c) = (Inr (if is_terminal ev then [] else [ev]), d2)"
    by (simp add: push_open [OF assms(2)] push_loop.simps [of ops js http d "frame c"])
  moreover have "idle d2 \<and> rd_opener d2 = opener \<and> rd_state d2 = st"
    by (simp add: d2 d1_def idle_def)
  ultimately show ?thesis by blast
qed

lemma next_state_open: "next_state (rd_state d) ev = Some st \<Longrightarrow> \<not> ended d"
  by (auto simp: next_state_def ended_def split: decode_state.splits)

lemma next_state_not_finished: "next_state st ev = Some st' \<Longrightarrow> st' \<noteq> Finished"
  by (auto simp: next_state_def split: decode_state.splits response_event.splits)

lemma idle_inv: "idle d \<Longrightarrow> rd_state d \<noteq> Finished \<Longrightarrow> decoder_inv d"
  by (simp add: idle_def decoder_inv_def decoder_ok_def)

text \<open>Plaintexts and the events they decode to.\<close>

definition decodes_to :: "json_ops \<Rightarrow> http_ops \<Rightarrow> bytes list \<Rightarrow> response_event list \<Rightarrow> bool" where
  "decodes_to js http ps evs = list_all2 (\<lambda>p ev. decode_plaintext_record js http p = Inr ev) ps evs"

context crypto_primitives
begin

lemma push_sealed_frames:
  assumes "chan.seals s ps = Some (cs, s')" and "decodes_to js http ps evs" and "list_all frame_sized cs"
    and "idle d" and "rd_opener d = opener_of s" and "run_states (rd_state d) evs = Some st"
    and "rd_state d \<noteq> Finished"
  shows "\<exists>d'. push ops js http d (concat (map frame cs)) = (Inr (filter (\<lambda>ev. \<not> is_terminal ev) evs), d') \<and>
    idle d' \<and> rd_opener d' = opener_of s' \<and> rd_state d' = st"
  using assms
proof (induction ps arbitrary: s cs evs d)
  case Nil
  then show ?case by (auto simp: decodes_to_def push_Nil)
next
  case (Cons p ps)
  from Cons.prems(1) obtain c s1 cs1 where seal: "seal_next ops s p = (Inr c, s1)"
      and rest: "chan.seals s1 ps = Some (cs1, s')" and cs: "cs = c # cs1"
    by (auto split: prod.splits sum.splits option.splits)
  from Cons.prems(2) obtain ev evs1 where evs: "evs = ev # evs1"
      and dec: "decode_plaintext_record js http p = Inr ev" "decodes_to js http ps evs1"
    by (auto simp: decodes_to_def list_all2_Cons1)
  from Cons.prems(6) obtain st1 where st1: "next_state (rd_state d) ev = Some st1" "run_states st1 evs1 = Some st"
    by (auto simp: evs split: option.splits)
  have "open_next ops (rd_opener d) c = (Inr p, opener_of s1)"
    using chan.unseal_sealed [OF seal] Cons.prems(5) by simp
  from push_frame [OF Cons.prems(4) next_state_open [OF st1(1)] _ this dec(1) st1(1)] Cons.prems(3)
  obtain d1 where d1: "push ops js http d (frame c) = (Inr (if is_terminal ev then [] else [ev]), d1)"
      "idle d1" "rd_opener d1 = opener_of s1" "rd_state d1 = st1"
    by (auto simp: cs)
  from Cons.IH [OF rest dec(2) _ d1(2,3)] Cons.prems(3) st1 d1(4) next_state_not_finished [OF st1(1)]
  obtain d' where d': "push ops js http d1 (concat (map frame cs1)) =
      (Inr (filter (\<lambda>ev. \<not> is_terminal ev) evs1), d')" "idle d'" "rd_opener d' = opener_of s'" "rd_state d' = st"
    by (auto simp: cs)
  have "push ops js http d (frame c @ concat (map frame cs1)) =
      (Inr (filter (\<lambda>ev. \<not> is_terminal ev) evs), d')"
    unfolding push_append [OF idle_inv [OF Cons.prems(4,7)]] d1(1) then_push_def
    using d'(1) by (simp add: evs)
  with d' show ?case by (auto simp: cs)
qed

end

section \<open>What a decoder has received\<close>

text \<open>
  The bytes a decoder holds back: the part of the length it has read and the part of the record. Together
  with the frames it has opened they are all bytes it was given.
\<close>

definition held :: "response_decoder \<Rightarrow> bytes" where
  "held d = take (rd_length_prefix_bytes d) (rd_length_prefix d) @ rd_ciphertext d"

definition length_read :: "response_decoder \<Rightarrow> bool" where
  "length_read d = (case rd_expected d of None \<Rightarrow> True
     | Some n \<Rightarrow> rd_length_prefix d = u32_to_be_bytes (of_nat n) \<and> 16 \<le> n \<and>
         n \<le> SDK_MAX_RESPONSE_RECORD_CIPHERTEXT_BYTES)"

context crypto_primitives
begin

definition received ::
    "json_ops \<Rightarrow> http_ops \<Rightarrow> resp_sealer \<Rightarrow> response_decoder \<Rightarrow> bytes \<Rightarrow> response_event list \<Rightarrow> bool" where
  "received js http s0 d input evs \<longleftrightarrow>
     (\<exists>ps cs s all. chan.seals s0 ps = Some (cs, s) \<and> rd_opener d = opener_of s \<and>
        input = concat (map frame cs) @ held d \<and> decodes_to js http ps all \<and>
        run_states AwaitingStart all = Some (rd_state d) \<and>
        evs = filter (\<lambda>ev. \<not> is_terminal ev) all \<and> length_read d)"

lemma received_new: "received js http s0 (decoder_new (opener_of s0)) [] []"
  unfolding received_def
  by (rule exI [of _ "[]"], rule exI [of _ "[]"], rule exI [of _ s0], rule exI [of _ "[]"])
     (simp add: decoder_new_def held_def decodes_to_def length_read_def)

text \<open>A byte that completes nothing is held back.\<close>

lemma received_held:
  assumes "received js http s0 d input evs" and "rd_opener d' = rd_opener d" and "rd_state d' = rd_state d"
    and "held d' = held d @ [x]" and "length_read d'"
  shows "received js http s0 d' (input @ [x]) evs"
  using assms unfolding received_def by (metis append.assoc)

text \<open>A byte that completes a record adds its frame, sealed next.\<close>

lemma received_record:
  assumes rcv: "received js http s0 d input evs" and ok: "decoder_ok d"
    and expected: "rd_expected d = Some n" and last: "length (rd_ciphertext d) + 1 = n"
    and step: "complete_record ops js http (d\<lparr>rd_ciphertext := rd_ciphertext d @ [x]\<rparr>) [] = PushMore evs' d' r"
  shows "received js http s0 d' (input @ [x]) (evs @ evs')"
proof -
  let ?c = "rd_ciphertext d @ [x]"
  define d0 where "d0 = d\<lparr>rd_ciphertext := [], rd_expected := None, rd_length_prefix_bytes := 0\<rparr>"
  obtain ev d1 where dec: "decode_record ops js http d0 ?c = (Inr ev, d1)"
      and out: "evs' = (if is_terminal ev then [] else [ev])"
      "d' = (if is_terminal ev then d1\<lparr>rd_state := PendingTerminal ev\<rparr> else d1)"
    using step by (auto simp: complete_record_def Let_def d0_def split: prod.splits sum.splits if_splits)
  from decode_record_Inr [OF dec] obtain p where p: "open_next ops (rd_opener d) ?c = (Inr p, rd_opener d1)"
      "decode_plaintext_record js http p = Inr ev" "rd_state d1 = Open"
      "next_state (rd_state d) ev = Some (if is_terminal ev then PendingTerminal ev else Open)"
    by (auto simp: d0_def)
  from rcv obtain ps cs s all where tr: "chan.seals s0 ps = Some (cs, s)" "rd_opener d = opener_of s"
      "input = concat (map frame cs) @ held d" "decodes_to js http ps all"
      "run_states AwaitingStart all = Some (rd_state d)" "evs = filter (\<lambda>ev. \<not> is_terminal ev) all"
      "length_read d"
    unfolding received_def by blast
  from chan.unseal_authentic [of s ?c p "rd_opener d1"] p(1) tr(2) obtain s1
    where s1: "seal_next ops s p = (Inr ?c, s1)" "rd_opener d1 = opener_of s1" by auto
  have frame: "held d @ [x] = frame ?c"
    using ok expected last tr(7)
    by (simp add: held_def frame_def length_read_def decoder_ok_def)
  have d': "held d' = []" "rd_opener d' = opener_of s1" "length_read d'"
      "rd_state d' = (if is_terminal ev then PendingTerminal ev else Open)"
    using decode_record_frame [OF dec] out p(3) s1(2)
    by (auto simp: held_def d0_def length_read_def)
  have "input @ [x] = concat (map frame (cs @ [?c])) @ held d'"
    using tr(3) frame d'(1) by simp
  moreover have "chan.seals s0 (ps @ [p]) = Some (cs @ [?c], s1)"
    by (rule chan.seals_snoc [OF tr(1) s1(1)])
  moreover have "decodes_to js http (ps @ [p]) (all @ [ev])"
    using tr(4) p(2) by (simp add: decodes_to_def list_all2_appendI)
  moreover have "run_states AwaitingStart (all @ [ev]) = Some (rd_state d')"
    using tr(5) p(4) d'(4) by (simp add: run_states_snoc)
  moreover have "evs @ evs' = filter (\<lambda>ev. \<not> is_terminal ev) (all @ [ev])"
    using tr(6) out(1) by simp
  ultimately show ?thesis
    unfolding received_def using d'(2,3) by blast
qed

lemma received_byte:
  assumes rcv: "received js http s0 d input evs" and inv: "decoder_inv d"
    and push: "push ops js http d [x] = (Inr evs', d')"
  shows "received js http s0 d' (input @ [x]) (evs @ evs')"
proof -
  have ok: "decoder_ok d" and open': "\<not> ended d"
    using inv push by (auto simp: decoder_inv_def push_def ended_def split: decode_state.splits)
  obtain r where step: "push_step ops js http d [x] = PushMore evs' d' r"
    using push by (auto simp: push_byte [OF ok open'] split: push_outcome.splits)
  show ?thesis
  proof (cases "rd_expected d")
    case None
    with ok have pb: "rd_length_prefix_bytes d < 4" "length (rd_length_prefix d) = 4" "rd_ciphertext d = []"
      by (auto simp: decoder_ok_def)
    then have held: "held (with_prefix_byte d x) = held d @ [x]"
      by (simp add: held_def with_prefix_byte_def take_Suc_conv_app_nth)
    show ?thesis
    proof (cases "rd_length_prefix_bytes d < 3")
      case True
      with step_prefix_byte(1) [OF None True pb(2), of ops js http x] step
      have "evs' = []" and "d' = with_prefix_byte d x" by simp_all
      with received_held [OF rcv, of d' x] held None show ?thesis
        by (simp add: with_prefix_byte_def length_read_def)
    next
      case False
      with pb have three: "rd_length_prefix_bytes d = 3" by simp
      define n where "n = unat (u32_from_be_bytes (rd_length_prefix (with_prefix_byte d x)))"
      have ct: "rd_ciphertext (with_prefix_byte d x) = []" and len: "length (rd_length_prefix (with_prefix_byte d x)) = 4"
        using pb by (simp_all add: with_prefix_byte_def)
      have sized: "16 \<le> n \<and> n \<le> SDK_MAX_RESPONSE_RECORD_CIPHERTEXT_BYTES"
        and "read_record ops js http ((with_prefix_byte d x)\<lparr>rd_expected := Some n\<rparr>) n [] = PushMore evs' d' r"
        using step None pb three
        by (auto simp: push_step_def read_prefix_byte Let_def SDK_CIPHERTEXT_LENGTH_BYTES_def RECORD_TAG_BYTES_def
            n_def split: if_splits)
      then have d': "evs' = []" "d' = (with_prefix_byte d x)\<lparr>rd_expected := Some n, rd_ciphertext := []\<rparr>"
        by (simp_all add: read_record_partial ct)
      have "rd_length_prefix (with_prefix_byte d x) = u32_to_be_bytes (of_nat n)"
        by (simp add: n_def u32_to_from_be_bytes [OF len])
      then have "length_read d'"
        using sized by (simp add: length_read_def d'(2))
      moreover have "held d' = held d @ [x]"
        using held ct by (simp add: held_def d'(2))
      ultimately show ?thesis
        using received_held [OF rcv, of d' x] d' by (simp add: with_prefix_byte_def)
    qed
  next
    case (Some n)
    with ok have less: "length (rd_ciphertext d) < n" by (simp add: decoder_ok_def)
    show ?thesis
    proof (cases "length (rd_ciphertext d) + 1 < n")
      case True
      with step_record_byte(1) [OF Some True, of ops js http x] step
      have d': "evs' = []" "d' = d\<lparr>rd_ciphertext := rd_ciphertext d @ [x]\<rparr>" by simp_all
      have "length_read d"
        using rcv by (auto simp: received_def)
      with received_held [OF rcv, of d' x] Some d' show ?thesis
        by (simp add: held_def length_read_def)
    next
      case False
      with less have last: "length (rd_ciphertext d) + 1 = n" by simp
      with step Some have "complete_record ops js http (d\<lparr>rd_ciphertext := rd_ciphertext d @ [x]\<rparr>) [] =
          PushMore evs' d' r"
        by (simp add: push_step_def read_record_full)
      from received_record [OF rcv ok Some last this] show ?thesis .
    qed
  qed
qed

lemma received_push:
  assumes "push ops js http (decoder_new (opener_of s0)) input = (Inr evs, d)"
  shows "received js http s0 d input evs"
  using assms
proof (induction input arbitrary: evs d rule: rev_induct)
  case Nil
  have "rd_state (decoder_new (opener_of s0)) \<noteq> Finished" by (simp add: decoder_new_def)
  with Nil show ?case by (auto simp: push_Nil received_new)
next
  case (snoc x input)
  let ?new = "decoder_new (opener_of s0)"
  from snoc.prems [unfolded push_append [OF decoder_inv_new]] obtain evs1 d1 evs2
    where one: "push ops js http ?new input = (Inr evs1, d1)" and two: "push ops js http d1 [x] = (Inr evs2, d)"
      and evs: "evs = evs1 @ evs2"
    by (auto simp: then_push_Inr)
  show ?case
    unfolding evs by (rule received_byte [OF snoc.IH [OF one] push_inv [OF decoder_inv_new one] two])
qed

text \<open>Runs of the sealer in the two forms.\<close>

lemma seals_seal_run: "chan.seals s ps = Some (cs, s') \<Longrightarrow> seal_run ops s ps = (map Inr cs, s')"
proof (induction ps arbitrary: s cs)
  case (Cons p ps)
  then obtain c s1 cs1 where "seal_next ops s p = (Inr c, s1)" "chan.seals s1 ps = Some (cs1, s')" "cs = c # cs1"
    by (auto split: prod.splits sum.splits option.splits)
  with Cons.IH [of s1 cs1] show ?case by simp
qed simp

lemma finish_Inr:
  assumes "fst (finish d) = Inr t"
  shows "rd_state d = PendingTerminal t \<and> held d = []"
  using assms by (auto simp: finish_def held_def split: if_splits decode_state.splits)

lemma stream_authentic:
  assumes "stream_result (response_stream ops js http (decoder_new (opener_of s0)) (map Some pieces)) = Inr evs"
  shows "\<exists>ps cs s. seal_run ops s0 ps = (map Inr cs, s) \<and> concat pieces = concat (map frame cs) \<and>
    decodes_to js http ps evs \<and> complete_response evs"
proof -
  let ?new = "decoder_new (opener_of s0)"
  have all: "push_all ops js http ?new pieces = push ops js http ?new (concat pieces)"
    by (rule push_all_concat) (rule decoder_inv_new)
  from assms obtain evs1 d t where push: "push ops js http ?new (concat pieces) = (Inr evs1, d)"
      and fin: "fst (finish d) = Inr t" and evs: "evs = evs1 @ [t]"
    by (auto simp: stream_result_push_all all map_result_def split: prod.splits sum.splits)
  from received_push [OF push] obtain ps cs s all where tr: "chan.seals s0 ps = Some (cs, s)"
      "concat pieces = concat (map frame cs) @ held d" "decodes_to js http ps all"
      "run_states AwaitingStart all = Some (rd_state d)" "evs1 = filter (\<lambda>ev. \<not> is_terminal ev) all"
    unfolding received_def by blast
  have st: "run_states AwaitingStart all = Some (PendingTerminal t)" and none: "held d = []"
    using finish_Inr [OF fin] tr(4) by simp_all
  have "all = evs"
    using run_states_complete [OF st] tr(5) evs by simp
  then show ?thesis
    using seals_seal_run [OF tr(1)] tr(2,3) run_states_complete [OF st] none by auto
qed

text \<open>Sealed and framed records of a complete response are read to a good end.\<close>

lemma stream_complete:
  assumes seals: "chan.seals s0 ps = Some (cs, s)" and dec: "decodes_to js http ps evs"
    and sized: "list_all frame_sized cs" and complete: "complete_response evs"
    and pieces: "concat pieces = concat (map frame cs)"
  shows "stream_result (response_stream ops js http (decoder_new (opener_of s0)) (map Some pieces)) = Inr evs"
proof -
  let ?new = "decoder_new (opener_of s0)"
  from complete obtain status headers chunks t
    where evs: "evs = EvStart status headers # map EvChunk chunks @ [t]" and t: "is_terminal t"
    unfolding complete_response_def by blast
  have "run_states Open (map EvChunk chunks @ [t]) = Some (PendingTerminal t)"
    using t by (induction chunks) (auto simp: next_state_def is_terminal_def split: response_event.splits)
  then have "run_states (rd_state ?new) evs = Some (PendingTerminal t)"
    by (simp add: evs decoder_new_def next_state_def)
  from push_sealed_frames [OF seals dec sized idle_new _ this] obtain d
    where d: "push ops js http ?new (concat pieces) = (Inr (filter (\<lambda>ev. \<not> is_terminal ev) evs), d)"
      "idle d" "rd_state d = PendingTerminal t"
    by (auto simp: decoder_new_def pieces)
  have "filter (\<lambda>ev. \<not> is_terminal ev) evs @ [t] = evs"
    using t by (simp add: evs is_terminal_def filter_id_conv)
  moreover have "push_all ops js http ?new pieces = push ops js http ?new (concat pieces)"
    by (rule push_all_concat) (rule decoder_inv_new)
  moreover have "fst (finish d) = Inr t"
    using d by (simp add: finish_def idle_def)
  ultimately show ?thesis
    using d(1) by (simp add: stream_result_push_all)
qed

end

section \<open>Properties\<close>


text \<open>A response of a start record and an end record, cut after its third byte.\<close>

definition ref_sealer :: resp_sealer where
  "ref_sealer = \<lparr>rs_session_id = replicate 16 7, rs_request_id = replicate 16 9,
     rs_key = replicate 32 1, rs_next_sequence = 0\<rparr>"

definition ref_plaintexts :: "bytes list" where
  "ref_plaintexts = [[1, 0, 200, 0], [3]]"

definition ref_sealed :: "nat \<Rightarrow> bytes" where
  "ref_sealed i = ref_plaintexts ! i @
     ref_tag (replicate 32 1) (response_nonce (of_nat i)) (response_aad (replicate 16 7) (replicate 16 9) (of_nat i))
       (ref_plaintexts ! i)"

definition ref_stream :: bytes where
  "ref_stream = concat (map frame [ref_sealed 0, ref_sealed 1])"

lemma ref_seals:
  "\<exists>s. ref_crypto.chan.seals ref_sealer ref_plaintexts = Some ([ref_sealed 0, ref_sealed 1], s)"
proof -
  have seal: "seal_detached_nonce ref_ops k a n m = Inr (m @ ref_tag k n a m)" if "length m \<le> 4" for k a n m
    using that by (simp add: seal_detached_nonce_def ref_ops_def ref_encrypt_def aead_max_def)
  show ?thesis
    by (simp add: ref_plaintexts_def ref_sealed_def seal_next_cases ref_sealer_def seal)
qed

lemma ref_decodes: "decodes_to ref_json ref_http ref_plaintexts [EvStart 200 [], EvEnd]"
  by (simp add: decodes_to_def ref_plaintexts_def decode_plaintext_record_def tag_defs sdk_framing_limits
      ref_json_def get_start_def be_value_def)

lemma ref_stream_result:
  "stream_result (response_stream ref_ops ref_json ref_http (decoder_new (opener_of ref_sealer))
     (map Some [take 3 ref_stream, drop 3 ref_stream])) = Inr [EvStart 200 [], EvEnd]"
proof -
  from ref_seals obtain s where
    seals: "ref_crypto.chan.seals ref_sealer ref_plaintexts = Some ([ref_sealed 0, ref_sealed 1], s)" by blast
  have "list_all frame_sized [ref_sealed 0, ref_sealed 1]"
    by (simp add: ref_sealed_def frame_sized_def ref_plaintexts_def sdk_framing_limits RECORD_TAG_BYTES_def)
  moreover have "complete_response [EvStart 200 [], EvEnd]"
    unfolding complete_response_def by (rule exI, rule exI, rule exI [of _ "[]"]) (simp add: is_terminal_def)
  ultimately show ?thesis
    by (rule ref_crypto.stream_complete [OF seals ref_decodes])
       (simp only: concat.simps append_Nil2 append_take_drop_id, simp only: ref_stream_def)
qed


end
