(* ===== verification/Transport_Session.thy ===== *)
theory Transport_Session
  imports Transport_Crypto "HOL-Library.Multiset"
begin

text \<open>
  Sessions of the server, \<open>transport_v2/session.rs\<close>: the replay registry of a session with the
  process-wide budget, the session with its expiry, and the store that holds the live sessions. A
  \<open>Session\<close> is shared through \<open>Arc\<close>; the model gives every allocation a number, keeps the allocations
  in a heap, and runs \<open>Drop for ReplayRegistry\<close> when the last reference goes. A mutex is poisoned by a
  panic of its holder; no operation here panics, so the flags only ever come from outside.
\<close>

section \<open>Replay registry\<close>

datatype replay_error = Duplicate | SessionCapacity | GlobalCapacity | ReplayUnavailable

record replay_budget =
  rb_claimed :: u64
  rb_capacity :: u64

definition budget_new :: "u64 \<Rightarrow> replay_budget" where
  "budget_new capacity = \<lparr>rb_claimed = 0, rb_capacity = capacity\<rparr>"

definition claim_one :: "replay_budget \<Rightarrow> (replay_error + unit) \<times> replay_budget" where
  "claim_one self =
     (if rb_claimed self < rb_capacity self
      then (Inr (), self\<lparr>rb_claimed := rb_claimed self + 1\<rparr>)
      else (Inl GlobalCapacity, self))"

text \<open>\<open>fetch_sub\<close> wraps around; the invariant of the system excludes it.\<close>

definition release :: "replay_budget \<Rightarrow> nat \<Rightarrow> replay_budget" where
  "release self n = (if n = 0 then self else self\<lparr>rb_claimed := rb_claimed self - of_nat n\<rparr>)"

record replay_registry =
  rr_request_ids :: "request_id hash_set"
  rr_capacity :: nat
  rr_poisoned :: bool

definition registry_new :: "nat \<Rightarrow> replay_registry" where
  "registry_new capacity = \<lparr>rr_request_ids = {||}, rr_capacity = capacity, rr_poisoned = False\<rparr>"

definition claim ::
    "replay_registry \<Rightarrow> replay_budget \<Rightarrow> request_id \<Rightarrow>
      (replay_error + unit) \<times> replay_registry \<times> replay_budget" where
  "claim self budget rid =
     (if rr_poisoned self then (Inl ReplayUnavailable, self, budget)
      else if rid |\<in>| rr_request_ids self then (Inl Duplicate, self, budget)
      else if fcard (rr_request_ids self) \<ge> rr_capacity self then (Inl SessionCapacity, self, budget)
      else case claim_one budget of
        (Inl e, budget') \<Rightarrow> (Inl e, self, budget')
      | (Inr _, budget') \<Rightarrow>
          (Inr (), self\<lparr>rr_request_ids := finsert rid (rr_request_ids self)\<rparr>, budget'))"

definition registry_drop :: "replay_registry \<Rightarrow> replay_budget \<Rightarrow> replay_budget" where
  "registry_drop self budget = release budget (fcard (rr_request_ids self))"

section \<open>Sessions\<close>

datatype session_error =
  InvalidLifetime | SessionExpired | SessionCrypto crypto_error | SessionReplay replay_error

record session =
  se_secrets :: session_secrets
  se_routing_key :: bytes
  se_expires_at :: instant
  se_replay :: replay_registry

definition session_new_at ::
    "session_secrets \<Rightarrow> bytes \<Rightarrow> instant \<Rightarrow> duration \<Rightarrow> nat \<Rightarrow> session_error + session" where
  "session_new_at secrets routing_key now lifetime replay_capacity =
     (if lifetime = 0 then Inl InvalidLifetime
      else and_then (ok_or InvalidLifetime (instant_checked_add now lifetime)) (\<lambda>expires_at.
        Inr \<lparr>se_secrets = secrets, se_routing_key = routing_key, se_expires_at = expires_at,
             se_replay = registry_new replay_capacity\<rparr>))"

definition session_id_of :: "session \<Rightarrow> session_id" where
  "session_id_of self = sec_session_id (se_secrets self)"

definition matches_routing_key :: "session \<Rightarrow> bytes \<Rightarrow> bool" where
  "matches_routing_key self routing_key \<longleftrightarrow> se_routing_key self = routing_key"

definition is_expired :: "session \<Rightarrow> instant \<Rightarrow> bool" where
  "is_expired self now \<longleftrightarrow> se_expires_at self \<le> now"

definition claim_request_at ::
    "session \<Rightarrow> replay_budget \<Rightarrow> request_id \<Rightarrow> instant \<Rightarrow> (session_error + unit) \<times> session \<times> replay_budget" where
  "claim_request_at self budget rid now =
     (if is_expired self now then (Inl SessionExpired, self, budget)
      else let (r, replay, budget') = claim (se_replay self) budget rid
        in (map_err SessionReplay r, self\<lparr>se_replay := replay\<rparr>, budget'))"

text \<open>The clock is read after the record has been opened.\<close>

definition open_and_admit ::
    "'sk crypto_ops \<Rightarrow> session \<Rightarrow> replay_budget \<Rightarrow> bytes \<Rightarrow> instant \<Rightarrow>
      (session_error + (request_id \<times> bytes)) \<times> session \<times> replay_budget" where
  "open_and_admit ops self budget rec now =
     (case decrypt_request ops (se_secrets self) rec of
        Inl e \<Rightarrow> (Inl (SessionCrypto e), self, budget)
      | Inr (rid, plaintext) \<Rightarrow>
          (let (r, self', budget') = claim_request_at self budget rid now
           in (and_then r (\<lambda>_. Inr (rid, plaintext)), self', budget')))"

text \<open>\<open>AdmittedRequest::begin_response\<close> for the session that admitted the request.\<close>

definition begin_response ::
    "'sk crypto_ops \<Rightarrow> session \<Rightarrow> request_id \<Rightarrow> crypto_error + resp_sealer" where
  "begin_response ops admitting_session rid = response_sealer ops (se_secrets admitting_session) rid"

section \<open>Store\<close>

datatype store_error = StoreUnavailable | Collision | StoreFull | StoreMissing | StoreExpired

type_synonym session_heap = "(nat, session) hash_map"

record session_store =
  sto_sessions :: "(session_id, nat) hash_map"
  sto_capacity :: nat
  sto_poisoned :: bool

definition store_new :: "nat \<Rightarrow> session_store" where
  "store_new capacity = \<lparr>sto_sessions = fmempty, sto_capacity = capacity, sto_poisoned = False\<rparr>"

text \<open>
  Every store operation returns the references it drops, the one it was handed included when it does not
  keep it.
\<close>

definition heap_session :: "session_heap \<Rightarrow> nat \<Rightarrow> session" where
  "heap_session heap r = the (fmlookup heap r)"

definition insert_at ::
    "session_heap \<Rightarrow> session_store \<Rightarrow> nat \<Rightarrow> instant \<Rightarrow> (store_error + unit) \<times> session_store \<times> nat list" where
  "insert_at heap self r now =
     (let s = heap_session heap r; sid = session_id_of s in
      if is_expired s now then (Inl StoreExpired, self, [r])
      else if sto_poisoned self then (Inl StoreUnavailable, self, [r])
      else
        let existing = fmlookup (sto_sessions self) sid in
        if (case existing of None \<Rightarrow> False | Some e \<Rightarrow> \<not> is_expired (heap_session heap e) now)
        then (Inl Collision, self, [r])
        else
          let reclaimed = (case existing of None \<Rightarrow> [] | Some e \<Rightarrow> [e]);
              sessions = (case existing of None \<Rightarrow> sto_sessions self | Some e \<Rightarrow> fmdrop sid (sto_sessions self)) in
          if map_len sessions \<ge> sto_capacity self
          then (Inl StoreFull, self\<lparr>sto_sessions := sessions\<rparr>, reclaimed @ [r])
          else (Inr (), self\<lparr>sto_sessions := fmupd sid r sessions\<rparr>, reclaimed))"

definition get_at ::
    "session_heap \<Rightarrow> session_store \<Rightarrow> session_id \<Rightarrow> instant \<Rightarrow> (store_error + nat) \<times> session_store \<times> nat list" where
  "get_at heap self sid now =
     (if sto_poisoned self then (Inl StoreUnavailable, self, [])
      else case fmlookup (sto_sessions self) sid of
        None \<Rightarrow> (Inl StoreMissing, self, [])
      | Some r \<Rightarrow>
          if is_expired (heap_session heap r) now
          then (Inl StoreExpired, self\<lparr>sto_sessions := fmdrop sid (sto_sessions self)\<rparr>, [r])
          else (Inr r, self, []))"

definition store_remove ::
    "session_store \<Rightarrow> session_id \<Rightarrow> (store_error + nat option) \<times> session_store" where
  "store_remove self sid =
     (if sto_poisoned self then (Inl StoreUnavailable, self)
      else (Inr (fmlookup (sto_sessions self) sid),
            self\<lparr>sto_sessions := fmdrop sid (sto_sessions self)\<rparr>))"

text \<open>
  The purge removes the expired identifiers one after the other. The order of the hash map is unspecified
  and does not matter for the outcome; \<open>ids\<close> is the order it happens to have.
\<close>

definition purge_expired ::
    "session_heap \<Rightarrow> session_store \<Rightarrow> session_id list \<Rightarrow> instant \<Rightarrow> (store_error + nat) \<times> session_store \<times> nat list" where
  "purge_expired heap self ids now =
     (if sto_poisoned self then (Inl StoreUnavailable, self, [])
      else let expired_ids = filter (\<lambda>sid. case fmlookup (sto_sessions self) sid of
                 None \<Rightarrow> False | Some r \<Rightarrow> is_expired (heap_session heap r) now) ids;
               expired = map (\<lambda>sid. the (fmlookup (sto_sessions self) sid)) expired_ids in
        (Inr (length expired),
         self\<lparr>sto_sessions := fold fmdrop expired_ids (sto_sessions self)\<rparr>, expired))"

definition store_len :: "session_store \<Rightarrow> store_error + nat" where
  "store_len self = (if sto_poisoned self then Inl StoreUnavailable else Inr (map_len (sto_sessions self)))"

section \<open>The system of sessions\<close>

text \<open>
  All sessions of the process with their references: the heap of allocations, the store's references,
  and the references held by handlers and admitted requests. Dropping a reference frees the session when
  it was the last one.
\<close>

record session_system =
  sy_heap :: session_heap
  sy_store :: session_store
  sy_held :: "nat multiset"
  sy_budget :: replay_budget
  sy_next :: nat

definition system_new :: "nat \<Rightarrow> u64 \<Rightarrow> session_system" where
  "system_new max_sessions budget_capacity = \<lparr>sy_heap = fmempty, sy_store = store_new max_sessions,
     sy_held = {#}, sy_budget = budget_new budget_capacity, sy_next = 0\<rparr>"

definition referenced :: "session_system \<Rightarrow> nat \<Rightarrow> bool" where
  "referenced sys r \<longleftrightarrow> r |\<in>| fmran (sto_sessions (sy_store sys)) \<or> r \<in># sy_held sys"

definition drop_ref :: "nat \<Rightarrow> session_system \<Rightarrow> session_system" where
  "drop_ref r sys =
     (case fmlookup (sy_heap sys) r of
        None \<Rightarrow> sys
      | Some s \<Rightarrow>
          if referenced sys r then sys
          else sys\<lparr>sy_heap := fmdrop r (sy_heap sys), sy_budget := registry_drop (se_replay s) (sy_budget sys)\<rparr>)"

text \<open>The end of \<open>create_session\<close>: a session is allocated and handed to the store.\<close>

definition sys_create ::
    "session_system \<Rightarrow> session_secrets \<Rightarrow> bytes \<Rightarrow> duration \<Rightarrow> nat \<Rightarrow> instant \<Rightarrow> instant \<Rightarrow>
      (session_error + store_error + unit) \<times> session_system" where
  "sys_create sys secrets routing_key lifetime replay_capacity now now' =
     (case session_new_at secrets routing_key now lifetime replay_capacity of
        Inl e \<Rightarrow> (Inl e, sys)
      | Inr s \<Rightarrow>
          let r = sy_next sys;
              sys1 = sys\<lparr>sy_heap := fmupd r s (sy_heap sys), sy_next := Suc r\<rparr>;
              (result, store, dropped) = insert_at (sy_heap sys1) (sy_store sys1) r now' in
          (Inr result, fold drop_ref dropped (sys1\<lparr>sy_store := store\<rparr>)))"

definition sys_get :: "session_system \<Rightarrow> session_id \<Rightarrow> instant \<Rightarrow> (store_error + nat) \<times> session_system" where
  "sys_get sys sid now =
     (let (result, store, dropped) = get_at (sy_heap sys) (sy_store sys) sid now;
          sys1 = fold drop_ref dropped (sys\<lparr>sy_store := store\<rparr>) in
      (result, case result of Inl e \<Rightarrow> sys1 | Inr r \<Rightarrow> sys1\<lparr>sy_held := add_mset r (sy_held sys1)\<rparr>))"

text \<open>A request on a session its handler holds; an admitted request takes a reference of its own.\<close>

definition sys_admit ::
    "'sk crypto_ops \<Rightarrow> session_system \<Rightarrow> nat \<Rightarrow> bytes \<Rightarrow> instant \<Rightarrow>
      (session_error + (request_id \<times> bytes)) \<times> session_system" where
  "sys_admit ops sys r rec now =
     (let (result, s, budget) = open_and_admit ops (heap_session (sy_heap sys) r) (sy_budget sys) rec now;
          sys1 = sys\<lparr>sy_heap := fmupd r s (sy_heap sys), sy_budget := budget\<rparr> in
      (result, case result of Inl e \<Rightarrow> sys1 | Inr _ \<Rightarrow> sys1\<lparr>sy_held := add_mset r (sy_held sys1)\<rparr>))"

definition sys_release :: "session_system \<Rightarrow> nat \<Rightarrow> session_system" where
  "sys_release sys r = drop_ref r (sys\<lparr>sy_held := sy_held sys - {#r#}\<rparr>)"

definition sys_remove :: "session_system \<Rightarrow> session_id \<Rightarrow> (store_error + nat option) \<times> session_system" where
  "sys_remove sys sid =
     (let (result, store) = store_remove (sy_store sys) sid;
          sys1 = sys\<lparr>sy_store := store\<rparr> in
      (result, case result of Inr (Some r) \<Rightarrow> sys1\<lparr>sy_held := add_mset r (sy_held sys1)\<rparr> | _ \<Rightarrow> sys1))"

definition sys_purge :: "session_system \<Rightarrow> session_id list \<Rightarrow> instant \<Rightarrow> (store_error + nat) \<times> session_system" where
  "sys_purge sys ids now =
     (let (result, store, dropped) = purge_expired (sy_heap sys) (sy_store sys) ids now in
      (result, fold drop_ref dropped (sys\<lparr>sy_store := store\<rparr>)))"

text \<open>
  Steps of the process, labelled with what they did. Handlers interleave freely: each step is one atomic
  operation of \<open>session.rs\<close>, at any time.
\<close>

datatype session_event =
  Creation | Lookup "store_error + nat" | Admission nat "session_error + (request_id \<times> bytes)"
  | Release nat | Removal session_id | Purge

inductive sys_step ::
    "'sk crypto_ops \<Rightarrow> session_system \<Rightarrow> session_event \<Rightarrow> session_system \<Rightarrow> bool" for ops where
  step_create: "sys_step ops sys Creation (snd (sys_create sys secrets routing_key lifetime capacity now now'))"
| step_get: "sys_step ops sys (Lookup (fst (sys_get sys sid now))) (snd (sys_get sys sid now))"
| step_admit: "r \<in># sy_held sys \<Longrightarrow>
    sys_step ops sys (Admission r (fst (sys_admit ops sys r rec now))) (snd (sys_admit ops sys r rec now))"
| step_release: "r \<in># sy_held sys \<Longrightarrow> sys_step ops sys (Release r) (sys_release sys r)"
| step_remove: "sys_step ops sys (Removal sid) (snd (sys_remove sys sid))"
| step_purge: "distinct ids \<Longrightarrow> set ids = fset (fmdom (sto_sessions (sy_store sys))) \<Longrightarrow>
    sys_step ops sys Purge (snd (sys_purge sys ids now))"

inductive sys_run ::
    "'sk crypto_ops \<Rightarrow> session_system \<Rightarrow> session_event list \<Rightarrow> session_system \<Rightarrow> bool" for ops where
  run_start: "sys_run ops sys [] sys"
| run_step: "sys_run ops sys tr sys1 \<Longrightarrow> sys_step ops sys1 ev sys2 \<Longrightarrow> sys_run ops sys (tr @ [ev]) sys2"

end
