(* ===== verification/Transport_Gateway.thy ===== *)
theory Transport_Gateway
  imports Transport_Framing Transport_Session
begin

text \<open>
  The gateway of the transport, \<open>transport_v2/gateway.rs\<close>: the handshake and the request endpoint with
  their outer checks, the admission of a request, its hand-over to the application, and the encrypted
  response stream. The application router, the attestation service, the JSON form of a handshake and the
  randomness are arguments. What other handlers do to the sessions while this one waits for a body or for
  the application is an argument as well, so that a handler is modelled in every interleaving.
\<close>

section \<open>Outer requests and errors\<close>

definition SESSION_LIFETIME :: duration where
  "SESSION_LIFETIME = from_secs (60 * 60)"

definition MAX_SESSION_REQUEST_BYTES :: nat where
  "MAX_SESSION_REQUEST_BYTES = 4 * 1024"

definition MAX_SESSIONS :: nat where
  "MAX_SESSIONS = 2097152"

definition MAX_REPLAY_IDS_PER_SESSION :: nat where
  "MAX_REPLAY_IDS_PER_SESSION = 1048576"

definition MAX_REPLAY_IDS_PROCESS_WIDE :: nat where
  "MAX_REPLAY_IDS_PROCESS_WIDE = 16777216"

definition MAX_REQUEST_RECORD_BYTES :: nat where
  "MAX_REQUEST_RECORD_BYTES = REQUEST_ID_BYTES + MAX_ENCODED_REQUEST_BYTES + RECORD_TAG_BYTES"

text \<open>
  Header maps list name and value in order, names in lower case. A body is \<open>None\<close> when reading it fails.
\<close>

type_synonym header_map = "(string \<times> string) list"

definition get_all :: "header_map \<Rightarrow> string \<Rightarrow> string list" where
  "get_all headers name = map snd (filter (\<lambda>(n, v). n = name) headers)"

record outer_request =
  or_headers :: header_map
  or_query :: "string option"
  or_body :: "bytes option"

datatype outer_error =
  OuterBadRequest | OuterSessionNotFound | OuterRequestDecryptionFailed | OuterPayloadTooLarge
  | OuterUnsupportedMediaType | OuterUnavailable

text \<open>Status and extra headers of \<open>OuterError::into_response\<close>.\<close>

definition outer_response :: "outer_error \<Rightarrow> nat \<times> header_map" where
  "outer_response e =
     (let status = (case e of
            OuterPayloadTooLarge \<Rightarrow> 413 | OuterUnsupportedMediaType \<Rightarrow> 415 | OuterUnavailable \<Rightarrow> 503 | _ \<Rightarrow> 400);
          recovery_code = (case e of
            OuterSessionNotFound \<Rightarrow> Some ''session_not_found''
          | OuterRequestDecryptionFailed \<Rightarrow> Some ''request_decryption_failed''
          | _ \<Rightarrow> None) in
      (status, case recovery_code of
         None \<Rightarrow> []
       | Some code \<Rightarrow> [(''x-opensecret-error-contract'', ''1''), (''x-opensecret-error-code'', code)]))"

definition require_content_type :: "header_map \<Rightarrow> string \<Rightarrow> outer_error + unit" where
  "require_content_type headers expected =
     (case get_all headers ''content-type'' of
        [actual] \<Rightarrow> if actual \<noteq> expected then Inl OuterUnsupportedMediaType else Inr ()
      | _ \<Rightarrow> Inl OuterUnsupportedMediaType)"

definition reject_forbidden_outer_headers :: "header_map \<Rightarrow> outer_error + unit" where
  "reject_forbidden_outer_headers headers =
     (if list_ex (\<lambda>name. get_all headers name \<noteq> [])
          [''authorization'', ''proxy-authorization'', ''cookie'', ''content-encoding'']
      then Inl OuterBadRequest else Inr ())"

definition reject_declared_oversize :: "http_ops \<Rightarrow> header_map \<Rightarrow> nat \<Rightarrow> outer_error + unit" where
  "reject_declared_oversize http headers maximum =
     (case get_all headers ''content-length'' of
        [] \<Rightarrow> Inr ()
      | [v] \<Rightarrow>
          and_then (ok_or OuterBadRequest (Option.bind (http_to_str http v) parse_usize)) (\<lambda>declared.
            if declared > maximum then Inl OuterPayloadTooLarge else Inr ())
      | _ \<Rightarrow> Inl OuterBadRequest)"

definition read_bounded_body :: "bytes option \<Rightarrow> nat \<Rightarrow> outer_error + bytes" where
  "read_bounded_body body maximum =
     (case body of
        None \<Rightarrow> Inl OuterPayloadTooLarge
      | Some b \<Rightarrow> if length b > maximum then Inl OuterPayloadTooLarge else Inr b)"

definition decode_canonical_fixed :: "codec_ops \<Rightarrow> nat \<Rightarrow> string \<Rightarrow> outer_error + bytes" where
  "decode_canonical_fixed cod n encoded =
     and_then (ok_or OuterBadRequest (b64_decode cod encoded)) (\<lambda>decoded.
       if length decoded \<noteq> n then Inl OuterBadRequest
       else if b64_encode cod decoded \<noteq> encoded then Inl OuterBadRequest
       else Inr decoded)"

definition parse_outer_session_id :: "codec_ops \<Rightarrow> http_ops \<Rightarrow> header_map \<Rightarrow> outer_error + session_id" where
  "parse_outer_session_id cod http headers =
     (case get_all headers ''x-session-id'' of
        [v] \<Rightarrow>
          and_then (ok_or OuterBadRequest (http_to_str http v)) (\<lambda>text_form.
            map_err (\<lambda>_. OuterBadRequest) (session_id_from_str cod text_form))
      | _ \<Rightarrow> Inl OuterBadRequest)"

definition parse_outer_routing_key :: "codec_ops \<Rightarrow> http_ops \<Rightarrow> header_map \<Rightarrow> outer_error + bytes" where
  "parse_outer_routing_key cod http headers =
     (case get_all headers ''x-opensecret-routing-key'' of
        [v] \<Rightarrow>
          and_then (ok_or OuterBadRequest (http_to_str http v))
            (decode_canonical_fixed cod HANDSHAKE_CHALLENGE_BYTES)
      | _ \<Rightarrow> Inl OuterBadRequest)"

definition map_session_insert_error :: "store_error \<Rightarrow> outer_error" where
  "map_session_insert_error e = OuterUnavailable"

definition map_session_lookup_error :: "store_error \<Rightarrow> outer_error" where
  "map_session_lookup_error e =
     (case e of StoreMissing \<Rightarrow> OuterSessionNotFound | StoreExpired \<Rightarrow> OuterSessionNotFound
      | _ \<Rightarrow> OuterUnavailable)"

definition map_admission_error :: "session_error \<Rightarrow> outer_error" where
  "map_admission_error e =
     (case e of
        SessionExpired \<Rightarrow> OuterSessionNotFound
      | SessionCrypto Authentication \<Rightarrow> OuterRequestDecryptionFailed
      | SessionReplay GlobalCapacity \<Rightarrow> OuterUnavailable
      | SessionReplay ReplayUnavailable \<Rightarrow> OuterUnavailable
      | SessionReplay _ \<Rightarrow> OuterBadRequest
      | SessionCrypto _ \<Rightarrow> OuterBadRequest
      | InvalidLifetime \<Rightarrow> OuterUnavailable)"

text \<open>A session that does not match the routing key is dropped again.\<close>

definition get_routed_session ::
    "session_system \<Rightarrow> session_id \<Rightarrow> bytes \<Rightarrow> instant \<Rightarrow> (outer_error + nat) \<times> session_system" where
  "get_routed_session sys sid routing_key now =
     (case sys_get sys sid now of
        (Inl e, sys') \<Rightarrow> (Inl (map_session_lookup_error e), sys')
      | (Inr r, sys') \<Rightarrow>
          if matches_routing_key (heap_session (sy_heap sys') r) routing_key then (Inr r, sys')
          else (Inl OuterBadRequest, sys_release sys' r))"

section \<open>The handshake\<close>

record create_session_request =
  cs_version :: u8
  cs_challenge :: string
  cs_client_public_key :: string

record create_session_response =
  cr_version :: u8
  cr_session_id :: string
  cr_attestation_document :: string
  cr_expires_in_seconds :: nat

text \<open>
  \<open>attest\<close> is \<open>generate_attestation_document\<close> on user data, public key and nonce, \<open>read_create\<close> the JSON
  reader of the request. The session is created at \<open>now\<close> and inserted at \<open>now'\<close>.
\<close>

definition handshake_inputs ::
    "codec_ops \<Rightarrow> http_ops \<Rightarrow> (bytes \<Rightarrow> create_session_request option) \<Rightarrow> outer_request \<Rightarrow>
      outer_error + (bytes \<times> bytes)" where
  "handshake_inputs cod http read_create request =
     and_then (require_content_type (or_headers request) ''application/json'') (\<lambda>_.
     and_then (reject_forbidden_outer_headers (or_headers request)) (\<lambda>_.
     if or_query request \<noteq> None then Inl OuterBadRequest
     else
     and_then (parse_outer_routing_key cod http (or_headers request)) (\<lambda>routing_key.
     and_then (reject_declared_oversize http (or_headers request) MAX_SESSION_REQUEST_BYTES) (\<lambda>_.
     and_then (read_bounded_body (or_body request) MAX_SESSION_REQUEST_BYTES) (\<lambda>body.
     and_then (ok_or OuterBadRequest (read_create body)) (\<lambda>payload.
     if cs_version payload \<noteq> VERSION then Inl OuterBadRequest
     else
     and_then (decode_canonical_fixed cod HANDSHAKE_CHALLENGE_BYTES (cs_challenge payload)) (\<lambda>challenge.
     if challenge \<noteq> routing_key then Inl OuterBadRequest
     else
     and_then (decode_canonical_fixed cod X25519_PUBLIC_KEY_BYTES (cs_client_public_key payload))
       (\<lambda>client_public_key. Inr (challenge, client_public_key)))))))))"

definition create_session ::
    "'sk crypto_ops \<Rightarrow> codec_ops \<Rightarrow> http_ops \<Rightarrow> (bytes \<Rightarrow> create_session_request option) \<Rightarrow>
      (bytes \<Rightarrow> bytes \<Rightarrow> bytes \<Rightarrow> bytes option) \<Rightarrow> 'sk \<Rightarrow> instant \<Rightarrow> instant \<Rightarrow> outer_request \<Rightarrow>
      session_system \<Rightarrow> (outer_error + create_session_response) \<times> session_system" where
  "create_session ops cod http read_create attest server_secret now now' request sys =
     (let prepared =
        and_then (handshake_inputs cod http read_create request) (\<lambda>(challenge, client_public_key).
        let server_public_key = cr_public ops server_secret;
            transcript = \<lparr>ht_challenge = challenge, ht_client_public_key = client_public_key,
              ht_server_public_key = server_public_key\<rparr> in
        and_then (map_err (\<lambda>_. OuterBadRequest) (derive_server_session ops server_secret transcript)) (\<lambda>secrets.
        and_then (ok_or OuterUnavailable
            (attest (attestation_user_data client_public_key) server_public_key challenge)) (\<lambda>document.
        Inr (challenge, secrets, document)))) in
      case prepared of
        Inl e \<Rightarrow> (Inl e, sys)
      | Inr (challenge, secrets, document) \<Rightarrow>
          (case sys_create sys secrets challenge SESSION_LIFETIME MAX_REPLAY_IDS_PER_SESSION now now' of
             (Inl e, sys') \<Rightarrow> (Inl OuterUnavailable, sys')
           | (Inr (Inl e), sys') \<Rightarrow> (Inl (map_session_insert_error e), sys')
           | (Inr (Inr _), sys') \<Rightarrow>
               (Inr \<lparr>cr_version = VERSION, cr_session_id = session_id_to_string cod (sec_session_id secrets),
                     cr_attestation_document = b64_encode cod document,
                     cr_expires_in_seconds = as_secs SESSION_LIFETIME\<rparr>, sys')))"

section \<open>The application's side\<close>

record application_request =
  ar_method :: string
  ar_uri :: uri
  ar_headers :: header_map
  ar_body :: bytes
  ar_session_id :: session_id
  ar_request_id :: request_id
  ar_credential :: "credential option"
  ar_cache_namespace_root :: "bytes option"

fun append_headers :: "http_ops \<Rightarrow> logical_header list \<Rightarrow> envelope_error + header_map" where
  "append_headers http [] = Inr []"
| "append_headers http (h # hs) =
     and_then (ok_or InvalidHeaderName (http_header_name http (lh_name h))) (\<lambda>name.
       if \<not> http_header_value http (lh_value h) then Inl InvalidHeaderValue
       else and_then (append_headers http hs) (\<lambda>rest. Inr ((name, lh_value h) # rest)))"

definition build_application_request ::
    "http_ops \<Rightarrow> request_envelope \<Rightarrow> session_id \<Rightarrow> request_id \<Rightarrow> envelope_error + application_request" where
  "build_application_request http envelope sid rid =
     and_then (ok_or InvalidMethod (http_method http (env_method envelope))) (\<lambda>m.
     and_then (ok_or InvalidTarget (http_uri http (env_target envelope))) (\<lambda>u.
     and_then (append_headers http (env_headers envelope)) (\<lambda>headers.
     Inr \<lparr>ar_method = m, ar_uri = u, ar_headers = headers,
          ar_body = (case env_body envelope of None \<Rightarrow> [] | Some b \<Rightarrow> b),
          ar_session_id = sid, ar_request_id = rid, ar_credential = env_credential envelope,
          ar_cache_namespace_root = env_cache_namespace_root envelope\<rparr>)))"

text \<open>A frame of the application's body: data, trailers, another kind, or the body's error.\<close>

datatype body_frame = DataFrame bytes | TrailersFrame | OtherFrame | BodyError

record app_response =
  ap_status :: u16
  ap_headers :: header_map
  ap_body :: "body_frame list"

section \<open>The encrypted response\<close>

datatype seal_frame_error = SealFraming framing_error | SealCrypto crypto_error

definition seal_framed ::
    "'sk crypto_ops \<Rightarrow> json_ops \<Rightarrow> http_ops \<Rightarrow> resp_sealer \<Rightarrow> response_record \<Rightarrow>
      (seal_frame_error + bytes) \<times> resp_sealer" where
  "seal_framed ops js http writer rec =
     (case record_encode js http rec of
        Inl e \<Rightarrow> (Inl (SealFraming e), writer)
      | Inr plaintext \<Rightarrow>
          (case seal_next ops writer plaintext of
             (Inl e, writer') \<Rightarrow> (Inl (SealCrypto e), writer')
           | (Inr ciphertext, writer') \<Rightarrow> (map_err SealFraming (frame_ciphertext ciphertext), writer')))"

text \<open>The logical headers of a response.\<close>

definition logical_response_headers :: "http_ops \<Rightarrow> header_map \<Rightarrow> logical_header list" where
  "logical_response_headers http headers =
     List.map_filter (\<lambda>(name, v).
       Option.bind (http_to_str http v) (\<lambda>text_form.
         case logical_header_new http name text_form of Inl _ \<Rightarrow> None | Inr h \<Rightarrow> Some h)) headers"

text \<open>
  The stream after its first item: the frames it yields and the error that cuts it off, if any. A body
  error, trailers and frames of another kind end the stream with an error record.
\<close>

fun seal_chunks ::
    "'sk crypto_ops \<Rightarrow> json_ops \<Rightarrow> http_ops \<Rightarrow> resp_sealer \<Rightarrow> bytes list \<Rightarrow>
      (bytes list \<times> seal_frame_error option) \<times> resp_sealer" where
  "seal_chunks ops js http writer [] = (([], None), writer)"
| "seal_chunks ops js http writer (c # cs) =
     (case seal_framed ops js http writer (RecChunk c) of
        (Inl e, writer') \<Rightarrow> (([], Some e), writer')
      | (Inr item, writer') \<Rightarrow>
          (let ((items, failure), writer'') = seal_chunks ops js http writer' cs
           in ((item # items, failure), writer'')))"

definition seal_terminal ::
    "'sk crypto_ops \<Rightarrow> json_ops \<Rightarrow> http_ops \<Rightarrow> resp_sealer \<Rightarrow> response_record \<Rightarrow>
      bytes list \<times> seal_frame_error option" where
  "seal_terminal ops js http writer rec =
     (case fst (seal_framed ops js http writer rec) of Inl e \<Rightarrow> ([], Some e) | Inr item \<Rightarrow> ([item], None))"

fun stream_frames ::
    "'sk crypto_ops \<Rightarrow> json_ops \<Rightarrow> http_ops \<Rightarrow> resp_sealer \<Rightarrow> body_frame list \<Rightarrow>
      bytes list \<times> seal_frame_error option" where
  "stream_frames ops js http writer [] = seal_terminal ops js http writer RecEnd"
| "stream_frames ops js http writer (BodyError # frames) =
     seal_terminal ops js http writer (RecError ''application_body_failed'')"
| "stream_frames ops js http writer (TrailersFrame # frames) =
     seal_terminal ops js http writer (RecError ''application_trailers_unsupported'')"
| "stream_frames ops js http writer (OtherFrame # frames) =
     seal_terminal ops js http writer (RecError ''application_frame_unsupported'')"
| "stream_frames ops js http writer (DataFrame b # frames) =
     (case seal_chunks ops js http writer (slice_chunks MAX_RESPONSE_CHUNK_BYTES b) of
        ((items, Some e), _) \<Rightarrow> (items, Some e)
      | ((items, None), writer') \<Rightarrow>
          (let (later, failure) = stream_frames ops js http writer' frames in (items @ later, failure)))"

text \<open>
  \<open>encrypted_response\<close> for an admitted request of a session: the start record is sealed before the outer
  response exists, the rest as the body arrives.
\<close>

definition encrypted_response ::
    "'sk crypto_ops \<Rightarrow> json_ops \<Rightarrow> http_ops \<Rightarrow> session \<Rightarrow> request_id \<Rightarrow> app_response \<Rightarrow>
      outer_error + (bytes list \<times> seal_frame_error option)" where
  "encrypted_response ops js http admitting_session rid response =
     (let (start, body) =
        (case response_start_new http (ap_status response)
            (logical_response_headers http (ap_headers response)) of
           Inr start \<Rightarrow> (start, ap_body response)
         | Inl _ \<Rightarrow> (\<lparr>rst_status = 500, rst_headers = []\<rparr>, [])) in
      and_then (map_err (\<lambda>_. OuterUnavailable) (begin_response ops admitting_session rid)) (\<lambda>writer.
        case seal_framed ops js http writer (RecStart start) of
          (Inl _, _) \<Rightarrow> Inl OuterUnavailable
        | (Inr item, writer') \<Rightarrow>
            (let (items, failure) = stream_frames ops js http writer' body in Inr (item # items, failure))))"

section \<open>The request endpoint\<close>

definition request_inputs ::
    "codec_ops \<Rightarrow> http_ops \<Rightarrow> outer_request \<Rightarrow> outer_error + (session_id \<times> bytes)" where
  "request_inputs cod http request =
     and_then (require_content_type (or_headers request) ''application/octet-stream'') (\<lambda>_.
     and_then (reject_forbidden_outer_headers (or_headers request)) (\<lambda>_.
     if or_query request \<noteq> None then Inl OuterBadRequest
     else
     and_then (parse_outer_session_id cod http (or_headers request)) (\<lambda>sid.
     and_then (parse_outer_routing_key cod http (or_headers request)) (\<lambda>routing_key.
     and_then (reject_declared_oversize http (or_headers request) MAX_REQUEST_RECORD_BYTES) (\<lambda>_.
     Inr (sid, routing_key))))))"

text \<open>
  What the handler does with an admitted request: decode, build, run the application, encrypt its
  response. A request that does not decode is answered inside the encrypted channel.
\<close>

definition answer_request ::
    "'sk crypto_ops \<Rightarrow> codec_ops \<Rightarrow> json_ops \<Rightarrow> http_ops \<Rightarrow> (application_request \<Rightarrow> app_response) \<Rightarrow>
      app_response \<Rightarrow> session \<Rightarrow> request_id \<Rightarrow> bytes \<Rightarrow> outer_error + (bytes list \<times> seal_frame_error option)" where
  "answer_request ops cod js http application bad_request admitting_session rid plaintext =
     (case envelope_decode cod js http rid plaintext of
        Inl _ \<Rightarrow> encrypted_response ops js http admitting_session rid bad_request
      | Inr envelope \<Rightarrow>
          (case build_application_request http envelope (session_id_of admitting_session) rid of
             Inl _ \<Rightarrow> encrypted_response ops js http admitting_session rid bad_request
           | Inr request \<Rightarrow>
               encrypted_response ops js http admitting_session rid (application request)))"

definition dispatch_request ::
    "'sk crypto_ops \<Rightarrow> codec_ops \<Rightarrow> json_ops \<Rightarrow> http_ops \<Rightarrow> (application_request \<Rightarrow> app_response) \<Rightarrow>
      app_response \<Rightarrow> (session_system \<Rightarrow> session_system) \<Rightarrow> (session_system \<Rightarrow> session_system) \<Rightarrow>
      instant \<Rightarrow> instant \<Rightarrow> instant \<Rightarrow> outer_request \<Rightarrow> session_system \<Rightarrow>
      (outer_error + (bytes list \<times> seal_frame_error option)) \<times> session_system" where
  "dispatch_request ops cod js http application bad_request upload_others app_others t1 t2 t3 request sys =
     (case request_inputs cod http request of
        Inl e \<Rightarrow> (Inl e, sys)
      | Inr (sid, routing_key) \<Rightarrow>
          (case get_routed_session sys sid routing_key t1 of
             (Inl e, sys1) \<Rightarrow> (Inl e, sys1)
           | (Inr r1, sys1) \<Rightarrow>
               let sys2 = upload_others (sys_release sys1 r1) in
               (case read_bounded_body (or_body request) MAX_REQUEST_RECORD_BYTES of
                  Inl e \<Rightarrow> (Inl e, sys2)
                | Inr rec \<Rightarrow>
                    if length rec < MIN_REQUEST_RECORD_BYTES then (Inl OuterBadRequest, sys2)
                    else
                      (case get_routed_session sys2 sid routing_key t2 of
                         (Inl e, sys3) \<Rightarrow> (Inl e, sys3)
                       | (Inr r, sys3) \<Rightarrow>
                           (case sys_admit ops sys3 r rec t3 of
                              (Inl e, sys4) \<Rightarrow> (Inl (map_admission_error e), sys_release sys4 r)
                            | (Inr (rid, plaintext), sys4) \<Rightarrow>
                                let admitting_session = heap_session (sy_heap sys4) r;
                                    result = answer_request ops cod js http application bad_request
                                      admitting_session rid plaintext;
                                    sys5 = app_others sys4
                                in (result, sys_release (sys_release sys5 r) r))))))"

end
