(* ===== verification/Response_Exchange.thy ===== *)
theory Response_Exchange
  imports Stream_Authenticity Transport_Gateway
begin

text \<open>
  From the application's response to the client's events: the gateway's stream is the sealing of one list
  of records, every record decodes to its event, and the client reads the whole stream back.
\<close>

section \<open>Records and events\<close>

fun record_event :: "response_record \<Rightarrow> response_event" where
  "record_event (RecStart start) = EvStart (rst_status start) (rst_headers start)"
| "record_event (RecChunk b) = EvChunk b"
| "record_event RecEnd = EvEnd"
| "record_event (RecError code) = EvError code"

lemma sdk_revalidate_headers_iff:
  "sdk_revalidate_headers http hs = Inr () \<longleftrightarrow> revalidate_headers http hs = Inr ()"
  by (induction hs) (auto simp: and_then_eq_Inr sdk_logical_header_new_def logical_header_new_def
      sdk_validate_header_iff Let_def)

lemma validate_error_code_iff:
  "validate_error_code code = Inr () \<longleftrightarrow> code \<noteq> [] \<and> length code \<le> 64 \<and> list_all error_code_char code"
  by (auto simp: validate_error_code_def framing_limits)

lemma response_start_validate_iff:
  "response_start_validate http start = Inr () \<longleftrightarrow>
     200 \<le> rst_status start \<and> rst_status start \<le> 599 \<and> length (rst_headers start) \<le> 32 \<and>
     revalidate_headers http (rst_headers start) = Inr ()"
  by (auto simp: response_start_validate_def framing_limits)

lemma encode_metadata_iff:
  "encode_metadata tag written = Inr b \<longleftrightarrow> (\<exists>m. written = Some m \<and> length m \<le> 64 * 1024 \<and> b = tag # m)"
  by (cases written) (auto simp: encode_metadata_def framing_limits)

context wire_formats
begin

lemma decode_encoded:
  assumes "record_encode js http r = Inr b"
  shows "decode_plaintext_record js http b = Inr (record_event r)"
proof (cases r)
  case (RecStart start)
  with assms obtain m where m: "js_write_start js (rst_status start, rst_headers start) = Some m"
      "length m \<le> 64 * 1024" "b = START_TAG # m" and valid: "response_start_validate http start = Inr ()"
    by (auto simp: record_encode_def and_then_eq_Inr encode_metadata_iff)
  have "sdk_revalidate_headers http (rst_headers start) = Inr ()"
    using valid by (simp add: response_start_validate_iff sdk_revalidate_headers_iff)
  then show ?thesis
    using m valid read_start [OF m(1)] RecStart
    by (simp add: decode_plaintext_record_def response_start_validate_iff framing_limits sdk_framing_limits tag_defs)
next
  case (RecChunk c)
  with assms show ?thesis
    by (auto simp: record_encode_def decode_plaintext_record_def framing_limits sdk_framing_limits tag_defs split: if_splits)
next
  case RecEnd
  with assms show ?thesis
    by (auto simp: record_encode_def decode_plaintext_record_def framing_limits sdk_framing_limits tag_defs)
next
  case (RecError code)
  with assms obtain m where m: "js_write_failure js code = Some m" "length m \<le> 64 * 1024" "b = ERROR_TAG # m"
      and valid: "validate_error_code code = Inr ()"
    by (auto simp: record_encode_def and_then_eq_Inr encode_metadata_iff)
  show ?thesis
    using m valid read_failure [OF m(1)] RecError
    by (simp add: decode_plaintext_record_def validate_error_code_iff framing_limits sdk_framing_limits tag_defs)
qed

end

section \<open>The stream is the sealing of its records\<close>

text \<open>The records of a body: its data in chunks and a terminal record.\<close>

fun body_records :: "body_frame list \<Rightarrow> response_record list" where
  "body_records [] = [RecEnd]"
| "body_records (BodyError # frames) = [RecError ''application_body_failed'']"
| "body_records (TrailersFrame # frames) = [RecError ''application_trailers_unsupported'']"
| "body_records (OtherFrame # frames) = [RecError ''application_frame_unsupported'']"
| "body_records (DataFrame b # frames) = map RecChunk (slice_chunks MAX_RESPONSE_CHUNK_BYTES b) @ body_records frames"

fun seal_records ::
    "'sk crypto_ops \<Rightarrow> json_ops \<Rightarrow> http_ops \<Rightarrow> resp_sealer \<Rightarrow> response_record list \<Rightarrow>
      bytes list \<times> seal_frame_error option" where
  "seal_records ops js http writer [] = ([], None)"
| "seal_records ops js http writer (r # rs) =
     (case seal_framed ops js http writer r of
        (Inl e, writer') \<Rightarrow> ([], Some e)
      | (Inr item, writer') \<Rightarrow>
          (let (items, failure) = seal_records ops js http writer' rs in (item # items, failure)))"

lemma seal_terminal_records: "seal_terminal ops js http writer r = seal_records ops js http writer [r]"
  by (simp add: seal_terminal_def split: prod.splits sum.splits)

lemma seal_chunks_records:
  "seal_chunks ops js http writer cs = ((items, failure), writer') \<Longrightarrow>
     seal_records ops js http writer (map RecChunk cs @ rs) =
       (case failure of
          Some e \<Rightarrow> (items, Some e)
        | None \<Rightarrow> (let (later, failure') = seal_records ops js http writer' rs in (items @ later, failure')))"
  by (induction cs arbitrary: writer items)
     (auto split: prod.splits sum.splits option.splits)

lemma stream_frames_records:
  "stream_frames ops js http writer frames = seal_records ops js http writer (body_records frames)"
proof (induction ops js http writer frames rule: stream_frames.induct)
  case (5 ops js http writer b frames)
  obtain items failure writer'
    where eq: "seal_chunks ops js http writer (slice_chunks MAX_RESPONSE_CHUNK_BYTES b) = ((items, failure), writer')"
    by (metis prod.collapse)
  then show ?case
    using 5 [OF eq [symmetric] refl] seal_chunks_records [OF eq, of "body_records frames"]
    by (auto split: option.splits)
qed (simp_all add: seal_terminal_records del: seal_records.simps)

section \<open>Sealing a list of records\<close>

context crypto_primitives
begin

lemma seal_framed_total:
  assumes enc: "record_encode js http r = Inr b" and seq: "unat (rs_next_sequence w) + 1 < 2 ^ 64"
  obtains c where "seal_next ops w b = (Inr c, w\<lparr>rs_next_sequence := rs_next_sequence w + 1\<rparr>)"
    and "frame_sized c"
    and "seal_framed ops js http w r = (Inr (frame c), w\<lparr>rs_next_sequence := rs_next_sequence w + 1\<rparr>)"
proof -
  have b: "length b \<le> 65537"
    using record_encode_length [OF enc] by (simp add: framing_limits)
  then have "length b \<le> aead_max" by (simp add: aead_max_def)
  then obtain c where c: "seal_detached_nonce ops (rs_key w)
      (response_aad (rs_session_id w) (rs_request_id w) (rs_next_sequence w))
      (response_nonce (rs_next_sequence w)) b = Inr c" "length c = length b + 16"
    by (rule seal_total)
  have sealed: "seal_next ops w b = (Inr c, w\<lparr>rs_next_sequence := rs_next_sequence w + 1\<rparr>)"
    using c(1) seq by (simp add: seal_next_cases)
  have size: "16 \<le> length c" "length c \<le> MAX_RESPONSE_RECORD_CIPHERTEXT_BYTES"
    using b c(2) by (simp_all add: framing_limits size_defs)
  then have "frame_ciphertext c = Inr (frame c)"
    by (simp add: frame_ciphertext_fits frame_def)
  with enc sealed have "seal_framed ops js http w r = (Inr (frame c), w\<lparr>rs_next_sequence := rs_next_sequence w + 1\<rparr>)"
    by (simp add: seal_framed_def)
  moreover have "frame_sized c"
    using b c(2) by (simp add: frame_sized_def sdk_framing_limits size_defs)
  ultimately show thesis using sealed that by blast
qed

lemma seal_records_total:
  assumes "list_all2 (\<lambda>r b. record_encode js http r = Inr b) rs bs"
    and "unat (rs_next_sequence w) + length rs < 2 ^ 64"
  shows "\<exists>cs w'. chan.seals w bs = Some (cs, w') \<and> list_all frame_sized cs \<and>
    seal_records ops js http w rs = (map frame cs, None)"
  using assms
proof (induction rs bs arbitrary: w rule: list_all2_induct)
  case (Cons r rs b bs)
  let ?w = "w\<lparr>rs_next_sequence := rs_next_sequence w + 1\<rparr>"
  have seq: "unat (rs_next_sequence w) + 1 < 2 ^ 64"
    using Cons.prems by simp
  then have next_seq: "unat (rs_next_sequence ?w) = unat (rs_next_sequence w) + 1"
    using u64_add_of_nat [of "rs_next_sequence w" 1] by simp
  from Cons.hyps(1) seq obtain c where c: "seal_next ops w b = (Inr c, ?w)" "frame_sized c"
      "seal_framed ops js http w r = (Inr (frame c), ?w)"
    by (rule seal_framed_total)
  have "unat (rs_next_sequence ?w) + length rs < 2 ^ 64"
    using Cons.prems next_seq by simp
  from Cons.IH [OF this] obtain cs w' where "chan.seals ?w bs = Some (cs, w')" "list_all frame_sized cs"
      "seal_records ops js http ?w rs = (map frame cs, None)" by blast
  with c show ?case by simp
qed simp

end

section \<open>The client reads the response\<close>

text \<open>
  What is sent for a response of the application: its own head and body, or a bare 500 when the head is
  not valid.
\<close>

definition sent_head :: "http_ops \<Rightarrow> app_response \<Rightarrow> response_start \<times> body_frame list" where
  "sent_head http response =
     (case response_start_new http (ap_status response) (logical_response_headers http (ap_headers response)) of
        Inr start \<Rightarrow> (start, ap_body response)
      | Inl _ \<Rightarrow> (\<lparr>rst_status = 500, rst_headers = []\<rparr>, []))"

definition response_events :: "http_ops \<Rightarrow> app_response \<Rightarrow> response_event list" where
  "response_events http response =
     (let (start, body) = sent_head http response in map record_event (RecStart start # body_records body))"

definition head_fits :: "json_ops \<Rightarrow> http_ops \<Rightarrow> app_response \<Rightarrow> bool" where
  "head_fits js http response \<longleftrightarrow>
     (case js_write_start js (let start = fst (sent_head http response) in (rst_status start, rst_headers start)) of
        None \<Rightarrow> False
      | Some b \<Rightarrow> length b \<le> MAX_RESPONSE_METADATA_BYTES)"

lemma response_events_length: "length (response_events http response) = Suc (length (body_records (snd (sent_head http response))))"
  by (simp add: response_events_def case_prod_beta)

lemma sent_head_valid: "response_start_validate http (fst (sent_head http response)) = Inr ()"
  by (auto simp: sent_head_def response_start_new_def and_then_eq_Inr response_start_validate_iff Let_def
      split: sum.splits)

lemma body_records_complete:
  "\<exists>bs t. map record_event (body_records frames) = map EvChunk bs @ [t] \<and> is_terminal t"
proof (induction frames rule: body_records.induct)
  case (5 b frames)
  then obtain bs t where "map record_event (body_records frames) = map EvChunk bs @ [t]" "is_terminal t"
    by blast
  then show ?case
    by (intro exI [of _ "slice_chunks MAX_RESPONSE_CHUNK_BYTES b @ bs"] exI [of _ t]) simp
qed (auto simp: is_terminal_def)

lemma response_events_complete: "complete_response (response_events http response)"
  using body_records_complete [of "snd (sent_head http response)"]
  by (auto simp: complete_response_def response_events_def case_prod_beta)

text \<open>The chunks of the events are the data frames of the body up to the first other frame.\<close>

fun event_bytes :: "response_event \<Rightarrow> bytes" where
  "event_bytes (EvChunk b) = b"
| "event_bytes _ = []"

fun leading_data :: "body_frame list \<Rightarrow> bytes" where
  "leading_data (DataFrame b # frames) = b @ leading_data frames"
| "leading_data _ = []"

lemma event_bytes_body: "concat (map event_bytes (map record_event (body_records frames))) = leading_data frames"
proof (induction frames rule: body_records.induct)
  case (5 b frames)
  have "concat (map event_bytes (map record_event (map RecChunk cs))) = concat cs" for cs
    by (induction cs) simp_all
  then show ?case
    using 5 concat_slice_chunks [of MAX_RESPONSE_CHUNK_BYTES b] by (simp add: framing_limits o_def)
qed simp_all

lemma response_events_bytes:
  "concat (map event_bytes (response_events http response)) = leading_data (snd (sent_head http response))"
  using event_bytes_body [of "snd (sent_head http response)"]
  by (simp add: response_events_def case_prod_beta)

context wire_formats
begin

lemma error_record_encodes:
  assumes "validate_error_code code = Inr ()"
  shows "\<exists>b. record_encode js http (RecError code) = Inr b"
proof -
  from assms have "length code \<le> 64" by (simp add: validate_error_code_iff)
  from write_failure [OF this] obtain b where "js_write_failure js code = Some b" "length b \<le> 1024" by blast
  with assms show ?thesis
    by (simp add: record_encode_def encode_metadata_def framing_limits)
qed

lemma body_records_encode: "r \<in> set (body_records frames) \<Longrightarrow> \<exists>b. record_encode js http r = Inr b"
proof (induction frames rule: body_records.induct)
  case (5 b frames)
  then show ?case
    by (auto simp: record_encode_def dest!: slice_chunks_bound)
qed (auto simp: record_encode_def [of _ _ RecEnd] intro!: error_record_encodes
    simp: validate_error_code_iff error_code_char_def is_ascii_lowercase_def)

lemma decodes_records:
  "list_all2 (\<lambda>r b. record_encode js http r = Inr b) rs bs \<Longrightarrow> decodes_to js http bs (map record_event rs)"
  by (induction rs bs rule: list_all2_induct) (simp_all add: decodes_to_def decode_encoded)

lemma response_records_encode:
  assumes "head_fits js http response" and "sent_head http response = (start, body)"
  shows "\<exists>bs. list_all2 (\<lambda>r b. record_encode js http r = Inr b) (RecStart start # body_records body) bs"
proof -
  have "\<exists>b. record_encode js http (RecStart start) = Inr b"
    using assms sent_head_valid [of http response]
    by (auto simp: head_fits_def record_encode_def encode_metadata_def framing_limits split: option.splits)
  then have "\<forall>r \<in> set (RecStart start # body_records body). \<exists>b. record_encode js http r = Inr b"
    using body_records_encode by auto
  then obtain f where "\<forall>r \<in> set (RecStart start # body_records body). record_encode js http r = Inr (f r)"
    by metis
  then have "list_all2 (\<lambda>r b. record_encode js http r = Inr b) (RecStart start # body_records body)
      (map f (RecStart start # body_records body))"
    by (simp only: list_all2_map2) (auto simp: list_all2_same)
  then show ?thesis by blast
qed

end

lemma encrypted_response_read:
  assumes crypto: "crypto_primitives ops" and wire: "wire_formats cod js http"
    and secrets: "secrets_ok (se_secrets s)" and fits: "head_fits js http response"
    and count: "length (response_events http response) < 2 ^ 64"
  shows "\<exists>items opener. encrypted_response ops js http s rid response = Inr (items, None) \<and>
    sdk_response_opener ops (sdk_view (se_secrets s)) rid = Inr opener \<and>
    (\<forall>pieces. concat pieces = concat items \<longrightarrow>
       stream_result (response_stream ops js http (decoder_new opener) (map Some pieces)) =
         Inr (response_events http response))"
proof -
  obtain start body where head: "sent_head http response = (start, body)" by fastforce
  let ?rs = "RecStart start # body_records body"
  have "length (sec_response_key (se_secrets s)) = 32"
    using secrets by (simp add: secrets_ok_def)
  then obtain key where key: "derive_record_subkey ops (sec_response_key (se_secrets s)) RESPONSE_SUBKEY_INFO
      (sec_session_id (se_secrets s)) rid = Inr key"
    using crypto_primitives.derive_record_subkey_total [OF crypto] by metis
  define w where "w = \<lparr>rs_session_id = sec_session_id (se_secrets s), rs_request_id = rid, rs_key = key,
    rs_next_sequence = 0\<rparr>"
  have writer: "response_sealer ops (se_secrets s) rid = Inr w"
    using key by (simp add: response_sealer_def w_def)
  from wire_formats.response_records_encode [OF wire fits head] obtain bs
    where bs: "list_all2 (\<lambda>r b. record_encode js http r = Inr b) ?rs bs" by blast
  have "unat (rs_next_sequence w) + length ?rs < 2 ^ 64"
    using count by (simp add: w_def response_events_length head)
  from crypto_primitives.seal_records_total [OF crypto bs this] obtain cs w'
    where cs: "record_channel.seals (seal_next ops) w bs = Some (cs, w')" "list_all frame_sized cs"
      "seal_records ops js http w ?rs = (map frame cs, None)" by blast
  have "encrypted_response ops js http s rid response = Inr (map frame cs, None)"
    using cs(3) head
    by (auto simp: encrypted_response_def sent_head_def begin_response_def writer stream_frames_records Let_def
        split: sum.splits prod.splits)
  moreover have "sdk_response_opener ops (sdk_view (se_secrets s)) rid = Inr (opener_of w)"
    by (simp add: sdk_response_opener_eq writer)
  moreover have "decodes_to js http bs (response_events http response)"
    using wire_formats.decodes_records [OF wire bs] by (simp add: response_events_def head)
  ultimately show ?thesis
    using crypto_primitives.stream_complete [OF crypto cs(1) _ cs(2) response_events_complete] by blast
qed

text \<open>
  A head that is valid but longer than a record: the handler gives up on the encrypted channel and answers
  with the plain outer error.
\<close>

lemma oversized_head_leaves_channel:
  assumes "response_start_new http (ap_status response) (logical_response_headers http (ap_headers response)) =
      Inr start"
    and "js_write_start js (rst_status start, rst_headers start) = Some head"
    and "length head > MAX_RESPONSE_METADATA_BYTES"
  shows "encrypted_response ops js http s rid response = Inl OuterUnavailable \<and>
    outer_response OuterUnavailable = (503, [])"
proof -
  have "seal_framed ops js http writer (RecStart start) =
      (Inl (SealFraming RecordTooLarge), writer)" for writer
    using assms sent_head_valid [of http response]
    by (simp add: seal_framed_def record_encode_def encode_metadata_def sent_head_def)
  then have "encrypted_response ops js http s rid response = Inl OuterUnavailable"
    using assms(1)
    by (cases "begin_response ops s rid") (simp_all add: encrypted_response_def Let_def)
  then show ?thesis by (simp add: outer_response_def)
qed

text \<open>Such a head exists: one header of a response can be long enough.\<close>

lemma oversized_head_possible:
  "\<exists>(response :: app_response) start head.
     response_start_new ref_http (ap_status response) (logical_response_headers ref_http (ap_headers response)) =
       Inr start \<and>
     js_write_start ref_json (rst_status start, rst_headers start) = Some head \<and>
     length head > MAX_RESPONSE_METADATA_BYTES"
proof -
  let ?v = "replicate 65536 (CHR ''x'')"
  let ?h = "\<lparr>lh_name = ''x-note'', lh_value = ?v\<rparr>"
  have valid: "validate_header ref_http ?h = Inr ()"
    by (simp add: validate_header_def ref_http_def is_gateway_controlled_header_def is_ascii_lowercase_def
        list_all_iff)
  have "logical_response_headers ref_http [(''x-note'', ?v)] = [?h]"
    using valid
    by (simp add: logical_response_headers_def List.map_filter_simps ref_http_def logical_header_new_def)
  moreover have "response_start_new ref_http 200 [?h] = Inr \<lparr>rst_status = 200, rst_headers = [?h]\<rparr>"
    using valid
    by (simp add: response_start_new_def response_start_validate_def framing_limits logical_header_new_def)
  moreover have "\<exists>head. js_write_start ref_json (200, [?h]) = Some head \<and> length head > MAX_RESPONSE_METADATA_BYTES"
    by (simp add: ref_json_def put_start_def length_put_str framing_limits)
  ultimately show ?thesis
    by - (rule exI [of _ "\<lparr>ap_status = 200, ap_headers = [(''x-note'', ?v)], ap_body = []\<rparr>"], simp)
qed

end
