(* ===== verification/Sdk_Attestation.thy ===== *)
theory Sdk_Attestation
  imports Crypto_Primitives
begin

text \<open>
  The client's verifier of Nitro attestation documents, \<open>sdk/rust/src/attestation.rs\<close>: reading of the
  document, the certificate chain up to the pinned root, the signature of the document, the validity
  windows on the device clock, and the expected registers. CBOR, X.509 parsing, the signature algorithms
  of \<open>ring\<close> and the bytes of the root certificate are arguments.
\<close>

section \<open>Interface\<close>

datatype cbor_value =
  CborInteger int | CborBytes bytes | CborText string | CborArray "cbor_value list"
  | CborMap "(cbor_value \<times> cbor_value) list" | CborOther

datatype signature_algorithm = ECDSA_P384_SHA384_ASN1 | ECDSA_P256_SHA256_ASN1 | ECDSA_P384_SHA384_FIXED

text \<open>What the verifier reads of a parsed certificate; times are seconds.\<close>

record x509 =
  x_issuer :: bytes
  x_subject :: bytes
  x_not_before :: int
  x_not_after :: int
  x_algorithm :: string
  x_public_key :: bytes
  x_tbs :: bytes
  x_signature :: bytes

record attest_ops =
  at_cbor_read :: "bytes \<Rightarrow> cbor_value option"
  at_cbor_write :: "cbor_value \<Rightarrow> bytes option"
  at_x509 :: "bytes \<Rightarrow> x509 option"
  at_verify :: "signature_algorithm \<Rightarrow> bytes \<Rightarrow> bytes \<Rightarrow> bytes \<Rightarrow> bool"
  at_root :: bytes

section \<open>Errors\<close>

datatype validity_state = Expired | NotYetValid

text \<open>
  The two messages of \<open>describe_validity_failure\<close>: the device clock is off by the given milliseconds, or
  the certificate is outside its window.
\<close>

datatype validity_failure =
  DeviceClock nat bool validity_state | CertificateWindow nat validity_state int int

datatype attestation_failure =
  InvalidCoseSign1 | CoseSign1Length | InvalidProtected | InvalidPayload | InvalidSignature
  | InvalidDocumentFormat | InvalidDocumentKey | InvalidField string | OutOfRange string
  | MissingNonce | NonceMismatch | EmptyBundle | RootMismatch
  | UnparsableCertificate nat | UnparsableLeaf | UnparsableSigned
  | BrokenChain nat | ChainSignature nat | LeafIssuer | LeafSignature
  | CertificateSignature | DocumentSignature | NoEcPoint | ClockOutOfRange
  | ValidityFailure validity_failure | PcrMismatch nat | PcrMissing nat
  | PcrLength | PcrAllZero | PcrNotApproved | HistoryRejected

datatype sdk_failure =
  FailHttp | FailSerialization | FailCbor | FailBase64 | FailConfiguration
  | FailAttestation attestation_failure

definition is_device_clock_problem :: "sdk_failure \<Rightarrow> bool" where
  "is_device_clock_problem e =
     (case e of FailAttestation (ValidityFailure (DeviceClock _ _ _)) \<Rightarrow> True | _ \<Rightarrow> False)"

section \<open>Reading the document\<close>

record attestation_document =
  ad_module_id :: string
  ad_timestamp :: u64
  ad_digest :: string
  ad_pcrs :: "(nat, bytes) hash_map"
  ad_certificate :: bytes
  ad_cabundle :: "bytes list"
  ad_public_key :: "bytes option"
  ad_user_data :: "bytes option"
  ad_nonce :: "bytes option"

definition cbor_integer_to_u64 :: "int \<Rightarrow> string \<Rightarrow> sdk_failure + u64" where
  "cbor_integer_to_u64 v field_name =
     (if 0 \<le> v \<and> v < 2 ^ 64 then Inr (of_int v) else Inl (FailAttestation (OutOfRange field_name)))"

definition cbor_integer_to_usize :: "int \<Rightarrow> string \<Rightarrow> sdk_failure + nat" where
  "cbor_integer_to_usize v field_name =
     (if 0 \<le> v \<and> v < 2 ^ 64 then Inr (nat v) else Inl (FailAttestation (OutOfRange field_name)))"

abbreviation invalid_field :: "string \<Rightarrow> sdk_failure + 'a" where
  "invalid_field name \<equiv> Inl (FailAttestation (InvalidField name))"

fun parse_pcrs ::
    "(cbor_value \<times> cbor_value) list \<Rightarrow> (nat, bytes) hash_map \<Rightarrow> sdk_failure + (nat, bytes) hash_map" where
  "parse_pcrs [] pcrs = Inr pcrs"
| "parse_pcrs ((k, v) # rest) pcrs =
     and_then (case k of CborInteger i \<Rightarrow> cbor_integer_to_usize i ''PCR index'' | _ \<Rightarrow> invalid_field ''PCR index'')
       (\<lambda>index. case v of CborBytes b \<Rightarrow> parse_pcrs rest (fmupd index b pcrs) | _ \<Rightarrow> invalid_field ''PCR value'')"

fun parse_bundle :: "cbor_value list \<Rightarrow> bytes list \<Rightarrow> sdk_failure + bytes list" where
  "parse_bundle [] bundle = Inr bundle"
| "parse_bundle (CborBytes b # rest) bundle = parse_bundle rest (bundle @ [b])"
| "parse_bundle (_ # rest) bundle = invalid_field ''certificate in bundle''"

definition optional_bytes :: "cbor_value \<Rightarrow> bytes option" where
  "optional_bytes v = (case v of CborBytes b \<Rightarrow> Some b | _ \<Rightarrow> None)"

definition parse_field ::
    "string \<Rightarrow> cbor_value \<Rightarrow> attestation_document \<Rightarrow> sdk_failure + attestation_document" where
  "parse_field key v doc =
     (if key = ''module_id'' then
        (case v of CborText s \<Rightarrow> Inr (doc\<lparr>ad_module_id := s\<rparr>) | _ \<Rightarrow> invalid_field ''module_id'')
      else if key = ''timestamp'' then
        (case v of
           CborInteger i \<Rightarrow> and_then (cbor_integer_to_u64 i ''timestamp'') (\<lambda>t. Inr (doc\<lparr>ad_timestamp := t\<rparr>))
         | _ \<Rightarrow> invalid_field ''timestamp'')
      else if key = ''digest'' then
        (case v of CborText s \<Rightarrow> Inr (doc\<lparr>ad_digest := s\<rparr>) | _ \<Rightarrow> invalid_field ''digest'')
      else if key = ''pcrs'' then
        (case v of
           CborMap m \<Rightarrow> and_then (parse_pcrs m (ad_pcrs doc)) (\<lambda>p. Inr (doc\<lparr>ad_pcrs := p\<rparr>))
         | _ \<Rightarrow> invalid_field ''pcrs'')
      else if key = ''certificate'' then
        (case v of CborBytes b \<Rightarrow> Inr (doc\<lparr>ad_certificate := b\<rparr>) | _ \<Rightarrow> invalid_field ''certificate'')
      else if key = ''cabundle'' then
        (case v of
           CborArray a \<Rightarrow> and_then (parse_bundle a (ad_cabundle doc)) (\<lambda>b. Inr (doc\<lparr>ad_cabundle := b\<rparr>))
         | _ \<Rightarrow> invalid_field ''cabundle'')
      else if key = ''public_key'' then Inr (doc\<lparr>ad_public_key := optional_bytes v\<rparr>)
      else if key = ''user_data'' then Inr (doc\<lparr>ad_user_data := optional_bytes v\<rparr>)
      else if key = ''nonce'' then Inr (doc\<lparr>ad_nonce := optional_bytes v\<rparr>)
      else Inr doc)"

fun parse_fields ::
    "(cbor_value \<times> cbor_value) list \<Rightarrow> attestation_document \<Rightarrow> sdk_failure + attestation_document" where
  "parse_fields [] doc = Inr doc"
| "parse_fields ((k, v) # rest) doc =
     (case k of
        CborText key \<Rightarrow> and_then (parse_field key v doc) (parse_fields rest)
      | _ \<Rightarrow> Inl (FailAttestation InvalidDocumentKey))"

definition empty_document :: attestation_document where
  "empty_document = \<lparr>ad_module_id = [], ad_timestamp = 0, ad_digest = [], ad_pcrs = fmempty,
     ad_certificate = [], ad_cabundle = [], ad_public_key = None, ad_user_data = None, ad_nonce = None\<rparr>"

definition parse_attestation_document :: "cbor_value \<Rightarrow> sdk_failure + attestation_document" where
  "parse_attestation_document v =
     (case v of
        CborMap m \<Rightarrow> parse_fields m empty_document
      | _ \<Rightarrow> Inl (FailAttestation InvalidDocumentFormat))"

section \<open>Certificates\<close>

text \<open>
  The uncompressed point of a public key: behind a bit string that is exactly as long as expected, or at
  the end of the bytes, or at one of the usual offsets.
\<close>

definition bit_string_point :: "bytes \<Rightarrow> nat \<Rightarrow> nat \<Rightarrow> bool" where
  "bit_string_point pubkey expected_size i \<longleftrightarrow>
     pubkey ! i = 0x03 \<and> i + 2 < length pubkey \<and> i + 3 < length pubkey \<and>
     pubkey ! (i + 2) = 0x00 \<and> pubkey ! (i + 3) = 0x04 \<and>
     length (drop (i + 3) pubkey) = expected_size"

definition extract_ec_point :: "bytes \<Rightarrow> nat \<Rightarrow> sdk_failure + bytes" where
  "extract_ec_point pubkey expected_size =
     (case find (bit_string_point pubkey expected_size) [0..<length pubkey] of
        Some i \<Rightarrow> Inr (drop (i + 3) pubkey)
      | None \<Rightarrow>
          let from_end = drop (length pubkey - expected_size) pubkey in
          if length pubkey \<ge> expected_size \<and> from_end ! 0 = 0x04 then Inr from_end
          else if length pubkey \<ge> expected_size then
            (case find (\<lambda>offset. offset + expected_size \<le> length pubkey \<and> pubkey ! offset = 0x04)
                    [23, 24, 25, 26, 27] of
               Some offset \<Rightarrow> Inr (take expected_size (drop offset pubkey))
             | None \<Rightarrow> Inl (FailAttestation NoEcPoint))
          else Inl (FailAttestation NoEcPoint))"

definition ECDSA_WITH_SHA384 :: string where
  "ECDSA_WITH_SHA384 = ''1.2.840.10045.4.3.3''"

definition ECDSA_WITH_SHA256 :: string where
  "ECDSA_WITH_SHA256 = ''1.2.840.10045.4.3.2''"

definition verify_cert_signature :: "attest_ops \<Rightarrow> bytes \<Rightarrow> x509 \<Rightarrow> sdk_failure + bool" where
  "verify_cert_signature ops cert_der issuer =
     and_then (ok_or (FailAttestation UnparsableSigned) (at_x509 ops cert_der)) (\<lambda>cert.
     let sig_oid = x_algorithm cert in
     if sig_oid \<noteq> ECDSA_WITH_SHA384 \<and> sig_oid \<noteq> ECDSA_WITH_SHA256 then Inr False
     else
     and_then (extract_ec_point (x_public_key issuer) (if sig_oid = ECDSA_WITH_SHA384 then 97 else 65)) (\<lambda>ec_point.
     if at_verify ops (if sig_oid = ECDSA_WITH_SHA384 then ECDSA_P384_SHA384_ASN1 else ECDSA_P256_SHA256_ASN1)
          ec_point (x_tbs cert) (x_signature cert)
     then Inr True else Inl (FailAttestation CertificateSignature)))"

fun parse_certificates :: "attest_ops \<Rightarrow> nat \<Rightarrow> bytes list \<Rightarrow> sdk_failure + x509 list" where
  "parse_certificates ops i [] = Inr []"
| "parse_certificates ops i (der # ders) =
     and_then (ok_or (FailAttestation (UnparsableCertificate i)) (at_x509 ops der)) (\<lambda>cert.
     and_then (parse_certificates ops (Suc i) ders) (\<lambda>certs. Inr (cert # certs)))"

text \<open>The loop over the certificates after the root; it returns the last certificate of the bundle.\<close>

fun verify_links :: "attest_ops \<Rightarrow> nat \<Rightarrow> x509 \<Rightarrow> (bytes \<times> x509) list \<Rightarrow> sdk_failure + x509" where
  "verify_links ops i issuer [] = Inr issuer"
| "verify_links ops i issuer ((cert_der, cert) # rest) =
     (if x_issuer cert \<noteq> x_subject issuer then Inl (FailAttestation (BrokenChain i))
      else and_then (verify_cert_signature ops cert_der issuer) (\<lambda>valid.
        if \<not> valid then Inl (FailAttestation (ChainSignature i))
        else verify_links ops (Suc i) cert rest))"

definition verify_certificate_chain :: "attest_ops \<Rightarrow> attestation_document \<Rightarrow> sdk_failure + unit" where
  "verify_certificate_chain ops doc =
     (if ad_cabundle doc = [] then Inl (FailAttestation EmptyBundle)
      else if ad_cabundle doc ! 0 \<noteq> at_root ops then Inl (FailAttestation RootMismatch)
      else
      and_then (parse_certificates ops 0 (ad_cabundle doc)) (\<lambda>certs.
      and_then (ok_or (FailAttestation UnparsableLeaf) (at_x509 ops (ad_certificate doc))) (\<lambda>leaf_cert.
      and_then (verify_links ops 1 (certs ! 0) (tl (zip (ad_cabundle doc) certs))) (\<lambda>last_cert.
      if x_issuer leaf_cert \<noteq> x_subject last_cert then Inl (FailAttestation LeafIssuer)
      else and_then (verify_cert_signature ops (ad_certificate doc) last_cert) (\<lambda>valid.
        if \<not> valid then Inl (FailAttestation LeafSignature) else Inr ())))))"

section \<open>Validity windows\<close>

definition ATTESTATION_NOT_BEFORE_LEEWAY_MS :: nat where
  "ATTESTATION_NOT_BEFORE_LEEWAY_MS = 5 * 60 * 1000"

definition NOTICEABLE_CLOCK_SKEW_MS :: nat where
  "NOTICEABLE_CLOCK_SKEW_MS = 60 * 1000"

definition describe_validity_failure ::
    "nat \<Rightarrow> validity_state \<Rightarrow> int \<Rightarrow> int \<Rightarrow> u64 \<Rightarrow> u64 \<Rightarrow> validity_failure" where
  "describe_validity_failure index state not_before_ms not_after_ms device_now_ms enclave_now_ms =
     (let (skew, ahead) =
        (if device_now_ms \<ge> enclave_now_ms then (unat (device_now_ms - enclave_now_ms), True)
         else (unat (enclave_now_ms - device_now_ms), False)) in
      if skew \<ge> NOTICEABLE_CLOCK_SKEW_MS then DeviceClock skew ahead state
      else CertificateWindow index state not_before_ms not_after_ms)"

fun verify_windows ::
    "attest_ops \<Rightarrow> u64 \<Rightarrow> int \<Rightarrow> u64 \<Rightarrow> nat \<Rightarrow> bytes list \<Rightarrow> sdk_failure + unit" where
  "verify_windows ops device_now_ms device_now_s enclave_now_ms i [] = Inr ()"
| "verify_windows ops device_now_ms device_now_s enclave_now_ms i (cert_der # ders) =
     and_then (ok_or (FailAttestation (UnparsableCertificate i)) (at_x509 ops cert_der)) (\<lambda>cert.
     let leeway_s = int (ATTESTATION_NOT_BEFORE_LEEWAY_MS div 1000);
         not_yet_valid = device_now_s + leeway_s < x_not_before cert;
         expired = device_now_s > x_not_after cert in
     if not_yet_valid \<or> expired then
       Inl (FailAttestation (ValidityFailure (describe_validity_failure i
         (if expired then Expired else NotYetValid) (x_not_before cert * 1000) (x_not_after cert * 1000)
         device_now_ms enclave_now_ms)))
     else verify_windows ops device_now_ms device_now_s enclave_now_ms (Suc i) ders)"

definition verify_certificate_validity ::
    "attest_ops \<Rightarrow> attestation_document \<Rightarrow> u64 \<Rightarrow> sdk_failure + unit" where
  "verify_certificate_validity ops doc device_now_ms =
     (let device_now_s = int (unat device_now_ms div 1000) in
      if device_now_s \<ge> 2 ^ 63 then Inl (FailAttestation ClockOutOfRange)
      else verify_windows ops device_now_ms device_now_s (ad_timestamp doc) 0
             (ad_cabundle doc @ [ad_certificate doc]))"

section \<open>Signature and registers\<close>

definition create_sig_structure :: "attest_ops \<Rightarrow> bytes \<Rightarrow> bytes \<Rightarrow> sdk_failure + bytes" where
  "create_sig_structure ops protected payload =
     ok_or FailCbor (at_cbor_write ops
       (CborArray [CborText ''Signature1'', CborBytes protected, CborBytes [], CborBytes payload]))"

definition verify_signature ::
    "attest_ops \<Rightarrow> bytes \<Rightarrow> bytes \<Rightarrow> bytes \<Rightarrow> attestation_document \<Rightarrow> sdk_failure + unit" where
  "verify_signature ops protected payload signature_bytes doc =
     and_then (ok_or (FailAttestation UnparsableLeaf) (at_x509 ops (ad_certificate doc))) (\<lambda>cert.
     and_then (extract_ec_point (x_public_key cert) 97) (\<lambda>public_key.
     and_then (create_sig_structure ops protected payload) (\<lambda>sig_structure.
     if at_verify ops ECDSA_P384_SHA384_FIXED public_key sig_structure signature_bytes then Inr ()
     else Inl (FailAttestation DocumentSignature))))"

text \<open>The expected registers in the order the map yields them.\<close>

fun verify_pcrs :: "attestation_document \<Rightarrow> (nat \<times> bytes) list \<Rightarrow> sdk_failure + unit" where
  "verify_pcrs doc [] = Inr ()"
| "verify_pcrs doc ((index, expected) # rest) =
     (case fmlookup (ad_pcrs doc) index of
        Some actual \<Rightarrow>
          if actual \<noteq> expected then Inl (FailAttestation (PcrMismatch index)) else verify_pcrs doc rest
      | None \<Rightarrow> Inl (FailAttestation (PcrMissing index)))"

definition cose_bytes :: "attestation_failure \<Rightarrow> cbor_value \<Rightarrow> sdk_failure + bytes" where
  "cose_bytes e v = (case v of CborBytes b \<Rightarrow> Inr b | _ \<Rightarrow> Inl (FailAttestation e))"

definition cose_array :: "cbor_value \<Rightarrow> sdk_failure + cbor_value list" where
  "cose_array v = (case v of CborArray a \<Rightarrow> Inr a | _ \<Rightarrow> Inl (FailAttestation InvalidCoseSign1))"

definition verify_attestation_document_at ::
    "attest_ops \<Rightarrow> codec_ops \<Rightarrow> (nat \<times> bytes) list option \<Rightarrow> string \<Rightarrow> (bytes \<Rightarrow> sdk_failure + unit) \<Rightarrow> u64 \<Rightarrow>
      sdk_failure + attestation_document" where
  "verify_attestation_document_at ops cod expected_pcrs document_b64 verify_nonce device_now_ms =
     and_then (ok_or FailBase64 (b64_decode cod document_b64)) (\<lambda>document_bytes.
     and_then (ok_or FailCbor (at_cbor_read ops document_bytes)) (\<lambda>v.
     and_then (cose_array v) (\<lambda>cose_sign1.
     if length cose_sign1 \<noteq> 4 then Inl (FailAttestation CoseSign1Length)
     else
     and_then (cose_bytes InvalidProtected (cose_sign1 ! 0)) (\<lambda>protected.
     and_then (cose_bytes InvalidPayload (cose_sign1 ! 2)) (\<lambda>payload.
     and_then (cose_bytes InvalidSignature (cose_sign1 ! 3)) (\<lambda>signature.
     and_then (ok_or FailCbor (at_cbor_read ops payload)) (\<lambda>doc_cbor.
     and_then (parse_attestation_document doc_cbor) (\<lambda>doc.
     and_then (ok_or (FailAttestation MissingNonce) (ad_nonce doc)) (\<lambda>nonce_bytes.
     and_then (verify_nonce nonce_bytes) (\<lambda>_.
     and_then (verify_certificate_chain ops doc) (\<lambda>_.
     and_then (verify_signature ops protected payload signature doc) (\<lambda>_.
     and_then (verify_certificate_validity ops doc device_now_ms) (\<lambda>_.
     and_then (case expected_pcrs of None \<Rightarrow> Inr () | Some ps \<Rightarrow> verify_pcrs doc ps) (\<lambda>_.
     Inr doc))))))))))))))"

definition verify_attestation_document_bytes ::
    "attest_ops \<Rightarrow> codec_ops \<Rightarrow> (nat \<times> bytes) list option \<Rightarrow> string \<Rightarrow> bytes \<Rightarrow> u64 \<Rightarrow>
      sdk_failure + attestation_document" where
  "verify_attestation_document_bytes ops cod expected_pcrs document_b64 expected_nonce device_now_ms =
     verify_attestation_document_at ops cod expected_pcrs document_b64
       (\<lambda>nonce_bytes. if nonce_bytes \<noteq> expected_nonce then Inl (FailAttestation NonceMismatch) else Inr ())
       device_now_ms"

section \<open>What an accepted document certifies\<close>

text \<open>
  The contract of the verifier, without loops: a certificate is signed by an issuer, a path of certificates
  leads from one to another, and every certificate is within its window.
\<close>

definition signed_by :: "attest_ops \<Rightarrow> x509 \<Rightarrow> x509 \<Rightarrow> bool" where
  "signed_by ops cert issuer \<longleftrightarrow>
     (\<exists>alg size key.
        (x_algorithm cert = ECDSA_WITH_SHA384 \<and> alg = ECDSA_P384_SHA384_ASN1 \<and> size = 97 \<or>
         x_algorithm cert = ECDSA_WITH_SHA256 \<and> alg = ECDSA_P256_SHA256_ASN1 \<and> size = 65) \<and>
        extract_ec_point (x_public_key issuer) size = Inr key \<and>
        at_verify ops alg key (x_tbs cert) (x_signature cert))"

inductive certified :: "attest_ops \<Rightarrow> x509 \<Rightarrow> bytes list \<Rightarrow> x509 \<Rightarrow> bool" for ops where
  certified_self: "certified ops issuer [] issuer"
| certified_link: "at_x509 ops der = Some cert \<Longrightarrow> x_issuer cert = x_subject issuer \<Longrightarrow>
    signed_by ops cert issuer \<Longrightarrow> certified ops cert ders subject \<Longrightarrow> certified ops issuer (der # ders) subject"

inductive_simps certified_Nil [simp]: "certified ops issuer [] subject"
inductive_simps certified_Cons: "certified ops issuer (der # ders) subject"

definition validity_covers :: "attest_ops \<Rightarrow> int \<Rightarrow> bytes \<Rightarrow> bool" where
  "validity_covers ops now_s der \<longleftrightarrow>
     (\<exists>cert. at_x509 ops der = Some cert \<and> x_not_before cert \<le> now_s + 300 \<and> now_s \<le> x_not_after cert)"

definition document_signed :: "attest_ops \<Rightarrow> x509 \<Rightarrow> bytes \<Rightarrow> bytes \<Rightarrow> bytes \<Rightarrow> bool" where
  "document_signed ops leaf protected payload signature \<longleftrightarrow>
     (\<exists>key msg. extract_ec_point (x_public_key leaf) 97 = Inr key \<and>
        at_cbor_write ops (CborArray [CborText ''Signature1'', CborBytes protected, CborBytes [],
          CborBytes payload]) = Some msg \<and>
        at_verify ops ECDSA_P384_SHA384_FIXED key msg signature)"

definition attested ::
    "attest_ops \<Rightarrow> bytes \<Rightarrow> bytes \<Rightarrow> u64 \<Rightarrow> attestation_document \<Rightarrow> bool" where
  "attested ops document_bytes nonce now_ms doc \<longleftrightarrow>
     (\<exists>protected unprotected payload signature contents root rest leaf.
        at_cbor_read ops document_bytes =
          Some (CborArray [CborBytes protected, unprotected, CborBytes payload, CborBytes signature]) \<and>
        at_cbor_read ops payload = Some contents \<and> parse_attestation_document contents = Inr doc \<and>
        ad_nonce doc = Some nonce \<and>
        ad_cabundle doc = at_root ops # rest \<and> at_x509 ops (at_root ops) = Some root \<and>
        certified ops root (rest @ [ad_certificate doc]) leaf \<and>
        document_signed ops leaf protected payload signature) \<and>
     list_all (validity_covers ops (int (unat now_ms div 1000))) (ad_cabundle doc @ [ad_certificate doc])"

lemma find_nth_drop_length:
  "find (bit_string_point b n) is = Some i \<Longrightarrow> length (drop (i + 3) b) = n \<and> b ! (i + 3) = 4 \<and> i + 3 < length b"
  by (drule find_Some_set) (simp add: bit_string_point_def)

lemma extract_ec_point_shape:
  assumes "extract_ec_point pubkey n = Inr point" and "0 < n"
  shows "length point = n \<and> hd point = 0x04"
proof -
  consider i where "find (bit_string_point pubkey n) [0..<length pubkey] = Some i" "point = drop (i + 3) pubkey"
    | "n \<le> length pubkey" "point = drop (length pubkey - n) pubkey" "point ! 0 = 4"
    | offset where "offset + n \<le> length pubkey" "pubkey ! offset = 4" "point = take n (drop offset pubkey)"
    using assms(1)
    by (auto simp: extract_ec_point_def Let_def split: option.splits if_splits dest!: find_Some_set)
  then show ?thesis
  proof cases
    case 1
    then show ?thesis using find_nth_drop_length [OF 1(1)] by (simp add: hd_drop_conv_nth)
  next
    case 2
    then show ?thesis using assms(2) by (simp add: hd_drop_conv_nth)
  next
    case 3
    then show ?thesis using assms(2) by (simp add: hd_drop_conv_nth)
  qed
qed

lemma verify_cert_signature_iff:
  "verify_cert_signature ops der issuer = Inr True \<longleftrightarrow>
     (\<exists>cert. at_x509 ops der = Some cert \<and> signed_by ops cert issuer)"
  by (auto simp: verify_cert_signature_def signed_by_def and_then_eq_Inr Let_def ECDSA_WITH_SHA384_def
      ECDSA_WITH_SHA256_def split: if_splits)

lemma parse_certificates_iff:
  "parse_certificates ops i ders = Inr certs \<longleftrightarrow> map (at_x509 ops) ders = map Some certs"
  by (induction ders arbitrary: i certs) (auto simp: and_then_eq_Inr Cons_eq_map_conv)

lemma verify_links_iff:
  "map (at_x509 ops) ders = map Some certs \<Longrightarrow>
     verify_links ops i issuer (zip ders certs) = Inr subject \<longleftrightarrow> certified ops issuer ders subject"
proof (induction ders arbitrary: i issuer certs)
  case (Cons der ders)
  then obtain cert certs' where certs: "certs = cert # certs'" "at_x509 ops der = Some cert"
      "map (at_x509 ops) ders = map Some certs'"
    by (auto simp: Cons_eq_map_conv)
  have "verify_cert_signature ops der issuer = Inr True \<longleftrightarrow> signed_by ops cert issuer"
    by (simp add: verify_cert_signature_iff certs(2))
  with Cons.IH [OF certs(3)] certs show ?case
    by (auto simp: certified_Cons and_then_eq_Inr)
qed auto

lemma certified_snoc:
  "certified ops issuer (ders @ [der]) subject \<longleftrightarrow>
     (\<exists>mid. certified ops issuer ders mid \<and> at_x509 ops der = Some subject \<and>
        x_issuer subject = x_subject mid \<and> signed_by ops subject mid)"
  by (induction ders arbitrary: issuer) (auto simp: certified_Cons)

lemma certified_parsed: "certified ops issuer ders subject \<Longrightarrow> \<exists>certs. map (at_x509 ops) ders = map Some certs"
  by (induction rule: certified.induct) (auto simp: Cons_eq_map_conv)

lemma verify_certificate_chain_iff:
  "verify_certificate_chain ops doc = Inr () \<longleftrightarrow>
     (\<exists>root rest leaf. ad_cabundle doc = at_root ops # rest \<and> at_x509 ops (at_root ops) = Some root \<and>
        certified ops root (rest @ [ad_certificate doc]) leaf)"
proof (cases "ad_cabundle doc")
  case Nil
  then show ?thesis by (simp add: verify_certificate_chain_def)
next
  case (Cons first rest)
  have step: "verify_certificate_chain ops doc = Inr () \<longleftrightarrow>
      (\<exists>root certs mid leaf. at_x509 ops (at_root ops) = Some root \<and> map (at_x509 ops) rest = map Some certs \<and>
         at_x509 ops (ad_certificate doc) = Some leaf \<and> verify_links ops 1 root (zip rest certs) = Inr mid \<and>
         x_issuer leaf = x_subject mid \<and> verify_cert_signature ops (ad_certificate doc) mid = Inr True)"
    if "first = at_root ops"
    using that
    by (auto simp: verify_certificate_chain_def Cons and_then_eq_Inr parse_certificates_iff Cons_eq_map_conv
        split: if_splits) blast+
  show ?thesis
  proof (cases "first = at_root ops")
    case True
    show ?thesis
      unfolding step [OF True] verify_cert_signature_iff
      using True Cons certified_parsed [of ops _ rest]
      by (auto simp: certified_snoc verify_links_iff) (metis verify_links_iff)+
  next
    case False
    then show ?thesis by (simp add: verify_certificate_chain_def Cons)
  qed
qed

lemma verify_windows_iff:
  "verify_windows ops now_ms now_s enclave i ders = Inr () \<longleftrightarrow> list_all (validity_covers ops now_s) ders"
proof (induction ders arbitrary: i)
  case (Cons der ders)
  show ?case
  proof (cases "at_x509 ops der")
    case (Some cert)
    then show ?thesis
      using Cons.IH [of "Suc i"]
      by (auto simp: validity_covers_def Let_def ATTESTATION_NOT_BEFORE_LEEWAY_MS_def)
  qed (simp add: validity_covers_def)
qed simp

lemma verify_certificate_validity_iff:
  "verify_certificate_validity ops doc now_ms = Inr () \<longleftrightarrow>
     list_all (validity_covers ops (int (unat now_ms div 1000))) (ad_cabundle doc @ [ad_certificate doc])"
proof -
  have "unat now_ms < 2 ^ 64"
    using unsigned_less [of now_ms] by simp
  then have "unat now_ms div 1000 < 2 ^ 63" by simp
  then have "int (unat now_ms div 1000) < 2 ^ 63"
    by (simp only: of_nat_less_iff [symmetric, where 'a = int] of_nat_power of_nat_numeral)
  then show ?thesis
    by (simp only: verify_certificate_validity_def Let_def verify_windows_iff not_le [symmetric] if_False)
qed

lemma verify_pcrs_iff:
  "verify_pcrs doc ps = Inr () \<longleftrightarrow> list_all (\<lambda>(i, v). fmlookup (ad_pcrs doc) i = Some v) ps"
  by (induction doc ps rule: verify_pcrs.induct) (auto split: option.splits)

text \<open>The verifier accepts exactly the attested documents that carry the expected registers.\<close>

lemma verify_signature_iff:
  assumes "at_x509 ops (ad_certificate doc) = Some leaf"
  shows "verify_signature ops protected payload signature doc = Inr () \<longleftrightarrow>
    document_signed ops leaf protected payload signature"
  by (auto simp: verify_signature_def create_sig_structure_def document_signed_def and_then_eq_Inr assms
      split: if_splits)

lemma cose_bytes_iff: "cose_bytes e v = Inr b \<longleftrightarrow> v = CborBytes b"
  by (auto simp: cose_bytes_def split: cbor_value.splits)

lemma cose_array_iff: "cose_array v = Inr a \<longleftrightarrow> v = CborArray a"
  by (auto simp: cose_array_def split: cbor_value.splits)

lemma refuse_eq_Inr: "(if b then Inl e else r) = Inr y \<longleftrightarrow> \<not> b \<and> r = Inr y"
  by simp

lemma verify_document_iff:
  "verify_attestation_document_bytes ops cod expected_pcrs document_b64 nonce now_ms = Inr doc \<longleftrightarrow>
     (\<exists>document_bytes. b64_decode cod document_b64 = Some document_bytes \<and>
        attested ops document_bytes nonce now_ms doc) \<and>
     pred_option (list_all (\<lambda>(i, v). fmlookup (ad_pcrs doc) i = Some v)) expected_pcrs"
    (is "?L \<longleftrightarrow> ?R")
proof -
  let ?pcrs = "case expected_pcrs of None \<Rightarrow> Inr () | Some ps \<Rightarrow> verify_pcrs doc ps"
  have pcrs: "?pcrs = Inr () \<longleftrightarrow> pred_option (list_all (\<lambda>(i, v). fmlookup (ad_pcrs doc) i = Some v)) expected_pcrs"
    by (simp add: verify_pcrs_iff split: option.splits)
  have "?L \<longleftrightarrow> (\<exists>document_bytes cose protected payload signature contents.
      b64_decode cod document_b64 = Some document_bytes \<and>
      at_cbor_read ops document_bytes = Some (CborArray cose) \<and> length cose = 4 \<and>
      cose ! 0 = CborBytes protected \<and> cose ! 2 = CborBytes payload \<and> cose ! 3 = CborBytes signature \<and>
      at_cbor_read ops payload = Some contents \<and> parse_attestation_document contents = Inr doc \<and>
      ad_nonce doc = Some nonce \<and> verify_certificate_chain ops doc = Inr () \<and>
      verify_signature ops protected payload signature doc = Inr () \<and>
      verify_certificate_validity ops doc now_ms = Inr () \<and> ?pcrs = Inr ())"
    unfolding verify_attestation_document_bytes_def verify_attestation_document_at_def and_then_eq_Inr
      cose_bytes_iff cose_array_iff refuse_eq_Inr ok_or_eq_Inr
    by auto
  also have "\<dots> \<longleftrightarrow> (\<exists>document_bytes protected unprotected payload signature contents.
      b64_decode cod document_b64 = Some document_bytes \<and>
      at_cbor_read ops document_bytes =
        Some (CborArray [CborBytes protected, unprotected, CborBytes payload, CborBytes signature]) \<and>
      at_cbor_read ops payload = Some contents \<and> parse_attestation_document contents = Inr doc \<and>
      ad_nonce doc = Some nonce \<and> verify_certificate_chain ops doc = Inr () \<and>
      verify_signature ops protected payload signature doc = Inr () \<and>
      verify_certificate_validity ops doc now_ms = Inr () \<and> ?pcrs = Inr ())" (is "_ \<longleftrightarrow> ?M")
    by (auto simp: numeral_eq_Suc length_Suc_conv)
  also have "\<dots> \<longleftrightarrow> ?R"
    unfolding attested_def pcrs verify_certificate_chain_iff verify_certificate_validity_iff
    by (auto simp: certified_snoc verify_signature_iff) blast
  finally show ?thesis .
qed

end
