(* ===== verification/Sdk_Pcr.thy ===== *)
theory Sdk_Pcr
  imports Sdk_Attestation Transport_Crypto
begin

text \<open>
  The client's policy on the enclave's code measurement, \<open>sdk/rust/src/pcr.rs\<close>: the pinned values, lists
  given by the caller, and the signed history fetched over the network. URL parsing, address parsing, the
  JSON form of the history and the network exchange are arguments.
\<close>

section \<open>URLs\<close>

record url =
  url_scheme :: string
  url_username :: string
  url_password :: "string option"
  url_host :: "string option"
  url_path :: string
  url_query :: "string option"
  url_fragment :: "string option"
  url_text :: string

text \<open>
  An address is what \<open>IpAddr\<close> shows of it: whether it is a loopback address, and its octets.
  \<open>ua_set_path\<close> is \<open>Url::set_path\<close>.
\<close>

record ip_address =
  ip_loopback :: bool
  ip_octets :: bytes

record url_ops =
  ua_parse :: "string \<Rightarrow> url option"
  ua_address :: "string \<Rightarrow> ip_address option"
  ua_set_path :: "url \<Rightarrow> string \<Rightarrow> url"

definition trim_end_matches :: "char \<Rightarrow> string \<Rightarrow> string" where
  "trim_end_matches c s = rev (dropWhile (\<lambda>d. d = c) (rev s))"

definition to_ascii_lower :: "char \<Rightarrow> char" where
  "to_ascii_lower c =
     (if 65 \<le> (of_char c :: nat) \<and> (of_char c :: nat) \<le> 90 then char_of (of_char c + 32 :: nat) else c)"

definition eq_ignore_ascii_case :: "string \<Rightarrow> string \<Rightarrow> bool" where
  "eq_ignore_ascii_case s t \<longleftrightarrow> map to_ascii_lower s = map to_ascii_lower t"

text \<open>\<open>Result::is_ok_and\<close> on a parse.\<close>

definition pred_some :: "('a \<Rightarrow> bool) \<Rightarrow> 'a option \<Rightarrow> bool" where
  "pred_some P x = (case x of None \<Rightarrow> False | Some y \<Rightarrow> P y)"

text \<open>\<open>strip_prefix\<close> and \<open>strip_suffix\<close> of the brackets around an address.\<close>

definition address_host :: "string \<Rightarrow> string" where
  "address_host host =
     (if host \<noteq> [] \<and> hd host = CHR ''['' \<and> tl host \<noteq> [] \<and> last (tl host) = CHR '']''
      then butlast (tl host) else host)"

section \<open>Policy\<close>

definition PCR0_HEX_LEN :: nat where
  "PCR0_HEX_LEN = 96"

definition PCR0_BYTES_LEN :: nat where
  "PCR0_BYTES_LEN = 48"

definition MAX_REMOTE_HISTORY_BYTES :: nat where
  "MAX_REMOTE_HISTORY_BYTES = 1024 * 1024"

definition MAX_REMOTE_HISTORY_ENTRIES :: nat where
  "MAX_REMOTE_HISTORY_ENTRIES = 2048"

definition MAX_REMOTE_HISTORY_URLS :: nat where
  "MAX_REMOTE_HISTORY_URLS = 4"

definition MAX_REMOTE_HISTORY_URL_BYTES :: nat where
  "MAX_REMOTE_HISTORY_URL_BYTES = 2048"

definition PCR_HISTORY_VERIFICATION_KEY_B64 :: string where
  "PCR_HISTORY_VERIFICATION_KEY_B64 =
     ''MHYwEAYHKoZIzj0CAQYFK4EEACIDYgAEHiUY9kFWK1GqBGzczohhwEwElXzgWLDZa9R6wBx3JOBocgSt9+UIzZlJbPDjYeGBfDUXh7Z62BG2vVsh2NgclLB5S7A2ucBBtb1wd8vSQHP8jpdPhZX1slauPgbnROIP''"

definition OFFICIAL_PRODUCTION_PCR0S :: "string list" where
  "OFFICIAL_PRODUCTION_PCR0S =
     [''21d27bd19cdd02632485a6e8874753e42cf7f098f1335bb62a9c23e7f64da9100c02dba582da17ac68052fa6be16b7a9'',
      ''643b3c293a4eac11ec14ab405d2405e46cb714263a12da6c62f485a0fa395cb3c3d5ef07b18d39a1f9715f25e7943b66'']"

definition OFFICIAL_DEVELOPMENT_PCR0S :: "string list" where
  "OFFICIAL_DEVELOPMENT_PCR0S =
     [''a95956c3fb9457e509be6d614ffefcddf98fe594f77bb6a56891fc1f5bdec41da2add13db22e0908363c8d0929c04def'',
      ''e573a3ddc8a27f387e24cfb02a8fa594fe782674de6ee1fa9385126b9f8ec38f4a236e91c371bdd2b9444623c1c1cc34'']"

definition OFFICIAL_PRODUCTION_PCR_HISTORY_URL :: string where
  "OFFICIAL_PRODUCTION_PCR_HISTORY_URL =
     ''https://raw.githubusercontent.com/MaplePrivacyLabs/Maple/master/services/opensecret/pcrProdHistory.json''"

definition OFFICIAL_DEVELOPMENT_PCR_HISTORY_URL :: string where
  "OFFICIAL_DEVELOPMENT_PCR_HISTORY_URL =
     ''https://raw.githubusercontent.com/MaplePrivacyLabs/Maple/master/services/opensecret/pcrDevHistory.json''"

datatype pcr0_environment = Production | Development

record pcr0_trust_policy =
  tp_trusted_pcr0s :: "string hash_set"
  tp_remote_history_urls :: "url list"

text \<open>\<open>None\<close> is the panic on an official URL that does not parse.\<close>

definition official_for :: "url_ops \<Rightarrow> pcr0_environment \<Rightarrow> pcr0_trust_policy option" where
  "official_for urls environment =
     (let (pcr0s, remote_history_url) =
        (case environment of
           Production \<Rightarrow> (OFFICIAL_PRODUCTION_PCR0S, OFFICIAL_PRODUCTION_PCR_HISTORY_URL)
         | Development \<Rightarrow> (OFFICIAL_DEVELOPMENT_PCR0S, OFFICIAL_DEVELOPMENT_PCR_HISTORY_URL)) in
      case ua_parse urls remote_history_url of
        None \<Rightarrow> None
      | Some u \<Rightarrow> Some \<lparr>tp_trusted_pcr0s = fset_of_list pcr0s, tp_remote_history_urls = [u]\<rparr>)"

definition validate_pcr0_hex :: "string \<Rightarrow> sdk_failure + unit" where
  "validate_pcr0_hex pcr0 =
     (if length pcr0 \<noteq> PCR0_HEX_LEN \<or> \<not> list_all is_lower_hex pcr0 then Inl FailConfiguration
      else if list_all (\<lambda>c. c = CHR ''0'') pcr0 then Inl FailConfiguration
      else Inr ())"

fun add_pcr0s :: "pcr0_trust_policy \<Rightarrow> string list \<Rightarrow> sdk_failure + pcr0_trust_policy" where
  "add_pcr0s policy [] = Inr policy"
| "add_pcr0s policy (pcr0 # pcr0s) =
     and_then (validate_pcr0_hex pcr0) (\<lambda>_.
       add_pcr0s (policy\<lparr>tp_trusted_pcr0s := finsert pcr0 (tp_trusted_pcr0s policy)\<rparr>) pcr0s)"

definition from_static_allowlist :: "string list \<Rightarrow> sdk_failure + pcr0_trust_policy" where
  "from_static_allowlist pcr0s =
     and_then (add_pcr0s \<lparr>tp_trusted_pcr0s = {||}, tp_remote_history_urls = []\<rparr> pcr0s) (\<lambda>policy.
       if tp_trusted_pcr0s policy = {||} then Inl FailConfiguration else Inr policy)"

definition with_additional_pcr0s :: "pcr0_trust_policy \<Rightarrow> string list \<Rightarrow> sdk_failure + pcr0_trust_policy" where
  "with_additional_pcr0s self pcr0s = add_pcr0s self pcr0s"

definition without_remote_history :: "pcr0_trust_policy \<Rightarrow> pcr0_trust_policy" where
  "without_remote_history self = self\<lparr>tp_remote_history_urls := []\<rparr>"

definition parse_remote_history_url :: "url_ops \<Rightarrow> string \<Rightarrow> sdk_failure + url" where
  "parse_remote_history_url urls v =
     (if length v > MAX_REMOTE_HISTORY_URL_BYTES then Inl FailConfiguration
      else
      and_then (ok_or FailConfiguration (ua_parse urls v)) (\<lambda>u.
      if url_username u \<noteq> [] \<or> url_password u \<noteq> None \<or> url_fragment u \<noteq> None then Inl FailConfiguration
      else
      let is_loopback = (case url_host u of
          None \<Rightarrow> False
        | Some h \<Rightarrow>
            let host = trim_end_matches (CHR ''.'') h in
            eq_ignore_ascii_case host ''localhost'' \<or> pred_some ip_loopback (ua_address urls (address_host host))) in
      if url_scheme u \<noteq> ''https'' \<and> \<not> (url_scheme u = ''http'' \<and> is_loopback) then Inl FailConfiguration
      else Inr u))"

fun parse_history_urls :: "url_ops \<Rightarrow> string list \<Rightarrow> sdk_failure + url list" where
  "parse_history_urls urls [] = Inr []"
| "parse_history_urls urls (v # vs) =
     and_then (parse_remote_history_url urls v) (\<lambda>u.
     and_then (parse_history_urls urls vs) (\<lambda>us. Inr (u # us)))"

definition with_remote_history_urls ::
    "url_ops \<Rightarrow> pcr0_trust_policy \<Rightarrow> string list \<Rightarrow> sdk_failure + pcr0_trust_policy" where
  "with_remote_history_urls urls self vs =
     and_then (parse_history_urls urls vs) (\<lambda>parsed.
       if parsed = [] \<or> length parsed > MAX_REMOTE_HISTORY_URLS then Inl FailConfiguration
       else Inr (self\<lparr>tp_remote_history_urls := parsed\<rparr>))"

section \<open>Signed history\<close>

record pcr_history_entry =
  he_pcr0 :: string
  he_pcr1 :: string
  he_pcr2 :: string
  he_timestamp :: u64
  he_signature :: string

definition entry_validate :: "codec_ops \<Rightarrow> pcr_history_entry \<Rightarrow> sdk_failure + unit" where
  "entry_validate cod self =
     and_then (validate_pcr0_hex (he_pcr0 self)) (\<lambda>_.
     and_then (validate_pcr0_hex (he_pcr1 self)) (\<lambda>_.
     and_then (validate_pcr0_hex (he_pcr2 self)) (\<lambda>_.
     if he_timestamp self = 0 then Inl (FailAttestation HistoryRejected)
     else
     and_then (ok_or FailBase64 (b64_decode cod (he_signature self))) (\<lambda>signature.
     if length signature \<noteq> 96 then Inl (FailAttestation HistoryRejected) else Inr ()))))"

definition has_valid_signature :: "attest_ops \<Rightarrow> codec_ops \<Rightarrow> pcr_history_entry \<Rightarrow> bool" where
  "has_valid_signature ops cod self =
     (case b64_decode cod (he_signature self) of
        None \<Rightarrow> False
      | Some signature_bytes \<Rightarrow>
          (case b64_decode cod PCR_HISTORY_VERIFICATION_KEY_B64 of
             None \<Rightarrow> False
           | Some spki \<Rightarrow>
               let public_key = drop (length spki - 97) spki in
               take 1 public_key = [0x04] \<and>
               at_verify ops ECDSA_P384_SHA384_FIXED public_key (ascii (he_pcr0 self)) signature_bytes))"

text \<open>
  What the network does with a request for a history: nothing in time, a failure, or a response whose
  body arrives in pieces, a piece being \<open>None\<close> when reading it fails.
\<close>

datatype history_exchange =
  HistoryTimeout | HistoryFailed | HistoryReply nat "nat option" "bytes option list"

fun read_history_body :: "bytes \<Rightarrow> bytes option list \<Rightarrow> sdk_failure + bytes" where
  "read_history_body body [] = Inr body"
| "read_history_body body (None # chunks) = Inl FailHttp"
| "read_history_body body (Some chunk # chunks) =
     (if length body + length chunk > MAX_REMOTE_HISTORY_BYTES then Inl (FailAttestation HistoryRejected)
      else read_history_body (body @ chunk) chunks)"

fun validate_entries :: "codec_ops \<Rightarrow> pcr_history_entry list \<Rightarrow> sdk_failure + unit" where
  "validate_entries cod [] = Inr ()"
| "validate_entries cod (entry # entries) = and_then (entry_validate cod entry) (\<lambda>_. validate_entries cod entries)"

definition fetch_remote_history ::
    "codec_ops \<Rightarrow> (bytes \<Rightarrow> pcr_history_entry list option) \<Rightarrow> history_exchange \<Rightarrow>
      sdk_failure + pcr_history_entry list" where
  "fetch_remote_history cod read_entries exchange =
     (case exchange of
        HistoryTimeout \<Rightarrow> Inl (FailAttestation HistoryRejected)
      | HistoryFailed \<Rightarrow> Inl FailHttp
      | HistoryReply status content_length chunks \<Rightarrow>
          if \<not> (200 \<le> status \<and> status < 300) then Inl (FailAttestation HistoryRejected)
          else if pred_option (\<lambda>n. n \<le> MAX_REMOTE_HISTORY_BYTES) content_length then
            and_then (read_history_body [] chunks) (\<lambda>body.
            and_then (ok_or FailSerialization (read_entries body)) (\<lambda>entries.
            if entries = [] \<or> length entries > MAX_REMOTE_HISTORY_ENTRIES
            then Inl (FailAttestation HistoryRejected)
            else and_then (validate_entries cod entries) (\<lambda>_. Inr entries)))
          else Inl (FailAttestation HistoryRejected))"

fun search_histories ::
    "attest_ops \<Rightarrow> codec_ops \<Rightarrow> (bytes \<Rightarrow> pcr_history_entry list option) \<Rightarrow> (url \<Rightarrow> history_exchange) \<Rightarrow>
      string \<Rightarrow> url list \<Rightarrow> sdk_failure + unit" where
  "search_histories ops cod read_entries network pcr0_hex [] = Inl (FailAttestation PcrNotApproved)"
| "search_histories ops cod read_entries network pcr0_hex (u # urls) =
     (case fetch_remote_history cod read_entries (network u) of
        Inl _ \<Rightarrow> search_histories ops cod read_entries network pcr0_hex urls
      | Inr history \<Rightarrow>
          if list_ex (\<lambda>entry. he_pcr0 entry = pcr0_hex \<and> has_valid_signature ops cod entry) history then Inr ()
          else search_histories ops cod read_entries network pcr0_hex urls)"

text \<open>\<open>history_client\<close> tells whether the HTTP client for the history could be built.\<close>

definition verify_pcr0 ::
    "attest_ops \<Rightarrow> codec_ops \<Rightarrow> (bytes \<Rightarrow> pcr_history_entry list option) \<Rightarrow> (url \<Rightarrow> history_exchange) \<Rightarrow> bool \<Rightarrow>
      pcr0_trust_policy \<Rightarrow> bytes \<Rightarrow> sdk_failure + unit" where
  "verify_pcr0 ops cod read_entries network history_client self pcr0 =
     (if length pcr0 \<noteq> PCR0_BYTES_LEN then Inl (FailAttestation PcrLength)
      else if list_all (\<lambda>b. b = 0) pcr0 then Inl (FailAttestation PcrAllZero)
      else
        let pcr0_hex = hx_encode cod pcr0 in
        if pcr0_hex |\<in>| tp_trusted_pcr0s self then Inr ()
        else if \<not> history_client then Inl FailHttp
        else search_histories ops cod read_entries network pcr0_hex (tp_remote_history_urls self))"

section \<open>What the policy trusts\<close>

text \<open>
  A measurement is trusted when it is pinned, or when one of the histories that can be fetched contains it
  with a signature of the history key.
\<close>

definition pcr0_trusted ::
    "attest_ops \<Rightarrow> codec_ops \<Rightarrow> (bytes \<Rightarrow> pcr_history_entry list option) \<Rightarrow> (url \<Rightarrow> history_exchange) \<Rightarrow>
      pcr0_trust_policy \<Rightarrow> string \<Rightarrow> bool" where
  "pcr0_trusted ops cod read_entries network policy pcr0_hex \<longleftrightarrow>
     pcr0_hex |\<in>| tp_trusted_pcr0s policy \<or>
     (\<exists>u history entry. u \<in> set (tp_remote_history_urls policy) \<and>
        fetch_remote_history cod read_entries (network u) = Inr history \<and> entry \<in> set history \<and>
        he_pcr0 entry = pcr0_hex \<and> has_valid_signature ops cod entry)"

lemma search_histories_iff:
  "search_histories ops cod read_entries network pcr0_hex urls = Inr () \<longleftrightarrow>
     (\<exists>u history entry. u \<in> set urls \<and> fetch_remote_history cod read_entries (network u) = Inr history \<and>
        entry \<in> set history \<and> he_pcr0 entry = pcr0_hex \<and> has_valid_signature ops cod entry)"
  by (induction urls) (auto simp: list_ex_iff split: sum.splits)

lemma verify_pcr0_trusted:
  assumes "verify_pcr0 ops cod read_entries network history_client policy pcr0 = Inr ()"
  shows "length pcr0 = 48 \<and> pcr0 \<noteq> replicate 48 0 \<and>
    pcr0_trusted ops cod read_entries network policy (hx_encode cod pcr0)"
  using assms
  by (auto simp: verify_pcr0_def pcr0_trusted_def search_histories_iff PCR0_BYTES_LEN_def Let_def
      list_all_iff split: if_splits)

lemma verify_pcr0_complete:
  assumes "length pcr0 = 48" and "pcr0 \<noteq> replicate 48 0"
    and "pcr0_trusted ops cod read_entries network policy (hx_encode cod pcr0)"
  shows "verify_pcr0 ops cod read_entries network True policy pcr0 = Inr ()"
proof -
  have "\<not> list_all (\<lambda>b. b = 0) pcr0"
    using assms(1,2) by (auto simp: list_all_iff intro: replicate_eqI)
  with assms(1,3) show ?thesis
    by (simp add: verify_pcr0_def PCR0_BYTES_LEN_def Let_def pcr0_trusted_def search_histories_iff) blast
qed

text \<open>Policies hold only well-formed measurements, and everything a history yields is well formed.\<close>

definition policy_ok :: "pcr0_trust_policy \<Rightarrow> bool" where
  "policy_ok policy \<longleftrightarrow> fBall (tp_trusted_pcr0s policy) (\<lambda>pcr0. validate_pcr0_hex pcr0 = Inr ())"

lemma add_pcr0s_ok: "add_pcr0s policy pcr0s = Inr policy' \<Longrightarrow> policy_ok policy \<Longrightarrow> policy_ok policy'"
  by (induction policy pcr0s rule: add_pcr0s.induct) (auto simp: and_then_eq_Inr policy_ok_def)

lemma add_pcr0s_members:
  "add_pcr0s policy pcr0s = Inr policy' \<Longrightarrow>
     tp_trusted_pcr0s policy' = tp_trusted_pcr0s policy |\<union>| fset_of_list pcr0s \<and>
     tp_remote_history_urls policy' = tp_remote_history_urls policy"
  by (induction policy pcr0s rule: add_pcr0s.induct) (auto simp: and_then_eq_Inr)

lemma from_static_allowlist_ok:
  assumes "from_static_allowlist pcr0s = Inr policy"
  shows "policy_ok policy \<and> tp_trusted_pcr0s policy = fset_of_list pcr0s \<and> tp_trusted_pcr0s policy \<noteq> {||} \<and>
    tp_remote_history_urls policy = []"
proof -
  from assms have added: "add_pcr0s \<lparr>tp_trusted_pcr0s = {||}, tp_remote_history_urls = []\<rparr> pcr0s = Inr policy"
      and "tp_trusted_pcr0s policy \<noteq> {||}"
    by (auto simp: from_static_allowlist_def and_then_eq_Inr split: if_splits)
  moreover have "policy_ok \<lparr>tp_trusted_pcr0s = {||}, tp_remote_history_urls = []\<rparr>"
    by (simp add: policy_ok_def)
  ultimately show ?thesis
    using add_pcr0s_ok [OF added] add_pcr0s_members [OF added] by simp
qed

lemma official_pcr0s_valid:
  "list_all (\<lambda>pcr0. validate_pcr0_hex pcr0 = Inr ()) (OFFICIAL_PRODUCTION_PCR0S @ OFFICIAL_DEVELOPMENT_PCR0S)"
  by (simp add: OFFICIAL_PRODUCTION_PCR0S_def OFFICIAL_DEVELOPMENT_PCR0S_def validate_pcr0_hex_def
      PCR0_HEX_LEN_def is_lower_hex_def is_ascii_digit_def)

text \<open>The official policies are well formed: two pinned measurements and one history each.\<close>

lemma official_for_ok:
  assumes "official_for urls environment = Some policy"
  shows "policy_ok policy \<and> fcard (tp_trusted_pcr0s policy) = 2 \<and> length (tp_remote_history_urls policy) = 1"
proof -
  from assms have "policy_ok policy"
    using official_pcr0s_valid
    by (auto simp: official_for_def policy_ok_def list_all_iff fset_of_list_elem Let_def
        split: pcr0_environment.splits option.splits)
  moreover have "fcard (tp_trusted_pcr0s policy) = 2 \<and> length (tp_remote_history_urls policy) = 1"
    using assms
    by (auto simp: official_for_def OFFICIAL_PRODUCTION_PCR0S_def OFFICIAL_DEVELOPMENT_PCR0S_def
        fcard.rep_eq fset_of_list.rep_eq split: pcr0_environment.splits option.splits)
  ultimately show ?thesis by simp
qed

lemma fetched_history_ok:
  assumes "fetch_remote_history cod read_entries exchange = Inr entries"
  shows "entries \<noteq> [] \<and> length entries \<le> 2048 \<and> list_all (\<lambda>entry. entry_validate cod entry = Inr ()) entries"
proof -
  have valid: "validate_entries cod es = Inr () \<longleftrightarrow> list_all (\<lambda>entry. entry_validate cod entry = Inr ()) es" for es
    by (induction es) (auto simp: and_then_eq_Inr)
  from assms show ?thesis
    by (auto simp: fetch_remote_history_def and_then_eq_Inr valid MAX_REMOTE_HISTORY_ENTRIES_def
        split: history_exchange.splits if_splits)
qed

lemma read_history_body_bounded:
  "read_history_body body chunks = Inr whole \<Longrightarrow> length body \<le> MAX_REMOTE_HISTORY_BYTES \<Longrightarrow>
     length whole \<le> MAX_REMOTE_HISTORY_BYTES \<and> whole = body @ concat (List.map_filter id chunks)"
  by (induction body chunks rule: read_history_body.induct)
     (auto simp: List.map_filter_simps split: if_splits)

end
