(* ===== verification/Sdk_Client.thy ===== *)
theory Sdk_Client
  imports Sdk_Framing Sdk_Pcr Transport_Gateway
begin

text \<open>
  The client of the transport, \<open>sdk/rust/src/transport_v2/client.rs\<close>: its configuration, the handshake
  with the attestation checks, sealing of requests, and the exchange of a sealed request for an event
  stream. The network is a function from the outer request to the response, or nothing when the exchange
  fails; randomness, clocks and the JSON forms of the handshake are arguments.
\<close>

section \<open>Configuration\<close>

record transport_v2_client =
  tc_base_url :: string
  tc_use_mock_attestation :: bool
  tc_pcr0_trust_policy :: pcr0_trust_policy

text \<open>\<open>android\<close> is the build's target, \<open>cfg!(target_os = "android")\<close>.\<close>

definition is_local_host :: "url_ops \<Rightarrow> bool \<Rightarrow> string \<Rightarrow> bool" where
  "is_local_host urls android host \<longleftrightarrow>
     eq_ignore_ascii_case host ''localhost'' \<or>
     pred_some (\<lambda>address. ip_loopback address \<or> android \<and> ip_octets address = [10, 0, 2, 2])
       (ua_address urls (address_host host))"

definition canonical_base_url :: "url_ops \<Rightarrow> bool \<Rightarrow> string \<Rightarrow> transport_v2_error + (string \<times> bool)" where
  "canonical_base_url urls android base_url =
     and_then (ok_or V2InvalidConfiguration (ua_parse urls base_url)) (\<lambda>parsed.
     if url_scheme parsed \<notin> {''http'', ''https''} \<or> url_username parsed \<noteq> [] \<or> url_password parsed \<noteq> None \<or>
        url_query parsed \<noteq> None \<or> url_fragment parsed \<noteq> None
     then Inl V2InvalidConfiguration
     else
     and_then (ok_or V2InvalidConfiguration (url_host parsed)) (\<lambda>h.
     let host = trim_end_matches (CHR ''.'') h;
         use_mock_attestation = (url_scheme parsed = ''http'' \<and> is_local_host urls android host) in
     if url_scheme parsed \<noteq> ''https'' \<and> \<not> use_mock_attestation then Inl V2InvalidConfiguration
     else
       let path = trim_end_matches (CHR ''/'') (url_path parsed);
           parsed = ua_set_path urls parsed (if path = [] then ''/'' else path) in
       Inr (trim_end_matches (CHR ''/'') (url_text parsed), use_mock_attestation)))"

definition client_new ::
    "url_ops \<Rightarrow> bool \<Rightarrow> bool \<Rightarrow> string \<Rightarrow> pcr0_trust_policy \<Rightarrow> transport_v2_error + transport_v2_client" where
  "client_new urls android http_client base_url policy =
     and_then (canonical_base_url urls android base_url) (\<lambda>(base_url, use_mock_attestation).
     if \<not> http_client then Inl V2InvalidConfiguration
     else Inr \<lparr>tc_base_url = base_url, tc_use_mock_attestation = use_mock_attestation,
               tc_pcr0_trust_policy = policy\<rparr>)"

section \<open>Outer responses\<close>

text \<open>The pieces of a body are \<open>None\<close> where reading them fails.\<close>

record outer_reply =
  rp_status :: nat
  rp_headers :: header_map
  rp_pieces :: "bytes option list"

definition exact_header :: "http_ops \<Rightarrow> header_map \<Rightarrow> string \<Rightarrow> string option" where
  "exact_header http headers name =
     (case get_all headers name of [v] \<Rightarrow> http_to_str http v | _ \<Rightarrow> None)"

definition exact_content_type :: "http_ops \<Rightarrow> header_map \<Rightarrow> string option" where
  "exact_content_type http headers = exact_header http headers ''content-type''"

definition session_recovery_hint_of :: "http_ops \<Rightarrow> nat \<Rightarrow> header_map \<Rightarrow> session_recovery_hint option" where
  "session_recovery_hint_of http status headers =
     (if status \<noteq> 400 \<or> exact_header http headers ''x-opensecret-error-contract'' \<noteq> Some ''1'' then None
      else Option.bind (exact_header http headers ''x-opensecret-error-code'') (\<lambda>code.
        if code = ''session_not_found'' then Some SessionNotFoundHint
        else if code = ''request_decryption_failed'' then Some RequestDecryptionFailedHint
        else None))"

fun read_bounded_response :: "nat \<Rightarrow> bytes \<Rightarrow> bytes option list \<Rightarrow> transport_v2_error + bytes" where
  "read_bounded_response limit body [] = Inr body"
| "read_bounded_response limit body (None # source) = Inl V2Http"
| "read_bounded_response limit body (Some chunk # source) =
     (if length body + length chunk \<ge> 2 ^ 64 then Inl V2InvalidSessionResponse
      else if length body + length chunk > limit then Inl V2InvalidSessionResponse
      else read_bounded_response limit (body @ chunk) source)"

section \<open>Sessions\<close>

definition SDK_MAX_SESSION_RESPONSE_BYTES :: nat where
  "SDK_MAX_SESSION_RESPONSE_BYTES = 64 * 1024"

definition EXPECTED_SESSION_LIFETIME_SECONDS :: nat where
  "EXPECTED_SESSION_LIFETIME_SECONDS = 60 * 60"

definition SESSION_EXPIRY_SKEW :: duration where
  "SESSION_EXPIRY_SKEW = from_secs 30"

record transport_v2_session =
  ts_secrets :: sdk_secrets
  ts_routing_key :: bytes
  ts_expires_at :: instant

record sdk_session_request =
  sq_version :: u8
  sq_challenge :: string
  sq_client_public_key :: string

record sdk_session_response =
  sp_version :: u8
  sp_session_id :: string
  sp_attestation_document :: string
  sp_expires_in_seconds :: nat

definition fresh_challenge :: "bytes option \<Rightarrow> transport_v2_error + bytes" where
  "fresh_challenge randomness = ok_or V2RandomnessUnavailable randomness"

definition validate_attested_transcript ::
    "attestation_document \<Rightarrow> bytes \<Rightarrow> bytes \<Rightarrow> transport_v2_error + bytes" where
  "validate_attested_transcript document challenge client_public_key =
     (if ad_nonce document \<noteq> Some challenge \<or>
         ad_user_data document \<noteq> Some (sdk_attestation_user_data client_public_key)
      then Inl V2AttestationRejected
      else and_then (ok_or V2AttestationRejected (ad_public_key document)) (\<lambda>key.
        if length key = X25519_PUBLIC_KEY_BYTES then Inr key else Inl V2AttestationRejected))"

text \<open>The fields of a mock document: later entries win, keys that are no text are skipped.\<close>

definition mock_field :: "attestation_document \<Rightarrow> cbor_value \<times> cbor_value \<Rightarrow> attestation_document" where
  "mock_field doc = (\<lambda>(key, v).
     (case (key, v) of
        (CborText k, CborBytes b) \<Rightarrow>
          if k = ''public_key'' then doc\<lparr>ad_public_key := Some b\<rparr>
          else if k = ''user_data'' then doc\<lparr>ad_user_data := Some b\<rparr>
          else if k = ''nonce'' then doc\<lparr>ad_nonce := Some b\<rparr>
          else doc
      | _ \<Rightarrow> doc))"

definition mock_document :: attestation_document where
  "mock_document = \<lparr>ad_module_id = ''mock-module'', ad_timestamp = 1, ad_digest = ''SHA384'', ad_pcrs = fmempty,
     ad_certificate = [], ad_cabundle = [], ad_public_key = None, ad_user_data = None, ad_nonce = None\<rparr>"

definition parse_mock_attestation ::
    "attest_ops \<Rightarrow> codec_ops \<Rightarrow> string \<Rightarrow> transport_v2_error + attestation_document" where
  "parse_mock_attestation att cod document_b64 =
     and_then (ok_or V2AttestationRejected (b64_decode cod document_b64)) (\<lambda>document_bytes.
     and_then (ok_or V2AttestationRejected (at_cbor_read att document_bytes)) (\<lambda>cose.
     and_then (case cose of
         CborArray vs \<Rightarrow>
           if length vs = 4 then (case vs ! 2 of CborBytes b \<Rightarrow> Inr b | _ \<Rightarrow> Inl V2AttestationRejected)
           else Inl V2AttestationRejected
       | _ \<Rightarrow> Inl V2AttestationRejected) (\<lambda>payload.
     and_then (ok_or V2AttestationRejected (at_cbor_read att payload)) (\<lambda>document.
     case document of
       CborMap m \<Rightarrow> Inr (foldl mock_field mock_document m)
     | _ \<Rightarrow> Inl V2AttestationRejected))))"

definition verify_attested_pcr0 ::
    "attest_ops \<Rightarrow> codec_ops \<Rightarrow> (bytes \<Rightarrow> pcr_history_entry list option) \<Rightarrow> (url \<Rightarrow> history_exchange) \<Rightarrow> bool \<Rightarrow>
      pcr0_trust_policy \<Rightarrow> attestation_document \<Rightarrow> transport_v2_error + unit" where
  "verify_attested_pcr0 att cod read_entries network history_client policy document =
     and_then (ok_or V2AttestationRejected (fmlookup (ad_pcrs document) 0)) (\<lambda>pcr0.
     map_err (\<lambda>_. V2AttestationRejected) (verify_pcr0 att cod read_entries network history_client policy pcr0))"

text \<open>
  What the client sends to open a session; \<open>write_request\<close> is the JSON writer. Headers that the
  HTTP stack adds on its own are not listed here.
\<close>

definition session_outer_request ::
    "codec_ops \<Rightarrow> (sdk_session_request \<Rightarrow> bytes option) \<Rightarrow> bytes \<Rightarrow> bytes \<Rightarrow> outer_request option" where
  "session_outer_request cod write_request challenge client_public_key =
     (let encoded_routing_key = b64_encode cod challenge in
      case write_request \<lparr>sq_version = SDK_VERSION, sq_challenge = encoded_routing_key,
          sq_client_public_key = b64_encode cod client_public_key\<rparr> of
        None \<Rightarrow> None
      | Some body \<Rightarrow> Some \<lparr>or_headers = [(''content-type'', ''application/json''),
            (SDK_ROUTING_KEY_HEADER, encoded_routing_key)], or_query = None, or_body = Some body\<rparr>)"

definition session_response ::
    "http_ops \<Rightarrow> (bytes \<Rightarrow> sdk_session_response option) \<Rightarrow> outer_reply \<Rightarrow>
      transport_v2_error + sdk_session_response" where
  "session_response http read_response reply =
     (if rp_status reply \<noteq> 200 \<or> exact_content_type http (rp_headers reply) \<noteq> Some ''application/json''
      then Inl V2UntrustedOuterResponse
      else
      and_then (read_bounded_response SDK_MAX_SESSION_RESPONSE_BYTES [] (rp_pieces reply)) (\<lambda>body.
      and_then (ok_or V2InvalidSessionResponse (read_response body)) (\<lambda>response.
      if sp_version response \<noteq> SDK_VERSION \<or>
         sp_expires_in_seconds response \<noteq> EXPECTED_SESSION_LIFETIME_SECONDS
      then Inl V2InvalidSessionResponse else Inr response)))"

definition attested_session_document ::
    "attest_ops \<Rightarrow> codec_ops \<Rightarrow> (bytes \<Rightarrow> pcr_history_entry list option) \<Rightarrow> (url \<Rightarrow> history_exchange) \<Rightarrow> bool \<Rightarrow>
      transport_v2_client \<Rightarrow> u64 \<Rightarrow> bytes \<Rightarrow> string \<Rightarrow> transport_v2_error + attestation_document" where
  "attested_session_document att cod read_entries history_network history_client self device_now_ms
       challenge document_b64 =
     (if tc_use_mock_attestation self then parse_mock_attestation att cod document_b64
      else
      and_then (map_err (\<lambda>_. V2AttestationRejected)
          (verify_attestation_document_bytes att cod None document_b64 challenge device_now_ms)) (\<lambda>document.
      and_then (verify_attested_pcr0 att cod read_entries history_network history_client
          (tc_pcr0_trust_policy self) document) (\<lambda>_. Inr document)))"

definition establish_session ::
    "'sk crypto_ops \<Rightarrow> attest_ops \<Rightarrow> codec_ops \<Rightarrow> http_ops \<Rightarrow> (sdk_session_request \<Rightarrow> bytes option) \<Rightarrow>
      (bytes \<Rightarrow> sdk_session_response option) \<Rightarrow> (bytes \<Rightarrow> pcr_history_entry list option) \<Rightarrow>
      (url \<Rightarrow> history_exchange) \<Rightarrow> bool \<Rightarrow> (outer_request \<Rightarrow> outer_reply option) \<Rightarrow> transport_v2_client \<Rightarrow>
      instant \<Rightarrow> bytes option \<Rightarrow> 'sk \<Rightarrow> u64 \<Rightarrow> transport_v2_error + transport_v2_session" where
  "establish_session ops att cod http write_request read_response read_entries history_network history_client
       network self started_at randomness client_secret device_now_ms =
     and_then (fresh_challenge randomness) (\<lambda>challenge.
     let client_public_key = cr_public ops client_secret in
     and_then (ok_or V2Http (session_outer_request cod write_request challenge client_public_key)) (\<lambda>request.
     and_then (ok_or V2Http (network request)) (\<lambda>reply.
     and_then (session_response http read_response reply) (\<lambda>response.
     and_then (attested_session_document att cod read_entries history_network history_client self
         device_now_ms challenge (sp_attestation_document response)) (\<lambda>document.
     and_then (validate_attested_transcript document challenge client_public_key) (\<lambda>server_public_key.
     let transcript = \<lparr>st_challenge = challenge, st_client_public_key = client_public_key,
           st_server_public_key = server_public_key\<rparr> in
     and_then (sdk_derive_client_session ops client_secret transcript) (\<lambda>secrets.
     and_then (sdk_session_id_from_str cod (sp_session_id response)) (\<lambda>stated_session_id.
     if ss_session_id secrets \<noteq> stated_session_id then Inl V2InvalidSessionResponse
     else Inr \<lparr>ts_secrets = secrets, ts_routing_key = challenge,
            ts_expires_at = started_at + (from_secs EXPECTED_SESSION_LIFETIME_SECONDS - SESSION_EXPIRY_SKEW)\<rparr>))))))))"

definition session_is_expired :: "transport_v2_session \<Rightarrow> instant \<Rightarrow> bool" where
  "session_is_expired self now \<longleftrightarrow> now \<ge> ts_expires_at self"

section \<open>Requests\<close>

record prepared_request_id =
  pr_session_id :: session_id
  pr_request_id :: request_id

record sealed_request =
  sr_session_id :: session_id
  sr_routing_key :: bytes
  sr_encrypted :: bytes
  sr_response_opener :: response_opener

definition prepare_request_id ::
    "transport_v2_session \<Rightarrow> instant \<Rightarrow> bytes option \<Rightarrow> transport_v2_error + prepared_request_id" where
  "prepare_request_id self now randomness =
     (if session_is_expired self now then Inl V2SessionExpired
      else and_then (ok_or V2RandomnessUnavailable randomness) (\<lambda>rid.
        Inr \<lparr>pr_session_id = ss_session_id (ts_secrets self), pr_request_id = rid\<rparr>))"

definition seal_encoded_with_id ::
    "'sk crypto_ops \<Rightarrow> transport_v2_session \<Rightarrow> instant \<Rightarrow> prepared_request_id \<Rightarrow> bytes \<Rightarrow>
      transport_v2_error + sealed_request" where
  "seal_encoded_with_id ops session now prepared plaintext =
     (if session_is_expired session now then Inl V2SessionExpired
      else if pr_session_id prepared \<noteq> ss_session_id (ts_secrets session) then Inl V2InvalidRequest
      else
      and_then (sdk_encrypt_request ops (ts_secrets session) (pr_request_id prepared) plaintext) (\<lambda>encrypted.
      and_then (sdk_response_opener ops (ts_secrets session) (pr_request_id prepared)) (\<lambda>response_opener.
      Inr \<lparr>sr_session_id = ss_session_id (ts_secrets session), sr_routing_key = ts_routing_key session,
           sr_encrypted = encrypted, sr_response_opener = response_opener\<rparr>)))"

text \<open>The clock is read when the identifier is prepared and again when the request is sealed.\<close>

definition seal_encoded ::
    "'sk crypto_ops \<Rightarrow> transport_v2_session \<Rightarrow> instant \<Rightarrow> instant \<Rightarrow> bytes option \<Rightarrow> bytes \<Rightarrow>
      transport_v2_error + sealed_request" where
  "seal_encoded ops session now now' randomness plaintext =
     and_then (prepare_request_id session now randomness) (\<lambda>prepared.
     seal_encoded_with_id ops session now' prepared plaintext)"

definition seal_with_id ::
    "'sk crypto_ops \<Rightarrow> codec_ops \<Rightarrow> json_ops \<Rightarrow> http_ops \<Rightarrow> transport_v2_session \<Rightarrow> instant \<Rightarrow>
      prepared_request_id \<Rightarrow> logical_request \<Rightarrow> transport_v2_error + sealed_request" where
  "seal_with_id ops cod js http session now prepared request =
     and_then (sdk_encode cod js http request) (\<lambda>plaintext.
     seal_encoded_with_id ops session now prepared plaintext)"

definition sealed_outer_request :: "codec_ops \<Rightarrow> sealed_request \<Rightarrow> outer_request" where
  "sealed_outer_request cod sealed =
     \<lparr>or_headers = [(''content-type'', ''application/octet-stream''),
        (''x-session-id'', sdk_session_id_to_string cod (sr_session_id sealed)),
        (SDK_ROUTING_KEY_HEADER, b64_encode cod (sr_routing_key sealed))],
      or_query = None, or_body = Some (sr_encrypted sealed)\<rparr>"

definition send_sealed ::
    "'sk crypto_ops \<Rightarrow> codec_ops \<Rightarrow> json_ops \<Rightarrow> http_ops \<Rightarrow> (outer_request \<Rightarrow> outer_reply option) \<Rightarrow>
      sealed_request \<Rightarrow> transport_v2_error + (response_event list \<times> transport_v2_error option)" where
  "send_sealed ops cod js http network sealed =
     and_then (ok_or V2Http (network (sealed_outer_request cod sealed))) (\<lambda>reply.
     case session_recovery_hint_of http (rp_status reply) (rp_headers reply) of
       Some hint \<Rightarrow> Inl (V2SessionRecoveryHint hint)
     | None \<Rightarrow>
         if rp_status reply \<noteq> 200 \<or>
            exact_content_type http (rp_headers reply) \<noteq> Some ''application/octet-stream''
         then Inl V2UntrustedOuterResponse
         else Inr (response_stream ops js http (decoder_new (sr_response_opener sealed)) (rp_pieces reply)))"

end
