(* ===== verification/Client_Claims.thy ===== *)
theory Client_Claims
  imports Sdk_Client
begin

text \<open>
  What the client's handshake guarantees: a session exists only with the enclave that an accepted
  attestation document names.
\<close>

section \<open>Configuration\<close>

lemma client_new_cases:
  assumes "client_new urls android http_client base_url policy = Inr client"
  shows "\<exists>u. ua_parse urls base_url = Some u \<and> url_username u = [] \<and> url_password u = None \<and>
    tc_pcr0_trust_policy client = policy \<and>
    (if tc_use_mock_attestation client
     then url_scheme u = ''http'' \<and> pred_some (\<lambda>h. is_local_host urls android (trim_end_matches (CHR ''.'') h)) (url_host u)
     else url_scheme u = ''https'')"
  using assms
  by (auto simp: client_new_def canonical_base_url_def and_then_eq_Inr Let_def pred_some_def split: if_splits)

section \<open>Attestation\<close>

lemma attested_session_document_Inr:
  assumes "attested_session_document att cod read_entries history_network history_client client now_ms
      challenge document_b64 = Inr document"
    and "\<not> tc_use_mock_attestation client"
  shows "\<exists>document_bytes pcr0. b64_decode cod document_b64 = Some document_bytes \<and>
    attested att document_bytes challenge now_ms document \<and> fmlookup (ad_pcrs document) 0 = Some pcr0 \<and>
    length pcr0 = 48 \<and> pcr0 \<noteq> replicate 48 0 \<and>
    pcr0_trusted att cod read_entries history_network (tc_pcr0_trust_policy client) (hx_encode cod pcr0)"
proof -
  from assms obtain pcr0
    where doc: "verify_attestation_document_bytes att cod None document_b64 challenge now_ms = Inr document"
      and pcr0: "fmlookup (ad_pcrs document) 0 = Some pcr0"
      and trusted: "verify_pcr0 att cod read_entries history_network history_client
        (tc_pcr0_trust_policy client) pcr0 = Inr ()"
    by (auto simp: attested_session_document_def verify_attested_pcr0_def and_then_eq_Inr)
  then show ?thesis
    using verify_pcr0_trusted [OF trusted] by (auto simp: verify_document_iff)
qed

lemma validate_attested_transcript_iff:
  "validate_attested_transcript document challenge client_public_key = Inr server_public_key \<longleftrightarrow>
     ad_nonce document = Some challenge \<and>
     ad_user_data document = Some (sdk_attestation_user_data client_public_key) \<and>
     ad_public_key document = Some server_public_key \<and> length server_public_key = 32"
  by (auto simp: validate_attested_transcript_def and_then_eq_Inr X25519_PUBLIC_KEY_BYTES_def split: if_splits)

text \<open>What a session established from a document is built from.\<close>

lemma establish_session_Inr:
  assumes "establish_session ops att cod http write_request read_response read_entries history_network
      history_client network client started_at randomness client_secret now_ms = Inr session"
  shows "\<exists>challenge document_b64 document server_public_key. randomness = Some challenge \<and>
    attested_session_document att cod read_entries history_network history_client client now_ms
      challenge document_b64 = Inr document \<and>
    validate_attested_transcript document challenge (cr_public ops client_secret) = Inr server_public_key \<and>
    sdk_derive_client_session ops client_secret \<lparr>st_challenge = challenge,
      st_client_public_key = cr_public ops client_secret, st_server_public_key = server_public_key\<rparr> =
      Inr (ts_secrets session) \<and>
    ts_routing_key session = challenge \<and> ts_expires_at session = started_at + from_secs 3570"
proof -
  have "from_secs EXPECTED_SESSION_LIFETIME_SECONDS - SESSION_EXPIRY_SKEW = from_secs 3570"
    by (simp add: EXPECTED_SESSION_LIFETIME_SECONDS_def SESSION_EXPIRY_SKEW_def from_secs_def nanos_per_sec_def)
  with assms show ?thesis
    by (auto simp: establish_session_def fresh_challenge_def and_then_eq_Inr Let_def split: if_splits) blast
qed

section \<open>Properties\<close>

text \<open>
  C4: the client opens a session only with an attested enclave. Take a client configured with a base URL
  and a policy, and let the handshake succeed, whatever the network answers. Over HTTPS there is then a
  document that was read from a COSE structure whose signature verifies under a leaf certificate; that
  certificate is connected to the pinned root by certificates each signed by the one before it, all
  within their validity on the device clock, up to five minutes before their start. The document carries the
  client's fresh challenge and binds the client's public key, its measurement is not all zero and is
  pinned by the policy or found, with a valid signature of the history key, in a history the policy names,
  and the session keys are derived from exactly this challenge, the client's key and the attested key. Without
  HTTPS a session exists only with a local host.
\<close>

theorem session_only_with_attested_enclave:
  assumes "client_new urls android http_client base_url policy = Inr client"
    and "establish_session ops att cod http write_request read_response read_entries history_network
      history_client network client started_at randomness client_secret now_ms = Inr session"
  shows "\<exists>u challenge document server_public_key.
    ua_parse urls base_url = Some u \<and> randomness = Some challenge \<and>
    (url_scheme u = ''https'' \<and>
       (\<exists>document_bytes pcr0. attested att document_bytes challenge now_ms document \<and>
          fmlookup (ad_pcrs document) 0 = Some pcr0 \<and> pcr0 \<noteq> replicate 48 0 \<and>
          pcr0_trusted att cod read_entries history_network policy (hx_encode cod pcr0)) \<or>
     url_scheme u = ''http'' \<and>
       pred_some (\<lambda>h. is_local_host urls android (trim_end_matches (CHR ''.'') h)) (url_host u)) \<and>
    ad_nonce document = Some challenge \<and>
    ad_user_data document = Some (attestation_user_data (cr_public ops client_secret)) \<and>
    ad_public_key document = Some server_public_key \<and> length server_public_key = 32 \<and>
    sdk_derive_client_session ops client_secret (sdk_transcript_of \<lparr>ht_challenge = challenge,
      ht_client_public_key = cr_public ops client_secret, ht_server_public_key = server_public_key\<rparr>) =
      Inr (ts_secrets session) \<and>
    ts_routing_key session = challenge \<and> ts_expires_at session = started_at + from_secs 3570"
proof -
  from client_new_cases [OF assms(1)] obtain u where u: "ua_parse urls base_url = Some u"
      "tc_pcr0_trust_policy client = policy"
      "if tc_use_mock_attestation client
       then url_scheme u = ''http'' \<and> pred_some (\<lambda>h. is_local_host urls android (trim_end_matches (CHR ''.'') h)) (url_host u)
       else url_scheme u = ''https''" by blast
  from establish_session_Inr [OF assms(2)] obtain challenge document_b64 document server_public_key
    where session: "randomness = Some challenge"
      "attested_session_document att cod read_entries history_network history_client client now_ms
        challenge document_b64 = Inr document"
      "validate_attested_transcript document challenge (cr_public ops client_secret) = Inr server_public_key"
      "sdk_derive_client_session ops client_secret \<lparr>st_challenge = challenge,
        st_client_public_key = cr_public ops client_secret, st_server_public_key = server_public_key\<rparr> =
        Inr (ts_secrets session)"
      "ts_routing_key session = challenge" "ts_expires_at session = started_at + from_secs 3570" by blast
  have "url_scheme u = ''https'' \<and>
       (\<exists>document_bytes pcr0. attested att document_bytes challenge now_ms document \<and>
          fmlookup (ad_pcrs document) 0 = Some pcr0 \<and> pcr0 \<noteq> replicate 48 0 \<and>
          pcr0_trusted att cod read_entries history_network policy (hx_encode cod pcr0)) \<or>
     url_scheme u = ''http'' \<and>
       pred_some (\<lambda>h. is_local_host urls android (trim_end_matches (CHR ''.'') h)) (url_host u)"
    using attested_session_document_Inr [OF session(2)] u(2,3) by (cases "tc_use_mock_attestation client") auto
  then show ?thesis
    using u(1) session(1,3-6) unfolding validate_attested_transcript_iff
    by (auto simp: sdk_transcript_of_def)
qed

text \<open>
  A concrete enclave: one intermediate certificate below the root, a policy that pins its measurement, and
  a handshake with it.
\<close>

definition ref_cert :: x509 where
  "ref_cert = \<lparr>x_issuer = [], x_subject = [], x_not_before = 100, x_not_after = 200,
     x_algorithm = ECDSA_WITH_SHA384, x_public_key = 4 # replicate 96 0, x_tbs = [], x_signature = []\<rparr>"

definition ref_contents :: cbor_value where
  "ref_contents = CborMap
     [(CborText ''nonce'', CborBytes (replicate 32 5)),
      (CborText ''user_data'', CborBytes (attestation_user_data (cr_public ref_ops 3))),
      (CborText ''public_key'', CborBytes (cr_public ref_ops 2)),
      (CborText ''cabundle'', CborArray [CborBytes [1], CborBytes [3]]),
      (CborText ''certificate'', CborBytes [4]),
      (CborText ''pcrs'', CborMap [(CborInteger 0, CborBytes (replicate 48 7))])]"

definition ref_attest :: attest_ops where
  "ref_attest = \<lparr>at_cbor_read = (\<lambda>b. if b = [2] then Some ref_contents
        else Some (CborArray [CborBytes [], CborOther, CborBytes [2], CborBytes []])),
     at_cbor_write = (\<lambda>_. Some []), at_x509 = (\<lambda>_. Some ref_cert), at_verify = (\<lambda>_ _ _ _. True), at_root = [1]\<rparr>"

definition ref_document :: attestation_document where
  "ref_document = empty_document\<lparr>ad_nonce := Some (replicate 32 5),
     ad_user_data := Some (attestation_user_data (cr_public ref_ops 3)),
     ad_public_key := Some (cr_public ref_ops 2), ad_cabundle := [[1], [3]], ad_certificate := [4],
     ad_pcrs := fmupd 0 (replicate 48 7) fmempty\<rparr>"

definition ref_policy :: pcr0_trust_policy where
  "ref_policy = \<lparr>tp_trusted_pcr0s = {|hx_encode ref_codec (replicate 48 7)|}, tp_remote_history_urls = []\<rparr>"

definition ref_client :: transport_v2_client where
  "ref_client = \<lparr>tc_base_url = ''https://h'', tc_use_mock_attestation = False, tc_pcr0_trust_policy = ref_policy\<rparr>"

definition ref_url :: url where
  "ref_url = \<lparr>url_scheme = ''https'', url_username = [], url_password = None, url_host = Some ''h'',
     url_path = ''/'', url_query = None, url_fragment = None, url_text = ''https://h/''\<rparr>"

definition ref_urls :: url_ops where
  "ref_urls = \<lparr>ua_parse = (\<lambda>_. Some ref_url), ua_address = (\<lambda>_. None), ua_set_path = (\<lambda>u _. u)\<rparr>"

lemma ref_client_new: "client_new ref_urls False True ''https://h/'' ref_policy = Inr ref_client"
  by (simp add: client_new_def canonical_base_url_def ref_urls_def ref_url_def ref_client_def Let_def
      trim_end_matches_def)

lemma ref_point: "extract_ec_point (x_public_key ref_cert) 97 = Inr (4 # replicate 96 0)"
proof -
  have "(4 # replicate 96 0 :: bytes) ! i \<noteq> 3" if "i < 97" for i
    using that by (cases i) auto
  then have "find (bit_string_point (4 # replicate 96 0) 97) [0..<97] = None"
    by (auto simp: find_None_iff bit_string_point_def)
  then show ?thesis
    by (simp add: extract_ec_point_def ref_cert_def)
qed

lemma ref_attested: "attested ref_attest [9] (replicate 32 5) 150000 ref_document"
proof -
  have parse: "parse_attestation_document ref_contents = Inr ref_document"
    by (simp add: parse_attestation_document_def ref_contents_def parse_field_def optional_bytes_def
        cbor_integer_to_usize_def ref_document_def empty_document_def)
  have signed: "signed_by ref_attest ref_cert ref_cert"
    using ref_point by (auto simp: signed_by_def ref_attest_def ref_cert_def)
  have parsed: "at_x509 ref_attest der = Some ref_cert" for der
    by (simp add: ref_attest_def)
  have names: "x_issuer ref_cert = x_subject ref_cert"
    by (simp add: ref_cert_def)
  have "certified ref_attest ref_cert ([[3]] @ [ad_certificate ref_document]) ref_cert"
    by (simp add: certified_Cons signed parsed names)
  moreover have "document_signed ref_attest ref_cert [] [2] []"
    using ref_point by (simp add: document_signed_def ref_attest_def)
  moreover have "validity_covers ref_attest 150 der" for der
    by (simp add: validity_covers_def ref_attest_def ref_cert_def)
  ultimately show ?thesis
    using parse unfolding attested_def
    by (auto simp: ref_document_def ref_attest_def intro!: exI [of _ "[]"])
qed

lemma ref_session_document:
  "attested_session_document ref_attest ref_codec (\<lambda>_. None) (\<lambda>_. HistoryTimeout) True ref_client 150000
     (replicate 32 5) (b64_encode ref_codec [9]) = Inr ref_document"
proof -
  have "verify_attestation_document_bytes ref_attest ref_codec None (b64_encode ref_codec [9])
      (replicate 32 5) 150000 = Inr ref_document"
    using ref_attested ref_text.b64_decode_encode [of "[9]"] by (simp add: verify_document_iff)
  moreover have "verify_pcr0 ref_attest ref_codec (\<lambda>_. None) (\<lambda>_. HistoryTimeout) True ref_policy
      (replicate 48 7) = Inr ()"
    by (simp add: verify_pcr0_def PCR0_BYTES_LEN_def ref_policy_def list_all_iff)
  ultimately show ?thesis
    by (simp add: attested_session_document_def verify_attested_pcr0_def ref_client_def ref_document_def)
qed

lemma ref_client_derives:
  "\<exists>s. sdk_derive_client_session ref_ops 3 (sdk_transcript_of ref_transcript) = Inr (sdk_view s) \<and> secrets_ok s"
  using derivations_agree [OF ref_crypto.crypto_primitives_axioms, of ref_transcript 3 2] ref_shared_secret
  by (auto simp: ref_transcript_def)

definition ref_response :: "sdk_secrets \<Rightarrow> sdk_session_response" where
  "ref_response secrets = \<lparr>sp_version = 2, sp_session_id = hx_encode ref_codec (ss_session_id secrets),
     sp_attestation_document = b64_encode ref_codec [9], sp_expires_in_seconds = 3600\<rparr>"

definition ref_reply :: outer_reply where
  "ref_reply = \<lparr>rp_status = 200, rp_headers = [(''content-type'', ''application/json'')], rp_pieces = []\<rparr>"

lemma ref_establish:
  "\<exists>read_response session. establish_session ref_ops ref_attest ref_codec ref_http (\<lambda>_. Some []) read_response
     (\<lambda>_. None) (\<lambda>_. HistoryTimeout) True (\<lambda>_. Some ref_reply) ref_client 1000 (Some (replicate 32 5)) 3 150000 =
     Inr session"
proof -
  obtain s where s: "sdk_derive_client_session ref_ops 3 (sdk_transcript_of ref_transcript) = Inr (sdk_view s)"
      "secrets_ok s"
    using ref_client_derives by blast
  have sid: "sdk_session_id_from_str ref_codec (hx_encode ref_codec (sec_session_id s)) = Inr (sec_session_id s)"
    using s(2) ref_text.hx_encode_length [of "sec_session_id s"] ref_text.hx_encode_lower [of "sec_session_id s"]
    by (simp add: sdk_session_id_from_str_def ref_text.hx_decode_encode SDK_SESSION_ID_BYTES_def secrets_ok_def
        del: sdk_labels)
  have response: "session_response ref_http (\<lambda>_. Some (ref_response (sdk_view s))) ref_reply =
      Inr (ref_response (sdk_view s))"
    by (simp add: session_response_def ref_reply_def exact_content_type_def exact_header_def get_all_def
        ref_http_def ref_response_def sdk_limit_defs EXPECTED_SESSION_LIFETIME_SECONDS_def)
  have transcript: "validate_attested_transcript ref_document (replicate 32 5) (cr_public ref_ops 3) =
      Inr (cr_public ref_ops 2)"
    by (simp add: validate_attested_transcript_iff ref_document_def) (simp add: ref_ops_def)
  have "sdk_derive_client_session ref_ops 3 \<lparr>st_challenge = replicate 32 5,
      st_client_public_key = cr_public ref_ops 3, st_server_public_key = cr_public ref_ops 2\<rparr> = Inr (sdk_view s)"
    using s(1) by (simp add: sdk_transcript_of_def ref_transcript_def)
  then show ?thesis
    using ref_session_document transcript response sid
    by (intro exI [of _ "\<lambda>_. Some (ref_response (sdk_view s))"])
       (simp add: establish_session_def fresh_challenge_def session_outer_request_def Let_def
         ref_response_def sdk_view_def)
qed

theorem session_only_with_attested_enclave_witness:
  "\<exists>read_response session document document_bytes.
     establish_session ref_ops ref_attest ref_codec ref_http (\<lambda>_. Some []) read_response
       (\<lambda>_. None) (\<lambda>_. HistoryTimeout) True (\<lambda>_. Some ref_reply) ref_client 1000 (Some (replicate 32 5)) 3 150000 =
       Inr session \<and>
     attested ref_attest document_bytes (replicate 32 5) 150000 document \<and>
     ts_routing_key session = replicate 32 5"
proof -
  obtain read_response session where session: "establish_session ref_ops ref_attest ref_codec ref_http
      (\<lambda>_. Some []) read_response (\<lambda>_. None) (\<lambda>_. HistoryTimeout) True (\<lambda>_. Some ref_reply) ref_client 1000
      (Some (replicate 32 5)) 3 150000 = Inr session"
    using ref_establish by blast
  moreover have "ua_parse ref_urls base = Some ref_url" "url_scheme ref_url = ''https''" for base
    by (simp_all add: ref_urls_def ref_url_def)
  ultimately show ?thesis
    using session_only_with_attested_enclave [OF ref_client_new session] by auto
qed

end
