(* ===== verification/Session_Invariants.thy ===== *)
theory Session_Invariants
  imports Transport_Session
begin

text \<open>
  The invariant of the session system and what follows from it: the process-wide replay budget counts
  exactly the identifiers that live sessions retain, a request identifier is admitted at most once per
  session, and the store never gives up a live session for a new one.
\<close>

section \<open>Counting\<close>

definition ids_of :: "session \<Rightarrow> request_id fset" where
  "ids_of s = rr_request_ids (se_replay s)"

definition retained :: "session_heap \<Rightarrow> nat" where
  "retained heap = (\<Sum>r \<in> fset (fmdom heap). fcard (ids_of (heap_session heap r)))"

lemma retained_empty [simp]: "retained fmempty = 0"
  by (simp add: retained_def)

lemma retained_upd:
  "retained (fmupd r s heap) = retained (fmdrop r heap) + fcard (ids_of s)"
proof -
  have "(\<Sum>q \<in> fset (fmdom heap) - {r}. fcard (ids_of (heap_session (fmupd r s heap) q))) =
      (\<Sum>q \<in> fset (fmdom heap) - {r}. fcard (ids_of (heap_session (fmdrop r heap) q)))"
    by (rule sum.cong) (auto simp: heap_session_def)
  then show ?thesis
    by (simp add: retained_def sum.insert_remove heap_session_def add.commute)
qed

lemma retained_drop:
  assumes "fmlookup heap r = Some s"
  shows "retained heap = retained (fmdrop r heap) + fcard (ids_of s)"
proof -
  have "fmupd r s heap = heap"
    using assms by (intro fmap_ext) auto
  then show ?thesis using retained_upd [of r s heap] by simp
qed

lemma retained_fresh:
  assumes "fmlookup heap r = None"
  shows "retained (fmupd r s heap) = retained heap + fcard (ids_of s)"
proof -
  have "fmdrop r heap = heap"
    using assms by (intro fmap_ext) auto
  then show ?thesis using retained_upd [of r s heap] by simp
qed

section \<open>The invariant\<close>

text \<open>
  \<open>sys_inv D\<close>: references point into the heap, every allocation is referenced except those in \<open>D\<close>, whose
  last reference is being dropped; a session is stored under its own identifier; no registry and no store
  exceeds its capacity; and the budget is the number of retained identifiers.
\<close>

definition sys_inv :: "nat set \<Rightarrow> session_system \<Rightarrow> bool" where
  "sys_inv D sys \<longleftrightarrow>
     (\<forall>r. referenced sys r \<longrightarrow> r |\<in>| fmdom (sy_heap sys)) \<and>
     (\<forall>r. r |\<in>| fmdom (sy_heap sys) \<longrightarrow> (referenced sys r \<or> r \<in> D) \<and> r < sy_next sys) \<and>
     (\<forall>sid r. fmlookup (sto_sessions (sy_store sys)) sid = Some r \<longrightarrow>
        session_id_of (heap_session (sy_heap sys) r) = sid) \<and>
     (\<forall>r s. fmlookup (sy_heap sys) r = Some s \<longrightarrow> fcard (ids_of s) \<le> rr_capacity (se_replay s)) \<and>
     map_len (sto_sessions (sy_store sys)) \<le> sto_capacity (sy_store sys) \<and>
     unat (rb_claimed (sy_budget sys)) = retained (sy_heap sys) \<and>
     retained (sy_heap sys) \<le> unat (rb_capacity (sy_budget sys))"

lemma referenced_iff:
  "referenced sys r \<longleftrightarrow> (\<exists>sid. fmlookup (sto_sessions (sy_store sys)) sid = Some r) \<or> r \<in># sy_held sys"
  by (simp add: referenced_def fmlookup_ran_iff)

lemma sys_inv_new: "sys_inv {} (system_new n b)"
  by (simp add: sys_inv_def system_new_def store_new_def budget_new_def referenced_iff)

lemma sys_invD:
  assumes "sys_inv D sys"
  shows "referenced sys r \<Longrightarrow> r |\<in>| fmdom (sy_heap sys)"
    and "r |\<in>| fmdom (sy_heap sys) \<Longrightarrow> referenced sys r \<or> r \<in> D"
    and "r |\<in>| fmdom (sy_heap sys) \<Longrightarrow> r < sy_next sys"
    and "fmlookup (sto_sessions (sy_store sys)) sid = Some r \<Longrightarrow>
      session_id_of (heap_session (sy_heap sys) r) = sid"
    and "fmlookup (sy_heap sys) r = Some s \<Longrightarrow> fcard (ids_of s) \<le> rr_capacity (se_replay s)"
    and "map_len (sto_sessions (sy_store sys)) \<le> sto_capacity (sy_store sys)"
    and "unat (rb_claimed (sy_budget sys)) = retained (sy_heap sys)"
    and "retained (sy_heap sys) \<le> unat (rb_capacity (sy_budget sys))"
  using assms unfolding sys_inv_def by blast+

lemma sys_inv_upto:
  assumes inv: "sys_inv D sys"
    and "\<And>q. q \<in> D \<Longrightarrow> q \<notin> D' \<Longrightarrow> q |\<in>| fmdom (sy_heap sys) \<Longrightarrow> referenced sys q"
  shows "sys_inv D' sys"
proof -
  have "\<forall>q. q |\<in>| fmdom (sy_heap sys) \<longrightarrow> (referenced sys q \<or> q \<in> D') \<and> q < sy_next sys"
    using assms(2) sys_invD(2,3) [OF inv] by blast
  with inv show ?thesis
    unfolding sys_inv_def by blast
qed

text \<open>Releasing what a freed session retained does not wrap around.\<close>

lemma release_exact:
  assumes "n \<le> unat (rb_claimed b)"
  shows "unat (rb_claimed (release b n)) = unat (rb_claimed b) - n \<and> rb_capacity (release b n) = rb_capacity b"
proof -
  have "n < 2 ^ 64"
    using assms unat_u64_less [of "rb_claimed b"] by simp
  then have "unat (of_nat n :: u64) = n"
    by (simp add: unat_of_nat)
  with assms show ?thesis
    by (simp add: release_def unat_sub_if')
qed

lemma drop_ref_keeps:
  "sy_store (drop_ref r sys) = sy_store sys" "sy_held (drop_ref r sys) = sy_held sys"
  "sy_next (drop_ref r sys) = sy_next sys"
  by (simp_all add: drop_ref_def split: option.splits)

lemma drop_ref_inv:
  assumes inv: "sys_inv D sys" shows "sys_inv (D - {r}) (drop_ref r sys)"
proof (cases "fmlookup (sy_heap sys) r")
  case None
  then have "r |\<notin>| fmdom (sy_heap sys)" by (simp add: fmdom_notI)
  then have "sys_inv (D - {r}) sys"
    by (intro sys_inv_upto [OF inv]) auto
  then show ?thesis by (simp add: drop_ref_def None)
next
  case (Some s)
  show ?thesis
  proof (cases "referenced sys r")
    case True
    then have "sys_inv (D - {r}) sys"
      by (intro sys_inv_upto [OF inv]) auto
    then show ?thesis by (simp add: drop_ref_def Some True)
  next
    case False
    let ?heap = "fmdrop r (sy_heap sys)"
    define sys' where "sys' = drop_ref r sys"
    have sys': "sys' = sys\<lparr>sy_heap := ?heap, sy_budget := release (sy_budget sys) (fcard (ids_of s))\<rparr>"
      using Some False by (simp add: sys'_def drop_ref_def registry_drop_def ids_of_def)
    have ref: "referenced sys' q \<longleftrightarrow> referenced sys q" for q
      by (simp add: sys' referenced_iff)
    have total: "retained (sy_heap sys) = retained ?heap + fcard (ids_of s)"
      by (rule retained_drop [OF Some])
    have budget: "unat (rb_claimed (sy_budget sys')) = retained ?heap"
        "rb_capacity (sy_budget sys') = rb_capacity (sy_budget sys)"
      using release_exact [of "fcard (ids_of s)" "sy_budget sys"] sys_invD(7) [OF inv] total
      by (simp_all add: sys')
    have same: "heap_session ?heap q = heap_session (sy_heap sys) q" if "q \<noteq> r" for q
      using that by (simp add: heap_session_def)
    have stored: "q \<noteq> r" if "fmlookup (sto_sessions (sy_store sys)) sid = Some q" for sid q
      using that False by (auto simp: referenced_iff)
    show ?thesis
      unfolding sys'_def [symmetric] sys_inv_def
    proof (intro conjI allI impI)
      fix q assume "referenced sys' q"
      then show "q |\<in>| fmdom (sy_heap sys')"
        using ref False sys_invD(1) [OF inv, of q] by (auto simp: sys')
    next
      fix q assume q: "q |\<in>| fmdom (sy_heap sys')"
      then show "referenced sys' q \<or> q \<in> D - {r}"
        using ref sys_invD(2) [OF inv, of q] by (auto simp: sys')
      from q show "q < sy_next sys'"
        using sys_invD(3) [OF inv, of q] by (auto simp: sys')
    next
      fix sid q assume "fmlookup (sto_sessions (sy_store sys')) sid = Some q"
      then show "session_id_of (heap_session (sy_heap sys') q) = sid"
        using sys_invD(4) [OF inv, of sid q] stored [of sid q] same by (simp add: sys')
    next
      fix q t assume "fmlookup (sy_heap sys') q = Some t"
      then show "fcard (ids_of t) \<le> rr_capacity (se_replay t)"
        using sys_invD(5) [OF inv, of q t] by (auto simp: sys' split: if_splits)
    qed (use budget sys_invD(6,8) [OF inv] total in \<open>simp_all add: sys'\<close>)
  qed
qed

lemma drop_refs_inv: "sys_inv D sys \<Longrightarrow> sys_inv (D - set rs) (fold drop_ref rs sys)"
proof (induction rs arbitrary: D sys)
  case (Cons r rs)
  have "D - {r} - set rs = D - set (r # rs)" by auto
  with Cons.IH [OF drop_ref_inv [OF Cons.prems, of r]] show ?case by simp
qed simp

lemma drop_refs_keeps:
  "sy_store (fold drop_ref rs sys) = sy_store sys" "sy_held (fold drop_ref rs sys) = sy_held sys"
  "sy_next (fold drop_ref rs sys) = sy_next sys"
  by (induction rs arbitrary: sys) (simp_all add: drop_ref_keeps)

section \<open>Every operation keeps it\<close>

text \<open>The elementary changes: allocating, storing, unstoring, taking and giving back references.\<close>

lemma alloc_inv:
  assumes inv: "sys_inv D sys" and empty: "ids_of s = {||}"
  shows "sys_inv (insert (sy_next sys) D)
    (sys\<lparr>sy_heap := fmupd (sy_next sys) s (sy_heap sys), sy_next := Suc (sy_next sys)\<rparr>)"
proof -
  let ?r = "sy_next sys"
  have fresh: "?r |\<notin>| fmdom (sy_heap sys)"
    using sys_invD(3) [OF inv, of ?r] by blast
  then have none: "fmlookup (sy_heap sys) ?r = None" by (simp add: fmdom_notD)
  have same: "heap_session (fmupd ?r s (sy_heap sys)) q = heap_session (sy_heap sys) q"
    if "q |\<in>| fmdom (sy_heap sys)" for q
    using that fresh by (auto simp: heap_session_def)
  have stored: "q |\<in>| fmdom (sy_heap sys)" if "fmlookup (sto_sessions (sy_store sys)) sid = Some q" for sid q
    using that sys_invD(1) [OF inv, of q] by (auto simp: referenced_iff)
  have zero: "fcard (ids_of s) = 0"
    by (simp add: empty fcard.rep_eq)
  show ?thesis
    unfolding sys_inv_def
    using sys_invD [OF inv] same stored retained_fresh [OF none, of s, unfolded zero]
    by (auto simp: referenced_iff less_Suc_eq zero)
qed

lemma store_shrink_inv:
  assumes inv: "sys_inv D sys" and "D \<subseteq> D'"
    and sub: "\<And>sid r. fmlookup m sid = Some r \<Longrightarrow> fmlookup (sto_sessions (sy_store sys)) sid = Some r"
    and gone: "\<And>sid r. fmlookup (sto_sessions (sy_store sys)) sid = Some r \<Longrightarrow> fmlookup m sid = None \<Longrightarrow> r \<in> D'"
    and len: "map_len m \<le> map_len (sto_sessions (sy_store sys))"
  shows "sys_inv D' (sys\<lparr>sy_store := (sy_store sys)\<lparr>sto_sessions := m\<rparr>\<rparr>)"
proof -
  let ?sys = "sys\<lparr>sy_store := (sy_store sys)\<lparr>sto_sessions := m\<rparr>\<rparr>"
  have ref: "referenced sys q" if "referenced ?sys q" for q
    using that sub by (auto simp: referenced_iff)
  have kept: "referenced ?sys q \<or> q \<in> D'" if "referenced sys q \<or> q \<in> D" for q
  proof -
    have "referenced ?sys q \<or> q \<in> D'" if stored: "fmlookup (sto_sessions (sy_store sys)) sid = Some q" for sid
    proof (cases "fmlookup m sid")
      case None
      then show ?thesis using gone stored by blast
    next
      case (Some q')
      then have "q' = q" using sub stored by fastforce
      then show ?thesis using Some by (auto simp: referenced_iff)
    qed
    with that \<open>D \<subseteq> D'\<close> show ?thesis by (auto simp: referenced_iff)
  qed
  have keys: "session_id_of (heap_session (sy_heap sys) q) = sid" if "fmlookup m sid = Some q" for sid q
    using sys_invD(4) [OF inv sub [OF that]] .
  show ?thesis
    unfolding sys_inv_def
    using sys_invD [OF inv] ref kept keys len by (auto intro: order_trans [OF len])
qed

lemma store_add_inv:
  assumes inv: "sys_inv D sys" and r: "r |\<in>| fmdom (sy_heap sys)"
    and sid: "session_id_of (heap_session (sy_heap sys) r) = sid"
    and none: "fmlookup (sto_sessions (sy_store sys)) sid = None"
    and room: "map_len (sto_sessions (sy_store sys)) < sto_capacity (sy_store sys)"
  shows "sys_inv (D - {r})
    (sys\<lparr>sy_store := (sy_store sys)\<lparr>sto_sessions := fmupd sid r (sto_sessions (sy_store sys))\<rparr>\<rparr>)"
proof -
  let ?m = "fmupd sid r (sto_sessions (sy_store sys))"
  let ?sys = "sys\<lparr>sy_store := (sy_store sys)\<lparr>sto_sessions := ?m\<rparr>\<rparr>"
  have ref: "referenced ?sys q \<longleftrightarrow> referenced sys q \<or> q = r" for q
    using none by (auto simp: referenced_iff) (metis option.distinct(1))
  have len: "map_len ?m \<le> sto_capacity (sy_store sys)"
    using room none by (simp add: map_len_upd fmdom_notI)
  have "\<forall>q. referenced ?sys q \<longrightarrow> q |\<in>| fmdom (sy_heap sys)"
    using ref r sys_invD(1) [OF inv] by blast
  moreover have "\<forall>q. q |\<in>| fmdom (sy_heap sys) \<longrightarrow> (referenced ?sys q \<or> q \<in> D - {r}) \<and> q < sy_next sys"
    using ref sys_invD(2,3) [OF inv] by blast
  moreover have "\<forall>sid' q. fmlookup ?m sid' = Some q \<longrightarrow> session_id_of (heap_session (sy_heap sys) q) = sid'"
    using sid sys_invD(4) [OF inv] by simp
  ultimately show ?thesis
    unfolding sys_inv_def using sys_invD(5,7,8) [OF inv] len by simp
qed

lemma held_add_inv:
  assumes inv: "sys_inv D sys" and r: "r |\<in>| fmdom (sy_heap sys)"
  shows "sys_inv (D - {r}) (sys\<lparr>sy_held := add_mset r (sy_held sys)\<rparr>)"
proof -
  let ?sys = "sys\<lparr>sy_held := add_mset r (sy_held sys)\<rparr>"
  have ref: "referenced ?sys q \<longleftrightarrow> referenced sys q \<or> q = r" for q
    by (auto simp: referenced_iff)
  have "\<forall>q. referenced ?sys q \<longrightarrow> q |\<in>| fmdom (sy_heap sys)"
    using ref r sys_invD(1) [OF inv] by blast
  moreover have "\<forall>q. q |\<in>| fmdom (sy_heap sys) \<longrightarrow> (referenced ?sys q \<or> q \<in> D - {r}) \<and> q < sy_next sys"
    using ref sys_invD(2,3) [OF inv] by blast
  ultimately show ?thesis
    unfolding sys_inv_def using sys_invD(4-8) [OF inv] by simp
qed

lemma held_remove_inv:
  assumes inv: "sys_inv D sys"
  shows "sys_inv (insert r D) (sys\<lparr>sy_held := sy_held sys - {#r#}\<rparr>)"
proof -
  let ?sys = "sys\<lparr>sy_held := sy_held sys - {#r#}\<rparr>"
  have other: "q \<in># sy_held sys - {#r#} \<longleftrightarrow> q \<in># sy_held sys" if "q \<noteq> r" for q
    using that by (simp add: in_diff_count)
  have ref: "referenced ?sys q \<Longrightarrow> referenced sys q" "referenced sys q \<Longrightarrow> referenced ?sys q \<or> q = r" for q
    using other [of q] by (auto simp: referenced_iff dest: in_diffD)
  have "\<forall>q. q |\<in>| fmdom (sy_heap sys) \<longrightarrow> (referenced ?sys q \<or> q \<in> insert r D) \<and> q < sy_next sys"
    using ref(2) sys_invD(2,3) [OF inv] by blast
  moreover have "\<forall>q. referenced ?sys q \<longrightarrow> q |\<in>| fmdom (sy_heap sys)"
    using ref(1) sys_invD(1) [OF inv] by blast
  ultimately show ?thesis
    unfolding sys_inv_def using sys_invD(4-8) [OF inv] by simp
qed

text \<open>A request is refused without effect, or admitted: authentic, in time and new.\<close>

lemma open_and_admit_cases:
  assumes "open_and_admit ops s b rec now = (result, s', b')"
  obtains (refused) e where "result = Inl e" "s' = s" "b' = b"
  | (admitted) rid plaintext where "result = Inr (rid, plaintext)"
      "decrypt_request ops (se_secrets s) rec = Inr (rid, plaintext)" "\<not> is_expired s now"
      "rid |\<notin>| ids_of s" "fcard (ids_of s) < rr_capacity (se_replay s)" "rb_claimed b < rb_capacity b"
      "s' = s\<lparr>se_replay := (se_replay s)\<lparr>rr_request_ids := finsert rid (ids_of s)\<rparr>\<rparr>"
      "b' = b\<lparr>rb_claimed := rb_claimed b + 1\<rparr>"
proof -
  have unchanged: "s\<lparr>se_replay := se_replay s\<rparr> = s" by (cases s) simp
  show ?thesis
  proof (cases "decrypt_request ops (se_secrets s) rec")
    case (Inl e)
    with assms have "result = Inl (SessionCrypto e)" "s' = s" "b' = b"
      by (simp_all add: open_and_admit_def)
    then show ?thesis by (rule refused)
  next
    case (Inr m)
    obtain rid plaintext where m: "m = (rid, plaintext)" by (cases m)
    show ?thesis
    proof (cases "\<not> is_expired s now \<and> \<not> rr_poisoned (se_replay s) \<and> rid |\<notin>| ids_of s \<and>
        fcard (ids_of s) < rr_capacity (se_replay s) \<and> rb_claimed b < rb_capacity b")
      case True
      then have "result = Inr (rid, plaintext)"
          "s' = s\<lparr>se_replay := (se_replay s)\<lparr>rr_request_ids := finsert rid (ids_of s)\<rparr>\<rparr>"
          "b' = b\<lparr>rb_claimed := rb_claimed b + 1\<rparr>"
        using assms Inr m
        by (auto simp: open_and_admit_def claim_request_at_def claim_def claim_one_def ids_of_def)
      with True Inr m show ?thesis by (intro admitted) simp_all
    next
      case False
      then have "isl result \<and> s' = s \<and> b' = b"
        using assms Inr m
        by (auto simp: open_and_admit_def claim_request_at_def claim_def claim_one_def ids_of_def unchanged
            split: if_splits)
      with refused show ?thesis by (cases result) auto
    qed
  qed
qed

lemma update_session_inv:
  assumes inv: "sys_inv D sys" and r: "fmlookup (sy_heap sys) r = Some s"
    and id: "session_id_of s' = session_id_of s" and cap: "fcard (ids_of s') \<le> rr_capacity (se_replay s')"
    and b: "unat (rb_claimed b) + fcard (ids_of s) = unat (rb_claimed (sy_budget sys)) + fcard (ids_of s')"
      "rb_capacity b = rb_capacity (sy_budget sys)" "rb_claimed b \<le> rb_capacity b"
  shows "sys_inv D (sys\<lparr>sy_heap := fmupd r s' (sy_heap sys), sy_budget := b\<rparr>)"
proof -
  let ?heap = "fmupd r s' (sy_heap sys)"
  have dom: "fmdom ?heap = fmdom (sy_heap sys)"
    using r by (auto simp: fmdomI)
  have total: "retained ?heap + fcard (ids_of s) = retained (sy_heap sys) + fcard (ids_of s')"
    using retained_upd [of r s' "sy_heap sys"] retained_drop [OF r] by simp
  then have claimed: "unat (rb_claimed b) = retained ?heap"
    using b(1) sys_invD(7) [OF inv] by simp
  have keys: "session_id_of (heap_session ?heap q) = session_id_of (heap_session (sy_heap sys) q)" for q
    using id r by (cases "q = r") (simp_all add: heap_session_def)
  have caps: "fcard (ids_of t) \<le> rr_capacity (se_replay t)" if "fmlookup ?heap q = Some t" for q t
    using that cap sys_invD(5) [OF inv, of q t] by (auto split: if_splits)
  have bound: "retained ?heap \<le> unat (rb_capacity (sy_budget sys))"
    using b(2,3) by (simp flip: claimed add: word_le_nat_alt)
  have ref: "referenced (sys\<lparr>sy_heap := ?heap, sy_budget := b\<rparr>) q = referenced sys q" for q
    by (simp add: referenced_iff)
  show ?thesis
    unfolding sys_inv_def ref
    using sys_invD(1-4,6) [OF inv] claimed caps bound b(2)
    by (simp add: dom keys del: fmdom_fmupd)
qed

lemma sys_admit_inv:
  assumes inv: "sys_inv {} sys" and held: "r \<in># sy_held sys"
  shows "sys_inv {} (snd (sys_admit ops sys r rec now))"
proof -
  have "r |\<in>| fmdom (sy_heap sys)"
    using held sys_invD(1) [OF inv, of r] by (simp add: referenced_iff)
  then obtain s where s: "fmlookup (sy_heap sys) r = Some s" by (auto simp: fmlookup_dom_iff)
  obtain result s' b' where adm: "open_and_admit ops s (sy_budget sys) rec now = (result, s', b')"
    by (cases "open_and_admit ops s (sy_budget sys) rec now") auto
  have heap: "heap_session (sy_heap sys) r = s" using s by (simp add: heap_session_def)
  from adm have core: "sys_inv {} (sys\<lparr>sy_heap := fmupd r s' (sy_heap sys), sy_budget := b'\<rparr>)"
  proof (cases rule: open_and_admit_cases)
    case (refused e)
    have "sys_inv {} (sys\<lparr>sy_heap := fmupd r s (sy_heap sys), sy_budget := sy_budget sys\<rparr>)"
      by (rule update_session_inv [OF inv s refl])
         (use sys_invD(5) [OF inv s] sys_invD(7,8) [OF inv] in \<open>simp_all add: word_le_nat_alt\<close>)
    with refused show ?thesis by simp
  next
    case (admitted rid plaintext)
    have card: "fcard (ids_of s') = Suc (fcard (ids_of s))"
      using admitted(4) by (simp add: admitted(7) ids_of_def fcard_finsert_disjoint)
    have "unat (rb_claimed (sy_budget sys) + 1) = unat (rb_claimed (sy_budget sys)) + 1"
      using admitted(6) unat_u64_less [of "rb_capacity (sy_budget sys)"]
        u64_add_of_nat [of "rb_claimed (sy_budget sys)" 1]
      by (simp add: word_less_nat_alt)
    then show ?thesis
      by (intro update_session_inv [OF inv s])
         (use admitted card in \<open>simp_all add: session_id_of_def word_le_nat_alt word_less_nat_alt\<close>)
  qed
  have "snd (sys_admit ops sys r rec now) =
      (let sys1 = sys\<lparr>sy_heap := fmupd r s' (sy_heap sys), sy_budget := b'\<rparr> in
       case result of Inl e \<Rightarrow> sys1 | Inr _ \<Rightarrow> sys1\<lparr>sy_held := add_mset r (sy_held sys1)\<rparr>)"
    by (simp add: sys_admit_def heap adm Let_def)
  then show ?thesis
    using core held_add_inv [OF core, of r] by (auto simp: Let_def split: sum.splits)
qed

lemma sys_release_inv: "sys_inv {} sys \<Longrightarrow> sys_inv {} (sys_release sys r)"
  using drop_ref_inv [OF held_remove_inv [of "{}" sys r], of r] by (simp add: sys_release_def)

lemma unstore_inv:
  assumes inv: "sys_inv D sys"
  shows "sys_inv (case fmlookup (sto_sessions (sy_store sys)) sid of None \<Rightarrow> D | Some r \<Rightarrow> insert r D)
    (sys\<lparr>sy_store := (sy_store sys)\<lparr>sto_sessions := fmdrop sid (sto_sessions (sy_store sys))\<rparr>\<rparr>)"
  by (rule store_shrink_inv [OF inv]) (auto simp: map_len_drop split: option.splits if_splits)

lemma sys_get_inv:
  assumes inv: "sys_inv {} sys" shows "sys_inv {} (snd (sys_get sys sid now))"
proof (cases "fmlookup (sto_sessions (sy_store sys)) sid")
  case None
  then show ?thesis using inv by (simp add: sys_get_def get_at_def Let_def)
next
  case (Some r)
  then have "r |\<in>| fmdom (sy_heap sys)"
    using sys_invD(1) [OF inv, of r] by (auto simp: referenced_iff)
  then have held: "sys_inv {} (sys\<lparr>sy_held := add_mset r (sy_held sys)\<rparr>)"
    using held_add_inv [OF inv, of r] by simp
  have dropped: "sys_inv {} (drop_ref r
      (sys\<lparr>sy_store := (sy_store sys)\<lparr>sto_sessions := fmdrop sid (sto_sessions (sy_store sys))\<rparr>\<rparr>))"
    using drop_ref_inv [OF unstore_inv [OF inv, of sid], of r] by (simp add: Some)
  have same: "sys\<lparr>sy_store := sy_store sys\<rparr> = sys" by (cases sys) simp
  show ?thesis
    using inv held dropped by (simp add: sys_get_def get_at_def Let_def Some same)
qed

lemma sys_remove_inv:
  assumes inv: "sys_inv {} sys" shows "sys_inv {} (snd (sys_remove sys sid))"
proof -
  let ?sys = "sys\<lparr>sy_store := (sy_store sys)\<lparr>sto_sessions := fmdrop sid (sto_sessions (sy_store sys))\<rparr>\<rparr>"
  have same: "sys\<lparr>sy_store := sy_store sys\<rparr> = sys" by (cases sys) simp
  show ?thesis
  proof (cases "fmlookup (sto_sessions (sy_store sys)) sid")
    case None
    then show ?thesis
      using inv unstore_inv [OF inv, of sid] by (simp add: sys_remove_def store_remove_def Let_def same)
  next
    case (Some r)
    then have "r |\<in>| fmdom (sy_heap ?sys)"
      using sys_invD(1) [OF inv, of r] by (auto simp: referenced_iff)
    from held_add_inv [OF unstore_inv [OF inv, of sid], of r] this show ?thesis
      using inv by (simp add: sys_remove_def store_remove_def Let_def same Some)
  qed
qed

lemma fold_fmdrop:
  "fmlookup (fold fmdrop ids m) sid = (if sid \<in> set ids then None else fmlookup m sid)"
  by (induction ids arbitrary: m) auto

lemma map_len_fold_fmdrop: "map_len (fold fmdrop ids m) \<le> map_len m"
proof (induction ids arbitrary: m)
  case (Cons i ids)
  have "map_len (fmdrop i m) \<le> map_len m" by (simp add: map_len_drop)
  with Cons [of "fmdrop i m"] show ?case by simp
qed simp

lemma sys_purge_inv:
  assumes inv: "sys_inv {} sys" shows "sys_inv {} (snd (sys_purge sys ids now))"
proof -
  let ?m = "sto_sessions (sy_store sys)"
  define gone where "gone = filter (\<lambda>sid. case fmlookup ?m sid of None \<Rightarrow> False
    | Some r \<Rightarrow> is_expired (heap_session (sy_heap sys) r) now) ids"
  define refs where "refs = map (\<lambda>sid. the (fmlookup ?m sid)) gone"
  have same: "sys\<lparr>sy_store := sy_store sys\<rparr> = sys" by (cases sys) simp
  have "sys_inv (set refs) (sys\<lparr>sy_store := (sy_store sys)\<lparr>sto_sessions := fold fmdrop gone ?m\<rparr>\<rparr>)"
    by (rule store_shrink_inv [OF inv])
       (auto simp: fold_fmdrop refs_def map_len_fold_fmdrop image_iff split: if_splits, metis option.sel)
  from drop_refs_inv [OF this, of refs]
  have "sys_inv {} (fold drop_ref refs (sys\<lparr>sy_store := (sy_store sys)\<lparr>sto_sessions := fold fmdrop gone ?m\<rparr>\<rparr>))"
    by simp
  then show ?thesis
    using inv by (simp add: sys_purge_def purge_expired_def Let_def same refs_def gone_def)
qed

text \<open>The store hands back what it does not keep, and what it keeps is live and stored once.\<close>

lemma insert_at_inv:
  assumes inv: "sys_inv {r} sys" and r: "r |\<in>| fmdom (sy_heap sys)"
    and ins: "insert_at (sy_heap sys) (sy_store sys) r now = (result, store, dropped)"
  shows "sys_inv {} (fold drop_ref dropped (sys\<lparr>sy_store := store\<rparr>))"
proof -
  let ?m = "sto_sessions (sy_store sys)"
  define s sid where "s = heap_session (sy_heap sys) r" and "sid = session_id_of s"
  have same: "sys\<lparr>sy_store := sy_store sys\<rparr> = sys" "(sy_store sys)\<lparr>sto_sessions := ?m\<rparr> = sy_store sys"
    by (cases sys, simp) (cases "sy_store sys", simp)
  have refused: "sys_inv {} (drop_ref r sys)"
    using drop_ref_inv [OF inv, of r] by simp
  show ?thesis
  proof (cases "fmlookup ?m sid")
    case None
    have added: "sys_inv {} (sys\<lparr>sy_store := (sy_store sys)\<lparr>sto_sessions := fmupd sid r ?m\<rparr>\<rparr>)"
      if "map_len ?m < sto_capacity (sy_store sys)"
      using store_add_inv [OF inv r _ None that] by (simp add: sid_def s_def)
    show ?thesis
      using ins None refused added
      by (auto simp: insert_at_def Let_def same simp flip: s_def sid_def split: if_splits)
  next
    case (Some e)
    define sys1 where "sys1 = sys\<lparr>sy_store := (sy_store sys)\<lparr>sto_sessions := fmdrop sid ?m\<rparr>\<rparr>"
    have inv1: "sys_inv {e, r} sys1"
      using unstore_inv [OF inv, of sid] by (simp add: Some sys1_def)
    have none: "{e, r} - {e} - {r} = {}" "{e, r} - {r} - {e} = {}" by auto
    have full: "sys_inv {} (drop_ref r (drop_ref e sys1))"
      using drop_ref_inv [OF drop_ref_inv [OF inv1, of e], of r] unfolding none .
    have added: "sys_inv {} (drop_ref e
        (sys\<lparr>sy_store := (sy_store sys)\<lparr>sto_sessions := fmupd sid r (fmdrop sid ?m)\<rparr>\<rparr>))"
      if room: "map_len (fmdrop sid ?m) < sto_capacity (sy_store sys)"
    proof -
      have "sys_inv ({e, r} - {r})
          (sys1\<lparr>sy_store := (sy_store sys1)\<lparr>sto_sessions := fmupd sid r (sto_sessions (sy_store sys1))\<rparr>\<rparr>)"
        by (rule store_add_inv [OF inv1]) (use r room in \<open>simp_all add: sys1_def s_def sid_def\<close>)
      from drop_ref_inv [OF this, of e, unfolded none] show ?thesis
        by (simp add: sys1_def)
    qed
    show ?thesis
      using ins Some refused full added
      by (auto simp: insert_at_def Let_def same sys1_def simp flip: s_def sid_def split: if_splits)
  qed
qed

lemma sys_create_inv:
  assumes inv: "sys_inv {} sys"
  shows "sys_inv {} (snd (sys_create sys secrets routing_key lifetime capacity now now'))"
proof (cases "session_new_at secrets routing_key now lifetime capacity")
  case (Inl e)
  then show ?thesis using inv by (simp add: sys_create_def)
next
  case (Inr s)
  then have empty: "ids_of s = {||}"
    by (auto simp: session_new_at_def and_then_eq_Inr ids_of_def registry_new_def split: if_splits)
  define sys1 where "sys1 = sys\<lparr>sy_heap := fmupd (sy_next sys) s (sy_heap sys), sy_next := Suc (sy_next sys)\<rparr>"
  have inv1: "sys_inv {sy_next sys} sys1"
    using alloc_inv [OF inv empty] by (simp add: sys1_def)
  obtain result store dropped
    where ins: "insert_at (sy_heap sys1) (sy_store sys1) (sy_next sys) now' = (result, store, dropped)"
    by (cases "insert_at (sy_heap sys1) (sy_store sys1) (sy_next sys) now'") auto
  have "sys_inv {} (fold drop_ref dropped (sys1\<lparr>sy_store := store\<rparr>))"
    by (rule insert_at_inv [OF inv1 _ ins]) (simp add: sys1_def)
  moreover have "snd (sys_create sys secrets routing_key lifetime capacity now now') =
      fold drop_ref dropped (sys1\<lparr>sy_store := store\<rparr>)"
    using ins Inr by (simp add: sys_create_def sys1_def Let_def)
  ultimately show ?thesis by simp
qed

lemma sys_step_inv: "sys_step ops sys ev sys' \<Longrightarrow> sys_inv {} sys \<Longrightarrow> sys_inv {} sys'"
  by (induction rule: sys_step.induct)
     (auto intro: sys_create_inv sys_get_inv sys_admit_inv sys_release_inv sys_remove_inv sys_purge_inv)

lemma sys_run_inv: "sys_run ops sys tr sys' \<Longrightarrow> sys_inv {} sys \<Longrightarrow> sys_inv {} sys'"
  by (induction rule: sys_run.induct) (auto dest: sys_step_inv)

end
