(* ===== verification/Session_Claims.thy ===== *)
theory Session_Claims
  imports Session_Invariants
begin

text \<open>
  The properties of the session system over all runs: the exact budget, at most one admission per
  request identifier and session, and the persistence of live sessions in the store.
\<close>

section \<open>What a step leaves alone\<close>

lemma drop_ref_lookup:
  "fmlookup (sy_heap (drop_ref q sys)) r = Some s \<Longrightarrow> fmlookup (sy_heap sys) r = Some s"
  by (auto simp: drop_ref_def split: option.splits if_splits)

lemma drop_refs_lookup:
  "fmlookup (sy_heap (fold drop_ref rs sys)) r = Some s \<Longrightarrow> fmlookup (sy_heap sys) r = Some s"
  by (induction rs arbitrary: sys) (auto dest: drop_ref_lookup)

lemma drop_ref_capacity: "rb_capacity (sy_budget (drop_ref r sys)) = rb_capacity (sy_budget sys)"
  by (simp add: drop_ref_def registry_drop_def release_def split: option.splits)

lemma drop_refs_capacity: "rb_capacity (sy_budget (fold drop_ref rs sys)) = rb_capacity (sy_budget sys)"
  by (induction rs arbitrary: sys) (simp_all add: drop_ref_capacity)

lemmas drop_keeps = drop_ref_keeps drop_refs_keeps drop_ref_capacity drop_refs_capacity

lemma prod_eta3: "p = (fst p, fst (snd p), snd (snd p))"
  by simp

lemma insert_at_capacity:
  "insert_at heap store r now = (result, store', dropped) \<Longrightarrow> sto_capacity store' = sto_capacity store"
  by (auto simp: insert_at_def Let_def split: if_splits)

lemma get_at_capacity:
  "get_at heap store sid now = (result, store', dropped) \<Longrightarrow> sto_capacity store' = sto_capacity store"
  by (auto simp: get_at_def split: if_splits option.splits)

lemma open_and_admit_keeps:
  assumes "open_and_admit ops s b rec now = (result, s', b')"
  shows "rb_capacity b' = rb_capacity b \<and> ids_of s |\<subseteq>| ids_of s' \<and> se_secrets s' = se_secrets s \<and>
    se_expires_at s' = se_expires_at s"
  using assms by (cases rule: open_and_admit_cases) (auto simp: ids_of_def)

lemma sys_step_capacities:
  "sys_step ops sys ev sys' \<Longrightarrow> rb_capacity (sy_budget sys') = rb_capacity (sy_budget sys) \<and>
     sto_capacity (sy_store sys') = sto_capacity (sy_store sys) \<and> sy_next sys \<le> sy_next sys'"
proof (induction rule: sys_step.induct)
  case (step_create sys secrets routing_key lifetime capacity now now')
  then show ?case
    by (auto simp: sys_create_def Let_def drop_keeps case_prod_beta insert_at_capacity [OF prod_eta3]
        split: sum.splits)
next
  case (step_get sys sid now)
  then show ?case
    by (auto simp: sys_get_def Let_def drop_keeps case_prod_beta get_at_capacity [OF prod_eta3]
        split: sum.splits)
next
  case (step_admit r sys rec now)
  obtain result s' b' where "open_and_admit ops (heap_session (sy_heap sys) r) (sy_budget sys) rec now = (result, s', b')"
    by (cases "open_and_admit ops (heap_session (sy_heap sys) r) (sy_budget sys) rec now") auto
  then show ?case
    using open_and_admit_keeps by (fastforce simp: sys_admit_def Let_def split: sum.splits)
next
  case (step_remove sys sid)
  then show ?case
    by (auto simp: sys_remove_def store_remove_def Let_def split: option.splits)
next
  case (step_purge ids sys now)
  then show ?case
    by (auto simp: sys_purge_def purge_expired_def Let_def drop_keeps)
qed (simp add: sys_release_def drop_keeps)

text \<open>
  An allocation present after a step and not new was present before, and has only gained request
  identifiers.
\<close>

lemma sys_step_heap:
  "sys_step ops sys ev sys' \<Longrightarrow> r < sy_next sys \<Longrightarrow> fmlookup (sy_heap sys') r = Some s' \<Longrightarrow>
     \<exists>s. fmlookup (sy_heap sys) r = Some s \<and> ids_of s |\<subseteq>| ids_of s' \<or>
       r \<in># sy_held sys \<and> ids_of (heap_session (sy_heap sys) r) |\<subseteq>| ids_of s'"
proof (induction rule: sys_step.induct)
  case (step_create sys secrets routing_key lifetime capacity now now')
  have "fmlookup (sy_heap sys) r = Some s'"
    using step_create
    by (auto simp: sys_create_def Let_def case_prod_beta dest!: drop_refs_lookup split: sum.splits if_splits)
  then show ?case by auto
next
  case (step_get sys sid now)
  have "fmlookup (sy_heap sys) r = Some s'"
    using step_get
    by (auto simp: sys_get_def Let_def case_prod_beta dest!: drop_refs_lookup split: sum.splits)
  then show ?case by auto
next
  case (step_admit q sys rec now)
  obtain result t b' where adm: "open_and_admit ops (heap_session (sy_heap sys) q) (sy_budget sys) rec now = (result, t, b')"
    by (cases "open_and_admit ops (heap_session (sy_heap sys) q) (sy_budget sys) rec now") auto
  have heap: "sy_heap (snd (sys_admit ops sys q rec now)) = fmupd q t (sy_heap sys)"
    by (simp add: sys_admit_def adm Let_def split: sum.splits)
  show ?case
    using step_admit open_and_admit_keeps [OF adm] by (cases "r = q") (auto simp: heap)
next
  case (step_release q sys)
  then show ?case
    by (auto simp: sys_release_def dest!: drop_ref_lookup)
next
  case (step_remove sys sid)
  then show ?case
    by (auto simp: sys_remove_def store_remove_def Let_def split: option.splits if_splits sum.splits)
next
  case (step_purge ids sys now)
  have "fmlookup (sy_heap sys) r = Some s'"
    using step_purge by (auto simp: sys_purge_def Let_def case_prod_beta dest!: drop_refs_lookup)
  then show ?case by auto
qed

text \<open>Which request of which session a step admitted.\<close>

fun admitted_by :: "session_event \<Rightarrow> (nat \<times> request_id) list" where
  "admitted_by (Admission r (Inr (rid, plaintext))) = [(r, rid)]"
| "admitted_by _ = []"

definition admissions :: "session_event list \<Rightarrow> (nat \<times> request_id) list" where
  "admissions tr = concat (map admitted_by tr)"

lemma admissions_simps [simp]: "admissions [] = []" "admissions (tr @ [ev]) = admissions tr @ admitted_by ev"
  by (simp_all add: admissions_def)

lemma sys_step_admission:
  assumes "sys_step ops sys (Admission r (Inr (rid, plaintext))) sys'" and "sys_inv {} sys"
  shows "\<exists>s s' rec. fmlookup (sy_heap sys) r = Some s \<and> fmlookup (sy_heap sys') r = Some s' \<and>
    decrypt_request ops (se_secrets s) rec = Inr (rid, plaintext) \<and> rid |\<notin>| ids_of s \<and> rid |\<in>| ids_of s'"
  using assms(1)
proof cases
  case (step_admit rec now)
  have "r |\<in>| fmdom (sy_heap sys)"
    using step_admit sys_invD(1) [OF assms(2), of r] by (simp add: referenced_iff)
  then obtain s where s: "fmlookup (sy_heap sys) r = Some s" by (auto simp: fmlookup_dom_iff)
  obtain result t b' where adm: "open_and_admit ops s (sy_budget sys) rec now = (result, t, b')"
    by (cases "open_and_admit ops s (sy_budget sys) rec now") auto
  have eq: "fst (sys_admit ops sys r rec now) = result"
      "fmlookup (sy_heap (snd (sys_admit ops sys r rec now))) r = Some t"
    using s by (simp_all add: sys_admit_def heap_session_def adm Let_def split: sum.splits)
  from adm show ?thesis
  proof (cases rule: open_and_admit_cases)
    case (refused e)
    with step_admit eq show ?thesis by simp
  next
    case (admitted rid' plaintext')
    then show ?thesis
      using step_admit eq s by (auto simp: ids_of_def)
  qed
qed

text \<open>Every admission of a run is retained by its session for as long as the session lives.\<close>

lemma admissions_retained:
  assumes "sys_run ops (system_new n b) tr sys"
  shows "distinct (admissions tr) \<and> (\<forall>(r, rid) \<in> set (admissions tr).
    r < sy_next sys \<and> (\<forall>s. fmlookup (sy_heap sys) r = Some s \<longrightarrow> rid |\<in>| ids_of s))"
  using assms
proof (induction "system_new n b" tr sys rule: sys_run.induct)
  case (run_step tr sys1 ev sys2)
  have inv: "sys_inv {} sys1"
    using sys_run_inv [OF run_step(1)] sys_inv_new by blast
  have old: "r < sy_next sys2 \<and> (\<forall>s. fmlookup (sy_heap sys2) r = Some s \<longrightarrow> rid |\<in>| ids_of s)"
    if "(r, rid) \<in> set (admissions tr)" for r rid
  proof -
    from run_step(2) that have lt: "r < sy_next sys1"
      and in1: "\<And>s. fmlookup (sy_heap sys1) r = Some s \<Longrightarrow> rid |\<in>| ids_of s" by auto
    have "rid |\<in>| ids_of s" if s: "fmlookup (sy_heap sys2) r = Some s" for s
    proof -
      from sys_step_heap [OF run_step(3) lt s] consider s1 where "fmlookup (sy_heap sys1) r = Some s1" "ids_of s1 |\<subseteq>| ids_of s"
        | "r \<in># sy_held sys1" "ids_of (heap_session (sy_heap sys1) r) |\<subseteq>| ids_of s" by blast
      then show ?thesis
      proof cases
        case 1
        then show ?thesis using in1 by blast
      next
        case 2
        then have "r |\<in>| fmdom (sy_heap sys1)"
          using sys_invD(1) [OF inv, of r] by (simp add: referenced_iff)
        then obtain s1 where "fmlookup (sy_heap sys1) r = Some s1" by (auto simp: fmlookup_dom_iff)
        with 2 in1 show ?thesis by (auto simp: heap_session_def)
      qed
    qed
    with lt sys_step_capacities [OF run_step(3)] show ?thesis by auto
  qed
  show ?case
  proof (cases "admitted_by ev = []")
    case True
    with run_step(2) old show ?thesis by auto
  next
    case False
    then obtain r rid plaintext where ev: "ev = Admission r (Inr (rid, plaintext))"
      by (cases ev rule: admitted_by.cases) auto
    from sys_step_admission [OF run_step(3) [unfolded ev] inv] obtain s s'
      where s: "fmlookup (sy_heap sys1) r = Some s" "fmlookup (sy_heap sys2) r = Some s'"
        "rid |\<notin>| ids_of s" "rid |\<in>| ids_of s'" by blast
    have "(r, rid) \<notin> set (admissions tr)"
      using run_step(2) s(1,3) by auto
    moreover have "r < sy_next sys2"
      using sys_invD(3) [OF inv fmdomI [OF s(1)]] sys_step_capacities [OF run_step(3)] by simp
    ultimately show ?thesis
      using run_step(2) old s(2,4) by (auto simp: ev)
  qed
qed simp

lemma sys_run_capacities:
  "sys_run ops sys tr sys' \<Longrightarrow> rb_capacity (sy_budget sys') = rb_capacity (sy_budget sys) \<and>
     sto_capacity (sy_store sys') = sto_capacity (sy_store sys)"
  by (induction rule: sys_run.induct) (auto dest: sys_step_capacities)

text \<open>A handshake leaves every live session stored, and succeeds only with a new identifier and room.\<close>

lemma create_keeps:
  assumes "\<not> sto_poisoned (sy_store sys)" and stored: "fmlookup (sto_sessions (sy_store sys)) sid = Some r"
    and live: "\<not> is_expired (heap_session (sy_heap sys) r) now" and old: "r < sy_next sys"
  shows "fmlookup (sto_sessions (sy_store (snd (sys_create sys secrets rk lifetime n t now)))) sid = Some r \<and>
    (fst (sys_create sys secrets rk lifetime n t now) = Inr (Inr ()) \<longrightarrow> sec_session_id secrets \<noteq> sid \<and>
      (fmlookup (sto_sessions (sy_store sys)) (sec_session_id secrets) = None \<longrightarrow>
        map_len (sto_sessions (sy_store sys)) < sto_capacity (sy_store sys)))"
proof (cases "session_new_at secrets rk t lifetime n")
  case (Inl e)
  then show ?thesis using stored by (simp add: sys_create_def)
next
  case (Inr s)
  then have id: "session_id_of s = sec_session_id secrets"
    by (auto simp: session_new_at_def and_then_eq_Inr session_id_of_def split: if_splits)
  define heap where "heap = fmupd (sy_next sys) s (sy_heap sys)"
  have heap: "heap_session heap (sy_next sys) = s" "heap_session heap r = heap_session (sy_heap sys) r"
    using old by (simp_all add: heap_def heap_session_def)
  show ?thesis
  proof (cases "sec_session_id secrets = sid")
    case True
    then show ?thesis
      using Inr stored live assms(1)
      by (auto simp: sys_create_def Let_def case_prod_beta drop_keeps insert_at_def heap id
          simp flip: heap_def)
  next
    case False
    then show ?thesis
      using Inr stored assms(1)
      by (auto simp: sys_create_def Let_def case_prod_beta drop_keeps insert_at_def heap id
          simp flip: heap_def split: option.splits if_splits)
  qed
qed

section \<open>A concrete run\<close>

text \<open>
  A session is created, looked up and given a request; the same record is then presented again and
  refused.
\<close>

definition demo_secrets :: session_secrets where
  "demo_secrets = \<lparr>sec_session_id = replicate 16 7, sec_request_key = replicate 32 1,
     sec_response_key = replicate 32 2\<rparr>"

definition demo_id :: request_id where
  "demo_id = replicate 16 9"

definition demo_record :: bytes where
  "demo_record = (case encrypt_request ref_ops demo_secrets demo_id [5] of Inr r \<Rightarrow> r | Inl e \<Rightarrow> [])"

definition demo_session :: "request_id fset \<Rightarrow> session" where
  "demo_session ids = \<lparr>se_secrets = demo_secrets, se_routing_key = [], se_expires_at = 100,
     se_replay = \<lparr>rr_request_ids = ids, rr_capacity = 8, rr_poisoned = False\<rparr>\<rparr>"

definition demo_system :: "nat multiset \<Rightarrow> request_id fset \<Rightarrow> u64 \<Rightarrow> session_system" where
  "demo_system held ids claimed = \<lparr>sy_heap = fmupd 0 (demo_session ids) fmempty,
     sy_store = \<lparr>sto_sessions = fmupd (replicate 16 7) 0 fmempty, sto_capacity = 2, sto_poisoned = False\<rparr>,
     sy_held = held, sy_budget = \<lparr>rb_claimed = claimed, rb_capacity = 3\<rparr>, sy_next = 1\<rparr>"

lemma demo_decrypt: "decrypt_request ref_ops demo_secrets demo_record = Inr (demo_id, [5])"
proof -
  have "secrets_ok demo_secrets" by (simp add: demo_secrets_def secrets_ok_def)
  then obtain c where "encrypt_request ref_ops demo_secrets demo_id [5] = Inr (demo_id @ c)"
    by (rule ref_crypto.encrypt_request_total [of demo_secrets "[5]" demo_id]) (simp_all add: aead_max_def)
  then show ?thesis
    by (simp add: ref_crypto.decrypt_request_iff demo_record_def demo_id_def size_defs)
qed

lemma demo_create: "snd (sys_create (system_new 2 3) demo_secrets [] 100 8 0 0) = demo_system {#} {||} 0"
  by (simp add: sys_create_def session_new_at_def instant_checked_add_def instant_bound_def nanos_per_sec_def
      system_new_def store_new_def budget_new_def registry_new_def insert_at_def heap_session_def is_expired_def
      session_id_of_def demo_system_def demo_session_def demo_secrets_def Let_def)

lemma demo_get: "sys_get (demo_system {#} {||} 0) (replicate 16 7) 5 = (Inr 0, demo_system {#0#} {||} 0)"
  by (simp add: sys_get_def get_at_def demo_system_def demo_session_def heap_session_def is_expired_def)

lemma demo_admit:
  "sys_admit ref_ops (demo_system {#0#} {||} 0) 0 demo_record 6 =
     (Inr (demo_id, [5]), demo_system {#0, 0#} {|demo_id|} 1)"
proof -
  have "open_and_admit ref_ops (demo_session {||}) \<lparr>rb_claimed = 0, rb_capacity = 3\<rparr> demo_record 6 =
      (Inr (demo_id, [5]), demo_session {|demo_id|}, \<lparr>rb_claimed = 1, rb_capacity = 3\<rparr>)"
    using demo_decrypt
    by (simp add: open_and_admit_def demo_session_def claim_request_at_def is_expired_def claim_def
        claim_one_def fcard.rep_eq)
  then show ?thesis
    by (simp add: sys_admit_def demo_system_def heap_session_def)
qed

lemma demo_replay:
  "sys_admit ref_ops (demo_system {#0, 0#} {|demo_id|} 1) 0 demo_record 7 =
     (Inl (SessionReplay Duplicate), demo_system {#0, 0#} {|demo_id|} 1)"
proof -
  have "open_and_admit ref_ops (demo_session {|demo_id|}) \<lparr>rb_claimed = 1, rb_capacity = 3\<rparr> demo_record 7 =
      (Inl (SessionReplay Duplicate), demo_session {|demo_id|}, \<lparr>rb_claimed = 1, rb_capacity = 3\<rparr>)"
    using demo_decrypt
    by (simp add: open_and_admit_def demo_session_def claim_request_at_def is_expired_def claim_def)
  then show ?thesis
    by (simp add: sys_admit_def demo_system_def heap_session_def)
qed

definition demo_trace :: "session_event list" where
  "demo_trace = [Creation, Lookup (Inr 0), Admission 0 (Inr (demo_id, [5])),
     Admission 0 (Inl (SessionReplay Duplicate))]"

lemma demo_run: "sys_run ref_ops (system_new 2 3) demo_trace (demo_system {#0, 0#} {|demo_id|} 1)"
proof -
  have "sys_run ref_ops (system_new 2 3) ([] @ [Creation]) (demo_system {#} {||} 0)"
    using run_step [OF run_start step_create [of ref_ops "system_new 2 3" demo_secrets "[]" 100 8 0 0]]
    by (simp add: demo_create)
  from run_step [OF this step_get [of ref_ops _ "replicate 16 7" 5]]
  have "sys_run ref_ops (system_new 2 3) [Creation, Lookup (Inr 0)] (demo_system {#0#} {||} 0)"
    by (simp add: demo_get)
  from run_step [OF this step_admit [of 0 _ ref_ops demo_record 6]]
  have "sys_run ref_ops (system_new 2 3) [Creation, Lookup (Inr 0), Admission 0 (Inr (demo_id, [5]))]
      (demo_system {#0, 0#} {|demo_id|} 1)"
    by (simp add: demo_admit) (simp add: demo_system_def)
  from run_step [OF this step_admit [of 0 _ ref_ops demo_record 7]]
  show ?thesis
    by (simp add: demo_replay demo_trace_def) (simp add: demo_system_def)
qed

section \<open>Properties\<close>

text \<open>
  C2: a request identifier is admitted at most once per session. In every interleaving of handshakes,
  lookups, admissions, releases, removals and purges, no two admissions of the run have the same session
  and the same request identifier, whatever records arrive and whenever references are dropped. Since an
  application request is dispatched only after an admission, a recorded request cannot be replayed.
\<close>

theorem requests_admitted_at_most_once:
  assumes "sys_run ops (system_new max_sessions capacity) tr sys"
  shows "distinct (admissions tr)"
  using admissions_retained [OF assms] by blast

theorem requests_admitted_at_most_once_witness:
  "distinct (admissions demo_trace) \<and> admissions demo_trace = [(0, demo_id)]"
  using requests_admitted_at_most_once [OF demo_run]
  by (simp add: demo_trace_def admissions_def)

text \<open>
  C25: the process-wide replay budget is exact. After any run the counter equals the number of request
  identifiers that the allocated sessions retain, so it never wraps around when sessions are dropped; it
  stays within its capacity, every registry within its own, and the store within the number of sessions it
  was given. Every allocated session is still referenced, and once the store is empty and no handler holds
  a session the whole budget is free again.
\<close>

theorem replay_budget_exact:
  assumes "sys_run ops (system_new max_sessions capacity) tr sys"
  shows "unat (rb_claimed (sy_budget sys)) = retained (sy_heap sys) \<and>
    unat (rb_claimed (sy_budget sys)) \<le> unat capacity \<and>
    (\<forall>r s. fmlookup (sy_heap sys) r = Some s \<longrightarrow>
      referenced sys r \<and> fcard (ids_of s) \<le> rr_capacity (se_replay s)) \<and>
    map_len (sto_sessions (sy_store sys)) \<le> max_sessions \<and>
    (sto_sessions (sy_store sys) = fmempty \<and> sy_held sys = {#} \<longrightarrow> rb_claimed (sy_budget sys) = 0)"
proof -
  have inv: "sys_inv {} sys"
    using sys_run_inv [OF assms] sys_inv_new by blast
  have caps: "rb_capacity (sy_budget sys) = capacity" "sto_capacity (sy_store sys) = max_sessions"
    using sys_run_capacities [OF assms] by (simp_all add: system_new_def budget_new_def store_new_def)
  have "rb_claimed (sy_budget sys) = 0" if "sto_sessions (sy_store sys) = fmempty" "sy_held sys = {#}"
  proof -
    have "r |\<notin>| fmdom (sy_heap sys)" for r
      using sys_invD(2) [OF inv, of r] that by (auto simp: referenced_iff)
    then have "sy_heap sys = fmempty" by (intro fmap_ext) (auto dest: fmdomI)
    then show ?thesis
      using sys_invD(7) [OF inv] by (simp add: unsigned_eq_0_iff)
  qed
  then show ?thesis
    using sys_invD(2) [OF inv] sys_invD(5-8) [OF inv] caps by (auto dest: fmdomI)
qed

theorem replay_budget_exact_witness:
  "unat (rb_claimed (sy_budget (demo_system {#0, 0#} {|demo_id|} 1))) = 1 \<and>
   retained (sy_heap (demo_system {#0, 0#} {|demo_id|} 1)) = 1"
  using replay_budget_exact [OF demo_run] by (simp add: demo_system_def)

text \<open>
  C20: a live session is never given up for another. Let a session be stored after any run and not be
  expired at the time of the next operation. Creating another session, looking up any identifier, purging
  expired sessions, admitting a request and dropping a reference all leave it stored; looking it up
  returns it; a handshake that yields its identifier is refused as a collision, and in a full store a new
  session is refused instead of displacing it.
\<close>

theorem live_sessions_kept:
  assumes run: "sys_run ops (system_new max_sessions capacity) tr sys"
    and unpoisoned: "\<not> sto_poisoned (sy_store sys)"
    and stored: "fmlookup (sto_sessions (sy_store sys)) sid = Some r"
    and live: "\<not> is_expired (heap_session (sy_heap sys) r) now"
  shows "fmlookup (sto_sessions (sy_store (snd (sys_create sys secrets routing_key lifetime n t now)))) sid = Some r \<and>
    fmlookup (sto_sessions (sy_store (snd (sys_get sys sid' now)))) sid = Some r \<and>
    fmlookup (sto_sessions (sy_store (snd (sys_purge sys ids now)))) sid = Some r \<and>
    fmlookup (sto_sessions (sy_store (snd (sys_admit ops sys q rec now)))) sid = Some r \<and>
    fmlookup (sto_sessions (sy_store (sys_release sys q))) sid = Some r \<and>
    fst (sys_get sys sid now) = Inr r \<and>
    (sec_session_id secrets = sid \<longrightarrow> fst (sys_create sys secrets routing_key lifetime n t now) \<noteq> Inr (Inr ())) \<and>
    (map_len (sto_sessions (sy_store sys)) = max_sessions \<longrightarrow> sec_session_id secrets \<noteq> sid \<longrightarrow>
      fmlookup (sto_sessions (sy_store sys)) (sec_session_id secrets) = None \<longrightarrow>
      fst (sys_create sys secrets routing_key lifetime n t now) \<noteq> Inr (Inr ()))"
proof -
  have inv: "sys_inv {} sys"
    using sys_run_inv [OF run] sys_inv_new by blast
  have cap: "sto_capacity (sy_store sys) = max_sessions"
    using sys_run_capacities [OF run] by (simp add: system_new_def store_new_def)
  have "r |\<in>| fmdom (sy_heap sys)"
    using stored sys_invD(1) [OF inv, of r] by (auto simp: referenced_iff)
  then have "r < sy_next sys" by (rule sys_invD(3) [OF inv])
  note create = create_keeps [OF unpoisoned stored live \<open>r < sy_next sys\<close>, of secrets routing_key lifetime n t]
  have "fmlookup (sto_sessions (sy_store (snd (sys_get sys sid' now)))) sid = Some r"
    using stored live by (auto simp: sys_get_def get_at_def Let_def drop_keeps case_prod_beta
        split: option.splits sum.splits if_splits)
  moreover have "fmlookup (sto_sessions (sy_store (snd (sys_purge sys ids now)))) sid = Some r"
    using stored live by (auto simp: sys_purge_def purge_expired_def Let_def drop_keeps fold_fmdrop)
  moreover have "fmlookup (sto_sessions (sy_store (snd (sys_admit ops sys q rec now)))) sid = Some r"
    using stored by (auto simp: sys_admit_def Let_def case_prod_beta split: sum.splits)
  moreover have "fmlookup (sto_sessions (sy_store (sys_release sys q))) sid = Some r"
    using stored by (simp add: sys_release_def drop_keeps)
  moreover have "fst (sys_get sys sid now) = Inr r"
    using stored live unpoisoned by (simp add: sys_get_def get_at_def Let_def)
  ultimately show ?thesis
    using create cap by auto
qed

theorem live_sessions_kept_witness:
  "fmlookup (sto_sessions (sy_store (snd (sys_get (demo_system {#0, 0#} {|demo_id|} 1) [] 8)))) (replicate 16 7) = Some 0 \<and>
   fst (sys_create (demo_system {#0, 0#} {|demo_id|} 1) demo_secrets [] 100 8 8 8) \<noteq> Inr (Inr ())"
proof -
  let ?sys = "demo_system {#0, 0#} {|demo_id|} 1"
  have "\<not> sto_poisoned (sy_store ?sys)" "fmlookup (sto_sessions (sy_store ?sys)) (replicate 16 7) = Some 0"
      "\<not> is_expired (heap_session (sy_heap ?sys) 0) 8"
    by (simp_all add: demo_system_def heap_session_def demo_session_def is_expired_def)
  from live_sessions_kept [OF demo_run this, of demo_secrets "[]" 100 8 8 "[]" "[]" 0 "[]"] show ?thesis
    by (simp add: demo_secrets_def)
qed

end

