(* ===== verification/Transport_Exchange.thy ===== *)
theory Transport_Exchange
  imports Response_Exchange Client_Claims Session_Claims
begin

text \<open>
  A whole exchange: the client seals a request, the gateway admits it, runs the application and streams the
  encrypted response, and the client decodes the stream.
\<close>

section \<open>Between client and gateway\<close>

text \<open>
  The HTTP stacks add headers of their own to a request, among them possibly its length, and none of those
  the gateway reads or forbids.
\<close>

definition received_request :: "header_map \<Rightarrow> outer_request \<Rightarrow> outer_request" where
  "received_request extra request = request\<lparr>or_headers := or_headers request @ extra\<rparr>"

definition stack_headers :: "header_map \<Rightarrow> bytes \<Rightarrow> bool" where
  "stack_headers extra body \<longleftrightarrow>
     list_all (\<lambda>name. get_all extra name = [])
       [''content-type'', ''authorization'', ''proxy-authorization'', ''cookie'', ''content-encoding'',
        ''x-session-id'', ''x-opensecret-routing-key''] \<and>
     (get_all extra ''content-length'' = [] \<or> get_all extra ''content-length'' = [show_nat (length body)])"

text \<open>
  How an outcome of the gateway arrives: a stream as a 200 response of the gateway's content type, in pieces
  of any size, failing after its items when the gateway's stream failed; an error with its status and its
  recovery headers. Other headers are up to the stacks.
\<close>

definition carries :: "outer_error + (bytes list \<times> seal_frame_error option) \<Rightarrow> outer_reply \<Rightarrow> bool" where
  "carries outcome reply =
     (case outcome of
        Inr (items, failure) \<Rightarrow>
          rp_status reply = 200 \<and>
          get_all (rp_headers reply) ''content-type'' = [''application/octet-stream''] \<and>
          (\<exists>pieces. concat pieces = concat items \<and>
             rp_pieces reply = map Some pieces @ (if failure = None then [] else [None]))
      | Inl e \<Rightarrow>
          rp_status reply = fst (outer_response e) \<and>
          list_all (\<lambda>name. get_all (rp_headers reply) name = get_all (snd (outer_response e)) name)
            [''x-opensecret-error-contract'', ''x-opensecret-error-code''])"

section \<open>The gateway accepts what the client sends\<close>

lemma get_all_Cons:
  "get_all ((n, v) # hs) name = (if n = name then v # get_all hs name else get_all hs name)"
  by (simp add: get_all_def)

lemma sdk_encode_length:
  assumes "sdk_encode cod js http r = Inr encoded"
  shows "length encoded \<le> MAX_ENCODED_REQUEST_BYTES"
proof -
  from assms obtain m where "length m \<le> 131072" "body_len (lr_body r) \<le> 52428800"
      "encoded = u32_to_be_bytes (of_nat (length m)) @ m @ (case lr_body r of None \<Rightarrow> [] | Some b \<Rightarrow> b)"
    by (auto simp: sdk_encode_def and_then_eq_Inr sdk_validate_def sdk_limit_defs Let_def split: if_splits)
  then show ?thesis
    by (auto simp: MAX_ENCODED_REQUEST_BYTES_def limit_defs body_len_def split: option.splits)
qed

context wire_formats
begin

lemma decode_canonical_encode: "length b = n \<Longrightarrow> decode_canonical_fixed cod n (b64_encode cod b) = Inr b"
  by (simp add: decode_canonical_fixed_def b64_decode_encode)

lemma session_id_parse:
  assumes "length sid = SESSION_ID_BYTES"
  shows "session_id_from_str cod (session_id_to_string cod sid) = Inr sid"
  using assms hx_encode_lower [of sid] hx_encode_length [of sid]
  by (simp add: session_id_from_str_def session_id_to_string_def hx_decode_encode size_defs)

lemma show_nat_visible: "list_all (\<lambda>c. 32 \<le> (of_char c :: nat) \<and> (of_char c :: nat) < 127) (show_nat n)"
  using show_nat_digits [of n] by (auto simp: list_all_iff is_ascii_digit_def)

lemma request_inputs_accept:
  assumes sid: "length (sr_session_id sealed) = SESSION_ID_BYTES"
    and key: "length (sr_routing_key sealed) = HANDSHAKE_CHALLENGE_BYTES"
    and size: "length (sr_encrypted sealed) \<le> MAX_REQUEST_RECORD_BYTES"
    and extra: "stack_headers extra (sr_encrypted sealed)"
  shows "request_inputs cod http (received_request extra (sealed_outer_request cod sealed)) =
    Inr (sr_session_id sealed, sr_routing_key sealed)"
proof -
  let ?request = "received_request extra (sealed_outer_request cod sealed)"
  have headers: "get_all (or_headers ?request) ''content-type'' = [''application/octet-stream'']"
    "get_all (or_headers ?request) ''x-session-id'' = [session_id_to_string cod (sr_session_id sealed)]"
    "get_all (or_headers ?request) ''x-opensecret-routing-key'' = [b64_encode cod (sr_routing_key sealed)]"
    "get_all (or_headers ?request) ''content-length'' = get_all extra ''content-length''"
    "list_all (\<lambda>name. get_all (or_headers ?request) name = [])
       [''authorization'', ''proxy-authorization'', ''cookie'', ''content-encoding'']"
    using extra
    by (simp_all add: received_request_def sealed_outer_request_def get_all_Cons stack_headers_def
        SDK_ROUTING_KEY_HEADER_def session_id_to_string_def sdk_session_id_to_string_def)
  have forbidden: "reject_forbidden_outer_headers (or_headers ?request) = Inr ()"
    using headers(5) by (simp add: reject_forbidden_outer_headers_def)
  have content: "require_content_type (or_headers ?request) ''application/octet-stream'' = Inr ()"
    by (simp add: require_content_type_def headers(1))
  have id: "parse_outer_session_id cod http (or_headers ?request) = Inr (sr_session_id sealed)"
    using session_id_parse [OF sid] to_str_hex [of "sr_session_id sealed"]
    by (simp add: parse_outer_session_id_def headers(2) session_id_to_string_def)
  have routing: "parse_outer_routing_key cod http (or_headers ?request) = Inr (sr_routing_key sealed)"
    using decode_canonical_encode [OF key] to_str_b64 [of "sr_routing_key sealed"]
    by (simp add: parse_outer_routing_key_def headers(3))
  have "length (sr_encrypted sealed) < 2 ^ 64"
    using size by (simp add: MAX_REQUEST_RECORD_BYTES_def MAX_ENCODED_REQUEST_BYTES_def limit_defs size_defs)
  from parse_usize_show_nat [OF this] to_str_visible [OF show_nat_visible]
  have declared: "reject_declared_oversize http (or_headers ?request) MAX_REQUEST_RECORD_BYTES = Inr ()"
    using extra size by (auto simp: reject_declared_oversize_def headers(4) stack_headers_def)
  have "or_query ?request = None"
    by (simp add: received_request_def sealed_outer_request_def)
  then show ?thesis
    by (simp add: request_inputs_def content forbidden id routing declared)
qed

end

section \<open>The session on the gateway\<close>

text \<open>A session that is stored, while the replay budget is not exhausted.\<close>

definition session_ready :: "session_system \<Rightarrow> nat \<Rightarrow> session \<Rightarrow> bool" where
  "session_ready sys r s \<longleftrightarrow>
     \<not> sto_poisoned (sy_store sys) \<and> fmlookup (sto_sessions (sy_store sys)) (session_id_of s) = Some r \<and>
     fmlookup (sy_heap sys) r = Some s \<and> rb_claimed (sy_budget sys) < rb_capacity (sy_budget sys)"

lemma system_self_update: "sys\<lparr>sy_store := sy_store sys\<rparr> = sys" "sys\<lparr>sy_held := sy_held sys\<rparr> = sys"
  by (cases sys, simp)+

lemma get_routed_session_ready:
  assumes "session_ready sys r s" and "\<not> is_expired s now"
  shows "get_routed_session sys (session_id_of s) (se_routing_key s) now =
    (Inr r, sys\<lparr>sy_held := add_mset r (sy_held sys)\<rparr>)"
  using assms
  by (simp add: get_routed_session_def sys_get_def get_at_def session_ready_def heap_session_def
      matches_routing_key_def system_self_update)

lemma release_held_ready:
  assumes "session_ready sys r s"
  shows "sys_release (sys\<lparr>sy_held := add_mset r (sy_held sys)\<rparr>) r = sys"
proof -
  have "referenced sys r"
    using assms by (auto simp: session_ready_def referenced_iff)
  then show ?thesis
    using assms by (simp add: sys_release_def drop_ref_def session_ready_def system_self_update)
qed

lemma open_and_admit_fresh:
  assumes "decrypt_request ops (se_secrets s) rec = Inr (rid, plaintext)" and "\<not> is_expired s now"
    and "\<not> rr_poisoned (se_replay s)" and "rid |\<notin>| ids_of s"
    and "fcard (ids_of s) < rr_capacity (se_replay s)" and "rb_claimed b < rb_capacity b"
  shows "\<exists>s' b'. open_and_admit ops s b rec now = (Inr (rid, plaintext), s', b') \<and> se_secrets s' = se_secrets s"
  using assms
  by (auto simp: open_and_admit_def claim_request_at_def claim_def claim_one_def ids_of_def)

lemma sys_admit_ready:
  assumes "session_ready sys r s" and "decrypt_request ops (se_secrets s) rec = Inr (rid, plaintext)"
    and "\<not> is_expired s now" and "\<not> rr_poisoned (se_replay s)" and "rid |\<notin>| ids_of s"
    and "fcard (ids_of s) < rr_capacity (se_replay s)"
  shows "\<exists>s' sys'. sys_admit ops (sys\<lparr>sy_held := add_mset r (sy_held sys)\<rparr>) r rec now =
      (Inr (rid, plaintext), sys') \<and> heap_session (sy_heap sys') r = s' \<and> se_secrets s' = se_secrets s"
proof -
  have "rb_claimed (sy_budget sys) < rb_capacity (sy_budget sys)" and "fmlookup (sy_heap sys) r = Some s"
    using assms(1) by (simp_all add: session_ready_def)
  with open_and_admit_fresh [OF assms(2-6), of "sy_budget sys"] obtain s' b'
    where "open_and_admit ops s (sy_budget sys) rec now = (Inr (rid, plaintext), s', b')"
      "se_secrets s' = se_secrets s" by blast
  with \<open>fmlookup (sy_heap sys) r = Some s\<close> show ?thesis
    by (simp add: sys_admit_def heap_session_def)
qed

section \<open>The application's request\<close>

definition application_view :: "session_id \<Rightarrow> request_id \<Rightarrow> logical_request \<Rightarrow> application_request" where
  "application_view sid rid r =
     \<lparr>ar_method = lr_method r,
      ar_uri = \<lparr>uri_scheme = None, uri_authority = None, uri_path_and_query = Some (lr_target r)\<rparr>,
      ar_headers = map (\<lambda>h. (lh_name h, lh_value h)) (lr_headers r),
      ar_body = (case lr_body r of None \<Rightarrow> [] | Some b \<Rightarrow> b), ar_session_id = sid, ar_request_id = rid,
      ar_credential = lr_credential r, ar_cache_namespace_root = lr_cache_namespace_root r\<rparr>"

lemma append_headers_valid:
  "list_all (\<lambda>h. validate_header http h = Inr ()) hs \<Longrightarrow>
     append_headers http hs = Inr (map (\<lambda>h. (lh_name h, lh_value h)) hs)"
  by (induction hs) (auto simp: validate_header_ok)

lemma build_client_request:
  assumes "client_built http r" and "sdk_encode cod js http r = Inr encoded"
  shows "build_application_request http (envelope_of rid r) sid rid = Inr (application_view sid rid r)"
proof -
  from assms(2) have target: "validate_target http (lr_target r) = Inr ()"
      and headers: "validate_headers http (lr_headers r) = Inr ()"
    by (auto simp: sdk_encode_def and_then_eq_Inr sdk_validate_def sdk_validate_target_iff
        sdk_validate_headers_iff split: if_splits)
  have "append_headers http (lr_headers r) = Inr (map (\<lambda>h. (lh_name h, lh_value h)) (lr_headers r))"
    using headers by (intro append_headers_valid)
      (auto simp: validate_headers_def validate_each_header_iff split: if_splits)
  then show ?thesis
    using assms(1) validate_target_ok(6) [OF target]
    by (simp add: build_application_request_def envelope_of_def application_view_def client_built_def)
qed

lemma answer_client_request:
  assumes "wire_formats cod js http" and "client_built http r" and "sdk_encode cod js http r = Inr encoded"
  shows "answer_request ops cod js http application bad_request s rid encoded =
    encrypted_response ops js http s rid (application (application_view (session_id_of s) rid r))"
  by (simp add: answer_request_def decode_sdk_encode [OF assms] build_client_request [OF assms(2,3)])

section \<open>The exchange\<close>

lemma dispatch_ready:
  assumes "request_inputs cod http request = Inr (session_id_of s, se_routing_key s)"
    and "or_body request = Some rec" and "length rec \<le> MAX_REQUEST_RECORD_BYTES"
    and "MIN_REQUEST_RECORD_BYTES \<le> length rec"
    and "session_ready sys r s" and "session_ready (upload_others sys) r s"
    and "\<not> is_expired s t1" and "\<not> is_expired s t2" and "\<not> is_expired s t3"
    and "decrypt_request ops (se_secrets s) rec = Inr (rid, plaintext)"
    and "\<not> rr_poisoned (se_replay s)" and "rid |\<notin>| ids_of s"
    and "fcard (ids_of s) < rr_capacity (se_replay s)"
  shows "\<exists>s'. fst (dispatch_request ops cod js http application bad_request upload_others app_others t1 t2 t3
      request sys) = answer_request ops cod js http application bad_request s' rid plaintext \<and>
    se_secrets s' = se_secrets s"
proof -
  from sys_admit_ready [OF assms(6,10,9,11-13)] obtain s' sys'
    where admitted: "sys_admit ops ((upload_others sys)\<lparr>sy_held := add_mset r (sy_held (upload_others sys))\<rparr>)
        r rec t3 = (Inr (rid, plaintext), sys')" "heap_session (sy_heap sys') r = s'"
      "se_secrets s' = se_secrets s" by blast
  note gets = get_routed_session_ready [OF assms(5,7)] get_routed_session_ready [OF assms(6,8)]
  show ?thesis
    using assms(1-4) admitted
    by (intro exI [of _ s'])
       (simp add: dispatch_request_def gets release_held_ready [OF assms(5)] read_bounded_body_def Let_def)
qed

text \<open>What the client holds after sealing.\<close>

lemma seal_with_id_Inr:
  assumes "seal_with_id ops cod js http session now prepared r = Inr sealed"
  obtains encoded where "sdk_encode cod js http r = Inr encoded"
    and "sdk_encrypt_request ops (ts_secrets session) (pr_request_id prepared) encoded = Inr (sr_encrypted sealed)"
    and "sdk_response_opener ops (ts_secrets session) (pr_request_id prepared) = Inr (sr_response_opener sealed)"
    and "sr_session_id sealed = ss_session_id (ts_secrets session)" and "sr_routing_key sealed = ts_routing_key session"
  using assms
  by (auto simp: seal_with_id_def seal_encoded_with_id_def and_then_eq_Inr split: if_splits)

lemma send_sealed_carried:
  assumes "wire_formats cod js http" and "network (sealed_outer_request cod sealed) = Some reply"
    and "carries (Inr (items, None)) reply"
  shows "\<exists>pieces. concat pieces = concat items \<and> send_sealed ops cod js http network sealed =
    Inr (response_stream ops js http (decoder_new (sr_response_opener sealed)) (map Some pieces))"
proof -
  from assms(3) obtain pieces where reply: "rp_status reply = 200"
      "get_all (rp_headers reply) ''content-type'' = [''application/octet-stream'']"
      "concat pieces = concat items" "rp_pieces reply = map Some pieces"
    by (auto simp: carries_def)
  have "http_to_str http ''application/octet-stream'' = Some ''application/octet-stream''"
    by (rule wire_formats.to_str_visible [OF assms(1)]) simp
  then have "exact_content_type http (rp_headers reply) = Some ''application/octet-stream''"
    by (simp add: reply exact_content_type_def exact_header_def)
  then show ?thesis
    using reply assms(2) by (auto simp: send_sealed_def session_recovery_hint_of_def)
qed

text \<open>A refusal of the gateway reaches the client as its recovery hint, or as an untrusted response.\<close>

definition hint_of :: "outer_error \<Rightarrow> session_recovery_hint option" where
  "hint_of e = (case e of OuterSessionNotFound \<Rightarrow> Some SessionNotFoundHint
     | OuterRequestDecryptionFailed \<Rightarrow> Some RequestDecryptionFailedHint | _ \<Rightarrow> None)"

lemma refusal_reaches_client:
  assumes wire: "wire_formats cod js http" and "network (sealed_outer_request cod sealed) = Some reply"
    and carried: "carries (Inl e) reply"
  shows "send_sealed ops cod js http network sealed =
    Inl (case hint_of e of Some hint \<Rightarrow> V2SessionRecoveryHint hint | None \<Rightarrow> V2UntrustedOuterResponse)"
proof -
  have visible: "http_to_str http v = Some v"
    if "v \<in> {''1'', ''session_not_found'', ''request_decryption_failed''}" for v
    using that by (intro wire_formats.to_str_visible [OF wire]) auto
  have "session_recovery_hint_of http (rp_status reply) (rp_headers reply) = hint_of e"
    using carried visible
    by (cases e) (simp_all add: carries_def session_recovery_hint_of_def exact_header_def outer_response_def
        hint_of_def get_all_def [of "[]"] get_all_Cons)
  moreover have "rp_status reply \<noteq> 200"
    using carried by (cases e) (simp_all add: carries_def outer_response_def)
  ultimately show ?thesis
    using assms(2) by (simp add: send_sealed_def split: option.splits)
qed

lemma sealed_request_opens:
  assumes crypto: "crypto_primitives ops" and secrets: "secrets_ok secrets"
    and rid: "length rid = REQUEST_ID_BYTES" and enc: "sdk_encode cod js http request = Inr encoded"
    and sealed: "sdk_encrypt_request ops (sdk_view secrets) rid encoded = Inr rec"
  shows "decrypt_request ops secrets rec = Inr (rid, encoded)"
    and "length rec \<le> MAX_REQUEST_RECORD_BYTES" and "MIN_REQUEST_RECORD_BYTES \<le> length rec"
proof -
  have small: "length encoded \<le> MAX_ENCODED_REQUEST_BYTES"
    using enc by (rule sdk_encode_length)
  have "MAX_ENCODED_REQUEST_BYTES \<le> aead_max"
    by (simp add: MAX_ENCODED_REQUEST_BYTES_def limit_defs aead_max_def)
  with small have "length encoded \<le> aead_max" by (rule order_trans)
  from crypto_primitives.encrypt_request_total [OF crypto secrets this, of rid] obtain c
    where c: "encrypt_request ops secrets rid encoded = Inr (rid @ c)" "length c = length encoded + 16" .
  with sealed have rec: "rec = rid @ c"
    by (simp add: sdk_encrypt_request_eq)
  show "decrypt_request ops secrets rec = Inr (rid, encoded)"
    unfolding crypto_primitives.decrypt_request_iff [OF crypto] using c(1) rec rid by simp
  show "length rec \<le> MAX_REQUEST_RECORD_BYTES" and "MIN_REQUEST_RECORD_BYTES \<le> length rec"
    using small c(2) rid unfolding rec MAX_REQUEST_RECORD_BYTES_def size_defs by simp_all
qed

section \<open>Properties\<close>


text \<open>A gateway with one session, a client that holds it, and an application that answers with two bytes.\<close>

lemma some_reply: "\<exists>reply. carries outcome reply"
proof (cases outcome)
  case (Inl e)
  then show ?thesis
    by (intro exI [of _ "\<lparr>rp_status = fst (outer_response e), rp_headers = snd (outer_response e), rp_pieces = []\<rparr>"])
       (simp add: carries_def)
next
  case (Inr stream)
  then show ?thesis
    by (intro exI [of _ "\<lparr>rp_status = 200, rp_headers = [(''content-type'', ''application/octet-stream'')],
          rp_pieces = map Some (fst stream) @ (if snd stream = None then [] else [None])\<rparr>"])
       (auto simp: carries_def get_all_def split: prod.splits)
qed

definition ref_server_session :: session where
  "ref_server_session = \<lparr>se_secrets = ref_secrets, se_routing_key = replicate 32 5, se_expires_at = 1000,
     se_replay = registry_new 8\<rparr>"

definition ref_system :: session_system where
  "ref_system = \<lparr>sy_heap = fmupd 0 ref_server_session fmempty,
     sy_store = \<lparr>sto_sessions = fmupd (replicate 16 7) 0 fmempty, sto_capacity = 4, sto_poisoned = False\<rparr>,
     sy_held = {#}, sy_budget = budget_new 9, sy_next = 2\<rparr>"

definition ref_client_session :: transport_v2_session where
  "ref_client_session = \<lparr>ts_secrets = sdk_view ref_secrets, ts_routing_key = replicate 32 5, ts_expires_at = 1000\<rparr>"

definition ref_prepared :: prepared_request_id where
  "ref_prepared = \<lparr>pr_session_id = replicate 16 7, pr_request_id = replicate 16 9\<rparr>"

definition ref_answer :: app_response where
  "ref_answer = \<lparr>ap_status = 200, ap_headers = [], ap_body = [DataFrame [1, 2]]\<rparr>"

lemma ref_ready: "session_ready ref_system 0 ref_server_session"
  by (simp add: session_ready_def ref_system_def ref_server_session_def session_id_of_def ref_secrets_def
      budget_new_def)

lemma ref_client_seals:
  "\<exists>sealed. seal_with_id ref_ops ref_codec ref_json ref_http ref_client_session 10 ref_prepared ref_request = Inr sealed"
proof -
  obtain encoded where enc: "sdk_encode ref_codec ref_json ref_http ref_request = Inr encoded"
    using ref_request_encodes by blast
  have ok: "secrets_ok ref_secrets"
    by (simp add: ref_secrets_def secrets_ok_def)
  have "length encoded \<le> aead_max"
    using sdk_encode_length [OF enc] by (simp add: MAX_ENCODED_REQUEST_BYTES_def limit_defs aead_max_def)
  from ref_crypto.encrypt_request_total [OF ok this, of "replicate 16 9"] obtain c
    where "encrypt_request ref_ops ref_secrets (replicate 16 9) encoded = Inr (replicate 16 9 @ c)" by metis
  moreover have "length (sec_response_key ref_secrets) = 32" by (simp add: ref_secrets_def)
  from ref_crypto.derive_record_subkey_total [OF this] obtain key
    where "derive_record_subkey ref_ops (sec_response_key ref_secrets) RESPONSE_SUBKEY_INFO
      (sec_session_id ref_secrets) (replicate 16 9) = Inr key" by metis
  ultimately show ?thesis
    by (simp add: seal_with_id_def enc seal_encoded_with_id_def ref_client_session_def ref_prepared_def
        session_is_expired_def sdk_encrypt_request_eq sdk_response_opener_eq response_sealer_def)
       (simp add: sdk_view_def ref_secrets_def)
qed

lemma ref_answer_sent: "sent_head ref_http ref_answer = (\<lparr>rst_status = 200, rst_headers = []\<rparr>, [DataFrame [1, 2]])"
  by (simp add: sent_head_def ref_answer_def response_start_new_def response_start_validate_def
      logical_response_headers_def List.map_filter_simps framing_limits)

lemma ref_answer_events: "response_events ref_http ref_answer = [EvStart 200 [], EvChunk [1, 2], EvEnd]"
  by (simp add: response_events_def ref_answer_sent framing_limits)
     (simp add: slice_chunks.simps [of 65536 "[1, 2]"] slice_chunks.simps [of 65536 "[]"])

lemma ref_answer_fits: "head_fits ref_json ref_http ref_answer"
  by (simp add: head_fits_def ref_answer_sent ref_json_def put_start_def framing_limits)


end
