(* ===== verification/Transport_Handshake.thy ===== *)
theory Transport_Handshake
  imports Transport_Exchange
begin

text \<open>
  The handshake between the client and the gateway, each in its own code: the gateway accepts the client's
  request, and what it answers lets the client hold the session that the gateway stored.
\<close>

section \<open>Messages\<close>

text \<open>The two parties' views of the handshake messages.\<close>

definition server_request :: "sdk_session_request \<Rightarrow> create_session_request" where
  "server_request q = \<lparr>cs_version = sq_version q, cs_challenge = sq_challenge q,
     cs_client_public_key = sq_client_public_key q\<rparr>"

definition client_response :: "create_session_response \<Rightarrow> sdk_session_response" where
  "client_response p = \<lparr>sp_version = cr_version p, sp_session_id = cr_session_id p,
     sp_attestation_document = cr_attestation_document p, sp_expires_in_seconds = cr_expires_in_seconds p\<rparr>"

text \<open>How the gateway's answer arrives; \<open>write_response\<close> is its JSON writer.\<close>

definition carries_session ::
    "(create_session_response \<Rightarrow> bytes) \<Rightarrow> outer_error + create_session_response \<Rightarrow> outer_reply \<Rightarrow> bool" where
  "carries_session write_response outcome reply =
     (case outcome of
        Inr response \<Rightarrow>
          rp_status reply = 200 \<and> get_all (rp_headers reply) ''content-type'' = [''application/json''] \<and>
          (\<exists>pieces. concat pieces = write_response response \<and> rp_pieces reply = map Some pieces)
      | Inl e \<Rightarrow> rp_status reply = fst (outer_response e))"

section \<open>The gateway's side\<close>

context wire_formats
begin

lemma handshake_inputs_accept:
  assumes request: "session_outer_request cod write_request challenge client_public_key = Some request"
    and read: "read_create body = Some (server_request \<lparr>sq_version = SDK_VERSION,
      sq_challenge = b64_encode cod challenge, sq_client_public_key = b64_encode cod client_public_key\<rparr>)"
    and body: "or_body request = Some body" "length body \<le> MAX_SESSION_REQUEST_BYTES"
    and challenge: "length challenge = HANDSHAKE_CHALLENGE_BYTES"
    and key: "length client_public_key = X25519_PUBLIC_KEY_BYTES"
    and extra: "stack_headers extra body"
  shows "handshake_inputs cod http read_create (received_request extra request) = Inr (challenge, client_public_key)"
proof -
  let ?request = "received_request extra request"
  from request body have outer: "request = \<lparr>or_headers = [(''content-type'', ''application/json''),
        (SDK_ROUTING_KEY_HEADER, b64_encode cod challenge)], or_query = None, or_body = Some body\<rparr>"
    by (auto simp: session_outer_request_def Let_def split: option.splits)
  have headers: "get_all (or_headers ?request) ''content-type'' = [''application/json'']"
    "get_all (or_headers ?request) ''x-opensecret-routing-key'' = [b64_encode cod challenge]"
    "get_all (or_headers ?request) ''content-length'' = get_all extra ''content-length''"
    "list_all (\<lambda>name. get_all (or_headers ?request) name = [])
       [''authorization'', ''proxy-authorization'', ''cookie'', ''content-encoding'']"
    using extra
    by (simp_all add: outer received_request_def get_all_Cons stack_headers_def SDK_ROUTING_KEY_HEADER_def)
  have routing: "parse_outer_routing_key cod http (or_headers ?request) = Inr challenge"
    using decode_canonical_encode [OF challenge] to_str_b64 [of challenge]
    by (simp add: parse_outer_routing_key_def headers(2))
  have "length body < 2 ^ 64"
    using body(2) by (simp add: MAX_SESSION_REQUEST_BYTES_def)
  from parse_usize_show_nat [OF this] to_str_visible [OF show_nat_visible]
  have declared: "reject_declared_oversize http (or_headers ?request) MAX_SESSION_REQUEST_BYTES = Inr ()"
    using extra body(2) by (auto simp: reject_declared_oversize_def headers(3) stack_headers_def)
  have forbidden: "reject_forbidden_outer_headers (or_headers ?request) = Inr ()"
    using headers(4) by (simp add: reject_forbidden_outer_headers_def)
  have content: "require_content_type (or_headers ?request) ''application/json'' = Inr ()"
    by (simp add: require_content_type_def headers(1))
  have plain: "or_query ?request = None" "read_bounded_body (or_body ?request) MAX_SESSION_REQUEST_BYTES = Inr body"
    using body(2) by (simp_all add: outer received_request_def read_bounded_body_def)
  show ?thesis
    using read decode_canonical_encode [OF challenge] decode_canonical_encode [OF key]
    by (simp add: handshake_inputs_def content forbidden routing declared plain server_request_def
        limit_defs sdk_limit_defs)
qed

end

lemma sys_create_fresh:
  assumes "\<not> sto_poisoned (sy_store sys)"
    and "fmlookup (sto_sessions (sy_store sys)) (sec_session_id secrets) = None"
    and "map_len (sto_sessions (sy_store sys)) < sto_capacity (sy_store sys)"
    and "lifetime \<noteq> 0" and "instant_checked_add now lifetime = Some expires" and "now' < expires"
  shows "sys_create sys secrets routing_key lifetime replay_capacity now now' =
    (Inr (Inr ()), sys\<lparr>sy_heap := fmupd (sy_next sys) \<lparr>se_secrets = secrets, se_routing_key = routing_key,
         se_expires_at = expires, se_replay = registry_new replay_capacity\<rparr> (sy_heap sys), sy_next := Suc (sy_next sys),
       sy_store := (sy_store sys)\<lparr>sto_sessions :=
         fmupd (sec_session_id secrets) (sy_next sys) (sto_sessions (sy_store sys))\<rparr>\<rparr>)"
  using assms
  by (simp add: sys_create_def session_new_at_def Let_def insert_at_def heap_session_def session_id_of_def
      is_expired_def)

lemma create_session_succeeds:
  assumes inputs: "handshake_inputs cod http read_create request = Inr (challenge, client_public_key)"
    and secrets: "derive_server_session ops server_secret \<lparr>ht_challenge = challenge,
      ht_client_public_key = client_public_key, ht_server_public_key = cr_public ops server_secret\<rparr> = Inr secrets"
    and document: "attest (attestation_user_data client_public_key) (cr_public ops server_secret) challenge =
      Some document_bytes"
    and store: "\<not> sto_poisoned (sy_store sys)"
      "fmlookup (sto_sessions (sy_store sys)) (sec_session_id secrets) = None"
      "map_len (sto_sessions (sy_store sys)) < sto_capacity (sy_store sys)"
    and clock: "instant_checked_add now SESSION_LIFETIME = Some expires" "now' < expires"
  shows "\<exists>sys' s. create_session ops cod http read_create attest server_secret now now' request sys =
      (Inr \<lparr>cr_version = VERSION, cr_session_id = session_id_to_string cod (sec_session_id secrets),
         cr_attestation_document = b64_encode cod document_bytes, cr_expires_in_seconds = 3600\<rparr>, sys') \<and>
    fmlookup (sto_sessions (sy_store sys')) (sec_session_id secrets) = Some (sy_next sys) \<and>
    fmlookup (sy_heap sys') (sy_next sys) = Some s \<and> se_secrets s = secrets \<and> se_routing_key s = challenge \<and>
    se_expires_at s = expires \<and> ids_of s = {||}"
proof -
  have "SESSION_LIFETIME \<noteq> 0" "as_secs SESSION_LIFETIME = 3600"
    by (simp_all add: SESSION_LIFETIME_def) (simp add: from_secs_def nanos_per_sec_def)
  then show ?thesis
    using sys_create_fresh [OF store _ clock, where routing_key = challenge
        and replay_capacity = MAX_REPLAY_IDS_PER_SESSION]
    by (simp add: create_session_def inputs secrets document Let_def ids_of_def registry_new_def)
qed

section \<open>The client's side\<close>

lemma read_bounded_whole:
  "length body + length (concat pieces) \<le> limit \<Longrightarrow> limit < 2 ^ 64 \<Longrightarrow>
     read_bounded_response limit body (map Some pieces) = Inr (body @ concat pieces)"
  by (induction pieces arbitrary: body) auto

lemma session_response_carried:
  assumes "wire_formats cod js http" and "carries_session write_response (Inr p) reply"
    and "read_response (write_response p) = Some (client_response p)"
    and "length (write_response p) \<le> SDK_MAX_SESSION_RESPONSE_BYTES"
    and "cr_version p = VERSION" and "cr_expires_in_seconds p = 3600"
  shows "session_response http read_response reply = Inr (client_response p)"
proof -
  from assms(2) obtain pieces where reply: "rp_status reply = 200"
      "get_all (rp_headers reply) ''content-type'' = [''application/json'']"
      "concat pieces = write_response p" "rp_pieces reply = map Some pieces"
    by (auto simp: carries_session_def)
  have "http_to_str http ''application/json'' = Some ''application/json''"
    by (rule wire_formats.to_str_visible [OF assms(1)]) simp
  then have "exact_content_type http (rp_headers reply) = Some ''application/json''"
    by (simp add: reply exact_content_type_def exact_header_def)
  moreover have "read_bounded_response SDK_MAX_SESSION_RESPONSE_BYTES [] (rp_pieces reply) = Inr (write_response p)"
    using read_bounded_whole [of "[]" pieces SDK_MAX_SESSION_RESPONSE_BYTES] assms(4)
    by (simp add: reply SDK_MAX_SESSION_RESPONSE_BYTES_def)
  ultimately show ?thesis
    using assms(3,5,6)
    by (simp add: session_response_def reply(1) client_response_def limit_defs sdk_limit_defs
        EXPECTED_SESSION_LIFETIME_SECONDS_def)
qed

lemma sdk_session_id_parse:
  assumes "text_codec cod" and "length sid = SESSION_ID_BYTES"
  shows "sdk_session_id_from_str cod (session_id_to_string cod sid) = Inr sid"
  using text_codec.hx_encode_lower [OF assms(1), of sid] text_codec.hx_encode_length [OF assms(1), of sid] assms(2)
  by (simp add: sdk_session_id_from_str_def session_id_to_string_def text_codec.hx_decode_encode [OF assms(1)]
      SDK_SESSION_ID_BYTES_def size_defs del: sdk_labels)

lemma establish_session_succeeds:
  assumes "session_outer_request cod write_request challenge (cr_public ops client_secret) = Some request"
    and "network request = Some reply" and "session_response http read_response reply = Inr response"
    and "attested_session_document att cod read_entries history_network history_client client now_ms
      challenge (sp_attestation_document response) = Inr document"
    and "validate_attested_transcript document challenge (cr_public ops client_secret) = Inr server_public_key"
    and "sdk_derive_client_session ops client_secret (sdk_transcript_of \<lparr>ht_challenge = challenge,
      ht_client_public_key = cr_public ops client_secret, ht_server_public_key = server_public_key\<rparr>) = Inr secrets"
    and "sdk_session_id_from_str cod (sp_session_id response) = Inr (ss_session_id secrets)"
  shows "establish_session ops att cod http write_request read_response read_entries history_network
      history_client network client started_at (Some challenge) client_secret now_ms =
    Inr \<lparr>ts_secrets = secrets, ts_routing_key = challenge, ts_expires_at = started_at + from_secs 3570\<rparr>"
  using assms
  by (simp add: establish_session_def fresh_challenge_def sdk_transcript_of_def Let_def)
     (simp add: EXPECTED_SESSION_LIFETIME_SECONDS_def SESSION_EXPIRY_SKEW_def from_secs_def nanos_per_sec_def)

section \<open>Properties\<close>

text \<open>The gateway's half: it accepts the client's request, stores a fresh session and answers with its identifier.\<close>

lemma gateway_stores_session:
  assumes "crypto_primitives ops" and "wire_formats cod js http"
    and "\<forall>q. length (sq_challenge q) = 44 \<longrightarrow> length (sq_client_public_key q) = 44 \<longrightarrow>
      (\<exists>b. write_request q = Some b \<and> length b \<le> MAX_SESSION_REQUEST_BYTES \<and>
         read_create b = Some (server_request q))"
    and "length challenge = HANDSHAKE_CHALLENGE_BYTES"
    and "attest (attestation_user_data (cr_public ops client_secret)) (cr_public ops server_secret) challenge =
      Some document_bytes"
    and "\<not> sto_poisoned (sy_store sys)"
    and "map_len (sto_sessions (sy_store sys)) < sto_capacity (sy_store sys)"
    and "derive_server_session ops server_secret \<lparr>ht_challenge = challenge,
        ht_client_public_key = cr_public ops client_secret, ht_server_public_key = cr_public ops server_secret\<rparr> =
        Inr secrets"
    and "fmlookup (sto_sessions (sy_store sys)) (sec_session_id secrets) = None"
    and "instant_checked_add now SESSION_LIFETIME = Some expires" and "now' < expires"
    and "session_outer_request cod write_request challenge (cr_public ops client_secret) = Some request"
    and "\<forall>body. or_body request = Some body \<longrightarrow> stack_headers extra body"
  obtains sys' s where "create_session ops cod http read_create attest server_secret now now'
      (received_request extra request) sys =
      (Inr \<lparr>cr_version = VERSION, cr_session_id = session_id_to_string cod (sec_session_id secrets),
         cr_attestation_document = b64_encode cod document_bytes, cr_expires_in_seconds = 3600\<rparr>, sys')"
    and "fmlookup (sto_sessions (sy_store sys')) (sec_session_id secrets) = Some (sy_next sys)"
    and "fmlookup (sy_heap sys') (sy_next sys) = Some s" and "se_secrets s = secrets"
    and "se_routing_key s = challenge" and "se_expires_at s = expires" and "ids_of s = {||}"
proof -
  let ?pk = "cr_public ops client_secret"
  let ?q = "\<lparr>sq_version = SDK_VERSION, sq_challenge = b64_encode cod challenge,
    sq_client_public_key = b64_encode cod ?pk\<rparr>"
  have pk: "length ?pk = X25519_PUBLIC_KEY_BYTES"
    using crypto_primitives.public_length [OF assms(1)] by (simp add: size_defs)
  have lengths: "length (b64_encode cod challenge) = 44" "length (b64_encode cod ?pk) = 44"
    using assms(4) pk text_codec.b64_encode_length [OF wire_formats.axioms(1) [OF assms(2)]]
    by (simp_all add: size_defs)
  from assms(12) obtain body where body: "write_request ?q = Some body" "or_body request = Some body"
    by (auto simp: session_outer_request_def Let_def split: option.splits)
  with assms(3) [rule_format, of ?q] lengths have read: "length body \<le> MAX_SESSION_REQUEST_BYTES"
      "read_create body = Some (server_request ?q)" by auto
  have "handshake_inputs cod http read_create (received_request extra request) = Inr (challenge, ?pk)"
    using wire_formats.handshake_inputs_accept [where read_create = read_create,
        OF assms(2,12) read(2) body(2) read(1) assms(4) pk] assms(13) body(2)
    by blast
  from create_session_succeeds [where attest = attest, OF this assms(8,5,6,9,7,10,11)] show ?thesis
    using that by blast
qed

text \<open>
  C5: a handshake leaves both parties with the same session. Let the JSON forms of the two messages read
  back as written and fit their limits, let the enclave attest the key and the challenge it is given in a
  document that the client's verifier and policy accept, let the key exchange be contributory, and let the
  gateway's store have room and not hold the new identifier. Then the gateway accepts the client's request
  with whatever harmless headers the HTTP stacks add, the client accepts the gateway's answer in whatever
  pieces it arrives, and the client's keys, identifier and routing key are those of the session which the
  gateway has stored under the identifier, with an empty replay set; and the client gives the session up
  thirty seconds before the gateway does.
\<close>

theorem handshake_completes:
  assumes "crypto_primitives ops" and "wire_formats cod js http"
    and "\<forall>q. length (sq_challenge q) = 44 \<longrightarrow> length (sq_client_public_key q) = 44 \<longrightarrow>
      (\<exists>b. write_request q = Some b \<and> length b \<le> MAX_SESSION_REQUEST_BYTES \<and>
         read_create b = Some (server_request q))"
    and "\<forall>p. read_response (write_response p) = Some (client_response p)"
    and "\<forall>p. length (cr_attestation_document p) \<le> 60000 \<longrightarrow> length (cr_session_id p) = 32 \<longrightarrow>
      cr_expires_in_seconds p = 3600 \<longrightarrow> length (write_response p) \<le> SDK_MAX_SESSION_RESPONSE_BYTES"
    and "length challenge = HANDSHAKE_CHALLENGE_BYTES"
    and "attest (attestation_user_data (cr_public ops client_secret)) (cr_public ops server_secret) challenge =
      Some document_bytes"
    and "length (b64_encode cod document_bytes) \<le> 60000"
    and "attested_session_document att cod read_entries history_network history_client client now_ms
      challenge (b64_encode cod document_bytes) = Inr document"
    and "ad_nonce document = Some challenge"
    and "ad_user_data document = Some (attestation_user_data (cr_public ops client_secret))"
    and "ad_public_key document = Some (cr_public ops server_secret)"
    and "cr_dh ops server_secret (cr_public ops client_secret) \<noteq> replicate 32 0"
    and "\<not> sto_poisoned (sy_store sys)"
    and "map_len (sto_sessions (sy_store sys)) < sto_capacity (sy_store sys)"
    and "\<forall>secrets. derive_server_session ops server_secret \<lparr>ht_challenge = challenge,
        ht_client_public_key = cr_public ops client_secret, ht_server_public_key = cr_public ops server_secret\<rparr> =
        Inr secrets \<longrightarrow> fmlookup (sto_sessions (sy_store sys)) (sec_session_id secrets) = None"
    and "instant_checked_add now SESSION_LIFETIME = Some expires" and "now' < expires"
    and "session_outer_request cod write_request challenge (cr_public ops client_secret) = Some request"
    and "\<forall>body. or_body request = Some body \<longrightarrow> stack_headers extra body"
    and "network request = Some reply"
    and "carries_session write_response (fst (create_session ops cod http read_create attest server_secret
      now now' (received_request extra request) sys)) reply"
  shows "\<exists>session s. establish_session ops att cod http write_request read_response read_entries
      history_network history_client network client started_at (Some challenge) client_secret now_ms =
      Inr session \<and>
    (let sys' = snd (create_session ops cod http read_create attest server_secret now now'
        (received_request extra request) sys) in
     fmlookup (sto_sessions (sy_store sys')) (session_id_of s) = Some (sy_next sys) \<and>
     fmlookup (sy_heap sys') (sy_next sys) = Some s) \<and>
    secrets_ok (se_secrets s) \<and> ids_of s = {||} \<and> se_routing_key s = challenge \<and>
    ts_secrets session = sdk_view (se_secrets s) \<and> ts_routing_key session = se_routing_key s \<and>
    ts_expires_at session - started_at + from_secs 30 = se_expires_at s - now"
proof -
  let ?pk = "cr_public ops client_secret" and ?spk = "cr_public ops server_secret"
  let ?t = "\<lparr>ht_challenge = challenge, ht_client_public_key = ?pk, ht_server_public_key = ?spk\<rparr>"
  have codec: "text_codec cod"
    using assms(2) by (rule wire_formats.axioms(1))
  from derivations_agree [OF assms(1), of ?t client_secret server_secret] assms(13) obtain secrets
    where secrets: "derive_server_session ops server_secret ?t = Inr secrets" "secrets_ok secrets"
      "sdk_derive_client_session ops client_secret (sdk_transcript_of ?t) = Inr (sdk_view secrets)"
    by auto
  have fresh: "fmlookup (sto_sessions (sy_store sys)) (sec_session_id secrets) = None"
    using assms(16) secrets(1) by blast
  let ?p = "\<lparr>cr_version = VERSION, cr_session_id = session_id_to_string cod (sec_session_id secrets),
    cr_attestation_document = b64_encode cod document_bytes, cr_expires_in_seconds = 3600\<rparr>"
  from gateway_stores_session [where attest = attest and write_request = write_request and read_create = read_create,
      OF assms(1-3,6,7,14,15) secrets(1) fresh assms(17-20)]
  obtain sys' s where created: "create_session ops cod http read_create attest server_secret now now'
        (received_request extra request) sys = (Inr ?p, sys')"
      "fmlookup (sto_sessions (sy_store sys')) (sec_session_id secrets) = Some (sy_next sys)"
      "fmlookup (sy_heap sys') (sy_next sys) = Some s" "se_secrets s = secrets" "se_routing_key s = challenge"
      "se_expires_at s = expires" "ids_of s = {||}" by blast
  have sid: "length (sec_session_id secrets) = SESSION_ID_BYTES"
    using secrets(2) by (simp add: secrets_ok_def size_defs)
  have "length (session_id_to_string cod (sec_session_id secrets)) = 32"
    using text_codec.hx_encode_length [OF codec] sid by (simp add: session_id_to_string_def size_defs)
  then have "length (write_response ?p) \<le> SDK_MAX_SESSION_RESPONSE_BYTES"
    using assms(5,8) by simp
  then have response: "session_response http read_response reply = Inr (client_response ?p)"
    using session_response_carried [of cod js http write_response ?p reply read_response] assms(2,4,22) created(1)
    by simp
  have transcript: "validate_attested_transcript document challenge ?pk = Inr ?spk"
    using assms(10-12) crypto_primitives.public_length [OF assms(1)] by (simp add: validate_attested_transcript_iff)
  have expires: "expires = now + from_secs 3600"
    using assms(17) by (simp add: instant_checked_add_def SESSION_LIFETIME_def split: if_splits)
  have "establish_session ops att cod http write_request read_response read_entries
      history_network history_client network client started_at (Some challenge) client_secret now_ms =
      Inr \<lparr>ts_secrets = sdk_view secrets, ts_routing_key = challenge, ts_expires_at = started_at + from_secs 3570\<rparr>"
    using assms(9) sdk_session_id_parse [OF codec sid]
    by (intro establish_session_succeeds [where network = network, OF assms(19,21) response _ transcript secrets(3)])
       (simp_all add: client_response_def sdk_view_def)
  then show ?thesis
    using created secrets(2) expires
    by (intro exI [of _ "\<lparr>ts_secrets = sdk_view secrets, ts_routing_key = challenge,
        ts_expires_at = started_at + from_secs 3570\<rparr>"] exI [of _ s])
       (simp add: session_id_of_def from_secs_def nanos_per_sec_def)
qed

text \<open>
  A concrete handshake, between the client and the enclave of the attestation example, with message formats
  that write texts character by character.
\<close>

definition ref_write_request :: "sdk_session_request \<Rightarrow> bytes option" where
  "ref_write_request q = Some (sq_version q # put_str (sq_challenge q) @ put_str (sq_client_public_key q))"

definition ref_read_create :: "bytes \<Rightarrow> create_session_request option" where
  "ref_read_create b =
     (case b of
        [] \<Rightarrow> None
      | v # rest \<Rightarrow> Option.bind (get_str rest) (\<lambda>(challenge, rest).
          Option.bind (get_str rest) (\<lambda>(key, _).
            Some \<lparr>cs_version = v, cs_challenge = challenge, cs_client_public_key = key\<rparr>)))"

definition ref_write_response :: "create_session_response \<Rightarrow> bytes" where
  "ref_write_response p = cr_version p # put_str (cr_session_id p) @ put_str (show_nat (cr_expires_in_seconds p)) @
     map char_byte (cr_attestation_document p)"

definition ref_read_response :: "bytes \<Rightarrow> sdk_session_response option" where
  "ref_read_response b =
     (case b of
        [] \<Rightarrow> None
      | v # rest \<Rightarrow> Option.bind (get_str rest) (\<lambda>(sid, rest).
          Option.bind (get_str rest) (\<lambda>(expires, document).
            Some \<lparr>sp_version = v, sp_session_id = sid, sp_attestation_document = map byte_char document,
              sp_expires_in_seconds = decimal_value expires\<rparr>)))"

lemma ref_request_read: "ref_read_create (the (ref_write_request q)) = Some (server_request q)"
proof -
  have "get_str (put_str s) = Some (s, [])" for s
    using get_put_str [of s "[]"] by simp
  then show ?thesis
    by (simp add: ref_read_create_def ref_write_request_def server_request_def)
qed

lemma ref_response_read: "ref_read_response (ref_write_response p) = Some (client_response p)"
  by (simp add: ref_read_response_def ref_write_response_def client_response_def decimal_value_show_nat o_def)

lemma some_session_reply: "\<exists>reply. carries_session ref_write_response outcome reply"
proof (cases outcome)
  case (Inl e)
  then show ?thesis
    by (intro exI [of _ "\<lparr>rp_status = fst (outer_response e), rp_headers = [], rp_pieces = []\<rparr>"])
       (simp add: carries_session_def)
next
  case (Inr p)
  then show ?thesis
    by (intro exI [of _ "\<lparr>rp_status = 200, rp_headers = [(''content-type'', ''application/json'')],
          rp_pieces = map Some [ref_write_response p]\<rparr>"])
       (auto simp: carries_session_def get_all_def intro!: exI [of _ "[ref_write_response p]"])
qed

theorem handshake_completes_witness:
  "\<exists>request reply session s.
     session_outer_request ref_codec ref_write_request (replicate 32 5) (cr_public ref_ops 3) = Some request \<and>
     carries_session ref_write_response (fst (create_session ref_ops ref_codec ref_http ref_read_create
       (\<lambda>_ _ _. Some [9]) 2 100 200 (received_request [] request) (system_new 4 9))) reply \<and>
     establish_session ref_ops ref_attest ref_codec ref_http ref_write_request ref_read_response (\<lambda>_. None)
       (\<lambda>_. HistoryTimeout) True (\<lambda>_. Some reply) ref_client 1000 (Some (replicate 32 5)) 3 150000 = Inr session \<and>
     fmlookup (sy_heap (snd (create_session ref_ops ref_codec ref_http ref_read_create
       (\<lambda>_ _ _. Some [9]) 2 100 200 (received_request [] request) (system_new 4 9)))) 0 = Some s \<and>
     ts_secrets session = sdk_view (se_secrets s)"
proof -
  obtain request where request: "session_outer_request ref_codec ref_write_request (replicate 32 5)
      (cr_public ref_ops 3) = Some request"
    by (simp add: session_outer_request_def ref_write_request_def Let_def)
  obtain reply where reply: "carries_session ref_write_response (fst (create_session ref_ops ref_codec ref_http
      ref_read_create (\<lambda>_ _ _. Some [9]) 2 100 200 (received_request [] request) (system_new 4 9))) reply"
    using some_session_reply by blast
  have writes: "\<forall>q. length (sq_challenge q) = 44 \<longrightarrow> length (sq_client_public_key q) = 44 \<longrightarrow>
      (\<exists>b. ref_write_request q = Some b \<and> length b \<le> MAX_SESSION_REQUEST_BYTES \<and>
         ref_read_create b = Some (server_request q))"
    using ref_request_read by (simp add: ref_write_request_def length_put_str MAX_SESSION_REQUEST_BYTES_def)
  have fits: "\<forall>p. length (cr_attestation_document p) \<le> 60000 \<longrightarrow> length (cr_session_id p) = 32 \<longrightarrow>
      cr_expires_in_seconds p = 3600 \<longrightarrow> length (ref_write_response p) \<le> SDK_MAX_SESSION_RESPONSE_BYTES"
    by (simp add: ref_write_response_def length_put_str SDK_MAX_SESSION_RESPONSE_BYTES_def
        show_nat.simps [of 3600] show_nat.simps [of 360] show_nat.simps [of 36] show_nat.simps [of 3])
  have doc: "ad_nonce ref_document = Some (replicate 32 5)"
      "ad_user_data ref_document = Some (attestation_user_data (cr_public ref_ops 3))"
      "ad_public_key ref_document = Some (cr_public ref_ops 2)"
    by (simp_all add: ref_document_def)
  have clock: "instant_checked_add 100 SESSION_LIFETIME = Some (100 + SESSION_LIFETIME)" "200 < 100 + SESSION_LIFETIME"
    by (simp_all add: instant_checked_add_def SESSION_LIFETIME_def from_secs_def nanos_per_sec_def instant_bound_def)
  have size: "length (b64_encode ref_codec [9]) \<le> 60000"
    by (simp add: ref_codec_def)
  from handshake_completes [where attest = "\<lambda>_ _ _. Some [9]" and network = "\<lambda>_. Some reply" and extra = "[]"
      and read_response = ref_read_response and write_response = ref_write_response,
      OF ref_crypto.crypto_primitives_axioms ref_wire.wire_formats_axioms writes _ fits _ _ size
        ref_session_document doc ref_shared_secret _ _ _ clock request _ _ reply, of 1000]
  show ?thesis
    using request reply ref_response_read
    by (auto simp: size_defs system_new_def store_new_def stack_headers_def get_all_def Let_def)
qed

end
