(* ===== verification/Pi_Types.thy ===== *)
theory Pi_Types
  imports Maple_Prelude
begin

text \<open>
  The vocabulary of the coding agent, \<open>apps/maple-agent/crates/pi-ai/src/types.rs\<close>: message content, usage,
  stop reasons, thinking levels, tools, and the messages a model can read. Times are milliseconds; prices
  are floating-point numbers and are left out. A Rust \<open>str\<close> is a list of characters, so that
  \<open>chars().count()\<close> is its length. Unsigned sums are \<^typ>\<open>u64\<close> sums, which wrap as in a release build.
\<close>

section \<open>Strings and JSON values\<close>

text \<open>\<open>[str]::join\<close>.\<close>

fun join_with :: "string \<Rightarrow> string list \<Rightarrow> string" where
  "join_with sep [] = []"
| "join_with sep [s] = s"
| "join_with sep (s # ss) = s @ sep @ join_with sep ss"

text \<open>\<open>serde_json::Value\<close>; a number is its literal.\<close>

datatype json =
    JNull
  | JBool bool
  | JNumber string
  | JString string
  | JArray "json list"
  | JObject "(string \<times> json) list"

definition as_str :: "json \<Rightarrow> string option" where
  "as_str v = (case v of JString s \<Rightarrow> Some s | _ \<Rightarrow> None)"

definition as_array :: "json \<Rightarrow> json list option" where
  "as_array v = (case v of JArray vs \<Rightarrow> Some vs | _ \<Rightarrow> None)"

text \<open>\<open>value[key]\<close>: the member of an object, and \<open>Null\<close> for anything else.\<close>

definition json_index :: "json \<Rightarrow> string \<Rightarrow> json" where
  "json_index v key =
     (case v of
        JObject members \<Rightarrow> (case map_of members key of Some m \<Rightarrow> m | None \<Rightarrow> JNull)
      | _ \<Rightarrow> JNull)"

type_synonym timestamp = int

section \<open>Content\<close>

record text_content =
  tx_text :: string
  tx_signature :: "string option"

record image_content =
  im_data :: string
  im_mime_type :: string

record thinking_content =
  th_thinking :: string
  th_signature :: "string option"
  th_redacted :: bool

record tool_call =
  tl_id :: string
  tl_name :: string
  tl_arguments :: "(string \<times> json) list"
  tl_arguments_error :: "string option"
  tl_partial_json :: "string option"

datatype content = ContentText text_content | ContentImage image_content

definition content_of_text :: "string \<Rightarrow> content" where
  "content_of_text s = ContentText \<lparr>tx_text = s, tx_signature = None\<rparr>"

definition as_text :: "content \<Rightarrow> string option" where
  "as_text c = (case c of ContentText t \<Rightarrow> Some (tx_text t) | ContentImage _ \<Rightarrow> None)"

definition content_text :: "content list \<Rightarrow> string" where
  "content_text cs = join_with [CHR 0x0A] (List.map_filter as_text cs)"

datatype assistant_content =
    AssistantText text_content
  | AssistantThinking thinking_content
  | AssistantToolCall tool_call

definition assistant_of_text :: "string \<Rightarrow> assistant_content" where
  "assistant_of_text s = AssistantText \<lparr>tx_text = s, tx_signature = None\<rparr>"

section \<open>Usage\<close>

record usage =
  us_input :: u64
  us_output :: u64
  us_cache_read :: u64
  us_cache_write :: u64
  us_reasoning :: "u64 option"
  us_total_tokens :: u64

definition default_usage :: usage where
  "default_usage = \<lparr>us_input = 0, us_output = 0, us_cache_read = 0, us_cache_write = 0,
     us_reasoning = None, us_total_tokens = 0\<rparr>"

definition context_tokens :: "usage \<Rightarrow> u64" where
  "context_tokens u =
     (if us_total_tokens u > 0 then us_total_tokens u
      else us_input u + us_output u + us_cache_read u + us_cache_write u)"

definition usage_add :: "usage \<Rightarrow> usage \<Rightarrow> usage" where
  "usage_add a b =
     \<lparr>us_input = us_input a + us_input b, us_output = us_output a + us_output b,
      us_cache_read = us_cache_read a + us_cache_read b,
      us_cache_write = us_cache_write a + us_cache_write b,
      us_reasoning =
        (case (us_reasoning a, us_reasoning b) of
           (None, None) \<Rightarrow> None
         | (l, r) \<Rightarrow> Some (case_option 0 id l + case_option 0 id r)),
      us_total_tokens = us_total_tokens a + us_total_tokens b\<rparr>"

datatype stop_reason = StopStop | StopLength | StopToolUse | StopError | StopAborted

section \<open>Thinking levels\<close>

datatype thinking_level =
    ThinkOff | ThinkMinimal | ThinkLow | ThinkMedium | ThinkHigh | ThinkXhigh | ThinkMax

definition ALL_LEVELS :: "thinking_level list" where
  "ALL_LEVELS = [ThinkOff, ThinkMinimal, ThinkLow, ThinkMedium, ThinkHigh, ThinkXhigh, ThinkMax]"

text \<open>The derived \<open>Ord\<close>: the position of the variant.\<close>

fun level_index :: "thinking_level \<Rightarrow> nat" where
  "level_index ThinkOff = 0"
| "level_index ThinkMinimal = 1"
| "level_index ThinkLow = 2"
| "level_index ThinkMedium = 3"
| "level_index ThinkHigh = 4"
| "level_index ThinkXhigh = 5"
| "level_index ThinkMax = 6"

fun level_as_str :: "thinking_level \<Rightarrow> string" where
  "level_as_str ThinkOff = ''off''"
| "level_as_str ThinkMinimal = ''minimal''"
| "level_as_str ThinkLow = ''low''"
| "level_as_str ThinkMedium = ''medium''"
| "level_as_str ThinkHigh = ''high''"
| "level_as_str ThinkXhigh = ''xhigh''"
| "level_as_str ThinkMax = ''max''"

definition level_parse :: "string \<Rightarrow> thinking_level option" where
  "level_parse s = find (\<lambda>level. level_as_str level = s) ALL_LEVELS"

section \<open>Tools and messages\<close>

datatype strict_sampling = Prefer | Require

datatype constrained_sampling = JsonSchema strict_sampling

record tool =
  to_name :: string
  to_description :: string
  to_parameters :: json
  to_constrained_sampling :: "constrained_sampling option"

record tool_reference =
  tr_name :: string

text \<open>An \<open>IndexMap\<close> is the list of its entries in order, with distinct keys.\<close>

type_synonym 'v index_map = "(string \<times> 'v) list"

record system_message =
  sm_content :: string
  sm_sections :: "string option index_map"
  sm_tools_added :: "tool list"
  sm_tools_removed :: "tool_reference list"
  sm_timestamp :: timestamp

record user_message =
  um_content :: "content list"
  um_timestamp :: timestamp

record assistant_message =
  am_content :: "assistant_content list"
  am_api :: string
  am_provider :: string
  am_model :: string
  am_response_id :: "string option"
  am_thinking_level :: "thinking_level option"
  am_usage :: usage
  am_stop_reason :: stop_reason
  am_error_message :: "string option"
  am_timestamp :: timestamp

definition assistant_text :: "assistant_message \<Rightarrow> string" where
  "assistant_text m =
     join_with [CHR 0x0A]
       (List.map_filter (\<lambda>b. case b of AssistantText t \<Rightarrow> Some (tx_text t) | _ \<Rightarrow> None) (am_content m))"

definition tool_calls :: "assistant_message \<Rightarrow> tool_call list" where
  "tool_calls m =
     List.map_filter (\<lambda>b. case b of AssistantToolCall c \<Rightarrow> Some c | _ \<Rightarrow> None) (am_content m)"

definition is_failure :: "assistant_message \<Rightarrow> bool" where
  "is_failure m \<longleftrightarrow> am_stop_reason m \<in> {StopError, StopAborted}"

record tool_result_message =
  tm_tool_call_id :: string
  tm_tool_name :: string
  tm_content :: "content list"
  tm_details :: "json option"
  tm_usage :: "usage option"
  tm_is_error :: bool
  tm_timestamp :: timestamp

datatype message =
    MsgSystem system_message
  | MsgUser user_message
  | MsgAssistant assistant_message
  | MsgToolResult tool_result_message

fun message_timestamp :: "message \<Rightarrow> timestamp" where
  "message_timestamp (MsgSystem m) = sm_timestamp m"
| "message_timestamp (MsgUser m) = um_timestamp m"
| "message_timestamp (MsgAssistant m) = am_timestamp m"
| "message_timestamp (MsgToolResult m) = tm_timestamp m"

fun message_role :: "message \<Rightarrow> string" where
  "message_role (MsgSystem m) = ''system''"
| "message_role (MsgUser m) = ''user''"
| "message_role (MsgAssistant m) = ''assistant''"
| "message_role (MsgToolResult m) = ''toolResult''"

section \<open>Models\<close>

datatype input_modality = TextInput | ImageInput

text \<open>The fields of a model that the agent's own decisions read.\<close>

record chat_model =
  md_id :: string
  md_provider :: string
  md_reasoning :: bool
  md_input :: "input_modality list"
  md_context_window :: u64
  md_max_tokens :: u64
  md_thinking_levels :: "(thinking_level, string option) hash_map"

definition supports_images :: "chat_model \<Rightarrow> bool" where
  "supports_images m \<longleftrightarrow> ImageInput \<in> set (md_input m)"

definition thinking_levels :: "chat_model \<Rightarrow> thinking_level list" where
  "thinking_levels m =
     (if \<not> md_reasoning m then [ThinkOff]
      else filter (\<lambda>level.
        case fmlookup (md_thinking_levels m) level of
          Some v \<Rightarrow> v \<noteq> None
        | None \<Rightarrow> level \<notin> {ThinkXhigh, ThinkMax}) ALL_LEVELS)"

definition clamp_thinking_level :: "chat_model \<Rightarrow> thinking_level \<Rightarrow> thinking_level" where
  "clamp_thinking_level m level =
     (let available = thinking_levels m in
      if level \<in> set available then level
      else
        let above = find (\<lambda>c. level_index c > level_index level) available;
            below = find (\<lambda>c. level_index c < level_index level) (rev available)
        in case above of
             Some c \<Rightarrow> c
           | None \<Rightarrow> (case below of Some c \<Rightarrow> c | None \<Rightarrow> ThinkOff))"

definition provider_thinking_value :: "chat_model \<Rightarrow> thinking_level \<Rightarrow> string option" where
  "provider_thinking_value m level =
     (if \<not> md_reasoning m then None
      else
        let level = (if level = ThinkOff then ThinkOff else clamp_thinking_level m level) in
        case fmlookup (md_thinking_levels m) level of
          Some v \<Rightarrow> v
        | None \<Rightarrow> if level = ThinkOff then None else Some (level_as_str level))"

section \<open>Lemmas\<close>

lemma join_with_append:
  "xs \<noteq> [] \<Longrightarrow> ys \<noteq> [] \<Longrightarrow> join_with sep (xs @ ys) = join_with sep xs @ sep @ join_with sep ys"
proof (induction sep xs rule: join_with.induct)
  case (2 sep s)
  then show ?case by (cases ys) auto
qed auto

lemma level_parse_as_str [simp]: "level_parse (level_as_str level) = Some level"
  by (cases level) (simp_all add: level_parse_def ALL_LEVELS_def)

lemma set_ALL_LEVELS: "set ALL_LEVELS = UNIV"
proof -
  have "level \<in> set ALL_LEVELS" for level
    by (cases level) (simp_all add: ALL_LEVELS_def)
  then show ?thesis by auto
qed

text \<open>A model that reasons is asked for an accepted level whenever it accepts any.\<close>

lemma clamp_thinking_level_accepted:
  assumes "thinking_levels m \<noteq> []"
  shows "clamp_thinking_level m level \<in> set (thinking_levels m)"
proof (cases "level \<in> set (thinking_levels m)")
  case False
  obtain c where c: "c \<in> set (thinking_levels m)" using assms by (cases "thinking_levels m") auto
  have inj: "level_index a = level_index b \<Longrightarrow> a = b" for a b
    by (cases a; cases b) simp_all
  from c False inj [of c level] have "level_index c \<noteq> level_index level" by metis
  then have "find (\<lambda>c. level_index c > level_index level) (thinking_levels m) \<noteq> None \<or>
      find (\<lambda>c. level_index c < level_index level) (rev (thinking_levels m)) \<noteq> None"
    using c unfolding find_None_iff set_rev by (metis linorder_neqE_nat)
  then show ?thesis
    using False
    by (auto simp: clamp_thinking_level_def Let_def dest: find_Some_set split: option.splits)
qed (simp add: clamp_thinking_level_def)

end
