(* ===== verification/Pi_Transcript.thy ===== *)
theory Pi_Transcript
  imports Pi_Types
begin

text \<open>
  Prompt and tool state of a transcript, \<open>pi-ai/src/transcript.rs\<close>, and the agent's own messages with
  what a model reads of them, \<open>pi-coding-agent/src/messages.rs\<close>. System messages are deltas; replaying them
  gives the current prompt and tools. The main lemma is that a replayed prefix may be replaced by its result.
\<close>

section \<open>Insertion-ordered maps\<close>

text \<open>\<open>IndexMap::insert\<close> keeps the place of an existing key; \<open>shift_remove\<close> keeps the order of the others.\<close>

fun im_insert :: "string \<Rightarrow> 'v \<Rightarrow> 'v index_map \<Rightarrow> 'v index_map" where
  "im_insert k v [] = [(k, v)]"
| "im_insert k v ((k', v') # m) = (if k' = k then (k, v) # m else (k', v') # im_insert k v m)"

definition shift_remove :: "string \<Rightarrow> 'v index_map \<Rightarrow> 'v index_map" where
  "shift_remove k m = filter (\<lambda>(k', _). k' \<noteq> k) m"

section \<open>Replaying system messages\<close>

definition initial_system_message :: "string \<Rightarrow> tool list \<Rightarrow> system_message option" where
  "initial_system_message system_prompt tools =
     (if system_prompt = [] \<and> tools = [] then None
      else Some \<lparr>sm_content = system_prompt, sm_sections = [], sm_tools_added = tools,
                 sm_tools_removed = [], sm_timestamp = 0\<rparr>)"

definition system_messages :: "message list \<Rightarrow> system_message list" where
  "system_messages ms = List.map_filter (\<lambda>m. case m of MsgSystem s \<Rightarrow> Some s | _ \<Rightarrow> None) ms"

definition replay_tools :: "system_message \<Rightarrow> tool index_map \<Rightarrow> tool index_map" where
  "replay_tools system tools =
     fold (\<lambda>added. im_insert (to_name added) added) (sm_tools_added system)
       (fold (\<lambda>removed. shift_remove (tr_name removed)) (sm_tools_removed system) tools)"

definition current_tools :: "message list \<Rightarrow> tool list" where
  "current_tools ms = map snd (fold replay_tools (system_messages ms) [])"

definition replay_section ::
    "string \<times> string option \<Rightarrow> string option index_map \<Rightarrow> string option index_map" where
  "replay_section s sections =
     (case s of (name, v) \<Rightarrow>
        (case v of Some t \<Rightarrow> im_insert name (Some t) sections | None \<Rightarrow> shift_remove name sections))"

text \<open>The loop over the system messages: contents, sections, and the time of the first one.\<close>

definition replay_system ::
    "system_message \<Rightarrow> string list \<times> string option index_map \<times> timestamp option \<Rightarrow>
      string list \<times> string option index_map \<times> timestamp option" where
  "replay_system system acc =
     (case acc of (contents, sections, time) \<Rightarrow>
        ((if sm_content system \<noteq> [] then contents @ [sm_content system] else contents),
         fold replay_section (sm_sections system) sections,
         (case time of None \<Rightarrow> Some (sm_timestamp system) | Some t \<Rightarrow> Some t)))"

definition blank_line :: string where
  "blank_line = [CHR 0x0A, CHR 0x0A]"

definition current_system_message :: "message list \<Rightarrow> system_message option" where
  "current_system_message ms =
     (let (contents, sections, time) = fold replay_system (system_messages ms) ([], [], None);
          tools = current_tools ms in
      if time = None \<and> tools = [] then None
      else Some \<lparr>sm_content = join_with blank_line contents, sm_sections = sections, sm_tools_added = tools,
                 sm_tools_removed = [], sm_timestamp = (case time of Some t \<Rightarrow> t | None \<Rightarrow> 0)\<rparr>)"

definition system_message_text :: "system_message \<Rightarrow> string" where
  "system_message_text m =
     join_with blank_line
       ((if sm_content m \<noteq> [] then [sm_content m] else []) @
        filter (\<lambda>t. t \<noteq> []) (List.map_filter snd (sm_sections m)))"

definition current_system_prompt :: "message list \<Rightarrow> string" where
  "current_system_prompt ms =
     (case current_system_message ms of Some m \<Rightarrow> system_message_text m | None \<Rightarrow> [])"

definition render_system_message_update :: "system_message \<Rightarrow> string" where
  "render_system_message_update m =
     join_with blank_line
       ((if sm_content m \<noteq> [] then [sm_content m] else []) @
        map (\<lambda>(name, v).
          case v of
            Some t \<Rightarrow> ''Updated system prompt section '' @ [CHR 0x22] @ name @ [CHR 0x22] @ '':'' @ blank_line @ t
          | None \<Rightarrow> ''Removed system prompt section '' @ [CHR 0x22] @ name @ [CHR 0x22] @ ''.'')
          (sm_sections m))"

definition is_system :: "message \<Rightarrow> bool" where
  "is_system m = (case m of MsgSystem _ \<Rightarrow> True | _ \<Rightarrow> False)"

definition collapse_system_messages :: "message list \<Rightarrow> message list" where
  "collapse_system_messages ms =
     (case current_system_message ms of Some s \<Rightarrow> [MsgSystem s] | None \<Rightarrow> []) @
     filter (\<lambda>m. \<not> is_system m) ms"

text \<open>\<open>Context::new\<close>.\<close>

definition context_new :: "string \<Rightarrow> tool list \<Rightarrow> message list \<Rightarrow> message list" where
  "context_new system_prompt tools ms =
     (case initial_system_message system_prompt tools of Some s \<Rightarrow> [MsgSystem s] | None \<Rightarrow> []) @ ms"

record tool_changes =
  tg_added :: "tool list"
  tg_removed :: "tool_reference list"

definition find_tool :: "tool list \<Rightarrow> string \<Rightarrow> tool option" where
  "find_tool tools name = find (\<lambda>t. to_name t = name) tools"

definition tool_changes_between :: "tool list \<Rightarrow> tool list \<Rightarrow> tool_changes" where
  "tool_changes_between previous current =
     \<lparr>tg_added =
        filter (\<lambda>t. case find_tool previous (to_name t) of Some p \<Rightarrow> p \<noteq> t | None \<Rightarrow> True) current,
      tg_removed =
        map (\<lambda>t. \<lparr>tr_name = to_name t\<rparr>)
          (filter (\<lambda>t. case find_tool current (to_name t) of Some c \<Rightarrow> c \<noteq> t | None \<Rightarrow> True) previous)\<rparr>"

section \<open>Messages of a session\<close>

record custom_message =
  cm_custom_type :: string
  cm_content :: "content list"
  cm_display :: bool
  cm_details :: "json option"
  cm_timestamp :: timestamp

record bash_execution_message =
  be_command :: string
  be_output :: string
  be_exit_code :: "int option"
  be_cancelled :: bool
  be_truncated :: bool
  be_full_output_path :: "string option"
  be_timestamp :: timestamp
  be_exclude_from_context :: bool

record compaction_summary_message =
  cs_summary :: string
  cs_tokens_before :: u64
  cs_timestamp :: timestamp

record branch_summary_message =
  bs_summary :: string
  bs_from_id :: string
  bs_timestamp :: timestamp

datatype session_message =
    BashExecution bash_execution_message
  | CustomMsg custom_message
  | CompactionSummary compaction_summary_message
  | BranchSummaryMsg branch_summary_message
  | Llm message

definition as_message :: "session_message \<Rightarrow> message option" where
  "as_message m = (case m of Llm msg \<Rightarrow> Some msg | _ \<Rightarrow> None)"

definition show_int :: "int \<Rightarrow> string" where
  "show_int i = (if i < 0 then ''-'' @ show_nat (nat (- i)) else show_nat (nat i))"

definition newline :: string where
  "newline = [CHR 0x0A]"

definition bash_execution_to_text :: "bash_execution_message \<Rightarrow> string" where
  "bash_execution_to_text m =
     ''Ran '' @ [CHR 0x60] @ be_command m @ [CHR 0x60] @ newline @
     (if be_output m = [] then ''(no output)''
      else replicate 3 (CHR 0x60) @ newline @ be_output m @ newline @ replicate 3 (CHR 0x60)) @
     (if be_cancelled m then blank_line @ ''(command cancelled)''
      else case be_exit_code m of
        Some code \<Rightarrow> if code \<noteq> 0 then blank_line @ ''Command exited with code '' @ show_int code else []
      | None \<Rightarrow> []) @
     (case be_full_output_path m of
        Some path \<Rightarrow>
          if be_truncated m then blank_line @ ''[Output truncated. Full output: '' @ path @ '']'' else []
      | None \<Rightarrow> [])"

definition COMPACTION_SUMMARY_PREFIX :: string where
  "COMPACTION_SUMMARY_PREFIX =
     ''The conversation history before this point was compacted into the following summary:'' @ blank_line @
     ''<summary>'' @ newline"

definition COMPACTION_SUMMARY_SUFFIX :: string where
  "COMPACTION_SUMMARY_SUFFIX = newline @ ''</summary>''"

definition BRANCH_SUMMARY_PREFIX :: string where
  "BRANCH_SUMMARY_PREFIX =
     ''The following is a summary of a branch that this conversation came back from:'' @ blank_line @
     ''<summary>'' @ newline"

definition BRANCH_SUMMARY_SUFFIX :: string where
  "BRANCH_SUMMARY_SUFFIX = ''</summary>''"

fun session_message_timestamp :: "session_message \<Rightarrow> timestamp" where
  "session_message_timestamp (Llm m) = message_timestamp m"
| "session_message_timestamp (BashExecution m) = be_timestamp m"
| "session_message_timestamp (CustomMsg m) = cm_timestamp m"
| "session_message_timestamp (CompactionSummary m) = cs_timestamp m"
| "session_message_timestamp (BranchSummaryMsg m) = bs_timestamp m"

definition user_msg :: "content list \<Rightarrow> timestamp \<Rightarrow> message" where
  "user_msg cs t = MsgUser \<lparr>um_content = cs, um_timestamp = t\<rparr>"

fun to_llm :: "session_message \<Rightarrow> message" where
  "to_llm (Llm m) = m"
| "to_llm (BashExecution b) = user_msg [content_of_text (bash_execution_to_text b)] (be_timestamp b)"
| "to_llm (CustomMsg c) = user_msg (cm_content c) (cm_timestamp c)"
| "to_llm (CompactionSummary s) =
     user_msg [content_of_text (COMPACTION_SUMMARY_PREFIX @ cs_summary s @ COMPACTION_SUMMARY_SUFFIX)]
       (cs_timestamp s)"
| "to_llm (BranchSummaryMsg s) =
     user_msg [content_of_text (BRANCH_SUMMARY_PREFIX @ bs_summary s @ BRANCH_SUMMARY_SUFFIX)]
       (bs_timestamp s)"

definition excluded_from_context :: "session_message \<Rightarrow> bool" where
  "excluded_from_context m = (case m of BashExecution b \<Rightarrow> be_exclude_from_context b | _ \<Rightarrow> False)"

definition convert_to_llm :: "session_message list \<Rightarrow> message list" where
  "convert_to_llm ms = map to_llm (filter (\<lambda>m. \<not> excluded_from_context m) ms)"

section \<open>Lemmas on ordered maps\<close>

abbreviation keys :: "'v index_map \<Rightarrow> string list" where
  "keys m \<equiv> map fst m"

lemma keys_im_insert: "keys (im_insert k v m) = (if k \<in> set (keys m) then keys m else keys m @ [k])"
  by (induction m) (auto simp: rev_image_eqI)

lemma im_insert_fresh: "k \<notin> set (keys m) \<Longrightarrow> im_insert k v m = m @ [(k, v)]"
  by (induction m) auto

lemma map_of_im_insert: "map_of (im_insert k v m) = (map_of m)(k \<mapsto> v)"
  by (induction m) (auto simp: fun_eq_iff)

lemma map_of_shift_remove: "map_of (shift_remove k m) = (map_of m)(k := None)"
  by (induction m) (auto simp: shift_remove_def fun_eq_iff)

lemma distinct_shift_remove: "distinct (keys m) \<Longrightarrow> distinct (keys (shift_remove k m))"
  by (induction m) (auto simp: shift_remove_def)

lemma distinct_im_insert: "distinct (keys m) \<Longrightarrow> distinct (keys (im_insert k v m))"
  by (simp add: keys_im_insert)

lemma set_im_insert: "set (im_insert k v m) \<subseteq> insert (k, v) (set m)"
  by (induction m) (auto split: if_splits)

lemma fold_im_insert:
  "distinct (map f xs) \<Longrightarrow> set (map f xs) \<inter> set (keys m) = {} \<Longrightarrow>
     fold (\<lambda>x. im_insert (f x) (g x)) xs m = m @ map (\<lambda>x. (f x, g x)) xs"
  by (induction xs arbitrary: m) (auto simp: im_insert_fresh)

section \<open>Replaying a replayed prefix\<close>

lemma system_messages_simps [simp]:
  "system_messages [] = []"
  "system_messages (MsgSystem s # ms) = s # system_messages ms"
  "\<not> is_system m \<Longrightarrow> system_messages (m # ms) = system_messages ms"
  "system_messages (ms @ ms') = system_messages ms @ system_messages ms'"
  by (simp_all add: system_messages_def is_system_def List.map_filter_def split: message.splits)

lemma system_messages_filter [simp]: "system_messages (filter (\<lambda>m. \<not> is_system m) ms) = []"
  by (induction ms) auto

text \<open>The tools carry their own names, once each.\<close>

definition tools_ok :: "tool index_map \<Rightarrow> bool" where
  "tools_ok m \<longleftrightarrow> distinct (keys m) \<and> (\<forall>(k, t) \<in> set m. k = to_name t)"

lemma tools_ok_insert: "tools_ok m \<Longrightarrow> tools_ok (im_insert (to_name t) t m)"
  using set_im_insert [of "to_name t" t m] by (fastforce simp: tools_ok_def distinct_im_insert)

lemma tools_ok_remove: "tools_ok m \<Longrightarrow> tools_ok (shift_remove k m)"
  using distinct_shift_remove [of m k] by (auto simp: tools_ok_def shift_remove_def)

lemma fold_invariant: "(\<And>x a. P a \<Longrightarrow> P (f x a)) \<Longrightarrow> P a \<Longrightarrow> P (fold f xs a)"
  by (induction xs arbitrary: a) auto

lemma tools_ok_replay: "tools_ok m \<Longrightarrow> tools_ok (replay_tools s m)"
  unfolding replay_tools_def
  by (intro fold_invariant [where P = tools_ok] tools_ok_insert tools_ok_remove)

lemma tools_ok_current: "tools_ok (fold replay_tools ss [])"
  by (rule fold_invariant [where P = tools_ok, OF tools_ok_replay]) (simp_all add: tools_ok_def)

lemma tools_ok_names: "tools_ok m \<Longrightarrow> m = map (\<lambda>t. (to_name t, t)) (map snd m)"
  by (induction m) (auto simp: tools_ok_def)

lemma tools_ok_keys: "tools_ok m \<Longrightarrow> map (to_name \<circ> snd) m = keys m"
  by (auto simp: tools_ok_def)

lemma tools_ok_reinsert: "tools_ok m \<Longrightarrow> fold (\<lambda>t. im_insert (to_name t) t) (map snd m) [] = m"
proof -
  assume m: "tools_ok m"
  then have "distinct (map to_name (map snd m))"
    unfolding map_map tools_ok_keys [OF m] by (simp add: tools_ok_def)
  from fold_im_insert [OF this, of "[]" "\<lambda>t. t"] tools_ok_names [OF m] show ?thesis
    by simp
qed

text \<open>Sections in force have a text, and their names are distinct.\<close>

definition sections_ok :: "string option index_map \<Rightarrow> bool" where
  "sections_ok m \<longleftrightarrow> distinct (keys m) \<and> (\<forall>(k, v) \<in> set m. v \<noteq> None)"

lemma sections_ok_replay: "sections_ok m \<Longrightarrow> sections_ok (replay_section s m)"
proof (cases s)
  case (Pair k v)
  assume "sections_ok m"
  then show ?thesis
    using set_im_insert [of k v m] distinct_shift_remove [of m k] Pair
    by (cases v) (auto simp: sections_ok_def replay_section_def distinct_im_insert shift_remove_def)
qed

lemma fold_replay_sections_ok: "sections_ok m \<Longrightarrow> fold replay_section m [] = m"
proof -
  have "sections_ok (acc @ m) \<Longrightarrow> fold replay_section m acc = acc @ m" for acc
  proof (induction m arbitrary: acc)
    case (Cons s m)
    obtain k v where s: "s = (k, v)" by force
    from Cons.prems s have "replay_section s acc = acc @ [s]"
      by (auto simp: sections_ok_def replay_section_def im_insert_fresh image_iff)
    with Cons.IH [of "acc @ [s]"] Cons.prems show ?case by simp
  qed simp
  from this [of "[]"] show "sections_ok m \<Longrightarrow> fold replay_section m [] = m" by simp
qed

lemma fold_replay_system:
  "fold replay_system ss (contents, sections, time) =
     (contents @ filter (\<lambda>c. c \<noteq> []) (map sm_content ss),
      fold (\<lambda>s. fold replay_section (sm_sections s)) ss sections,
      (case time of Some t \<Rightarrow> Some t | None \<Rightarrow> (case ss of [] \<Rightarrow> None | s # _ \<Rightarrow> Some (sm_timestamp s))))"
  by (induction ss arbitrary: contents sections time) (auto simp: replay_system_def split: option.splits list.splits)

lemma sections_ok_fold: "sections_ok (fold (\<lambda>s. fold replay_section (sm_sections s)) ss [])"
proof (rule fold_invariant [where P = sections_ok])
  show "sections_ok m \<Longrightarrow> sections_ok (fold replay_section (sm_sections s) m)" for s m
    by (rule fold_invariant [where P = sections_ok, OF sections_ok_replay])
  show "sections_ok []"
    by (simp add: sections_ok_def)
qed

definition replayed :: "system_message list \<Rightarrow> system_message" where
  "replayed ss =
     \<lparr>sm_content = join_with blank_line (filter (\<lambda>c. c \<noteq> []) (map sm_content ss)),
      sm_sections = fold (\<lambda>s. fold replay_section (sm_sections s)) ss [],
      sm_tools_added = map snd (fold replay_tools ss []), sm_tools_removed = [],
      sm_timestamp = (case ss of [] \<Rightarrow> 0 | s # _ \<Rightarrow> sm_timestamp s)\<rparr>"

lemma current_system_message_replayed:
  "current_system_message ms =
     (if system_messages ms = [] then None else Some (replayed (system_messages ms)))"
  by (simp add: current_system_message_def fold_replay_system current_tools_def replayed_def
      split: list.splits)

lemma join_with_nonempty: "list_all (\<lambda>c. c \<noteq> []) cs \<Longrightarrow> join_with sep cs = [] \<longleftrightarrow> cs = []"
  by (induction sep cs rule: join_with.induct) auto

lemma list_all_filter_self: "list_all P (filter P xs)"
  by (induction xs) auto

lemma replayed_content:
  "sm_content (replayed (replayed ss # rest)) = sm_content (replayed (ss @ rest))"
proof -
  let ?c = "filter (\<lambda>c. c \<noteq> []) (map sm_content ss)" and ?r = "filter (\<lambda>c. c \<noteq> []) (map sm_content rest)"
  have "join_with blank_line (filter (\<lambda>c. c \<noteq> []) [join_with blank_line ?c] @ ?r) = join_with blank_line (?c @ ?r)"
    using join_with_nonempty [of ?c blank_line] list_all_filter_self [of "\<lambda>c. c \<noteq> []" "map sm_content ss"]
      join_with_append [of ?c ?r blank_line] join_with_append [of "[join_with blank_line ?c]" ?r blank_line]
    by (cases "?c = []"; cases "?r = []") auto
  then show ?thesis
    by (auto simp: replayed_def split: if_splits)
qed

lemma replayed_sections:
  "sm_sections (replayed (replayed ss # rest)) = sm_sections (replayed (ss @ rest))"
  using fold_replay_sections_ok [OF sections_ok_fold, of ss] by (simp add: replayed_def)

lemma replayed_tools:
  "sm_tools_added (replayed (replayed ss # rest)) = sm_tools_added (replayed (ss @ rest))"
proof -
  have "replay_tools (replayed ss) [] = fold replay_tools ss []"
    by (simp add: replay_tools_def replayed_def tools_ok_reinsert [OF tools_ok_current])
  then have "fold replay_tools (replayed ss # rest) [] = fold replay_tools (ss @ rest) []"
    by simp
  then show ?thesis
    unfolding replayed_def [of "replayed ss # rest"] replayed_def [of "ss @ rest"] by simp
qed

lemma replayed_prefix: "ss \<noteq> [] \<Longrightarrow> replayed (replayed ss # rest) = replayed (ss @ rest)"
  by (rule system_message.equality [OF replayed_content replayed_sections replayed_tools])
     (auto simp: replayed_def split: list.splits)

text \<open>A replayed prefix may be replaced by its result: prompt, tools and time stay the same.\<close>

definition snapshot :: "message list \<Rightarrow> message list" where
  "snapshot ms = (case current_system_message ms of Some s \<Rightarrow> [MsgSystem s] | None \<Rightarrow> [])"

lemma current_system_message_snapshot:
  "current_system_message (snapshot ms @ rest) = current_system_message (ms @ rest)"
  by (simp add: snapshot_def current_system_message_replayed replayed_prefix)

lemma current_system_message_collapse:
  "current_system_message (collapse_system_messages ms) = current_system_message ms"
  using current_system_message_snapshot [of ms "filter (\<lambda>m. \<not> is_system m) ms"]
  by (simp add: collapse_system_messages_def snapshot_def current_system_message_replayed)

lemma convert_to_llm_append [simp]: "convert_to_llm (ms @ ms') = convert_to_llm ms @ convert_to_llm ms'"
  by (simp add: convert_to_llm_def)

end
