(* ===== verification/Pi_Session.thy ===== *)
theory Pi_Session
  imports Pi_Transcript "HOL-Library.List_Lexorder" "HOL-Library.Char_ord"
begin

text \<open>
  The session of the coding agent, \<open>pi-coding-agent/src/session.rs\<close> with the identifiers of \<open>ids.rs\<close>: an
  append-only tree of entries with a leaf, the projection of a branch into the model's context, and the
  bookkeeping that writes entries to a store. The store is a trait object and thus a parameter, a record of
  its operations over an abstract state; Pi_Store models the one that keeps a file. Random numbers and
  times are arguments; within a fork the clock is read once. \<open>None\<close> as the result of an operation is a call that
  does not return: following parents in a cycle, or never drawing a free identifier.
\<close>

section \<open>Identifiers\<close>

definition hex_char :: "nat \<Rightarrow> char" where
  "hex_char d = (if d < 10 then char_of (48 + d) else char_of (87 + d))"

text \<open>\<open>format!("{:0wx}")\<close> of a number that fits its width.\<close>

definition hex_fixed :: "nat \<Rightarrow> nat \<Rightarrow> string" where
  "hex_fixed w n = map (\<lambda>i. hex_char (n div 16 ^ i mod 16)) (rev [0..<w])"

text \<open>
  The loop draws until \<open>taken\<close> is false. The closure may fill the cache of a store, so its state is passed
  on; \<open>i\<close> counts the numbers drawn.
\<close>

partial_function (option) new_entry_id ::
    "(nat \<Rightarrow> u64) \<Rightarrow> ('s \<Rightarrow> string \<Rightarrow> bool \<times> 's) \<Rightarrow> nat \<Rightarrow> 's \<Rightarrow> (string \<times> nat \<times> 's) option" where
  "new_entry_id random taken i s =
     (let candidate = hex_fixed 8 (unat (ucast (random i) :: u32)) in
      case taken s candidate of
        (used, s') \<Rightarrow> if used then new_entry_id random taken (Suc i) s' else Some (candidate, Suc i, s'))"

definition new_session_id :: "timestamp \<Rightarrow> u64 \<Rightarrow> u64 \<Rightarrow> string" where
  "new_session_id now random random2 =
     (let millis = nat (now mod 2 ^ 48) in
      hex_fixed 8 (millis div 2 ^ 16) @ ''-'' @ hex_fixed 4 (millis mod 2 ^ 16) @ ''-7'' @
      hex_fixed 3 (unat random mod 2 ^ 12) @ ''-'' @
      hex_fixed 4 (2 ^ 15 + unat random div 2 ^ 12 mod 2 ^ 14) @ ''-'' @
      hex_fixed 12 (unat random2 mod 2 ^ 48))"

section \<open>Entries\<close>

definition SESSION_VERSION :: nat where
  "SESSION_VERSION = 1"

record session_header =
  sh_version :: nat
  sh_id :: string
  sh_timestamp :: timestamp
  sh_cwd :: string
  sh_parent_session :: "string option"

record session_base =
  sb_model :: "(string \<times> string) option"
  sb_thinking_level :: thinking_level
  sb_session_name :: "string option"
  sb_system_message :: "system_message option"

definition default_base :: session_base where
  "default_base = \<lparr>sb_model = None, sb_thinking_level = ThinkOff, sb_session_name = None, sb_system_message = None\<rparr>"

record compaction_entry =
  ce_summary :: string
  ce_first_kept_entry_id :: string
  ce_tokens_before :: u64
  ce_details :: "json option"
  ce_usage :: "usage option"
  ce_from_extension :: bool
  ce_system_message :: "system_message option"

record branch_summary_entry =
  bx_from_id :: string
  bx_summary :: string
  bx_details :: "json option"
  bx_usage :: "usage option"
  bx_from_extension :: bool

datatype entry_kind =
    MessageEntry session_message
  | ThinkingLevelChange thinking_level
  | ModelChange string string
  | Compaction compaction_entry
  | BranchSummary branch_summary_entry
  | Custom string "json option"
  | CustomMessage string "content list" bool "json option"
  | ContextEdit string "content list option"
  | Label string "string option"
  | SessionInfo "string option"

record session_entry =
  en_id :: string
  en_parent_id :: "string option"
  en_timestamp :: timestamp
  en_kind :: entry_kind

datatype io_error = IoNotFound | IoInvalidData | IoUnsupported | IoOther

datatype session_error = NotFound string | NotOnBranch string | NotEditable string | Io io_error

section \<open>Projection\<close>

record projected_entry =
  pe_entry_id :: string
  pe_is_compaction :: bool
  pe_messages :: "session_message list"

record session_projection =
  pj_entries :: "projected_entry list"
  pj_messages :: "session_message list"
  pj_thinking_level :: thinking_level
  pj_model :: "(string \<times> string) option"

definition entry_messages :: "session_entry \<Rightarrow> session_message list" where
  "entry_messages e =
     (case en_kind e of
        MessageEntry m \<Rightarrow> [m]
      | CustomMessage custom_type cs display details \<Rightarrow>
          [CustomMsg \<lparr>cm_custom_type = custom_type, cm_content = cs, cm_display = display,
                      cm_details = details, cm_timestamp = en_timestamp e\<rparr>]
      | BranchSummary b \<Rightarrow>
          if bx_summary b \<noteq> [] then
            [BranchSummaryMsg \<lparr>bs_summary = bx_summary b, bs_from_id = bx_from_id b, bs_timestamp = en_timestamp e\<rparr>]
          else []
      | Compaction c \<Rightarrow>
          (case ce_system_message c of Some s \<Rightarrow> [Llm (MsgSystem s)] | None \<Rightarrow> []) @
          [CompactionSummary \<lparr>cs_summary = ce_summary c, cs_tokens_before = ce_tokens_before c,
                              cs_timestamp = en_timestamp e\<rparr>]
      | _ \<Rightarrow> [])"

definition apply_edit :: "content list \<Rightarrow> session_message \<Rightarrow> session_message" where
  "apply_edit replacement m =
     (case m of
        Llm (MsgUser u) \<Rightarrow> Llm (MsgUser (u\<lparr>um_content := replacement\<rparr>))
      | Llm (MsgToolResult r) \<Rightarrow> Llm (MsgToolResult (r\<lparr>tm_content := replacement\<rparr>))
      | Llm (MsgAssistant a) \<Rightarrow>
          Llm (MsgAssistant (a\<lparr>am_content :=
            List.map_filter (\<lambda>b. map_option assistant_of_text (as_text b)) replacement\<rparr>))
      | CustomMsg c \<Rightarrow> CustomMsg (c\<lparr>cm_content := replacement\<rparr>)
      | other \<Rightarrow> other)"

definition add_edit ::
    "(string \<rightharpoonup> content list option) \<Rightarrow> session_entry \<Rightarrow> (string \<rightharpoonup> content list option)" where
  "add_edit edits e =
     (case en_kind e of ContextEdit target replacement \<Rightarrow> edits(target \<mapsto> replacement) | _ \<Rightarrow> edits)"

definition context_edits :: "session_entry list \<Rightarrow> (string \<rightharpoonup> content list option)" where
  "context_edits es = foldl add_edit Map.empty es"

definition edited_messages :: "(string \<rightharpoonup> content list option) \<Rightarrow> session_entry \<Rightarrow> session_message list" where
  "edited_messages edits e =
     (case edits (en_id e) of
        Some None \<Rightarrow> []
      | Some (Some replacement) \<Rightarrow> map (apply_edit replacement) (entry_messages e)
      | None \<Rightarrow> entry_messages e)"

definition is_compaction :: "session_entry \<Rightarrow> bool" where
  "is_compaction e = (case en_kind e of Compaction _ \<Rightarrow> True | _ \<Rightarrow> False)"

definition is_system_entry :: "session_entry \<Rightarrow> bool" where
  "is_system_entry e =
     (case en_kind e of
        MessageEntry m \<Rightarrow> (case as_message m of Some (MsgSystem _) \<Rightarrow> True | _ \<Rightarrow> False)
      | _ \<Rightarrow> False)"

text \<open>\<open>iter().rposition\<close>.\<close>

definition rposition :: "('a \<Rightarrow> bool) \<Rightarrow> 'a list \<Rightarrow> nat option" where
  "rposition P xs = find (\<lambda>i. P (xs ! i)) (rev [0..<length xs])"

fun kept_entries :: "string \<Rightarrow> bool \<Rightarrow> session_entry list \<Rightarrow> session_entry list" where
  "kept_entries first_kept keeping [] = []"
| "kept_entries first_kept keeping (e # es) =
     (let keeping = (keeping \<or> en_id e = first_kept) in
      (if keeping \<and> \<not> is_system_entry e then [e] else []) @ kept_entries first_kept keeping es)"

definition context_entries :: "session_entry list \<Rightarrow> session_entry list" where
  "context_entries path =
     (case rposition is_compaction path of
        None \<Rightarrow> path
      | Some i \<Rightarrow>
          (case en_kind (path ! i) of
             Compaction c \<Rightarrow>
               path ! i # kept_entries (ce_first_kept_entry_id c) False (take i path) @ drop (Suc i) path
           | _ \<Rightarrow> path))"

definition next_level :: "thinking_level \<Rightarrow> session_entry \<Rightarrow> thinking_level" where
  "next_level level e = (case en_kind e of ThinkingLevelChange l \<Rightarrow> l | _ \<Rightarrow> level)"

definition next_model :: "(string \<times> string) option \<Rightarrow> session_entry \<Rightarrow> (string \<times> string) option" where
  "next_model model e =
     (case en_kind e of
        ModelChange provider model_id \<Rightarrow> Some (provider, model_id)
      | MessageEntry (Llm (MsgAssistant a)) \<Rightarrow> Some (am_provider a, am_model a)
      | _ \<Rightarrow> model)"

definition project_entry ::
    "(string \<rightharpoonup> content list option) \<Rightarrow> nat \<times> session_entry \<Rightarrow> projected_entry" where
  "project_entry edits ie =
     (case ie of (i, e) \<Rightarrow>
        \<lparr>pe_entry_id = en_id e, pe_is_compaction = is_compaction e,
         pe_messages = (if is_compaction e \<and> i > 0 then [] else edited_messages edits e)\<rparr>)"

definition project_from_base :: "session_entry list \<Rightarrow> session_base option \<Rightarrow> session_projection" where
  "project_from_base path base =
     (let entries = context_entries path;
          edits = context_edits entries;
          projected = map (project_entry edits) (enumerate 0 entries);
          projected =
            (case Option.bind base sb_system_message of
               Some s \<Rightarrow>
                 if list_ex is_compaction path then projected
                 else \<lparr>pe_entry_id = [], pe_is_compaction = False, pe_messages = [Llm (MsgSystem s)]\<rparr> # projected
             | None \<Rightarrow> projected) in
      \<lparr>pj_entries = projected, pj_messages = concat (map pe_messages projected),
       pj_thinking_level = foldl next_level (case base of Some b \<Rightarrow> sb_thinking_level b | None \<Rightarrow> ThinkOff) path,
       pj_model = foldl next_model (Option.bind base sb_model) path\<rparr>)"

definition project :: "session_entry list \<Rightarrow> session_projection" where
  "project path = project_from_base path None"

definition project_with_base :: "session_entry list \<Rightarrow> session_base \<Rightarrow> session_projection" where
  "project_with_base path base = project_from_base path (Some base)"

definition is_conversation :: "session_entry \<Rightarrow> bool" where
  "is_conversation e =
     (case en_kind e of
        MessageEntry m \<Rightarrow>
          (case as_message m of Some (MsgUser _) \<Rightarrow> True | Some (MsgAssistant _) \<Rightarrow> True | _ \<Rightarrow> False)
      | _ \<Rightarrow> False)"

section \<open>The manager\<close>

text \<open>\<open>SessionStore\<close>; \<open>contains_entry\<close> may fill a cache.\<close>

record 'st store_ops =
  st_write_all_with_base ::
    "'st \<Rightarrow> session_header \<Rightarrow> session_base option \<Rightarrow> session_entry list \<Rightarrow> (io_error + unit) \<times> 'st"
  st_append_with_context :: "'st \<Rightarrow> session_entry \<Rightarrow> session_base option \<Rightarrow> (io_error + unit) \<times> 'st"
  st_contains_entry :: "'st \<Rightarrow> string \<Rightarrow> (io_error + bool) \<times> 'st"

record 'st session_manager =
  se_header :: session_header
  se_entries :: "session_entry list"
  se_index :: "(string, nat) hash_map"
  se_labels :: "(string, string) hash_map"
  se_label_times :: "(string, timestamp) hash_map"
  se_leaf :: "string option"
  se_base :: session_base
  se_base_root :: "string option"
  se_store :: 'st
  se_flushed :: bool
  se_persisted_len :: nat
  se_needs_rewrite :: bool
  se_persist_error :: "io_error option"

definition set_label ::
    "'st session_manager \<Rightarrow> string \<Rightarrow> string option \<Rightarrow> timestamp \<Rightarrow> 'st session_manager" where
  "set_label self target_id label time =
     (case label of
        Some l \<Rightarrow>
          self\<lparr>se_label_times := fmupd target_id time (se_label_times self),
               se_labels := fmupd target_id l (se_labels self)\<rparr>
      | None \<Rightarrow>
          self\<lparr>se_label_times := fmdrop target_id (se_label_times self),
               se_labels := fmdrop target_id (se_labels self)\<rparr>)"

definition index_entry :: "'st session_manager \<Rightarrow> nat \<Rightarrow> 'st session_manager" where
  "index_entry self position =
     (let e = se_entries self ! position;
          self = self\<lparr>se_index := fmupd (en_id e) position (se_index self), se_leaf := Some (en_id e)\<rparr> in
      case en_kind e of Label target_id label \<Rightarrow> set_label self target_id label (en_timestamp e) | _ \<Rightarrow> self)"

definition rebuild_index :: "'st session_manager \<Rightarrow> 'st session_manager" where
  "rebuild_index self =
     foldl index_entry
       (self\<lparr>se_index := fmempty, se_labels := fmempty, se_label_times := fmempty, se_leaf := None\<rparr>)
       [0..<length (se_entries self)]"

definition from_parts :: "session_header \<Rightarrow> session_entry list \<Rightarrow> 'st \<Rightarrow> bool \<Rightarrow> 'st session_manager" where
  "from_parts header entries store flushed =
     rebuild_index
       \<lparr>se_header = header, se_entries = entries, se_index = fmempty, se_labels = fmempty,
        se_label_times = fmempty, se_leaf = None, se_base = default_base, se_base_root = None,
        se_store = store, se_flushed = flushed,
        se_persisted_len = (if flushed then length entries else 0), se_needs_rewrite = (\<not> flushed),
        se_persist_error = None\<rparr>"

definition create_with_id :: "string \<Rightarrow> string \<Rightarrow> 'st \<Rightarrow> timestamp \<Rightarrow> 'st session_manager" where
  "create_with_id sid cwd store now =
     from_parts \<lparr>sh_version = SESSION_VERSION, sh_id = sid, sh_timestamp = now, sh_cwd = cwd,
                 sh_parent_session = None\<rparr> [] store False"

definition with_parent_session :: "'st session_manager \<Rightarrow> string \<Rightarrow> 'st session_manager" where
  "with_parent_session self parent =
     self\<lparr>se_header := (se_header self)\<lparr>sh_parent_session := Some parent\<rparr>\<rparr>"

definition open_session :: "session_header \<Rightarrow> session_entry list \<Rightarrow> 'st \<Rightarrow> 'st session_manager" where
  "open_session header entries store = from_parts header entries store True"

definition open_partial ::
    "session_header \<Rightarrow> session_base \<Rightarrow> session_entry list \<Rightarrow> 'st \<Rightarrow> 'st session_manager" where
  "open_partial header base entries_from_boundary store =
     (let manager = from_parts header entries_from_boundary store True in
      manager\<lparr>se_base_root := (case se_entries manager of [] \<Rightarrow> None | e # _ \<Rightarrow> Some (en_id e)),
              se_base := base\<rparr>)"

definition entry_of :: "'st session_manager \<Rightarrow> string \<Rightarrow> session_entry option" where
  "entry_of self eid = map_option (\<lambda>position. se_entries self ! position) (fmlookup (se_index self) eid)"

definition label_of :: "'st session_manager \<Rightarrow> string \<Rightarrow> string option" where
  "label_of self eid = fmlookup (se_labels self) eid"

definition children_of :: "'st session_manager \<Rightarrow> string \<Rightarrow> session_entry list" where
  "children_of self eid = filter (\<lambda>e. en_parent_id e = Some eid) (se_entries self)"

text \<open>\<open>char::is_whitespace\<close> on the first 256 code points.\<close>

definition is_white :: "char \<Rightarrow> bool" where
  "is_white c \<longleftrightarrow> (of_char c :: nat) \<in> {9, 10, 11, 12, 13, 32, 133, 160}"

text \<open>\<open>iter().rev().find_map\<close> over the names; a blank name is no name.\<close>

fun latest_name :: "session_entry list \<Rightarrow> string option option" where
  "latest_name [] = None"
| "latest_name (e # es) =
     (case latest_name es of
        Some name \<Rightarrow> Some name
      | None \<Rightarrow>
          (case en_kind e of
             SessionInfo (Some name) \<Rightarrow> Some (if list_all is_white name then None else Some name)
           | SessionInfo None \<Rightarrow> Some None
           | _ \<Rightarrow> None))"

definition session_name :: "'st session_manager \<Rightarrow> string option" where
  "session_name self =
     (case latest_name (se_entries self) of Some name \<Rightarrow> name | None \<Rightarrow> sb_session_name (se_base self))"

definition take_persist_error :: "'st session_manager \<Rightarrow> io_error option \<times> 'st session_manager" where
  "take_persist_error self = (se_persist_error self, self\<lparr>se_persist_error := None\<rparr>)"

definition has_unpersisted :: "'st session_manager \<Rightarrow> bool" where
  "has_unpersisted self \<longleftrightarrow>
     se_persisted_len self < length (se_entries self) \<and>
     (se_flushed self \<or> list_ex is_conversation (se_entries self))"

section \<open>Branches\<close>

partial_function (option) branch_up ::
    "'st session_manager \<Rightarrow> session_entry option \<Rightarrow> session_entry list \<Rightarrow> session_entry list option" where
  "branch_up self current path =
     (case current of
        None \<Rightarrow> Some (rev path)
      | Some e \<Rightarrow> branch_up self (Option.bind (en_parent_id e) (entry_of self)) (path @ [e]))"

definition branch_to :: "'st session_manager \<Rightarrow> string \<Rightarrow> session_entry list option" where
  "branch_to self eid = branch_up self (entry_of self eid) []"

definition branch :: "'st session_manager \<Rightarrow> session_entry list option" where
  "branch self = (case se_leaf self of Some leaf \<Rightarrow> branch_to self leaf | None \<Rightarrow> Some [])"

definition base_for_branch :: "'st session_manager \<Rightarrow> session_entry list \<Rightarrow> session_base option" where
  "base_for_branch self path =
     (case (se_base_root self, path) of
        (Some root, e # _) \<Rightarrow> if en_id e = root then Some (se_base self) else None
      | _ \<Rightarrow> None)"

definition projection :: "'st session_manager \<Rightarrow> session_projection option" where
  "projection self = map_option (\<lambda>path. project_from_base path (base_for_branch self path)) (branch self)"

definition has_context_base :: "'st session_manager \<Rightarrow> bool option" where
  "has_context_base self = map_option (\<lambda>path. base_for_branch self path \<noteq> None) (branch self)"

text \<open>\<open>iter().position\<close>.\<close>

definition position_of :: "('a \<Rightarrow> bool) \<Rightarrow> 'a list \<Rightarrow> nat option" where
  "position_of P xs = find (\<lambda>i. P (xs ! i)) [0..<length xs]"

definition base_before :: "'st session_manager \<Rightarrow> string \<Rightarrow> (session_error + session_base) option" where
  "base_before self entry_id =
     (case fmlookup (se_index self) entry_id of
        None \<Rightarrow> Some (Inl (NotFound entry_id))
      | Some at \<Rightarrow>
          map_option (\<lambda>path.
            case position_of (\<lambda>e. en_id e = entry_id) path of
              None \<Rightarrow> Inl (NotOnBranch entry_id)
            | Some i \<Rightarrow>
                let inherited = base_for_branch self path;
                    projected = project_from_base (take i path) inherited in
                Inr \<lparr>sb_model = pj_model projected, sb_thinking_level = pj_thinking_level projected,
                     sb_session_name =
                       (case latest_name (take at (se_entries self)) of
                          Some name \<Rightarrow> name
                        | None \<Rightarrow> sb_session_name (se_base self)),
                     sb_system_message =
                       current_system_message (List.map_filter as_message (pj_messages projected))\<rparr>)
            (branch self))"

section \<open>Writing\<close>

text \<open>The facts that go with a compaction; \<open>Inl\<close> is the early return of \<open>flush\<close>.\<close>

definition compaction_context ::
    "'st session_manager \<Rightarrow> session_entry \<Rightarrow> (io_error + session_base option) option" where
  "compaction_context self e =
     (case en_kind e of
        Compaction c \<Rightarrow>
          (case base_before self (ce_first_kept_entry_id c) of
             None \<Rightarrow> None
           | Some (Inr base) \<Rightarrow> Some (Inr (Some base))
           | Some (Inl _) \<Rightarrow>
               map_option (\<lambda>r. case r of Inr base \<Rightarrow> Inr (Some base) | Inl _ \<Rightarrow> Inl IoInvalidData)
                 (base_before self (en_id e)))
      | _ \<Rightarrow> Some (Inr None))"

definition written ::
    "'st session_manager \<Rightarrow> (io_error + unit) \<times> 'st \<Rightarrow> (io_error + unit) \<times> 'st session_manager" where
  "written self outcome =
     (case outcome of
        (Inr _, store) \<Rightarrow>
          (Inr (), self\<lparr>se_store := store, se_flushed := True,
                        se_persisted_len := length (se_entries self), se_needs_rewrite := False\<rparr>)
      | (Inl e, store) \<Rightarrow> (Inl e, self\<lparr>se_store := store, se_needs_rewrite := True\<rparr>))"

definition flush ::
    "'st store_ops \<Rightarrow> 'st session_manager \<Rightarrow> ((io_error + unit) \<times> 'st session_manager) option" where
  "flush ops self =
     (if \<not> has_unpersisted self then Some (Inr (), self)
      else if \<not> se_flushed self \<and> \<not> list_ex is_conversation (se_entries self) then Some (Inr (), self)
      else if se_needs_rewrite self \<or> length (se_entries self) \<noteq> se_persisted_len self + 1 then
        Some (written self (st_write_all_with_base ops (se_store self) (se_header self)
          (map_option (\<lambda>_. se_base self) (se_base_root self)) (se_entries self)))
      else
        let e = last (se_entries self) in
        (case compaction_context self e of
           None \<Rightarrow> None
         | Some (Inl err) \<Rightarrow> Some (Inl err, self)
         | Some (Inr context_base) \<Rightarrow>
             Some (written self (st_append_with_context ops (se_store self) e context_base))))"

definition persist :: "'st store_ops \<Rightarrow> 'st session_manager \<Rightarrow> 'st session_manager option" where
  "persist ops self =
     map_option (\<lambda>(r, self'). case r of Inl e \<Rightarrow> self'\<lparr>se_persist_error := Some e\<rparr> | Inr _ \<Rightarrow> self')
       (flush ops self)"

definition taken_in_store ::
    "'st store_ops \<Rightarrow> 'st session_manager \<Rightarrow> string \<Rightarrow> bool \<times> 'st session_manager" where
  "taken_in_store ops self candidate =
     (if fmlookup (se_index self) candidate \<noteq> None then (True, self)
      else case st_contains_entry ops (se_store self) candidate of
        (r, store) \<Rightarrow> ((case r of Inr used \<Rightarrow> used | Inl _ \<Rightarrow> False), self\<lparr>se_store := store\<rparr>))"

definition fresh_id ::
    "'st store_ops \<Rightarrow> (nat \<Rightarrow> u64) \<Rightarrow> 'st session_manager \<Rightarrow> (string \<times> 'st session_manager) option" where
  "fresh_id ops random self =
     map_option (\<lambda>(eid, _, self'). (eid, self')) (new_entry_id random (taken_in_store ops) 0 self)"

definition append_with_id ::
    "'st store_ops \<Rightarrow> 'st session_manager \<Rightarrow> string \<Rightarrow> entry_kind \<Rightarrow> timestamp \<Rightarrow>
      (string \<times> 'st session_manager) option" where
  "append_with_id ops self eid kind now =
     (let self = (case kind of Label target_id label \<Rightarrow> set_label self target_id label now | _ \<Rightarrow> self);
          self = self\<lparr>se_entries := se_entries self @
            [\<lparr>en_id = eid, en_parent_id = se_leaf self, en_timestamp = now, en_kind = kind\<rparr>]\<rparr>;
          self = self\<lparr>se_index := fmupd eid (length (se_entries self) - 1) (se_index self),
                      se_leaf := Some eid\<rparr> in
      map_option (Pair eid) (persist ops self))"

definition append_entry ::
    "'st store_ops \<Rightarrow> (nat \<Rightarrow> u64) \<Rightarrow> 'st session_manager \<Rightarrow> entry_kind \<Rightarrow> timestamp \<Rightarrow>
      (string \<times> 'st session_manager) option" where
  "append_entry ops random self kind now =
     Option.bind (fresh_id ops random self) (\<lambda>(eid, self). append_with_id ops self eid kind now)"

definition append_message ::
    "'st store_ops \<Rightarrow> (nat \<Rightarrow> u64) \<Rightarrow> 'st session_manager \<Rightarrow> session_message \<Rightarrow> timestamp \<Rightarrow>
      (string \<times> 'st session_manager) option" where
  "append_message ops random self m now = append_entry ops random self (MessageEntry m) now"

definition append_thinking_level_change ::
    "'st store_ops \<Rightarrow> (nat \<Rightarrow> u64) \<Rightarrow> 'st session_manager \<Rightarrow> thinking_level \<Rightarrow> timestamp \<Rightarrow>
      (string \<times> 'st session_manager) option" where
  "append_thinking_level_change ops random self level now =
     append_entry ops random self (ThinkingLevelChange level) now"

definition append_model_change ::
    "'st store_ops \<Rightarrow> (nat \<Rightarrow> u64) \<Rightarrow> 'st session_manager \<Rightarrow> string \<Rightarrow> string \<Rightarrow> timestamp \<Rightarrow>
      (string \<times> 'st session_manager) option" where
  "append_model_change ops random self provider model_id now =
     append_entry ops random self (ModelChange provider model_id) now"

definition append_custom_entry ::
    "'st store_ops \<Rightarrow> (nat \<Rightarrow> u64) \<Rightarrow> 'st session_manager \<Rightarrow> string \<Rightarrow> json option \<Rightarrow> timestamp \<Rightarrow>
      (string \<times> 'st session_manager) option" where
  "append_custom_entry ops random self custom_type data now =
     append_entry ops random self (Custom custom_type data) now"

definition append_custom_message ::
    "'st store_ops \<Rightarrow> (nat \<Rightarrow> u64) \<Rightarrow> 'st session_manager \<Rightarrow> string \<Rightarrow> content list \<Rightarrow> bool \<Rightarrow>
      json option \<Rightarrow> timestamp \<Rightarrow> (string \<times> 'st session_manager) option" where
  "append_custom_message ops random self custom_type cs display details now =
     append_entry ops random self (CustomMessage custom_type cs display details) now"

definition append_session_info ::
    "'st store_ops \<Rightarrow> (nat \<Rightarrow> u64) \<Rightarrow> 'st session_manager \<Rightarrow> string option \<Rightarrow> timestamp \<Rightarrow>
      (string \<times> 'st session_manager) option" where
  "append_session_info ops random self name now = append_entry ops random self (SessionInfo name) now"

definition append_compaction ::
    "'st store_ops \<Rightarrow> (nat \<Rightarrow> u64) \<Rightarrow> 'st session_manager \<Rightarrow> string \<Rightarrow> string option \<Rightarrow> u64 \<Rightarrow>
      json option \<Rightarrow> usage option \<Rightarrow> bool \<Rightarrow> timestamp \<Rightarrow> timestamp \<Rightarrow>
      (string \<times> 'st session_manager) option" where
  "append_compaction ops random self summary first_kept_entry_id tokens_before details used from_extension
      system_time now =
     Option.bind (projection self) (\<lambda>projected.
     let system_message =
           map_option (\<lambda>s. s\<lparr>sm_timestamp := system_time\<rparr>)
             (current_system_message (List.map_filter as_message (pj_messages projected))) in
     Option.bind (fresh_id ops random self) (\<lambda>(eid, self).
       append_with_id ops self eid
         (Compaction \<lparr>ce_summary = summary,
            ce_first_kept_entry_id = (case first_kept_entry_id of Some k \<Rightarrow> k | None \<Rightarrow> eid),
            ce_tokens_before = tokens_before, ce_details = details, ce_usage = used,
            ce_from_extension = from_extension, ce_system_message = system_message\<rparr>) now))"

definition editable :: "entry_kind \<Rightarrow> bool" where
  "editable kind =
     (case kind of
        CustomMessage _ _ _ _ \<Rightarrow> True
      | MessageEntry m \<Rightarrow>
          (case as_message m of
             Some (MsgUser _) \<Rightarrow> True
           | Some (MsgAssistant _) \<Rightarrow> True
           | Some (MsgToolResult _) \<Rightarrow> True
           | _ \<Rightarrow> False)
      | _ \<Rightarrow> False)"

definition append_context_edit ::
    "'st store_ops \<Rightarrow> (nat \<Rightarrow> u64) \<Rightarrow> 'st session_manager \<Rightarrow> string \<Rightarrow> content list option \<Rightarrow> timestamp \<Rightarrow>
      ((session_error + string) \<times> 'st session_manager) option" where
  "append_context_edit ops random self target_id replacement now =
     (case entry_of self target_id of
        None \<Rightarrow> Some (Inl (NotFound target_id), self)
      | Some target \<Rightarrow>
          if \<not> editable (en_kind target) then Some (Inl (NotEditable target_id), self)
          else
            Option.bind (branch self) (\<lambda>path.
            if \<not> list_ex (\<lambda>e. en_id e = target_id) path then Some (Inl (NotOnBranch target_id), self)
            else map_option (\<lambda>(eid, self). (Inr eid, self))
                   (append_entry ops random self (ContextEdit target_id replacement) now)))"

definition append_label ::
    "'st store_ops \<Rightarrow> (nat \<Rightarrow> u64) \<Rightarrow> 'st session_manager \<Rightarrow> string \<Rightarrow> string option \<Rightarrow> timestamp \<Rightarrow>
      ((session_error + string) \<times> 'st session_manager) option" where
  "append_label ops random self target_id label now =
     (if fmlookup (se_index self) target_id = None then Some (Inl (NotFound target_id), self)
      else map_option (\<lambda>(eid, self). (Inr eid, self))
             (append_entry ops random self (Label target_id label) now))"

definition set_leaf :: "'st session_manager \<Rightarrow> string \<Rightarrow> (session_error + unit) \<times> 'st session_manager" where
  "set_leaf self eid =
     (if fmlookup (se_index self) eid = None then (Inl (NotFound eid), self)
      else (Inr (), self\<lparr>se_leaf := Some eid\<rparr>))"

definition reset_leaf :: "'st session_manager \<Rightarrow> 'st session_manager" where
  "reset_leaf self = self\<lparr>se_leaf := None\<rparr>"

text \<open>The identifier that names no entry, when there is one.\<close>

definition missing_entry :: "'st session_manager \<Rightarrow> string option \<Rightarrow> string option" where
  "missing_entry self eid =
     (case eid of Some i \<Rightarrow> if fmlookup (se_index self) i = None then Some i else None | None \<Rightarrow> None)"

definition branch_with_summary ::
    "'st store_ops \<Rightarrow> (nat \<Rightarrow> u64) \<Rightarrow> 'st session_manager \<Rightarrow> string option \<Rightarrow> string \<Rightarrow> json option \<Rightarrow>
      usage option \<Rightarrow> bool \<Rightarrow> timestamp \<Rightarrow> ((session_error + string) \<times> 'st session_manager) option" where
  "branch_with_summary ops random self from summary details used from_extension now =
     (case missing_entry self from of
        Some f \<Rightarrow> Some (Inl (NotFound f), self)
      | None \<Rightarrow>
          let from_id = (case se_leaf self of Some l \<Rightarrow> l | None \<Rightarrow> ''root'') in
          map_option (\<lambda>(eid, self). (Inr eid, self))
            (append_entry ops random (self\<lparr>se_leaf := from\<rparr>)
              (BranchSummary \<lparr>bx_from_id = from_id, bx_summary = summary, bx_details = details,
                 bx_usage = used, bx_from_extension = from_extension\<rparr>) now))"

section \<open>Forks and copies\<close>

definition session_create ::
    "string \<Rightarrow> 'st \<Rightarrow> timestamp \<Rightarrow> u64 \<Rightarrow> u64 \<Rightarrow> timestamp \<Rightarrow> 'st session_manager" where
  "session_create cwd store id_time random random2 now =
     create_with_id (new_session_id id_time random random2) cwd store now"

definition last_id :: "session_entry list \<Rightarrow> string option" where
  "last_id es = (if es = [] then None else Some (en_id (last es)))"

definition rekept :: "(string \<rightharpoonup> string) \<Rightarrow> session_entry \<Rightarrow> session_entry" where
  "rekept kept_from e =
     (case en_kind e of
        Compaction c \<Rightarrow>
          (case kept_from (ce_first_kept_entry_id c) of
             Some later \<Rightarrow> e\<lparr>en_kind := Compaction (c\<lparr>ce_first_kept_entry_id := later\<rparr>)\<rparr>
           | None \<Rightarrow> e)
      | _ \<Rightarrow> e)"

definition is_label :: "session_entry \<Rightarrow> bool" where
  "is_label e = (case en_kind e of Label _ _ \<Rightarrow> True | _ \<Rightarrow> False)"

fun fork_path ::
    "session_entry list \<Rightarrow> session_entry list \<Rightarrow> string list \<Rightarrow> (string \<rightharpoonup> string) \<Rightarrow> session_entry list" where
  "fork_path [] entries dropped_labels kept_from = entries"
| "fork_path (e # path) entries dropped_labels kept_from =
     (if is_label e then fork_path path entries (dropped_labels @ [en_id e]) kept_from
      else
        let kept_from = foldl (\<lambda>m l. m(l \<mapsto> en_id e)) kept_from dropped_labels in
        fork_path path (entries @ [(rekept kept_from e)\<lparr>en_parent_id := last_id entries\<rparr>]) [] kept_from)"

text \<open>The labels on entries of the fork in the order of their targets; the order of the map does not matter.\<close>

definition labels_on :: "'st session_manager \<Rightarrow> session_entry list \<Rightarrow> (string \<times> string) list" where
  "labels_on self entries =
     sort_key fst (List.map_filter (\<lambda>t. map_option (Pair t) (fmlookup (se_labels self) t))
       (remdups (map en_id entries)))"

fun label_entries ::
    "(nat \<Rightarrow> u64) \<Rightarrow> session_entry list \<Rightarrow> (string, timestamp) hash_map \<Rightarrow> timestamp \<Rightarrow> nat \<Rightarrow>
      string option \<Rightarrow> (string \<times> string) list \<Rightarrow> session_entry list option" where
  "label_entries random entries set_at now i parent [] = Some []"
| "label_entries random entries set_at now i parent ((target, label) # labels) =
     (case new_entry_id random (\<lambda>s c. (list_ex (\<lambda>e. en_id e = c) entries, s)) i () of
        None \<Rightarrow> None
      | Some (eid, i', _) \<Rightarrow>
          map_option (Cons
            \<lparr>en_id = eid, en_parent_id = parent,
             en_timestamp = (case fmlookup set_at target of Some t \<Rightarrow> t | None \<Rightarrow> now),
             en_kind = Label target (Some label)\<rparr>)
            (label_entries random entries set_at now i' (Some eid) labels))"

definition fork_entries ::
    "(nat \<Rightarrow> u64) \<Rightarrow> 'st session_manager \<Rightarrow> session_entry list \<Rightarrow> timestamp \<Rightarrow> session_entry list option" where
  "fork_entries random self path now =
     (let entries = fork_path path [] [] Map.empty in
      map_option (\<lambda>labels. entries @ labels)
        (label_entries random entries (se_label_times self) now 0 (last_id entries) (labels_on self entries)))"

definition fork_with ::
    "'st store_ops \<Rightarrow> (nat \<Rightarrow> u64) \<Rightarrow> 'st session_manager \<Rightarrow> string option \<Rightarrow> string option \<Rightarrow>
      (session_header \<Rightarrow> 'st) \<Rightarrow> string \<Rightarrow> timestamp \<Rightarrow> ((session_error + unit) \<times> 'st session_manager) option" where
  "fork_with ops random self leaf_id parent_session store_for sid now =
     (if se_base_root self \<noteq> None then Some (Inl (Io IoUnsupported), self)
      else case missing_entry self leaf_id of
        Some i \<Rightarrow> Some (Inl (NotFound i), self)
      | None \<Rightarrow>
          Option.bind (case leaf_id of Some leaf \<Rightarrow> branch_to self leaf | None \<Rightarrow> Some []) (\<lambda>path.
          Option.bind (fork_entries random self path now) (\<lambda>entries.
          let header = \<lparr>sh_version = SESSION_VERSION, sh_id = sid, sh_timestamp = now,
                sh_cwd = sh_cwd (se_header self), sh_parent_session = parent_session\<rparr>;
              self = rebuild_index (self\<lparr>se_header := header, se_entries := entries,
                se_store := store_for header, se_flushed := False, se_persisted_len := 0,
                se_needs_rewrite := True, se_base := default_base, se_base_root := None\<rparr>) in
          map_option (Pair (Inr ())) (persist ops self))))"

definition branch_copy :: "'st \<Rightarrow> 'st session_manager \<Rightarrow> 'st session_manager option" where
  "branch_copy memory self =
     map_option (\<lambda>path.
       let copy = from_parts (se_header self) path memory True in
       case base_for_branch self path of
         Some base \<Rightarrow>
           copy\<lparr>se_base := base,
                se_base_root := (case se_entries copy of [] \<Rightarrow> None | e # _ \<Rightarrow> Some (en_id e))\<rparr>
       | None \<Rightarrow> copy)
       (branch self)"

definition branched ::
    "'st store_ops \<Rightarrow> 'st \<Rightarrow> (nat \<Rightarrow> u64) \<Rightarrow> 'st session_manager \<Rightarrow> string option \<Rightarrow> string option \<Rightarrow>
      (session_header \<Rightarrow> 'st) \<Rightarrow> string \<Rightarrow> timestamp \<Rightarrow> (session_error + 'st session_manager) option" where
  "branched ops memory random self leaf_id parent_session store_for sid now =
     (if se_base_root self \<noteq> None then Some (Inl (Io IoUnsupported))
      else map_option (\<lambda>(r, copy). case r of Inl e \<Rightarrow> Inl e | Inr _ \<Rightarrow> Inr copy)
        (fork_with ops random (from_parts (se_header self) (se_entries self) memory True)
           leaf_id parent_session store_for sid now))"

text \<open>The entries \<open>export_branch\<close> writes: each the parent of the next.\<close>

fun relink :: "string option \<Rightarrow> session_entry list \<Rightarrow> session_entry list" where
  "relink parent [] = []"
| "relink parent (e # es) = e\<lparr>en_parent_id := parent\<rparr> # relink (Some (en_id e)) es"

definition export_branch ::
    "'st session_manager \<Rightarrow> timestamp \<Rightarrow> (io_error + session_header \<times> session_entry list) option" where
  "export_branch self now =
     (if se_base_root self \<noteq> None then Some (Inl IoUnsupported)
      else map_option (\<lambda>path.
        Inr (\<lparr>sh_version = SESSION_VERSION, sh_id = sh_id (se_header self), sh_timestamp = now,
              sh_cwd = sh_cwd (se_header self), sh_parent_session = None\<rparr>, relink None path))
        (branch self))"

end
