(* ===== verification/Pi_Session_Tree.thy ===== *)
theory Pi_Session_Tree
  imports Pi_Session "HOL-Library.Sublist"
begin

text \<open>
  The session tree. The reference definition \<open>lineage\<close> reads the branch of an entry off the list of entries
  in one pass; the loop of the source computes it whenever no entry precedes its parent. The invariant of a
  complete session says that identifiers are distinct, parents exist and precede their children, edits
  target an editable ancestor, and the index, the labels and the write state agree with the entries; every
  operation keeps it.
\<close>

section \<open>Branches by one pass\<close>

text \<open>The entries from a root to \<open>p\<close>, of a list with the newest entry first.\<close>

fun lineage :: "session_entry list \<Rightarrow> string option \<Rightarrow> session_entry list" where
  "lineage [] p = []"
| "lineage (e # older) p =
     (if p = Some (en_id e) then lineage older (en_parent_id e) @ [e] else lineage older p)"

abbreviation ids :: "session_entry list \<Rightarrow> string set" where
  "ids es \<equiv> en_id ` set es"

text \<open>Distinct identifiers, and no parent at or after its child.\<close>

fun forest_ok :: "session_entry list \<Rightarrow> bool" where
  "forest_ok [] = True"
| "forest_ok (e # older) \<longleftrightarrow>
     en_id e \<notin> ids older \<and> en_parent_id e \<noteq> Some (en_id e) \<and>
     (\<forall>x \<in> set older. en_parent_id x \<noteq> Some (en_id e)) \<and> forest_ok older"

definition index_ok :: "'st session_manager \<Rightarrow> bool" where
  "index_ok m \<longleftrightarrow>
     (\<forall>eid i. fmlookup (se_index m) eid = Some i \<longleftrightarrow> i < length (se_entries m) \<and> en_id (se_entries m ! i) = eid)"

lemma forest_ok_distinct: "forest_ok es \<Longrightarrow> distinct (map en_id es)"
  by (induction es) auto

lemma entry_of_Some_iff:
  assumes "index_ok m" and "distinct (map en_id (se_entries m))"
  shows "entry_of m eid = Some e \<longleftrightarrow> e \<in> set (se_entries m) \<and> en_id e = eid"
proof
  assume "entry_of m eid = Some e"
  then show "e \<in> set (se_entries m) \<and> en_id e = eid"
    using assms(1) by (auto simp: entry_of_def index_ok_def)
next
  assume "e \<in> set (se_entries m) \<and> en_id e = eid"
  then obtain i where "i < length (se_entries m)" "se_entries m ! i = e" "en_id e = eid"
    by (auto simp: in_set_conv_nth)
  with assms(1) show "entry_of m eid = Some e"
    by (auto simp: entry_of_def index_ok_def)
qed

lemma entry_of_None_iff: "index_ok m \<Longrightarrow> entry_of m eid = None \<longleftrightarrow> eid \<notin> ids (se_entries m)"
proof -
  assume ok: "index_ok m"
  have "fmlookup (se_index m) eid \<noteq> None \<longleftrightarrow> (\<exists>i < length (se_entries m). en_id (se_entries m ! i) = eid)"
    using ok by (auto simp: index_ok_def)
  moreover have "eid \<in> ids (se_entries m) \<longleftrightarrow> (\<exists>i < length (se_entries m). en_id (se_entries m ! i) = eid)"
    unfolding set_conv_nth by auto
  ultimately show ?thesis by (cases "fmlookup (se_index m) eid") (auto simp: entry_of_def)
qed

text \<open>Entries newer than a known part do not matter for the branch of an entry in it.\<close>

lemma lineage_skip: "p \<notin> Some ` ids newer \<Longrightarrow> lineage (newer @ older) p = lineage older p"
  by (induction newer) auto

lemma forest_ok_append: "forest_ok (newer @ older) \<Longrightarrow> forest_ok older"
  by (induction newer) auto

lemma forest_ok_parent:
  "forest_ok (newer @ e # older) \<Longrightarrow> en_parent_id e \<notin> Some ` ids (newer @ [e])"
  by (induction newer) auto

lemma branch_up_lineage:
  assumes "index_ok m" and "rev (se_entries m) = newer @ older" and "forest_ok (rev (se_entries m))"
    and "p \<notin> Some ` ids newer"
  shows "branch_up m (Option.bind p (entry_of m)) acc = Some (lineage older p @ rev acc)"
  using assms(2,4)
proof (induction older arbitrary: newer p acc)
  case Nil
  have "set (se_entries m) = set newer"
    using Nil.prems(1) by (metis append_Nil2 set_rev)
  then have "Option.bind p (entry_of m) = None"
    using Nil.prems(2) entry_of_None_iff [OF assms(1)] by (cases p) auto
  then show ?case by (simp add: branch_up.simps)
next
  case (Cons e older)
  show ?case
  proof (cases "p = Some (en_id e)")
    case True
    have d: "distinct (map en_id (se_entries m))"
      using forest_ok_distinct [OF assms(3)] by (simp add: rev_map [symmetric])
    have "e \<in> set (se_entries m)"
      using Cons.prems(1) by (metis in_set_conv_decomp set_rev)
    then have "entry_of m (en_id e) = Some e"
      using entry_of_Some_iff [OF assms(1) d] by blast
    moreover have "en_parent_id e \<notin> Some ` ids (newer @ [e])"
      using forest_ok_parent [of newer e older] assms(3) Cons.prems(1) by simp
    ultimately show ?thesis
      using True Cons.IH [of "newer @ [e]" "en_parent_id e" "acc @ [e]"] Cons.prems(1)
      by (simp add: branch_up.simps [of m "Some e"])
  next
    case False
    with Cons.prems Cons.IH [of "newer @ [e]" p acc] show ?thesis by auto
  qed
qed

lemma branch_to_lineage:
  assumes "index_ok m" and "forest_ok (rev (se_entries m))"
  shows "branch_to m eid = Some (lineage (rev (se_entries m)) (Some eid))"
  using branch_up_lineage [OF assms(1) _ assms(2), of "[]" "rev (se_entries m)" "Some eid" "[]"]
  by (simp add: branch_to_def)

lemma lineage_None [simp]: "lineage es None = []"
  by (induction es) auto

lemma branch_lineage:
  assumes "index_ok m" and "forest_ok (rev (se_entries m))"
  shows "branch m = Some (lineage (rev (se_entries m)) (se_leaf m))"
  using branch_to_lineage [OF assms] by (cases "se_leaf m") (simp_all add: branch_def)

lemma lineage_subseq: "subseq (lineage (rev es) p) es"
proof (induction es arbitrary: p rule: rev_induct)
  case (snoc e es)
  then show ?case
    by (auto intro: list_emb_append_mono [of "(=)" _ _ "[e]" "[e]"] subseq_order.trans [OF snoc.IH])
qed simp

lemma lineage_set: "set (lineage es p) \<subseteq> set es"
  by (induction es arbitrary: p) auto

section \<open>Complete sessions\<close>

text \<open>
  An entry that may follow \<open>pre\<close>: its identifier is new, its parent is there, and an edit targets an
  editable entry of the branch it continues.
\<close>

definition entry_ok :: "session_entry list \<Rightarrow> session_entry \<Rightarrow> bool" where
  "entry_ok pre e \<longleftrightarrow>
     en_id e \<notin> ids pre \<and> (case en_parent_id e of None \<Rightarrow> True | Some p \<Rightarrow> p \<in> ids pre) \<and>
     (case en_kind e of
        ContextEdit target _ \<Rightarrow>
          \<exists>x \<in> set (lineage (rev pre) (en_parent_id e)). en_id x = target \<and> editable (en_kind x)
      | _ \<Rightarrow> True)"

fun entries_from :: "session_entry list \<Rightarrow> session_entry list \<Rightarrow> bool" where
  "entries_from pre [] = True"
| "entries_from pre (e # es) \<longleftrightarrow> entry_ok pre e \<and> entries_from (pre @ [e]) es"

definition entries_wf :: "session_entry list \<Rightarrow> bool" where
  "entries_wf es = entries_from [] es"

lemma entries_from_snoc: "entries_from pre (es @ [e]) \<longleftrightarrow> entries_from pre es \<and> entry_ok (pre @ es) e"
  by (induction pre es rule: entries_from.induct) auto

lemma entries_wf_snoc [simp]: "entries_wf (es @ [e]) \<longleftrightarrow> entries_wf es \<and> entry_ok es e"
  by (simp add: entries_wf_def entries_from_snoc)

lemma entries_wf_Nil [simp]: "entries_wf []"
  by (simp add: entries_wf_def)

lemma entries_wf_parents:
  "entries_wf es \<Longrightarrow> x \<in> set es \<Longrightarrow> en_parent_id x = Some p \<Longrightarrow> p \<in> ids es"
  by (induction es rule: rev_induct) (auto simp: entry_ok_def)

lemma entries_wf_forest: "entries_wf es \<Longrightarrow> forest_ok (rev es)"
proof (induction es rule: rev_induct)
  case (snoc e es)
  then have "en_parent_id e \<noteq> Some (en_id e)" and "\<forall>x \<in> set es. en_parent_id x \<noteq> Some (en_id e)"
    using entries_wf_parents [of es] by (auto simp: entry_ok_def)
  with snoc show ?case by (simp add: entry_ok_def)
qed simp

text \<open>
  The branch of an entry as a session of its own: identifiers are distinct, each entry is the parent of
  the next, and edits target an editable earlier entry.
\<close>

definition link_ok :: "session_entry list \<Rightarrow> session_entry \<Rightarrow> bool" where
  "link_ok pre e \<longleftrightarrow>
     en_id e \<notin> ids pre \<and> en_parent_id e = last_id pre \<and>
     (case en_kind e of
        ContextEdit target _ \<Rightarrow> \<exists>x \<in> set pre. en_id x = target \<and> editable (en_kind x)
      | _ \<Rightarrow> True)"

fun links_from :: "session_entry list \<Rightarrow> session_entry list \<Rightarrow> bool" where
  "links_from pre [] = True"
| "links_from pre (e # es) \<longleftrightarrow> link_ok pre e \<and> links_from (pre @ [e]) es"

definition path_ok :: "session_entry list \<Rightarrow> bool" where
  "path_ok path = links_from [] path"

lemma links_from_snoc: "links_from pre (es @ [e]) \<longleftrightarrow> links_from pre es \<and> link_ok (pre @ es) e"
  by (induction pre es rule: links_from.induct) auto

lemma path_ok_snoc [simp]: "path_ok (es @ [e]) \<longleftrightarrow> path_ok es \<and> link_ok es e"
  by (simp add: path_ok_def links_from_snoc)

lemma path_ok_Nil [simp]: "path_ok []"
  by (simp add: path_ok_def)

lemma path_ok_appendD: "path_ok (es @ es') \<Longrightarrow> path_ok es"
  by (induction es' rule: rev_induct) (auto simp flip: append_assoc)

lemma path_ok_distinct: "path_ok path \<Longrightarrow> distinct (map en_id path)"
  by (induction path rule: rev_induct) (auto simp: link_ok_def)

lemma path_ok_at: "path_ok (pre @ e # post) \<Longrightarrow> link_ok pre e"
  using path_ok_appendD [of "pre @ [e]" post] by simp

lemma last_id_lineage: "p = None \<or> (\<exists>q \<in> ids es. p = Some q) \<Longrightarrow> last_id (lineage (rev es) p) = p"
proof (induction es rule: rev_induct)
  case (snoc e es)
  then show ?case by (cases "p = Some (en_id e)") (auto simp: last_id_def)
qed (simp add: last_id_def)

lemma lineage_path_ok: "entries_wf es \<Longrightarrow> path_ok (lineage (rev es) p)"
proof (induction es arbitrary: p rule: rev_induct)
  case (snoc e es)
  show ?case
  proof (cases "p = Some (en_id e)")
    case True
    have "en_id e \<notin> ids (lineage (rev es) (en_parent_id e))"
      using snoc.prems lineage_set [of "rev es" "en_parent_id e"] by (auto simp: entry_ok_def)
    moreover have "last_id (lineage (rev es) (en_parent_id e)) = en_parent_id e"
      using snoc.prems by (intro last_id_lineage) (auto simp: entry_ok_def split: option.splits)
    ultimately show ?thesis
      using snoc True by (auto simp: link_ok_def entry_ok_def split: entry_kind.splits)
  qed (use snoc in auto)
qed simp

section \<open>The invariant\<close>

definition replay_label ::
    "(string, string) hash_map \<times> (string, timestamp) hash_map \<Rightarrow> session_entry \<Rightarrow>
      (string, string) hash_map \<times> (string, timestamp) hash_map" where
  "replay_label acc e =
     (case en_kind e of
        Label target (Some l) \<Rightarrow> (fmupd target l (fst acc), fmupd target (en_timestamp e) (snd acc))
      | Label target None \<Rightarrow> (fmdrop target (fst acc), fmdrop target (snd acc))
      | _ \<Rightarrow> acc)"

definition labels_ok :: "'st session_manager \<Rightarrow> bool" where
  "labels_ok m \<longleftrightarrow> (se_labels m, se_label_times m) = foldl replay_label (fmempty, fmempty) (se_entries m)"

definition leaf_ok :: "'st session_manager \<Rightarrow> bool" where
  "leaf_ok m \<longleftrightarrow> (case se_leaf m of None \<Rightarrow> True | Some l \<Rightarrow> l \<in> ids (se_entries m))"

definition tree_inv :: "'st session_manager \<Rightarrow> bool" where
  "tree_inv m \<longleftrightarrow>
     entries_wf (se_entries m) \<and> index_ok m \<and> leaf_ok m \<and> labels_ok m \<and> se_base_root m = None"

definition write_ok :: "'st session_manager \<Rightarrow> bool" where
  "write_ok m \<longleftrightarrow>
     se_persisted_len m \<le> length (se_entries m) \<and>
     (\<not> se_flushed m \<longrightarrow> se_persisted_len m = 0 \<and> se_needs_rewrite m) \<and>
     (\<not> se_needs_rewrite m \<longrightarrow> se_persisted_len m = length (se_entries m))"

lemmas tree_inv_defs = tree_inv_def index_ok_def leaf_ok_def labels_ok_def

lemma tree_inv_writes [simp]:
  "tree_inv (m\<lparr>se_store := st\<rparr>) = tree_inv m"
  "tree_inv (m\<lparr>se_flushed := f\<rparr>) = tree_inv m"
  "tree_inv (m\<lparr>se_persisted_len := n\<rparr>) = tree_inv m"
  "tree_inv (m\<lparr>se_needs_rewrite := r\<rparr>) = tree_inv m"
  "tree_inv (m\<lparr>se_persist_error := e\<rparr>) = tree_inv m"
  by (simp_all add: tree_inv_defs split: option.split)

lemma tree_inv_branch:
  assumes "tree_inv m"
  shows "branch m = Some (lineage (rev (se_entries m)) (se_leaf m))"
    and "branch_to m eid = Some (lineage (rev (se_entries m)) (Some eid))"
  using assms branch_lineage [of m] branch_to_lineage [of m] entries_wf_forest [of "se_entries m"]
  by (simp_all add: tree_inv_def)

subsection \<open>Rebuilding the index\<close>

lemma index_entry_unfold:
  "index_entry m i =
     (let e = se_entries m ! i;
          (labels, label_times) = replay_label (se_labels m, se_label_times m) e in
      m\<lparr>se_index := fmupd (en_id e) i (se_index m), se_leaf := Some (en_id e), se_labels := labels,
        se_label_times := label_times\<rparr>)"
  by (cases m) (simp add: index_entry_def replay_label_def set_label_def Let_def
      split: entry_kind.splits option.splits)

lemma foldl_index_entry:
  "n \<le> length (se_entries m) \<Longrightarrow>
     foldl index_entry (m\<lparr>se_index := fmempty, se_labels := fmempty, se_label_times := fmempty, se_leaf := None\<rparr>) [0..<n] =
       m\<lparr>se_index := foldl (\<lambda>x i. fmupd (en_id (se_entries m ! i)) i x) fmempty [0..<n],
         se_labels := fst (foldl replay_label (fmempty, fmempty) (take n (se_entries m))),
         se_label_times := snd (foldl replay_label (fmempty, fmempty) (take n (se_entries m))),
         se_leaf := last_id (take n (se_entries m))\<rparr>"
proof (induction n)
  case (Suc n)
  then show ?case
    by (simp add: index_entry_unfold take_Suc_conv_app_nth last_id_def Let_def case_prod_beta)
qed (simp add: last_id_def)

lemma rebuild_index_unfold:
  "rebuild_index m =
     m\<lparr>se_index := foldl (\<lambda>x i. fmupd (en_id (se_entries m ! i)) i x) fmempty [0..<length (se_entries m)],
       se_labels := fst (foldl replay_label (fmempty, fmempty) (se_entries m)),
       se_label_times := snd (foldl replay_label (fmempty, fmempty) (se_entries m)),
       se_leaf := last_id (se_entries m)\<rparr>"
  using foldl_index_entry [of "length (se_entries m)" m] by (simp add: rebuild_index_def)

lemma foldl_index_lookup:
  "distinct (map en_id es) \<Longrightarrow> n \<le> length es \<Longrightarrow>
     fmlookup (foldl (\<lambda>x i. fmupd (en_id (es ! i)) i x) fmempty [0..<n]) eid = Some j \<longleftrightarrow>
       j < n \<and> en_id (es ! j) = eid"
proof (induction n)
  case (Suc n)
  then show ?case
    by (auto simp: less_Suc_eq distinct_conv_nth)
qed simp

lemma rebuild_index_ok:
  assumes "distinct (map en_id (se_entries m))"
  shows "index_ok (rebuild_index m)" and "labels_ok (rebuild_index m)" and "leaf_ok (rebuild_index m)"
    and "se_leaf (rebuild_index m) = last_id (se_entries m)"
  using foldl_index_lookup [OF assms order_refl]
  by (auto simp: rebuild_index_unfold index_ok_def labels_ok_def leaf_ok_def last_id_def)

lemma entries_wf_distinct: "entries_wf es \<Longrightarrow> distinct (map en_id es)"
  using forest_ok_distinct [OF entries_wf_forest] by (simp add: rev_map [symmetric])

lemma from_parts_fields [simp]:
  "se_entries (from_parts h es st f) = es" "se_header (from_parts h es st f) = h"
  "se_base_root (from_parts h es st f) = None" "se_base (from_parts h es st f) = default_base"
  "se_flushed (from_parts h es st f) = f" "se_store (from_parts h es st f) = st"
  "se_persisted_len (from_parts h es st f) = (if f then length es else 0)"
  "se_needs_rewrite (from_parts h es st f) = (\<not> f)"
  "se_leaf (from_parts h es st f) = last_id es"
  by (simp_all add: from_parts_def rebuild_index_unfold)

lemma from_parts_inv:
  "entries_wf es \<Longrightarrow> tree_inv (from_parts h es st f) \<and> write_ok (from_parts h es st f)"
  using rebuild_index_ok [of "\<lparr>se_header = h, se_entries = es, se_index = fmempty, se_labels = fmempty,
        se_label_times = fmempty, se_leaf = None, se_base = default_base, se_base_root = None,
        se_store = st, se_flushed = f, se_persisted_len = (if f then length es else 0), se_needs_rewrite = (\<not> f),
        se_persist_error = None\<rparr>"]
  by (simp add: tree_inv_def write_ok_def entries_wf_distinct from_parts_def [symmetric])

subsection \<open>Drawing identifiers\<close>

abbreviation candidate :: "(nat \<Rightarrow> u64) \<Rightarrow> nat \<Rightarrow> string" where
  "candidate random i \<equiv> hex_fixed 8 (unat (ucast (random i) :: u32))"

lemma new_entry_id_free_aux:
  assumes "new_entry_id random taken i s = Some r"
  shows "I s \<longrightarrow> (\<forall>s c u s'. I s \<longrightarrow> taken s c = (u, s') \<longrightarrow> I s') \<longrightarrow>
     (\<exists>s0. I s0 \<and> taken s0 (fst r) = (False, snd (snd r)))"
proof (rule new_entry_id.raw_induct [where P = "\<lambda>random taken i s r. I s \<longrightarrow>
    (\<forall>s c u s'. I s \<longrightarrow> taken s c = (u, s') \<longrightarrow> I s') \<longrightarrow>
    (\<exists>s0. I s0 \<and> taken s0 (fst r) = (False, snd (snd r)))", OF _ assms])
  fix rec random i s r and taken :: "'a \<Rightarrow> string \<Rightarrow> bool \<times> 'a"
  let ?P = "\<lambda>taken s r. I s \<longrightarrow> (\<forall>s c u s'. I s \<longrightarrow> taken s c = (u, s') \<longrightarrow> I s') \<longrightarrow>
    (\<exists>s0. I s0 \<and> taken s0 (fst r) = (False, snd (snd r)))"
  assume IH: "\<And>random taken i s r. rec random taken i s = Some r \<Longrightarrow> ?P taken s r"
    and body: "(let candidate = candidate random i in case taken s candidate of (used, s') \<Rightarrow>
      if used then rec random taken (Suc i) s' else Some (candidate, Suc i, s')) = Some r"
  obtain u s1 where t: "taken s (candidate random i) = (u, s1)" by force
  show "?P taken s r"
  proof (cases u)
    case True
    with body t have "rec random taken (Suc i) s1 = Some r" by (simp add: Let_def)
    from IH [OF this] t show ?thesis by blast
  next
    case False
    then show ?thesis
      using body t by (auto simp: Let_def)
  qed
qed

lemma new_entry_id_free:
  assumes "new_entry_id random taken i s = Some (eid, j, s')"
    and "I s" and "\<And>s c u s'. I s \<Longrightarrow> taken s c = (u, s') \<Longrightarrow> I s'"
  shows "\<exists>s0. I s0 \<and> taken s0 eid = (False, s')"
  using new_entry_id_free_aux [OF assms(1), of I] assms(2,3) by auto

lemma new_entry_id_total:
  assumes "I s" and "\<And>s c u s'. I s \<Longrightarrow> taken s c = (u, s') \<Longrightarrow> I s'"
    and "\<And>s. I s \<Longrightarrow> \<not> fst (taken s (candidate random (i + k)))"
  shows "\<exists>eid j s'. new_entry_id random taken i s = Some (eid, j, s')"
  using assms(1,3)
proof (induction k arbitrary: i s)
  case 0
  then show ?case
    by (subst new_entry_id.simps) (force simp: Let_def split: prod.splits)
next
  case (Suc k)
  obtain u s1 where t: "taken s (candidate random i) = (u, s1)" by force
  have "\<exists>eid j s'. new_entry_id random taken (Suc i) s1 = Some (eid, j, s')"
    using assms(2) [OF Suc.prems(1) t] Suc.prems(2) by (intro Suc.IH) simp_all
  with t show ?case
    by (subst new_entry_id.simps) (auto simp: Let_def)
qed

subsection \<open>Writing keeps the tree\<close>

lemma flush_shape:
  "flush ops m = Some (r, m') \<Longrightarrow>
     \<exists>st f n rw. m' = m\<lparr>se_store := st, se_flushed := f, se_persisted_len := n, se_needs_rewrite := rw\<rparr>"
proof -
  have self: "\<exists>st f n rw. m = m\<lparr>se_store := st, se_flushed := f, se_persisted_len := n, se_needs_rewrite := rw\<rparr>"
    by (rule exI [of _ "se_store m"], rule exI [of _ "se_flushed m"], rule exI [of _ "se_persisted_len m"],
        rule exI [of _ "se_needs_rewrite m"]) simp
  have wr: "written m w = (r, m') \<Longrightarrow>
      \<exists>st f n rw. m' = m\<lparr>se_store := st, se_flushed := f, se_persisted_len := n, se_needs_rewrite := rw\<rparr>" for w
    by (cases m) (auto simp: written_def split: prod.splits sum.splits)
  show "flush ops m = Some (r, m') \<Longrightarrow>
     \<exists>st f n rw. m' = m\<lparr>se_store := st, se_flushed := f, se_persisted_len := n, se_needs_rewrite := rw\<rparr>"
    using self wr by (auto simp: flush_def Let_def split: if_splits option.splits sum.splits)
qed

lemma persist_shape:
  assumes "persist ops m = Some m'"
  shows "\<exists>st f n rw err. m' = m\<lparr>se_store := st, se_flushed := f, se_persisted_len := n,
           se_needs_rewrite := rw, se_persist_error := err\<rparr>"
proof -
  from assms obtain r m1 where f: "flush ops m = Some (r, m1)"
    and m': "m' = (case r of Inl e \<Rightarrow> m1\<lparr>se_persist_error := Some e\<rparr> | Inr _ \<Rightarrow> m1)"
    by (auto simp: persist_def)
  from flush_shape [OF f] m' show ?thesis
    by (cases m) (auto split: sum.splits)
qed

lemma taken_in_store_shape:
  "taken_in_store ops m c = (u, m') \<Longrightarrow> \<exists>st. m' = m\<lparr>se_store := st\<rparr>"
  by (cases m) (auto simp: taken_in_store_def split: if_splits prod.splits)

lemma fresh_id_shape:
  assumes "fresh_id ops random m = Some (eid, m')"
  shows "(\<exists>st. m' = m\<lparr>se_store := st\<rparr>) \<and> fmlookup (se_index m) eid = None"
proof -
  from assms obtain j where n: "new_entry_id random (taken_in_store ops) 0 m = Some (eid, j, m')"
    by (auto simp: fresh_id_def)
  have "\<exists>s0. (\<exists>st. s0 = m\<lparr>se_store := st\<rparr>) \<and> taken_in_store ops s0 eid = (False, m')"
  proof (rule new_entry_id_free [OF n, where I = "\<lambda>s. \<exists>st. s = m\<lparr>se_store := st\<rparr>"])
    show "\<exists>st. m = m\<lparr>se_store := st\<rparr>" by (rule exI [of _ "se_store m"]) simp
    show "\<exists>st. s' = m\<lparr>se_store := st\<rparr>"
      if "\<exists>st. s = m\<lparr>se_store := st\<rparr>" "taken_in_store ops s c = (u, s')" for s c u s'
      using that taken_in_store_shape [OF that(2)] by (cases m) auto
  qed
  then obtain st where t: "taken_in_store ops (m\<lparr>se_store := st\<rparr>) eid = (False, m')" by blast
  then have "fmlookup (se_index m) eid = None"
    by (auto simp: taken_in_store_def split: if_splits)
  with taken_in_store_shape [OF t] show ?thesis by (cases m) auto
qed

subsection \<open>Flushing returns\<close>

lemma position_of_None: "position_of P xs = None \<longleftrightarrow> (\<forall>x \<in> set xs. \<not> P x)"
  unfolding position_of_def find_None_iff set_conv_nth by auto

lemma base_before_total: "tree_inv m \<Longrightarrow> \<exists>r. base_before m eid = Some r"
  by (auto simp: base_before_def tree_inv_branch(1) split: option.splits)

lemma index_lookup_None: "index_ok m \<Longrightarrow> fmlookup (se_index m) eid = None \<longleftrightarrow> eid \<notin> ids (se_entries m)"
  using entry_of_None_iff [of m eid] by (simp add: entry_of_def)

lemma base_before_last:
  assumes inv: "tree_inv m" and es: "se_entries m \<noteq> []" and leaf: "se_leaf m = last_id (se_entries m)"
  shows "\<exists>b. base_before m (en_id (last (se_entries m))) = Some (Inr b)"
proof -
  let ?e = "last (se_entries m)"
  obtain i where i: "fmlookup (se_index m) (en_id ?e) = Some i"
    using inv es index_lookup_None [of m "en_id ?e"] by (cases "fmlookup (se_index m) (en_id ?e)") (auto simp: tree_inv_def)
  obtain pre where "se_entries m = pre @ [?e]"
    using es by (metis append_butlast_last_id)
  then have "?e \<in> set (lineage (rev (se_entries m)) (Some (en_id ?e)))"
    by (metis in_set_conv_decomp lineage.simps(2) rev.simps(2) rev_rev_ident rev_swap)
  then have "?e \<in> set (lineage (rev (se_entries m)) (se_leaf m))"
    using leaf es by (simp add: last_id_def)
  then have "position_of (\<lambda>e. en_id e = en_id ?e) (lineage (rev (se_entries m)) (se_leaf m)) \<noteq> None"
    unfolding position_of_None by blast
  with i show ?thesis
    by (auto simp: base_before_def tree_inv_branch(1) [OF inv] Let_def)
qed

lemma compaction_context_last:
  assumes "tree_inv m" and "se_entries m \<noteq> []" and "se_leaf m = last_id (se_entries m)"
  shows "\<exists>b. compaction_context m (last (se_entries m)) = Some (Inr b)"
proof (cases "en_kind (last (se_entries m))")
  case (Compaction c)
  from base_before_total [OF assms(1), of "ce_first_kept_entry_id c"] obtain r
    where "base_before m (ce_first_kept_entry_id c) = Some r" by blast
  with Compaction base_before_last [OF assms] show ?thesis
    by (auto simp: compaction_context_def split: sum.splits)
qed (simp_all add: compaction_context_def)

text \<open>What holds between pushing an entry and writing it.\<close>

definition pending_ok :: "'st session_manager \<Rightarrow> bool" where
  "pending_ok m \<longleftrightarrow>
     se_persisted_len m \<le> length (se_entries m) \<and>
     (\<not> se_flushed m \<longrightarrow> se_persisted_len m = 0 \<and> se_needs_rewrite m) \<and>
     (\<not> se_needs_rewrite m \<longrightarrow> se_persisted_len m = length (se_entries m) \<or>
        se_persisted_len m + 1 = length (se_entries m) \<and> se_leaf m = last_id (se_entries m))"

lemma write_ok_pending: "write_ok m \<Longrightarrow> pending_ok m"
  by (simp add: write_ok_def pending_ok_def)

lemma written_write_ok: "pending_ok m \<Longrightarrow> write_ok (snd (written m w))"
  by (auto simp: written_def write_ok_def pending_ok_def split: prod.splits sum.splits)

lemma flush_returns:
  assumes "tree_inv m" and "pending_ok m"
  shows "\<exists>r m'. flush ops m = Some (r, m') \<and> write_ok m'"
proof (cases "has_unpersisted m \<and> (se_flushed m \<or> list_ex is_conversation (se_entries m))")
  case False
  then show ?thesis
    using assms(2) by (auto simp: flush_def write_ok_def pending_ok_def has_unpersisted_def)
next
  case pend: True
  show ?thesis
  proof (cases "se_needs_rewrite m \<or> length (se_entries m) \<noteq> se_persisted_len m + 1")
    case True
    with pend written_write_ok [OF assms(2)] show ?thesis
      by (auto simp: flush_def) (metis prod.collapse)+
  next
    case False
    then have "se_entries m \<noteq> []" "se_leaf m = last_id (se_entries m)"
      using assms(2) by (auto simp: pending_ok_def)
    from compaction_context_last [OF assms(1) this] obtain b
      where "compaction_context m (last (se_entries m)) = Some (Inr b)" by blast
    with pend False written_write_ok [OF assms(2)] show ?thesis
      by (auto simp: flush_def Let_def) (metis prod.collapse)+
  qed
qed

lemma persist_returns:
  assumes "tree_inv m" and "pending_ok m"
  shows "\<exists>m'. persist ops m = Some m' \<and> write_ok m'"
proof -
  from flush_returns [OF assms, of ops] obtain r m' where "flush ops m = Some (r, m')" "write_ok m'" by blast
  then show ?thesis
    by (cases r) (auto simp: persist_def write_ok_def)
qed

subsection \<open>Appending\<close>

definition new_entry :: "'st session_manager \<Rightarrow> string \<Rightarrow> entry_kind \<Rightarrow> timestamp \<Rightarrow> session_entry" where
  "new_entry m eid kind now =
     \<lparr>en_id = eid, en_parent_id = se_leaf m, en_timestamp = now, en_kind = kind\<rparr>"

text \<open>The session with the entry pushed and not yet written.\<close>

definition pushed :: "'st session_manager \<Rightarrow> string \<Rightarrow> entry_kind \<Rightarrow> timestamp \<Rightarrow> 'st session_manager" where
  "pushed m eid kind now =
     (let (labels, label_times) = replay_label (se_labels m, se_label_times m) (new_entry m eid kind now) in
      m\<lparr>se_entries := se_entries m @ [new_entry m eid kind now],
        se_index := fmupd eid (length (se_entries m)) (se_index m), se_leaf := Some eid,
        se_labels := labels, se_label_times := label_times\<rparr>)"

lemma append_with_id_pushed:
  "append_with_id ops m eid kind now = map_option (Pair eid) (persist ops (pushed m eid kind now))"
  by (cases m) (simp add: append_with_id_def pushed_def new_entry_def replay_label_def set_label_def Let_def
      split: entry_kind.splits option.splits)

lemma pushed_fields [simp]:
  "se_entries (pushed m eid kind now) = se_entries m @ [new_entry m eid kind now]"
  "se_leaf (pushed m eid kind now) = Some eid" "se_header (pushed m eid kind now) = se_header m"
  "se_base_root (pushed m eid kind now) = se_base_root m" "se_base (pushed m eid kind now) = se_base m"
  "se_flushed (pushed m eid kind now) = se_flushed m" "se_store (pushed m eid kind now) = se_store m"
  "se_persisted_len (pushed m eid kind now) = se_persisted_len m"
  "se_needs_rewrite (pushed m eid kind now) = se_needs_rewrite m"
  by (simp_all add: pushed_def Let_def case_prod_beta)

lemma new_entry_fields [simp]:
  "en_id (new_entry m eid kind now) = eid" "en_parent_id (new_entry m eid kind now) = se_leaf m"
  "en_kind (new_entry m eid kind now) = kind" "en_timestamp (new_entry m eid kind now) = now"
  by (simp_all add: new_entry_def)

text \<open>The branch an edit continues has its target.\<close>

definition kind_ok :: "'st session_manager \<Rightarrow> entry_kind \<Rightarrow> bool" where
  "kind_ok m kind =
     (case kind of
        ContextEdit target _ \<Rightarrow>
          \<exists>x \<in> set (lineage (rev (se_entries m)) (se_leaf m)). en_id x = target \<and> editable (en_kind x)
      | _ \<Rightarrow> True)"

lemma pushed_tree_inv:
  assumes inv: "tree_inv m" and fresh: "eid \<notin> ids (se_entries m)" and kind: "kind_ok m kind"
  shows "tree_inv (pushed m eid kind now)"
proof -
  have fresh_at: "\<forall>i < length (se_entries m). en_id (se_entries m ! i) \<noteq> eid"
    using fresh by auto
  have "entries_wf (se_entries m @ [new_entry m eid kind now])"
    using inv fresh kind
    by (auto simp: tree_inv_def entry_ok_def leaf_ok_def kind_ok_def split: option.splits entry_kind.splits)
  moreover have "index_ok (pushed m eid kind now)"
    using inv fresh_at
    by (auto simp: tree_inv_def index_ok_def pushed_def Let_def case_prod_beta nth_append less_Suc_eq)
  moreover have "labels_ok (pushed m eid kind now)"
    using inv by (simp add: tree_inv_def labels_ok_def) (simp add: pushed_def Let_def case_prod_beta)
  ultimately show ?thesis
    using inv by (simp add: tree_inv_def leaf_ok_def)
qed

lemma pushed_pending_ok: "write_ok m \<Longrightarrow> pending_ok (pushed m eid kind now)"
  by (auto simp: write_ok_def pending_ok_def last_id_def)

lemma append_with_id_ok:
  assumes "tree_inv m" and "write_ok m" and "eid \<notin> ids (se_entries m)" and "kind_ok m kind"
  shows "\<exists>m'. append_with_id ops m eid kind now = Some (eid, m') \<and> tree_inv m' \<and> write_ok m' \<and>
     se_entries m' = se_entries m @ [new_entry m eid kind now] \<and> se_leaf m' = Some eid \<and>
     se_header m' = se_header m"
proof -
  have t: "tree_inv (pushed m eid kind now)" using assms by (intro pushed_tree_inv)
  from persist_returns [OF t pushed_pending_ok [OF assms(2)], of ops] obtain m'
    where p: "persist ops (pushed m eid kind now) = Some m'" and w: "write_ok m'" by blast
  from persist_shape [OF p] t w p show ?thesis
    by (auto simp: append_with_id_pushed)
qed

lemma tree_inv_store: "\<exists>st. m' = m\<lparr>se_store := st\<rparr> \<Longrightarrow> tree_inv m \<and> write_ok m \<Longrightarrow> tree_inv m' \<and> write_ok m'"
  by (auto simp: write_ok_def)

lemma append_entry_ok:
  assumes inv: "tree_inv m" "write_ok m" and kind: "kind_ok m kind"
    and app: "append_entry ops random m kind now = Some (eid, m')"
  shows "tree_inv m' \<and> write_ok m' \<and> eid \<notin> ids (se_entries m) \<and> se_leaf m' = Some eid \<and>
    se_header m' = se_header m \<and> se_entries m' = se_entries m @ [new_entry m eid kind now]"
proof -
  from app obtain m1 where f: "fresh_id ops random m = Some (eid, m1)"
    and a: "append_with_id ops m1 eid kind now = Some (eid, m')"
    by (auto simp: append_entry_def append_with_id_pushed split: Option.bind_splits)
  from fresh_id_shape [OF f] obtain st where m1: "m1 = m\<lparr>se_store := st\<rparr>" and new: "fmlookup (se_index m) eid = None"
    by blast
  have eid: "eid \<notin> ids (se_entries m)"
    using new inv(1) index_lookup_None [of m eid] by (simp add: tree_inv_def)
  have m1_ok: "tree_inv m1" "write_ok m1" "kind_ok m1 kind"
    using inv kind m1 by (auto simp: write_ok_def kind_ok_def split: entry_kind.splits)
  from append_with_id_ok [OF m1_ok(1,2) _ m1_ok(3), of eid ops now] eid m1 a show ?thesis
    by (simp add: new_entry_def)
qed

end
