(* ===== verification/Pi_Projection.thy ===== *)
theory Pi_Projection
  imports Pi_Session_Tree
begin

text \<open>
  The projection of a branch, in a form the proofs can use: which entries make up the context, which
  messages they contribute, and which parts of an entry matter for that.
\<close>

section \<open>Entries of the context\<close>

definition nonsystem :: "session_entry list \<Rightarrow> session_entry list" where
  "nonsystem es = filter (\<lambda>e. \<not> is_system_entry e) es"

lemma nonsystem_append [simp]: "nonsystem (es @ es') = nonsystem es @ nonsystem es'"
  by (simp add: nonsystem_def)

lemma kept_entries_dropWhile:
  "kept_entries k False es = nonsystem (dropWhile (\<lambda>e. en_id e \<noteq> k) es)"
proof -
  have keeping: "kept_entries k True es = nonsystem es" for es
    by (induction es) (auto simp: nonsystem_def)
  show ?thesis
    by (induction es) (auto simp: keeping nonsystem_def Let_def)
qed

lemma rposition_None: "rposition P xs = None \<longleftrightarrow> (\<forall>x \<in> set xs. \<not> P x)"
  by (auto simp: rposition_def find_None_iff all_set_conv_all_nth)

lemma rposition_snoc: "rposition P (xs @ [y]) = (if P y then Some (length xs) else rposition P xs)"
proof -
  have "find (\<lambda>i. P ((xs @ [y]) ! i)) (rev [0..<length xs]) = find (\<lambda>i. P (xs ! i)) (rev [0..<length xs])"
    by (rule find_cong) (auto simp: nth_append)
  then show ?thesis by (simp add: rposition_def)
qed

lemma rposition_split:
  "P x \<Longrightarrow> \<forall>y \<in> set post. \<not> P y \<Longrightarrow> rposition P (pre @ x # post) = Some (length pre)"
proof (induction post rule: rev_induct)
  case (snoc y post)
  then show ?case using rposition_snoc [of P "pre @ x # post" y] by simp
qed (simp add: rposition_snoc)

lemma context_entries_plain: "\<forall>e \<in> set path. \<not> is_compaction e \<Longrightarrow> context_entries path = path"
  using rposition_None [of is_compaction path] by (simp add: context_entries_def)

lemma context_entries_compacted:
  assumes "en_kind c = Compaction k" and "\<forall>e \<in> set post. \<not> is_compaction e"
  shows "context_entries (pre @ c # post) =
    c # nonsystem (dropWhile (\<lambda>e. en_id e \<noteq> ce_first_kept_entry_id k) pre) @ post"
proof -
  have "is_compaction c" using assms(1) by (simp add: is_compaction_def)
  from rposition_split [OF this assms(2), of pre] assms(1) show ?thesis
    by (simp add: context_entries_def kept_entries_dropWhile)
qed

text \<open>A branch either has no compaction or splits at its latest one.\<close>

lemma latest_compaction:
  obtains (none) "\<forall>e \<in> set path. \<not> is_compaction e"
  | (some) pre c k post where "path = pre @ c # post" "en_kind c = Compaction k"
      "\<forall>e \<in> set post. \<not> is_compaction e"
proof (cases "\<exists>e \<in> set path. is_compaction e")
  case True
  then obtain pre c post where "path = pre @ c # post" "is_compaction c" "\<forall>e \<in> set post. \<not> is_compaction e"
    by (metis split_list_last_prop)
  then show ?thesis using some by (auto simp: is_compaction_def split: entry_kind.splits)
qed (use none in blast)

section \<open>Messages of the context\<close>

definition later_messages :: "(string \<rightharpoonup> content list option) \<Rightarrow> session_entry \<Rightarrow> session_message list" where
  "later_messages edits e = (if is_compaction e then [] else edited_messages edits e)"

lemma pj_entries_no_base:
  "pj_entries (project path) =
     map (project_entry (context_edits (context_entries path))) (enumerate 0 (context_entries path))"
  by (simp add: project_def project_from_base_def Let_def)

lemma pj_messages_entries:
  "pj_messages (project_from_base path b) = concat (map pe_messages (pj_entries (project_from_base path b)))"
  by (simp add: project_from_base_def Let_def)

lemma pj_messages_enumerate:
  "pj_messages (project path) =
     concat (map (pe_messages \<circ> project_entry (context_edits (context_entries path)))
       (enumerate 0 (context_entries path)))"
  by (simp add: project_def project_from_base_def Let_def)

lemma map_project_later:
  "0 < i \<Longrightarrow> map (pe_messages \<circ> project_entry edits) (enumerate i es) = map (later_messages edits) es"
  by (induction es arbitrary: i) (simp_all add: project_entry_def later_messages_def)

lemma map_project_first:
  "map (pe_messages \<circ> project_entry edits) (enumerate 0 (e # es)) =
     edited_messages edits e # map (later_messages edits) es"
  using map_project_later [of "Suc 0" edits es] by (simp add: project_entry_def)

lemma pj_messages_plain:
  assumes "\<forall>e \<in> set path. \<not> is_compaction e"
  shows "pj_messages (project path) = concat (map (later_messages (context_edits path)) path)"
proof (cases path)
  case (Cons e es)
  then show ?thesis
    using assms map_project_first [of _ e es]
    by (simp add: pj_messages_enumerate context_entries_plain later_messages_def del: enumerate_simps)
qed (simp add: pj_messages_enumerate context_entries_plain)

lemma pj_messages_compacted:
  assumes "en_kind c = Compaction k" and "\<forall>e \<in> set post. \<not> is_compaction e"
    and "ctx = nonsystem (dropWhile (\<lambda>e. en_id e \<noteq> ce_first_kept_entry_id k) pre) @ post"
  shows "pj_messages (project (pre @ c # post)) =
    edited_messages (context_edits (c # ctx)) c @ concat (map (later_messages (context_edits (c # ctx))) ctx)"
  using map_project_first [of _ c ctx]
  by (simp add: pj_messages_enumerate context_entries_compacted [OF assms(1,2)] assms(3) del: enumerate_simps)

section \<open>Edits\<close>

definition edit_of :: "session_entry \<Rightarrow> (string \<times> content list option) option" where
  "edit_of e = (case en_kind e of ContextEdit target replacement \<Rightarrow> Some (target, replacement) | _ \<Rightarrow> None)"

lemma foldl_add_edit:
  "foldl add_edit edits es = edits ++ map_of (rev (List.map_filter edit_of es))"
proof (induction es arbitrary: edits)
  case (Cons e es)
  then show ?case
    by (simp add: add_edit_def edit_of_def map_add_def fun_eq_iff List.map_filter_def
        split: entry_kind.splits option.splits)
qed (simp add: List.map_filter_def)

lemma context_edits_map_of: "context_edits es = map_of (rev (List.map_filter edit_of es))"
  by (simp add: context_edits_def foldl_add_edit)

text \<open>Entries without an edit do not matter, and an edit reaches only its target.\<close>

lemma context_edits_filter:
  "(\<And>e. e \<in> set es \<Longrightarrow> edit_of e \<noteq> None \<Longrightarrow> P e) \<Longrightarrow> context_edits (filter P es) = context_edits es"
proof -
  assume P: "\<And>e. e \<in> set es \<Longrightarrow> edit_of e \<noteq> None \<Longrightarrow> P e"
  have "List.map_filter edit_of (filter P es) = List.map_filter edit_of es"
    using P by (induction es) (auto simp: List.map_filter_def)
  then show ?thesis by (simp add: context_edits_map_of)
qed

lemma context_edits_append:
  "context_edits (es @ es') = context_edits es ++ context_edits es'"
  by (simp add: context_edits_map_of List.map_filter_def)

lemma context_edits_dom: "eid \<in> dom (context_edits es) \<longleftrightarrow> (\<exists>e \<in> set es. \<exists>r. edit_of e = Some (eid, r))"
  by (force simp: context_edits_map_of dom_map_of_conv_image_fst List.map_filter_def image_iff)

lemma edit_of_Some: "edit_of e = Some (t, r) \<longleftrightarrow> en_kind e = ContextEdit t r"
  by (simp add: edit_of_def split: entry_kind.splits)

lemma path_ok_edit:
  assumes "path_ok (pre @ e # post)" and "edit_of e = Some (t, r)"
  shows "\<exists>x \<in> set pre. en_id x = t \<and> editable (en_kind x)"
  using path_ok_at [OF assms(1)] assms(2) by (simp add: edit_of_Some link_ok_def)

lemma path_ok_unique:
  "path_ok path \<Longrightarrow> x \<in> set path \<Longrightarrow> y \<in> set path \<Longrightarrow> en_id x = en_id y \<Longrightarrow> x = y"
  using path_ok_distinct [of path] by (simp add: distinct_map inj_on_def)

text \<open>An entry that is not editable is not edited.\<close>

lemma uneditable_unedited:
  assumes "path_ok path" and "x \<in> set path" and "\<not> editable (en_kind x)" and "set es \<subseteq> set path"
  shows "context_edits es (en_id x) = None"
proof (rule ccontr)
  assume "context_edits es (en_id x) \<noteq> None"
  then obtain e r where e: "e \<in> set es" "edit_of e = Some (en_id x, r)"
    using context_edits_dom [of "en_id x" es] by (auto simp: dom_def)
  then obtain pre post where "path = pre @ e # post"
    using assms(4) by (meson in_mono split_list)
  with path_ok_edit [of pre e post] assms(1) e(2) obtain y where "y \<in> set path" "en_id y = en_id x" "editable (en_kind y)"
    by auto
  with path_ok_unique [OF assms(1) _ assms(2)] assms(3) show False by blast
qed

text \<open>The edits of an entry come after it.\<close>

lemma context_edits_suffix:
  assumes "path_ok (pre @ post)" and "x \<in> set post"
  shows "context_edits (pre @ post) (en_id x) = context_edits post (en_id x)"
proof -
  have "context_edits pre (en_id x) = None"
  proof (rule ccontr)
    assume "context_edits pre (en_id x) \<noteq> None"
    then obtain e r where e: "e \<in> set pre" "edit_of e = Some (en_id x, r)"
      using context_edits_dom [of "en_id x" pre] by (auto simp: dom_def)
    then obtain a b where ab: "pre = a @ e # b" by (meson split_list)
    with path_ok_edit [of a e "b @ post"] assms(1) e(2) obtain y where "y \<in> set a" "en_id y = en_id x" by auto
    then have "en_id x \<in> ids pre" using ab by (metis Un_iff image_eqI set_append)
    with path_ok_distinct [OF assms(1)] assms(2) show False by auto
  qed
  then show ?thesis by (simp add: context_edits_append map_add_def split: option.split)
qed

lemma edited_messages_cong: "edits (en_id e) = edits' (en_id e) \<Longrightarrow> edited_messages edits e = edited_messages edits' e"
  by (simp add: edited_messages_def)

lemma later_messages_cong: "edits (en_id e) = edits' (en_id e) \<Longrightarrow> later_messages edits e = later_messages edits' e"
  by (simp add: later_messages_def edited_messages_def)

lemma compaction_not_editable: "is_compaction e \<Longrightarrow> \<not> editable (en_kind e)"
  by (auto simp: is_compaction_def editable_def split: entry_kind.splits)

lemma system_not_editable: "is_system_entry e \<Longrightarrow> \<not> editable (en_kind e)"
  by (auto simp: is_system_entry_def editable_def split: entry_kind.splits option.splits message.splits)

lemma edit_not_system: "edit_of e \<noteq> None \<Longrightarrow> \<not> is_system_entry e"
  by (auto simp: edit_of_def is_system_entry_def split: entry_kind.splits)

lemma context_edits_nonsystem: "context_edits (nonsystem es) = context_edits es"
  unfolding nonsystem_def using edit_not_system by (intro context_edits_filter) auto

lemma context_edits_no_edit: "edit_of c = None \<Longrightarrow> context_edits (es @ c # es') = context_edits (es @ es')"
  by (simp add: context_edits_map_of List.map_filter_def)

lemma compaction_no_edit: "en_kind c = Compaction k \<Longrightarrow> edit_of c = None"
  by (simp add: edit_of_def)

text \<open>The edits of a compacted context are those of the whole branch, as far as its entries are concerned.\<close>

lemma context_edits_compacted:
  assumes ok: "path_ok (pre @ c # post)" and c: "en_kind c = Compaction k"
    and x: "x \<in> set (nonsystem (dropWhile P pre) @ post)"
  shows "context_edits (c # nonsystem (dropWhile P pre) @ post) (en_id x) = context_edits (pre @ c # post) (en_id x)"
proof -
  let ?d = "dropWhile P pre"
  have "context_edits (c # nonsystem ?d @ post) = context_edits (nonsystem ?d @ post)"
    using context_edits_no_edit [OF compaction_no_edit [OF c], of "[]"] by simp
  also have "\<dots> = context_edits (?d @ post)"
    by (simp add: context_edits_append context_edits_nonsystem)
  also have "\<dots> = context_edits (?d @ c # post)"
    by (simp add: context_edits_no_edit [OF compaction_no_edit [OF c]])
  finally have "context_edits (c # nonsystem ?d @ post) (en_id x) = context_edits (?d @ c # post) (en_id x)"
    by simp
  also have "\<dots> = context_edits (takeWhile P pre @ ?d @ c # post) (en_id x)"
  proof (rule context_edits_suffix [symmetric])
    show "path_ok (takeWhile P pre @ ?d @ c # post)"
      using ok by (metis append.assoc takeWhile_dropWhile_id)
    show "x \<in> set (?d @ c # post)"
      using x by (auto simp: nonsystem_def)
  qed
  also have "takeWhile P pre @ ?d @ c # post = pre @ c # post"
    by (metis append.assoc takeWhile_dropWhile_id)
  finally show ?thesis .
qed

lemma pj_messages_path_compacted:
  assumes ok: "path_ok (pre @ c # post)" and c: "en_kind c = Compaction k"
    and post: "\<forall>e \<in> set post. \<not> is_compaction e"
  shows "pj_messages (project (pre @ c # post)) =
    entry_messages c @ concat (map (later_messages (context_edits (pre @ c # post)))
      (nonsystem (dropWhile (\<lambda>e. en_id e \<noteq> ce_first_kept_entry_id k) pre) @ post))"
proof -
  let ?ctx = "nonsystem (dropWhile (\<lambda>e. en_id e \<noteq> ce_first_kept_entry_id k) pre) @ post"
  have "set (c # ?ctx) \<subseteq> set (pre @ c # post)"
    by (auto simp: nonsystem_def dest: set_dropWhileD)
  then have "edited_messages (context_edits (c # ?ctx)) c = entry_messages c"
    using uneditable_unedited [OF ok, of c] compaction_not_editable [of c] c
    by (simp add: edited_messages_def is_compaction_def)
  moreover have "map (later_messages (context_edits (c # ?ctx))) ?ctx =
      map (later_messages (context_edits (pre @ c # post))) ?ctx"
    using context_edits_compacted [OF ok c] by (intro map_cong refl later_messages_cong)
  ultimately show ?thesis
    unfolding pj_messages_compacted [OF c post refl, of pre] by (simp only:)
qed

section \<open>Messages other than system messages\<close>

definition is_system_message :: "session_message \<Rightarrow> bool" where
  "is_system_message m = (case as_message m of Some (MsgSystem _) \<Rightarrow> True | _ \<Rightarrow> False)"

definition without_system :: "session_message list \<Rightarrow> session_message list" where
  "without_system ms = filter (\<lambda>m. \<not> is_system_message m) ms"

lemma without_system_append [simp]: "without_system (ms @ ms') = without_system ms @ without_system ms'"
  by (simp add: without_system_def)

lemma is_system_message_edit [simp]: "is_system_message (apply_edit r m) = is_system_message m"
  by (auto simp: is_system_message_def apply_edit_def as_message_def split: session_message.splits message.splits)

lemma without_system_later:
  assumes "path_ok path" and "e \<in> set path" and "set es \<subseteq> set path"
  shows "without_system (later_messages (context_edits es) e) =
    (if is_system_entry e then [] else later_messages (context_edits es) e)"
proof (cases "is_system_entry e")
  case True
  then have "context_edits es (en_id e) = None"
    using uneditable_unedited [OF assms(1,2) _ assms(3)] system_not_editable by blast
  with True show ?thesis
    by (auto simp: later_messages_def edited_messages_def entry_messages_def without_system_def
        is_system_entry_def is_system_message_def split: entry_kind.splits option.splits message.splits)
next
  case False
  have "\<forall>m \<in> set (entry_messages e). \<not> is_system_message m" if "\<not> is_compaction e"
    using False that
    by (auto simp: entry_messages_def is_system_entry_def is_compaction_def is_system_message_def as_message_def
        split: entry_kind.splits if_splits)
  with False show ?thesis
    by (auto simp: later_messages_def edited_messages_def without_system_def split: option.splits)
qed

lemma without_system_concat:
  assumes "path_ok path" and "set es \<subseteq> set path" and "set es' \<subseteq> set path"
  shows "without_system (concat (map (later_messages (context_edits es')) es)) =
    concat (map (later_messages (context_edits es')) (nonsystem es))"
  using assms(2)
proof (induction es)
  case (Cons e es)
  then show ?case
    using without_system_later [OF assms(1) _ assms(3), of e] by (simp add: nonsystem_def)
qed (simp add: without_system_def nonsystem_def)

end
