(* ===== verification/Pi_Estimate.thy ===== *)
theory Pi_Estimate
  imports Pi_Transcript
begin

text \<open>
  Fitting requests and repeating them, \<open>pi-ai/src/estimate.rs\<close> and \<open>overflow.rs\<close>: token estimates of a
  request, the output limit that fits the window, and the delay before a retry. The sizes of JSON texts and
  the verdicts of the regular expressions are parameters. The test for a filled window in \<open>f64\<close> is left out.
\<close>

section \<open>Arithmetic\<close>

definition saturating_sub :: "u64 \<Rightarrow> u64 \<Rightarrow> u64" where
  "saturating_sub a b = (if b \<le> a then a - b else 0)"

definition saturating_mul :: "u64 \<Rightarrow> u64 \<Rightarrow> u64" where
  "saturating_mul a b = (if unat a * unat b < 2 ^ 64 then a * b else - 1)"

lemma unat_u64_max: "unat (- 1 :: u64) = 2 ^ 64 - 1"
  by (simp add: unsigned_minus_1_eq_mask mask_eq_exp_minus_1)

lemma unat_below_u64: "unat (a :: u64) < 2 ^ 64"
  using unsigned_less [of a] by simp

lemma unat_u64_power: "n < 64 \<Longrightarrow> unat (2 ^ n :: u64) = 2 ^ n"
proof -
  assume "n < 64"
  then have "(2::nat) ^ n < 2 ^ 64" by (intro power_strict_increasing) auto
  then have "unat (of_nat (2 ^ n) :: u64) = 2 ^ n" by (subst unat_of_nat) simp
  then show ?thesis by simp
qed

lemma unat_u64_min: "unat (min a b :: u64) = min (unat a) (unat b)"
  by (simp add: min_def word_le_nat_alt)

lemma unat_saturating_sub: "unat (saturating_sub a b) = unat a - unat b"
  by (simp add: saturating_sub_def unat_sub word_le_nat_alt)

lemma unat_saturating_mul: "unat (saturating_mul a b) = min (unat a * unat b) (2 ^ 64 - 1)"
  by (simp add: saturating_mul_def unat_word_ariths unat_u64_max)

section \<open>Estimates of a request\<close>

text \<open>The characters of \<open>serde_json::to_string\<close>, zero when it fails, and the text of one value.\<close>

record json_texts =
  jt_tools_chars :: "tool list \<Rightarrow> nat"
  jt_removed_chars :: "tool_reference list \<Rightarrow> nat"
  jt_arguments_chars :: "(string \<times> json) list \<Rightarrow> nat"
  jt_value :: "json \<Rightarrow> string"

definition IMAGE_CHARS :: nat where
  "IMAGE_CHARS = 4800"

definition tokens_for_chars :: "nat \<Rightarrow> u64" where
  "tokens_for_chars chars =
     (let doubled = of_nat chars * 2 :: u64 in doubled div 7 + (if doubled mod 7 = 0 then 0 else 1))"

definition estimate_text_tokens :: "string \<Rightarrow> u64" where
  "estimate_text_tokens t = tokens_for_chars (length t)"

definition request_content_chars :: "content list \<Rightarrow> nat" where
  "request_content_chars cs =
     (\<Sum>c \<leftarrow> cs. case c of ContentText t \<Rightarrow> length (tx_text t) | ContentImage _ \<Rightarrow> IMAGE_CHARS)"

definition assistant_chars :: "json_texts \<Rightarrow> assistant_message \<Rightarrow> nat" where
  "assistant_chars js a =
     (\<Sum>b \<leftarrow> am_content a.
        case b of
          AssistantText t \<Rightarrow> length (tx_text t)
        | AssistantThinking t \<Rightarrow> length (th_thinking t)
        | AssistantToolCall c \<Rightarrow> length (tl_name c) + jt_arguments_chars js (tl_arguments c))"

definition estimate_tool_tokens :: "json_texts \<Rightarrow> tool list \<Rightarrow> u64" where
  "estimate_tool_tokens js tools = (if tools = [] then 0 else tokens_for_chars (jt_tools_chars js tools))"

definition estimate_message_tokens :: "json_texts \<Rightarrow> message \<Rightarrow> u64" where
  "estimate_message_tokens js m =
     (case m of
        MsgSystem s \<Rightarrow>
          estimate_text_tokens (system_message_text s) + estimate_tool_tokens js (sm_tools_added s) +
          (if sm_tools_removed s = [] then 0 else tokens_for_chars (jt_removed_chars js (sm_tools_removed s)))
      | MsgUser u \<Rightarrow> tokens_for_chars (request_content_chars (um_content u))
      | MsgToolResult r \<Rightarrow> tokens_for_chars (request_content_chars (tm_content r))
      | MsgAssistant a \<Rightarrow> tokens_for_chars (assistant_chars js a))"

text \<open>The loop: the newest time so far, and the last usage with the index of its message.\<close>

definition usage_step ::
    "nat \<times> message \<Rightarrow> timestamp option \<times> (nat \<times> u64) option \<Rightarrow> timestamp option \<times> (nat \<times> u64) option" where
  "usage_step im acc =
     (case (im, acc) of ((i, m), (latest_prefix, last_usage)) \<Rightarrow>
        ((case latest_prefix of None \<Rightarrow> Some (message_timestamp m) | Some t \<Rightarrow> Some (max t (message_timestamp m))),
         (case m of
            MsgAssistant a \<Rightarrow>
              if (case latest_prefix of None \<Rightarrow> True | Some t \<Rightarrow> t \<le> am_timestamp a) \<and> \<not> is_failure a \<and>
                 context_tokens (am_usage a) > 0
              then Some (i, context_tokens (am_usage a)) else last_usage
          | _ \<Rightarrow> last_usage)))"

definition request_context_tokens :: "json_texts \<Rightarrow> message list \<Rightarrow> u64" where
  "request_context_tokens js ms =
     (case snd (fold usage_step (enumerate 0 ms) (None, None)) of
        Some (i, tokens) \<Rightarrow> tokens + sum_list (map (estimate_message_tokens js) (drop (Suc i) ms))
      | None \<Rightarrow> sum_list (map (estimate_message_tokens js) ms))"

definition CONTEXT_SAFETY_TOKENS :: u64 where
  "CONTEXT_SAFETY_TOKENS = 4096"

definition clamp_max_tokens_to_context :: "json_texts \<Rightarrow> chat_model \<Rightarrow> message list \<Rightarrow> u64 \<Rightarrow> u64" where
  "clamp_max_tokens_to_context js model context_messages max_tokens =
     (if md_context_window model = 0 then max max_tokens 1
      else
        let available =
              saturating_sub
                (saturating_sub (md_context_window model) (request_context_tokens js context_messages))
                CONTEXT_SAFETY_TOKENS in
        min max_tokens (max available 1))"

text \<open>The clamped limit keeps input, output and margin inside the window, unless not even one token fits.\<close>

lemma clamp_max_tokens_fits:
  assumes "md_context_window model \<noteq> 0"
    and "unat (request_context_tokens js ms) + 4096 < unat (md_context_window model)"
  shows "unat (request_context_tokens js ms) + 4096 + unat (clamp_max_tokens_to_context js model ms n) \<le>
      unat (md_context_window model)"
proof -
  let ?a = "saturating_sub (saturating_sub (md_context_window model) (request_context_tokens js ms)) CONTEXT_SAFETY_TOKENS"
  have a: "unat ?a = unat (md_context_window model) - unat (request_context_tokens js ms) - 4096"
    by (simp add: unat_saturating_sub CONTEXT_SAFETY_TOKENS_def)
  then have "1 \<le> ?a" using assms(2) by (simp add: word_le_nat_alt)
  then have "clamp_max_tokens_to_context js model ms n \<le> ?a"
    using assms(1) by (simp add: clamp_max_tokens_to_context_def Let_def max_absorb1)
  with a assms(2) show ?thesis by (simp add: word_le_nat_alt)
qed

lemma clamp_max_tokens_le: "0 < n \<Longrightarrow> clamp_max_tokens_to_context js model ms n \<le> n"
proof -
  assume "0 < n"
  then have "1 \<le> n" by (simp add: word_le_nat_alt word_less_nat_alt)
  then show ?thesis by (simp add: clamp_max_tokens_to_context_def Let_def)
qed

section \<open>Retries\<close>

record error_patterns =
  ep_account_limit :: "string \<Rightarrow> bool"
  ep_retryable :: "string \<Rightarrow> bool"

definition is_retryable_error :: "error_patterns \<Rightarrow> assistant_message \<Rightarrow> bool" where
  "is_retryable_error patterns m \<longleftrightarrow>
     am_stop_reason m = StopError \<and>
     (case am_error_message m of
        Some err \<Rightarrow> \<not> ep_account_limit patterns err \<and> ep_retryable patterns err
      | None \<Rightarrow> False)"

definition is_recoverable_length :: "assistant_message \<Rightarrow> u64 \<Rightarrow> bool" where
  "is_recoverable_length m desired_max_output \<longleftrightarrow>
     am_stop_reason m = StopLength \<and> desired_max_output > 0 \<and> us_output (am_usage m) < desired_max_output"

definition retry_delay_ms :: "u64 \<Rightarrow> u64 \<Rightarrow> u32 \<Rightarrow> u64" where
  "retry_delay_ms base_ms max_ms attempt =
     (let shift = unat attempt - 1;
          factor = (if shift < 64 then push_bit shift 1 else - 1) in
      min (saturating_mul base_ms factor) max_ms)"

text \<open>
  C40: the delay before a retry is exactly the base times two to the number of earlier retries, capped at the
  longest delay. The shift out of range and the saturating product of the source never show in the result.
\<close>

theorem retry_delay_exact:
  "unat (retry_delay_ms base_ms max_ms attempt) = min (unat base_ms * 2 ^ (unat attempt - 1)) (unat max_ms)"
proof -
  define n where "n = unat attempt - 1"
  have top: "unat max_ms < 2 ^ 64" by (rule unat_below_u64)
  have "unat (min (saturating_mul base_ms factor) max_ms) = min (unat base_ms * unat factor) (unat max_ms)" for factor
    using top by (simp add: unat_u64_min unat_saturating_mul)
  moreover have "min (unat base_ms * unat (if n < 64 then push_bit n 1 else - 1 :: u64)) (unat max_ms) =
      min (unat base_ms * 2 ^ n) (unat max_ms)"
  proof (cases "n < 64")
    case False
    then have "(2::nat) ^ 64 \<le> 2 ^ n" by (intro power_increasing) auto
    then have "unat base_ms = 0 \<or> unat max_ms \<le> unat base_ms * 2 ^ n"
      using top by (metis le_trans less_imp_le mult.commute mult_le_mono1 mult_1 Suc_leI gr0I One_nat_def mult.left_neutral)
    moreover have "unat base_ms = 0 \<or> unat max_ms \<le> unat base_ms * (2 ^ 64 - 1)"
      using top by (cases "unat base_ms") auto
    ultimately show ?thesis using False by (auto simp: unat_u64_max min_def)
  qed (simp add: push_bit_eq_mult unat_u64_power)
  ultimately show ?thesis unfolding retry_delay_ms_def Let_def n_def [symmetric] by (simp only:)
qed

end
