(* ===== verification/Pi_Compaction.thy ===== *)
theory Pi_Compaction
  imports Pi_Projection Pi_Estimate
begin

text \<open>
  Compaction of a session, \<open>pi-coding-agent/src/compaction.rs\<close>, with the
  requests for summaries: estimates of the context, the cut, what is summarized, the requests for summaries,
  and the result to record. The sizes of JSON texts and the verdicts of the regular expressions are
  parameters. The texts of the prompts are left out: a request names its kind and carries the conversation.
\<close>

section \<open>Settings\<close>

record compaction_model_override =
  co_reserve_tokens :: "u64 option"
  co_keep_recent_tokens :: "u64 option"

record compaction_settings =
  cx_enabled :: bool
  cx_reserve_tokens :: u64
  cx_keep_recent_tokens :: u64
  cx_model_overrides :: "(string, compaction_model_override) hash_map"
  cx_read_tools :: "string list"
  cx_write_tools :: "string list"

definition default_settings :: compaction_settings where
  "default_settings =
     \<lparr>cx_enabled = True, cx_reserve_tokens = 16384, cx_keep_recent_tokens = 20000, cx_model_overrides = fmempty,
      cx_read_tools = [''read''], cx_write_tools = [''write'', ''edit'']\<rparr>"

definition settings_for_model :: "compaction_settings \<Rightarrow> chat_model option \<Rightarrow> compaction_settings" where
  "settings_for_model self model =
     (case Option.bind model (\<lambda>m. fmlookup (cx_model_overrides self) (md_provider m @ ''/'' @ md_id m)) of
        Some override \<Rightarrow>
          self\<lparr>cx_reserve_tokens := (case co_reserve_tokens override of Some n \<Rightarrow> n | None \<Rightarrow> cx_reserve_tokens self),
               cx_keep_recent_tokens :=
                 (case co_keep_recent_tokens override of Some n \<Rightarrow> n | None \<Rightarrow> cx_keep_recent_tokens self)\<rparr>
      | None \<Rightarrow> self)"

definition should_compact :: "u64 \<Rightarrow> u64 \<Rightarrow> compaction_settings \<Rightarrow> bool" where
  "should_compact context_size context_window settings \<longleftrightarrow>
     cx_enabled settings \<and> context_window > 0 \<and>
     context_size > saturating_sub context_window (cx_reserve_tokens settings)"

section \<open>Estimates\<close>

definition content_chars :: "content list \<Rightarrow> nat" where
  "content_chars cs = (\<Sum>c \<leftarrow> cs. case c of ContentText t \<Rightarrow> length (tx_text t) | ContentImage _ \<Rightarrow> 4800)"

definition message_chars :: "json_texts \<Rightarrow> session_message \<Rightarrow> nat" where
  "message_chars js m =
     (case m of
        Llm (MsgSystem s) \<Rightarrow>
          length (sm_content s) + (\<Sum>t \<leftarrow> List.map_filter snd (sm_sections s). length t) +
          (if sm_tools_added s = [] then 0 else jt_tools_chars js (sm_tools_added s))
      | Llm (MsgUser u) \<Rightarrow> content_chars (um_content u)
      | Llm (MsgToolResult r) \<Rightarrow> content_chars (tm_content r)
      | CustomMsg c \<Rightarrow> content_chars (cm_content c)
      | Llm (MsgAssistant a) \<Rightarrow> assistant_chars js a
      | BashExecution b \<Rightarrow> length (be_command b) + length (be_output b)
      | CompactionSummary s \<Rightarrow> length (cs_summary s)
      | BranchSummaryMsg s \<Rightarrow> length (bs_summary s))"

definition estimate_tokens :: "json_texts \<Rightarrow> session_message \<Rightarrow> u64" where
  "estimate_tokens js m = of_nat ((message_chars js m + 3) div 4)"

definition estimate_all :: "json_texts \<Rightarrow> session_message list \<Rightarrow> u64" where
  "estimate_all js ms = sum_list (map (estimate_tokens js) ms)"

text \<open>A response with a usage that counts.\<close>

definition reports_usage :: "session_message \<Rightarrow> bool" where
  "reports_usage m =
     (case m of
        Llm (MsgAssistant a) \<Rightarrow> \<not> is_failure a \<and> context_tokens (am_usage a) > 0
      | _ \<Rightarrow> False)"

definition reported_tokens :: "session_message \<Rightarrow> u64" where
  "reported_tokens m = (case m of Llm (MsgAssistant a) \<Rightarrow> context_tokens (am_usage a) | _ \<Rightarrow> 0)"

definition estimate_context_tokens :: "json_texts \<Rightarrow> session_message list \<Rightarrow> u64" where
  "estimate_context_tokens js ms =
     (let compacted_at = find (\<lambda>m. case m of CompactionSummary _ \<Rightarrow> True | _ \<Rightarrow> False) (rev ms);
          after = (\<lambda>m. case compacted_at of
            Some s \<Rightarrow> session_message_timestamp m > session_message_timestamp s | None \<Rightarrow> True) in
      case rposition (\<lambda>m. reports_usage m \<and> after m) ms of
        Some i \<Rightarrow> reported_tokens (ms ! i) + estimate_all js (drop (Suc i) ms)
      | None \<Rightarrow> estimate_all js ms)"

fun source_entry :: "nat \<Rightarrow> projected_entry list \<Rightarrow> projected_entry option" where
  "source_entry i [] = None"
| "source_entry i (e # es) =
     (if i < length (pe_messages e) then Some e else source_entry (i - length (pe_messages e)) es)"

text \<open>\<open>Option<usize>\<close> in its derived order.\<close>

definition option_less :: "nat option \<Rightarrow> nat option \<Rightarrow> bool" where
  "option_less a b = (case (a, b) of (None, Some _) \<Rightarrow> True | (Some x, Some y) \<Rightarrow> x < y | _ \<Rightarrow> False)"

definition changes_context :: "session_entry \<Rightarrow> bool" where
  "changes_context e = (case en_kind e of ContextEdit _ _ \<Rightarrow> True | Compaction _ \<Rightarrow> True | _ \<Rightarrow> False)"

definition estimate_projected_context_tokens ::
    "json_texts \<Rightarrow> session_projection \<Rightarrow> session_entry list \<Rightarrow> u64" where
  "estimate_projected_context_tokens js projected path =
     (let ms = pj_messages projected;
          prompt =
            (case current_system_message (List.map_filter as_message ms) of
               Some s \<Rightarrow> estimate_tokens js (Llm (MsgSystem s))
             | None \<Rightarrow> 0);
          estimated = prompt + estimate_all js (without_system ms) in
      case rposition reports_usage ms of
        Some i \<Rightarrow>
          let measured_at = Option.bind (source_entry i (pj_entries projected))
                (\<lambda>source. position_of (\<lambda>e. en_id e = pe_entry_id source) path);
              changed_at = rposition changes_context path in
          if option_less changed_at measured_at
          then reported_tokens (ms ! i) + estimate_all js (drop (Suc i) ms)
          else estimated
      | None \<Rightarrow> estimated)"

section \<open>The cut\<close>

definition is_cut_point :: "session_message \<Rightarrow> bool" where
  "is_cut_point m = (case m of Llm (MsgToolResult _) \<Rightarrow> False | Llm (MsgSystem _) \<Rightarrow> False | _ \<Rightarrow> True)"

definition is_turn_start :: "session_message \<Rightarrow> bool" where
  "is_turn_start m =
     (case m of
        Llm (MsgToolResult _) \<Rightarrow> False
      | Llm (MsgSystem _) \<Rightarrow> False
      | Llm (MsgAssistant _) \<Rightarrow> False
      | _ \<Rightarrow> True)"

record cut_point =
  cp_first_kept :: nat
  cp_turn_start :: "nat option"

definition visible :: "projected_entry list \<Rightarrow> nat \<Rightarrow> (session_message \<Rightarrow> bool) \<Rightarrow> bool" where
  "visible entries i test \<longleftrightarrow> \<not> pe_is_compaction (entries ! i) \<and> list_ex test (pe_messages (entries ! i))"

text \<open>The index at which the entries from the end on reach the size to keep.\<close>

fun recent_start :: "json_texts \<Rightarrow> projected_entry list \<Rightarrow> u64 \<Rightarrow> u64 \<Rightarrow> nat list \<Rightarrow> nat option" where
  "recent_start js entries keep accumulated [] = None"
| "recent_start js entries keep accumulated (i # is) =
     (let tokens = estimate_all js (pe_messages (entries ! i)) in
      if tokens = 0 then recent_start js entries keep accumulated is
      else
        let accumulated = accumulated + tokens in
        if accumulated \<ge> keep then Some i else recent_start js entries keep accumulated is)"

fun onto_state_entries :: "projected_entry list \<Rightarrow> nat \<Rightarrow> nat \<Rightarrow> nat" where
  "onto_state_entries entries start pos =
     (if pos > start \<and> \<not> pe_is_compaction (entries ! (pos - 1)) \<and> pe_messages (entries ! (pos - 1)) = []
      then onto_state_entries entries start (pos - 1) else pos)"

declare onto_state_entries.simps [simp del]

definition find_cut_point ::
    "json_texts \<Rightarrow> projected_entry list \<Rightarrow> nat \<Rightarrow> nat \<Rightarrow> u64 \<Rightarrow> cut_point" where
  "find_cut_point js entries start limit keep_recent_tokens =
     (let cut_points = filter (\<lambda>i. visible entries i is_cut_point) [start..<limit] in
      case cut_points of
        [] \<Rightarrow> \<lparr>cp_first_kept = start, cp_turn_start = None\<rparr>
      | first # _ \<Rightarrow>
          let cut =
                (case recent_start js entries keep_recent_tokens 0 (rev [start..<limit]) of
                   Some i \<Rightarrow>
                     (case find (\<lambda>c. c \<ge> i) cut_points of Some c \<Rightarrow> c | None \<Rightarrow> last cut_points)
                 | None \<Rightarrow> first);
              splits_turn = (\<not> visible entries cut is_turn_start);
              pos = onto_state_entries entries start cut in
          \<lparr>cp_first_kept = pos,
           cp_turn_start =
             (if splits_turn then find (\<lambda>i. visible entries i is_turn_start) (rev [start..<Suc pos]) else None)\<rparr>)"

section \<open>File lists\<close>

record file_operations =
  fo_read :: "string hash_set"
  fo_modified :: "string hash_set"

definition default_file_operations :: file_operations where
  "default_file_operations = \<lparr>fo_read = {||}, fo_modified = {||}\<rparr>"

definition record_call :: "compaction_settings \<Rightarrow> file_operations \<Rightarrow> tool_call \<Rightarrow> file_operations" where
  "record_call settings self call =
     (case Option.bind (map_of (tl_arguments call) ''path'') as_str of
        None \<Rightarrow> self
      | Some path \<Rightarrow>
          if tl_name call \<in> set (cx_read_tools settings) then self\<lparr>fo_read := finsert path (fo_read self)\<rparr>
          else if tl_name call \<in> set (cx_write_tools settings)
          then self\<lparr>fo_modified := finsert path (fo_modified self)\<rparr>
          else self)"

definition record_message :: "compaction_settings \<Rightarrow> file_operations \<Rightarrow> session_message \<Rightarrow> file_operations" where
  "record_message settings self m =
     (case m of Llm (MsgAssistant a) \<Rightarrow> foldl (record_call settings) self (tool_calls a) | _ \<Rightarrow> self)"

definition file_list :: "json \<Rightarrow> string \<Rightarrow> string list" where
  "file_list details key =
     (case as_array (json_index details key) of Some vs \<Rightarrow> List.map_filter as_str vs | None \<Rightarrow> [])"

definition add_details :: "file_operations \<Rightarrow> json \<Rightarrow> file_operations" where
  "add_details self details =
     \<lparr>fo_read = fo_read self |\<union>| fset_of_list (file_list details ''readFiles''),
      fo_modified = fo_modified self |\<union>| fset_of_list (file_list details ''modifiedFiles'')\<rparr>"

text \<open>Files only read, and files changed, in the order of a \<open>BTreeSet\<close>.\<close>

definition file_lists :: "file_operations \<Rightarrow> string list \<times> string list" where
  "file_lists self =
     (sorted_list_of_fset (fo_read self |-| fo_modified self), sorted_list_of_fset (fo_modified self))"

definition format_file_operations :: "string list \<Rightarrow> string list \<Rightarrow> string" where
  "format_file_operations read_files modified_files =
     (let sections =
        (if read_files \<noteq> []
         then [''<read-files>'' @ newline @ join_with newline read_files @ newline @ ''</read-files>''] else []) @
        (if modified_files \<noteq> []
         then [''<modified-files>'' @ newline @ join_with newline modified_files @ newline @ ''</modified-files>'']
         else []) in
      if sections = [] then [] else blank_line @ join_with blank_line sections)"

section \<open>Preparing a compaction\<close>

record compaction_preparation =
  cn_first_kept_entry_id :: string
  cn_messages_to_summarize :: "session_message list"
  cn_turn_prefix_messages :: "session_message list"
  cn_tokens_before :: u64
  cn_previous_summary :: "string option"
  cn_file_operations :: file_operations
  cn_settings :: compaction_settings

definition entries_messages :: "projected_entry list \<Rightarrow> session_message list" where
  "entries_messages es = without_system (concat (map pe_messages es))"

definition previous_compaction :: "session_entry list \<Rightarrow> projected_entry list \<Rightarrow> session_entry option" where
  "previous_compaction path entries =
     (case entries of
        [] \<Rightarrow> None
      | e # _ \<Rightarrow>
          if pe_is_compaction e \<and> pe_messages e \<noteq> [] then find (\<lambda>c. en_id c = pe_entry_id e) path else None)"

definition prepare_compaction ::
    "json_texts \<Rightarrow> session_entry list \<Rightarrow> compaction_settings \<Rightarrow> compaction_preparation option" where
  "prepare_compaction js path settings =
     (if path \<noteq> [] \<and> is_compaction (last path) then None
      else
        let projected = project path;
            entries = pj_entries projected;
            previous = previous_compaction path entries;
            previous_summary = Option.bind previous
              (\<lambda>e. case en_kind e of Compaction c \<Rightarrow> Some (ce_summary c) | _ \<Rightarrow> None);
            start = (if previous \<noteq> None then 1 else 0);
            cut = find_cut_point js entries start (length entries) (cx_keep_recent_tokens settings) in
        if cp_first_kept cut \<ge> length entries then None
        else
          let history_end = (case cp_turn_start cut of Some t \<Rightarrow> t | None \<Rightarrow> cp_first_kept cut);
              messages_to_summarize = entries_messages (drop start (take history_end entries));
              turn_prefix_messages =
                (case cp_turn_start cut of
                   Some t \<Rightarrow> entries_messages (drop t (take (cp_first_kept cut) entries))
                 | None \<Rightarrow> []) in
          if messages_to_summarize = [] \<and> turn_prefix_messages = [] then None
          else
            let files =
                  (case previous of
                     Some e \<Rightarrow>
                       (case en_kind e of
                          Compaction c \<Rightarrow>
                            (case ce_details c of
                               Some details \<Rightarrow>
                                 if ce_from_extension c then default_file_operations
                                 else add_details default_file_operations details
                             | None \<Rightarrow> default_file_operations)
                        | _ \<Rightarrow> default_file_operations)
                   | None \<Rightarrow> default_file_operations) in
            Some \<lparr>cn_first_kept_entry_id = pe_entry_id (entries ! cp_first_kept cut),
                  cn_messages_to_summarize = messages_to_summarize,
                  cn_turn_prefix_messages = turn_prefix_messages,
                  cn_tokens_before = estimate_projected_context_tokens js projected path,
                  cn_previous_summary = previous_summary,
                  cn_file_operations =
                    foldl (record_message settings) files (messages_to_summarize @ turn_prefix_messages),
                  cn_settings = settings\<rparr>)"

section \<open>Conversations as text\<close>

definition TOOL_RESULT_MAX_CHARS :: nat where
  "TOOL_RESULT_MAX_CHARS = 2000"

definition call_text :: "json_texts \<Rightarrow> tool_call \<Rightarrow> string" where
  "call_text js call =
     tl_name call @ ''('' @
     join_with '', '' (map (\<lambda>(key, v). key @ ''='' @ jt_value js v) (tl_arguments call)) @ '')''"

definition shown_result :: "string \<Rightarrow> string" where
  "shown_result t =
     (if length t > TOOL_RESULT_MAX_CHARS
      then take TOOL_RESULT_MAX_CHARS t @ blank_line @ ''[... '' @ show_nat (length t - TOOL_RESULT_MAX_CHARS) @
           '' more characters truncated]''
      else t)"

definition conversation_parts :: "json_texts \<Rightarrow> message \<Rightarrow> string list" where
  "conversation_parts js m =
     (case m of
        MsgUser u \<Rightarrow>
          let t = content_text (um_content u) in if t \<noteq> [] then [''[User]: '' @ t] else []
      | MsgAssistant a \<Rightarrow>
          let calls = map (call_text js) (tool_calls a); t = assistant_text a in
          (if t \<noteq> [] then [''[Assistant]: '' @ t] else []) @
          (if calls \<noteq> [] then [''[Assistant tool calls]: '' @ join_with ''; '' calls] else [])
      | MsgToolResult r \<Rightarrow>
          let t = content_text (tm_content r) in if t \<noteq> [] then [''[Tool result]: '' @ shown_result t] else []
      | MsgSystem _ \<Rightarrow> [])"

definition serialize_conversation :: "json_texts \<Rightarrow> message list \<Rightarrow> string" where
  "serialize_conversation js ms = join_with blank_line (concat (map (conversation_parts js) ms))"

section \<open>Summary requests\<close>

text \<open>
  The model is a parameter: the response to a prompt at each attempt, and whether the request was cancelled
  when the response arrived or during the delay. No definition looks at the texts of the instructions.
\<close>

record summarizer =
  sz_model :: chat_model
  sz_reasoning :: "thinking_level option"
  sz_stream :: "thinking_level option \<Rightarrow> string \<Rightarrow> u32 \<Rightarrow> assistant_message"
  sz_cancelled :: "string \<Rightarrow> u32 \<Rightarrow> bool"
  sz_waited :: "string \<Rightarrow> u32 \<Rightarrow> bool"
  sz_patterns :: error_patterns
  sz_max_retries :: u32
  sz_retry_base_ms :: u64
  sz_retry_max_ms :: u64

record instruction_texts =
  it_summary :: string
  it_update :: string
  it_turn_prefix :: string
  it_branch :: string
  it_branch_preamble :: string

datatype summary_retry = Scheduled u32 u32 u64 string | AttemptStart | Finished

definition error_text :: "assistant_message \<Rightarrow> string" where
  "error_text m = (case am_error_message m of Some e \<Rightarrow> e | None \<Rightarrow> ''Unknown error'')"

definition request_reasoning :: "summarizer \<Rightarrow> thinking_level option" where
  "request_reasoning self =
     (case sz_reasoning self of
        Some level \<Rightarrow> if md_reasoning (sz_model self) \<and> level \<noteq> ThinkOff then Some level else None
      | None \<Rightarrow> None)"

definition summary_outcome :: "string \<Rightarrow> assistant_message \<Rightarrow> string + string \<times> usage" where
  "summary_outcome label response =
     (case am_stop_reason response of
        StopError \<Rightarrow> Inl (label @ '' failed: '' @ error_text response)
      | StopAborted \<Rightarrow> Inl (label @ '' failed: '' @ error_text response)
      | StopLength \<Rightarrow> Inl (label @ '' failed: generation hit the token cap and the summary is incomplete'')
      | _ \<Rightarrow>
          if tool_calls response \<noteq> [] then Inl (label @ '' attempted to call a tool'')
          else Inr (assistant_text response, am_usage response))"

lemma unat_Suc_u32: "(a :: u32) < b \<Longrightarrow> unat (a + 1) = Suc (unat a)"
proof -
  assume "a < b"
  moreover have "unat b < 2 ^ 32" using unsigned_less [of b] by simp
  ultimately show ?thesis by (simp add: unat_word_ariths word_less_nat_alt)
qed

text \<open>The loop from an attempt on, with the retries it reports.\<close>

function summarize_from ::
    "summarizer \<Rightarrow> string \<Rightarrow> string \<Rightarrow> u32 \<Rightarrow> summary_retry list \<times> (string + string \<times> usage)" where
  "summarize_from self prompt label attempt =
     (let response = sz_stream self (request_reasoning self) prompt attempt;
          finished = (\<lambda>n. if n > 0 then [Finished] else []) in
      if is_retryable_error (sz_patterns self) response \<and> attempt < sz_max_retries self \<and>
         \<not> sz_cancelled self prompt attempt
      then
        let scheduled =
              Scheduled (attempt + 1) (sz_max_retries self)
                (retry_delay_ms (sz_retry_base_ms self) (sz_retry_max_ms self) (attempt + 1)) (error_text response) in
        if sz_waited self prompt attempt
        then (case summarize_from self prompt label (attempt + 1) of
                (events, r) \<Rightarrow> (scheduled # AttemptStart # events, r))
        else (scheduled # finished (attempt + 1), summary_outcome label response)
      else (finished attempt, summary_outcome label response))"
  by pat_completeness auto
termination
  by (relation "measure (\<lambda>(self, _, _, attempt). unat (sz_max_retries self) - unat attempt)")
     (auto simp: unat_Suc_u32 word_less_nat_alt)

declare summarize_from.simps [simp del]

definition summarize :: "summarizer \<Rightarrow> string \<Rightarrow> string \<Rightarrow> summary_retry list \<times> (string + string \<times> usage)" where
  "summarize self prompt label = summarize_from self prompt label 0"

section \<open>Summaries\<close>

record compaction_result =
  cr_summary :: string
  cr_first_kept_entry_id :: string
  cr_tokens_before :: u64
  cr_usage :: usage
  cr_details :: "json option"

definition focus_text :: "string option \<Rightarrow> string" where
  "focus_text custom_instructions =
     (case custom_instructions of
        Some instructions \<Rightarrow> blank_line @ ''Additional focus: '' @ instructions
      | None \<Rightarrow> [])"

definition history_prompt ::
    "json_texts \<Rightarrow> instruction_texts \<Rightarrow> compaction_preparation \<Rightarrow> string option \<Rightarrow> string" where
  "history_prompt js texts preparation custom_instructions =
     ''<conversation>'' @ newline @
     serialize_conversation js (convert_to_llm (cn_messages_to_summarize preparation)) @ newline @
     ''</conversation>'' @ blank_line @
     (case cn_previous_summary preparation of
        Some previous \<Rightarrow>
          ''<previous-summary>'' @ newline @ previous @ newline @ ''</previous-summary>'' @ blank_line @ it_update texts
      | None \<Rightarrow> it_summary texts) @
     focus_text custom_instructions"

definition turn_prefix_prompt ::
    "json_texts \<Rightarrow> instruction_texts \<Rightarrow> compaction_preparation \<Rightarrow> string option \<Rightarrow> string" where
  "turn_prefix_prompt js texts preparation custom_instructions =
     ''# Conversation'' @ newline @
     serialize_conversation js (convert_to_llm (cn_turn_prefix_messages preparation)) @ blank_line @
     ''# Instructions'' @ newline @ it_turn_prefix texts @ focus_text custom_instructions"

definition summary_text ::
    "json_texts \<Rightarrow> instruction_texts \<Rightarrow> compaction_preparation \<Rightarrow> summarizer \<Rightarrow> string option \<Rightarrow>
      string + string \<times> usage" where
  "summary_text js texts preparation self custom_instructions =
     (let history = snd (summarize self (history_prompt js texts preparation custom_instructions) ''Summarization'') in
      if cn_turn_prefix_messages preparation = [] then history
      else
        and_then
          (if cn_messages_to_summarize preparation = []
           then Inr (case cn_previous_summary preparation of Some s \<Rightarrow> s | None \<Rightarrow> ''No prior history.'', default_usage)
           else history)
          (\<lambda>(history_text, history_usage).
        and_then
          (snd (summarize self (turn_prefix_prompt js texts preparation custom_instructions)
             ''Turn prefix summarization''))
          (\<lambda>(prefix, prefix_usage).
        Inr (history_text @ blank_line @ ''---'' @ blank_line @ ''**Turn Context (split turn):**'' @ blank_line @ prefix,
             usage_add history_usage prefix_usage))))"

definition compact ::
    "json_texts \<Rightarrow> instruction_texts \<Rightarrow> compaction_preparation \<Rightarrow> summarizer \<Rightarrow> string option \<Rightarrow>
      string + compaction_result" where
  "compact js texts preparation self custom_instructions =
     and_then (summary_text js texts preparation self custom_instructions) (\<lambda>(summary, used).
     let (read_files, modified_files) = file_lists (cn_file_operations preparation) in
     Inr \<lparr>cr_summary = summary @ format_file_operations read_files modified_files,
          cr_first_kept_entry_id = cn_first_kept_entry_id preparation,
          cr_tokens_before = cn_tokens_before preparation, cr_usage = used,
          cr_details = Some (JObject [(''readFiles'', JArray (map JString read_files)),
                                      (''modifiedFiles'', JArray (map JString modified_files))])\<rparr>)"

section \<open>Summaries of branches\<close>

record branch_summary_result =
  br_summary :: string
  br_usage :: usage
  br_read_files :: "string list"
  br_modified_files :: "string list"

definition branch_details :: "file_operations \<Rightarrow> session_entry \<Rightarrow> file_operations" where
  "branch_details files e =
     (case en_kind e of
        BranchSummary b \<Rightarrow>
          (case bx_details b of
             Some details \<Rightarrow> if bx_from_extension b then files else add_details files details
           | None \<Rightarrow> files)
      | _ \<Rightarrow> files)"

definition branch_messages :: "(string \<rightharpoonup> content list option) \<Rightarrow> session_entry \<Rightarrow> session_message list" where
  "branch_messages edits e =
     filter (\<lambda>m. case as_message m of Some (MsgSystem _) \<Rightarrow> False | Some (MsgToolResult _) \<Rightarrow> False | _ \<Rightarrow> True)
       (edited_messages edits e)"

text \<open>The loop over the entries from the newest one: the messages taken, newest first, and the files.\<close>

fun take_newest ::
    "json_texts \<Rightarrow> compaction_settings \<Rightarrow> (string \<rightharpoonup> content list option) \<Rightarrow> u64 \<Rightarrow> file_operations \<Rightarrow> u64 \<Rightarrow>
      session_entry list \<Rightarrow> session_message list list \<times> file_operations" where
  "take_newest js settings edits token_budget files used [] = ([], files)"
| "take_newest js settings edits token_budget files used (e # older) =
     (let ms = branch_messages edits e in
      if ms = [] then take_newest js settings edits token_budget files used older
      else
        let files = foldl (record_message settings) files ms;
            tokens = estimate_all js ms in
        if token_budget > 0 \<and> used + tokens > token_budget then
          ((if (case en_kind e of Compaction _ \<Rightarrow> True | BranchSummary _ \<Rightarrow> True | _ \<Rightarrow> False) \<and>
               saturating_mul used 10 < saturating_mul token_budget 9
            then [ms] else []), files)
        else
          (case take_newest js settings edits token_budget files (used + tokens) older of
             (taken, files) \<Rightarrow> (ms # taken, files)))"

definition summarize_branch ::
    "json_texts \<Rightarrow> instruction_texts \<Rightarrow> session_entry list \<Rightarrow> summarizer \<Rightarrow> compaction_settings \<Rightarrow> u64 \<Rightarrow>
      string option \<Rightarrow> bool \<Rightarrow> string + branch_summary_result" where
  "summarize_branch js texts entries self settings token_budget custom_instructions replace_instructions =
     (let files = foldl branch_details default_file_operations entries;
          (newest_first, files) = take_newest js settings (context_edits entries) token_budget files 0 (rev entries);
          conversation = serialize_conversation js (convert_to_llm (concat (rev newest_first))) in
      if conversation = []
      then Inr \<lparr>br_summary = [], br_usage = default_usage, br_read_files = [], br_modified_files = []\<rparr>
      else
        let instructions =
              (case custom_instructions of
                 Some custom \<Rightarrow>
                   if replace_instructions then custom
                   else it_branch texts @ blank_line @ ''Additional focus: '' @ custom
               | None \<Rightarrow> it_branch texts);
            prompt = ''<conversation>'' @ newline @ conversation @ newline @ ''</conversation>'' @ blank_line @ instructions in
        and_then (snd (summarize self prompt ''Branch summarization'')) (\<lambda>(t, used).
        let (read_files, modified_files) = file_lists files in
        Inr \<lparr>br_summary = it_branch_preamble texts @ t @ format_file_operations read_files modified_files,
             br_usage = used, br_read_files = read_files, br_modified_files = modified_files\<rparr>))"

end
