(* ===== verification/Pi_Store.thy ===== *)
theory Pi_Store
  imports Pi_Session_Tree
begin

text \<open>
  The stores of a session, \<open>pi-coding-agent/src/store.rs\<close>: one that keeps nothing, and one that keeps a file of
  JSON lines, with \<open>SessionManager::open_file\<close>. The state of the second has the bytes of its file and of the
  file a rewrite is staged in. Encoding and decoding of JSON is a parameter, and so is what fails: every
  call on the file system takes the next entry of a schedule of faults. A call that fails may have written a
  part of its bytes, which is also what a crash leaves behind.
\<close>

section \<open>Nothing kept\<close>

definition memory_store :: "unit store_ops" where
  "memory_store =
     \<lparr>st_write_all_with_base = (\<lambda>_ _ _ _. (Inr (), ())), st_append_with_context = (\<lambda>_ _ _. (Inr (), ())),
      st_contains_entry = (\<lambda>_ _. (Inr False, ()))\<rparr>"

section \<open>A file of JSON lines\<close>

text \<open>What \<open>serde_json\<close> makes of a line: no value, an object of type session, or another value.\<close>

datatype line_value = NotJson | HeaderValue "session_header option" | EntryValue "session_entry option"

record codec =
  cd_header :: "session_header \<Rightarrow> bytes option"
  cd_entry :: "session_entry \<Rightarrow> bytes option"
  cd_parse :: "bytes \<Rightarrow> line_value"

datatype io_fault = NoFault | FailBefore io_error | FailAfter nat io_error

record jsonl_store =
  jl_codec :: codec
  jl_file :: "bytes option"
  jl_staging :: "bytes option"
  jl_entry_ids :: "string hash_set option"
  jl_faults :: "nat \<Rightarrow> io_fault"
  jl_calls :: nat

definition jsonl_new :: "codec \<Rightarrow> bytes option \<Rightarrow> bytes option \<Rightarrow> (nat \<Rightarrow> io_fault) \<Rightarrow> nat \<Rightarrow> jsonl_store" where
  "jsonl_new cd file staging faults calls =
     \<lparr>jl_codec = cd, jl_file = file, jl_staging = staging, jl_entry_ids = None, jl_faults = faults, jl_calls = calls\<rparr>"

definition next_fault :: "jsonl_store \<Rightarrow> io_fault \<times> jsonl_store" where
  "next_fault st = (jl_faults st (jl_calls st), st\<lparr>jl_calls := Suc (jl_calls st)\<rparr>)"

text \<open>\<open>BufRead::split(b'\n')\<close>: no piece after a final newline.\<close>

function split_lines :: "bytes \<Rightarrow> bytes list" where
  "split_lines bs =
     (if bs = [] then []
      else takeWhile (\<lambda>b. b \<noteq> 10) bs # split_lines (drop 1 (dropWhile (\<lambda>b. b \<noteq> 10) bs)))"
  by pat_completeness auto
termination
proof (relation "measure length")
  fix bs :: bytes
  assume "bs \<noteq> []"
  then show "(drop 1 (dropWhile (\<lambda>b. b \<noteq> 10) bs), bs) \<in> measure length"
    using length_dropWhile_le [of "\<lambda>b. b \<noteq> 10" bs] by (cases bs) (auto simp: le_imp_less_Suc)
qed simp

declare split_lines.simps [simp del]

text \<open>\<open>trim_ascii().is_empty()\<close>.\<close>

definition is_blank :: "bytes \<Rightarrow> bool" where
  "is_blank bs = list_all (\<lambda>b. b \<in> {9, 10, 12, 13, 32}) bs"

definition load_line ::
    "codec \<Rightarrow> session_header option \<times> session_entry list \<times> bool \<Rightarrow> bytes \<Rightarrow>
      session_header option \<times> session_entry list \<times> bool" where
  "load_line cd acc line =
     (case acc of (header, entries, saw_content) \<Rightarrow>
        if is_blank line then acc
        else
          case cd_parse cd line of
            NotJson \<Rightarrow> (header, entries, True)
          | HeaderValue h \<Rightarrow> ((if header = None then h else header), entries, True)
          | EntryValue (Some e) \<Rightarrow> (header, entries @ [e], True)
          | EntryValue None \<Rightarrow> (header, entries, True))"

definition load_bytes :: "codec \<Rightarrow> bytes \<Rightarrow> io_error + (session_header \<times> session_entry list) option" where
  "load_bytes cd bs =
     (case foldl (load_line cd) (None, [], False) (split_lines bs) of
        (Some header, entries, _) \<Rightarrow> Inr (Some (header, entries))
      | (None, _, saw_content) \<Rightarrow> if \<not> saw_content then Inr None else Inl IoInvalidData)"

definition jsonl_load ::
    "jsonl_store \<Rightarrow> (io_error + (session_header \<times> session_entry list) option) \<times> jsonl_store" where
  "jsonl_load st =
     (case next_fault st of (fault, st) \<Rightarrow>
        ((case fault of
            FailBefore err \<Rightarrow> Inl err
          | FailAfter _ err \<Rightarrow> Inl err
          | NoFault \<Rightarrow> (case jl_file st of None \<Rightarrow> Inr None | Some bs \<Rightarrow> load_bytes (jl_codec st) bs)), st))"

definition header_line :: "codec \<Rightarrow> session_header \<Rightarrow> bytes option" where
  "header_line cd h = map_option (\<lambda>l. l @ [10]) (cd_header cd h)"

definition entry_line :: "codec \<Rightarrow> session_entry \<Rightarrow> bytes option" where
  "entry_line cd e = map_option (\<lambda>l. l @ [10]) (cd_entry cd e)"

definition jsonl_contains_entry :: "jsonl_store \<Rightarrow> string \<Rightarrow> (io_error + bool) \<times> jsonl_store" where
  "jsonl_contains_entry st eid =
     (case jl_entry_ids st of
        Some known \<Rightarrow> (Inr (eid |\<in>| known), st)
      | None \<Rightarrow>
          (case jsonl_load st of
             (Inl err, st) \<Rightarrow> (Inl err, st)
           | (Inr loaded, st) \<Rightarrow>
               let known = (case loaded of Some (_, entries) \<Rightarrow> fset_of_list (map en_id entries) | None \<Rightarrow> {||}) in
               (Inr (eid |\<in>| known), st\<lparr>jl_entry_ids := Some known\<rparr>)))"

text \<open>The bytes of a rewrite, up to the first line that cannot be encoded.\<close>

fun encode_lines :: "bytes option list \<Rightarrow> bytes \<times> bool" where
  "encode_lines [] = ([], True)"
| "encode_lines (None # ls) = ([], False)"
| "encode_lines (Some l # ls) = (case encode_lines ls of (bs, whole) \<Rightarrow> (l @ bs, whole))"

definition jsonl_write_all ::
    "jsonl_store \<Rightarrow> session_header \<Rightarrow> session_base option \<Rightarrow> session_entry list \<Rightarrow> (io_error + unit) \<times> jsonl_store" where
  "jsonl_write_all st header initial_base entries =
     (case next_fault st of (fault, st) \<Rightarrow>
        case encode_lines (header_line (jl_codec st) header # map (entry_line (jl_codec st)) entries) of
          (content, whole) \<Rightarrow>
            (case fault of
               FailBefore err \<Rightarrow> (Inl err, st)
             | FailAfter n err \<Rightarrow> (Inl err, st\<lparr>jl_staging := Some (take n content)\<rparr>)
             | NoFault \<Rightarrow>
                 if \<not> whole then (Inl IoOther, st\<lparr>jl_staging := Some content\<rparr>)
                 else (Inr (), st\<lparr>jl_file := Some content, jl_staging := None,
                                  jl_entry_ids := Some (fset_of_list (map en_id entries))\<rparr>)))"

definition jsonl_append ::
    "jsonl_store \<Rightarrow> session_entry \<Rightarrow> session_base option \<Rightarrow> (io_error + unit) \<times> jsonl_store" where
  "jsonl_append st e context_base =
     (case next_fault st of (fault, st) \<Rightarrow>
        case jl_file st of
          None \<Rightarrow> (Inl IoNotFound, st)
        | Some bs \<Rightarrow>
            let start = (if bs \<noteq> [] \<and> last bs \<noteq> 10 then [10] else []) in
            case entry_line (jl_codec st) e of
              None \<Rightarrow> (Inl (case fault of FailBefore err \<Rightarrow> err | _ \<Rightarrow> IoOther), st)
            | Some l \<Rightarrow>
                (case fault of
                   FailBefore err \<Rightarrow> (Inl err, st)
                 | FailAfter n err \<Rightarrow> (Inl err, st\<lparr>jl_file := Some (bs @ take n (start @ l))\<rparr>)
                 | NoFault \<Rightarrow>
                     (Inr (), st\<lparr>jl_file := Some (bs @ start @ l),
                                 jl_entry_ids := map_option (finsert (en_id e)) (jl_entry_ids st)\<rparr>)))"

definition jsonl_ops :: "jsonl_store store_ops" where
  "jsonl_ops =
     \<lparr>st_write_all_with_base = jsonl_write_all, st_append_with_context = jsonl_append,
      st_contains_entry = jsonl_contains_entry\<rparr>"

text \<open>
  \<open>open_file\<close> loads the file; a missing or empty one starts a new session in the given directory, or in the
  working directory, which may not be known.
\<close>

definition open_file ::
    "jsonl_store \<Rightarrow> string option \<Rightarrow> io_error + string \<Rightarrow> timestamp \<Rightarrow> u64 \<Rightarrow> u64 \<Rightarrow> timestamp \<Rightarrow>
      io_error + jsonl_store session_manager" where
  "open_file st cwd_override current_dir id_time random random2 now =
     (case jsonl_load st of (loaded, st) \<Rightarrow>
        and_then loaded (\<lambda>loaded.
        case loaded of
          Some (header, entries) \<Rightarrow>
            Inr (open_session
              (case cwd_override of Some cwd \<Rightarrow> header\<lparr>sh_cwd := cwd\<rparr> | None \<Rightarrow> header) entries st)
        | None \<Rightarrow>
            and_then (case cwd_override of Some cwd \<Rightarrow> Inr cwd | None \<Rightarrow> current_dir) (\<lambda>cwd.
            Inr (session_create cwd st id_time random random2 now))))"

section \<open>Lines\<close>

lemma split_lines_Nil [simp]: "split_lines [] = []"
  by (simp add: split_lines.simps)

lemma split_lines_line: "10 \<notin> set l \<Longrightarrow> split_lines (l @ 10 # cs) = l # split_lines cs"
proof -
  assume "10 \<notin> set l"
  then have "takeWhile (\<lambda>b. b \<noteq> 10) (l @ 10 # cs) = l" "dropWhile (\<lambda>b. b \<noteq> 10) (l @ 10 # cs) = 10 # cs"
    by (induction l) auto
  then show ?thesis by (subst split_lines.simps) simp
qed

lemma split_lines_end: "10 \<notin> set l \<Longrightarrow> l \<noteq> [] \<Longrightarrow> split_lines l = [l]"
proof -
  assume l: "10 \<notin> set l" "l \<noteq> []"
  then have "takeWhile (\<lambda>b. b \<noteq> 10) l = l" "dropWhile (\<lambda>b. b \<noteq> 10) l = []"
    by (auto simp: takeWhile_eq_all_conv)
  with l(2) show ?thesis by (subst split_lines.simps) (simp only: if_False drop_Nil split_lines_Nil)
qed

text \<open>A text is empty, one line that is not ended, or a line and the rest.\<close>

lemma first_line:
  obtains (none) "bs = ([] :: bytes)" | (open_line) "10 \<notin> set bs" "bs \<noteq> []"
  | (line) l cs where "bs = l @ 10 # cs" "10 \<notin> set l"
  using split_list_first [of 10 bs] by blast

lemma split_lines_append: "bs = [] \<or> last bs = 10 \<Longrightarrow> split_lines (bs @ cs) = split_lines bs @ split_lines cs"
proof (induction "length bs" arbitrary: bs rule: less_induct)
  case less
  show ?case
  proof (cases rule: first_line [of bs])
    case open_line
    then show ?thesis using less.prems by (metis last_in_set)
  next
    case (line l rest)
    then have "rest = [] \<or> last rest = 10" using less.prems by (auto split: if_splits)
    with less.hyps [of rest] line show ?thesis by (simp add: split_lines_line)
  qed simp
qed

lemma split_lines_close: "bs \<noteq> [] \<Longrightarrow> last bs \<noteq> 10 \<Longrightarrow> split_lines (bs @ 10 # cs) = split_lines bs @ split_lines cs"
proof (induction "length bs" arbitrary: bs rule: less_induct)
  case less
  show ?case
  proof (cases rule: first_line [of bs])
    case open_line
    then show ?thesis by (simp add: split_lines_line split_lines_end)
  next
    case (line l rest)
    then have "rest \<noteq> []" "last rest \<noteq> 10" using less.prems by (auto split: if_splits)
    with less.hyps [of rest] line show ?thesis by (simp add: split_lines_line)
  qed (use less.prems in simp)
qed

section \<open>What is stored\<close>

text \<open>
  The behaviour of \<open>serde_json\<close> the store relies on: a line has no newline and is not blank, a proper prefix
  of it is not JSON, and a header decodes to itself. An entry need not decode to itself: \<open>null\<close> details, for
  one, decode to none.
\<close>

definition codec_ok :: "codec \<Rightarrow> bool" where
  "codec_ok cd \<longleftrightarrow>
     (\<forall>h l. cd_header cd h = Some l \<longrightarrow> 10 \<notin> set l \<and> \<not> is_blank l \<and> cd_parse cd l = HeaderValue (Some h)) \<and>
     (\<forall>e l. cd_entry cd e = Some l \<longrightarrow>
        10 \<notin> set l \<and> \<not> is_blank l \<and> (\<forall>n < length l. cd_parse cd (take n l) = NotJson))"

definition decodes :: "codec \<Rightarrow> session_entry \<Rightarrow> bool" where
  "decodes cd e \<longleftrightarrow> (\<forall>l. cd_entry cd e = Some l \<longrightarrow> cd_parse cd l = EntryValue (Some e))"

definition stored_entries :: "codec \<Rightarrow> bytes \<Rightarrow> session_entry list option" where
  "stored_entries cd bs =
     (case load_bytes cd bs of Inr (Some (_, entries)) \<Rightarrow> Some entries | _ \<Rightarrow> None)"

definition jsonl_stored :: "jsonl_store \<Rightarrow> session_entry list option" where
  "jsonl_stored st = Option.bind (jl_file st) (stored_entries (jl_codec st))"

abbreviation load_lines :: "codec \<Rightarrow> bytes list \<Rightarrow> session_header option \<times> session_entry list \<times> bool" where
  "load_lines cd ls \<equiv> foldl (load_line cd) (None, [], False) ls"

lemma stored_entries_Some:
  "stored_entries cd bs = Some es \<longleftrightarrow> (\<exists>h s. load_lines cd (split_lines bs) = (Some h, es, s))"
  by (auto simp: stored_entries_def load_bytes_def split: prod.splits option.splits if_splits)

text \<open>Lines added to a file that loads: nothing for a part of a line, and its entry for a whole one.\<close>

lemma load_no_entry:
  assumes "load_lines cd ls = (Some h, es, s)" and "is_blank l \<or> cd_parse cd l = NotJson"
  shows "\<exists>s'. load_lines cd (ls @ [l]) = (Some h, es, s')"
  using assms by (auto simp: load_line_def)

lemma load_entry:
  assumes "load_lines cd ls = (Some h, es, s)" and "\<not> is_blank l" and "cd_parse cd l = EntryValue (Some e)"
  shows "load_lines cd (ls @ [l]) = (Some h, es @ [e], True)"
  using assms by (simp add: load_line_def)

lemma load_entries:
  assumes "load_lines cd ls = (Some h, es, s)"
    and "list_all2 (\<lambda>e l. \<not> is_blank l \<and> cd_parse cd l = EntryValue (Some e)) es' ls'"
  shows "\<exists>s'. load_lines cd (ls @ ls') = (Some h, es @ es', s')"
proof -
  have "\<exists>s'. foldl (load_line cd) (Some h, es, s) ls' = (Some h, es @ es', s')"
    using assms(2)
  proof (induction es' ls' arbitrary: es s rule: list_all2_induct)
    case (Cons e es' l ls')
    from Cons(1) have "load_line cd (Some h, es, s) l = (Some h, es @ [e], True)" by (simp add: load_line_def)
    with Cons(3) [of "es @ [e]" True] show ?case by simp
  qed simp
  with assms(1) show ?thesis by simp
qed

section \<open>Writing\<close>

lemma encode_entries:
  assumes "codec_ok cd"
  shows "encode_lines (map (entry_line cd) es) = (bs, True) \<Longrightarrow>
    list_all2 (\<lambda>e l. cd_entry cd e = Some l) es (split_lines bs)"
proof (induction es arbitrary: bs)
  case (Cons e es)
  from Cons.prems obtain l bs' where l: "cd_entry cd e = Some l" "bs = l @ 10 # bs'"
      "encode_lines (map (entry_line cd) es) = (bs', True)"
    by (cases "cd_entry cd e") (auto simp: entry_line_def [of cd e] split: prod.splits)
  with assms have "10 \<notin> set l" by (simp add: codec_ok_def)
  with Cons.IH [OF l(3)] l(1,2) show ?case by (simp add: split_lines_line)
qed simp

lemma stored_rewrite:
  assumes "codec_ok cd" and "\<forall>e \<in> set es. decodes cd e"
    and "encode_lines (header_line cd h # map (entry_line cd) es) = (bs, True)"
  shows "load_bytes cd bs = Inr (Some (h, es))"
proof -
  from assms(3) obtain l bs' where l: "cd_header cd h = Some l" "bs = l @ 10 # bs'"
      "encode_lines (map (entry_line cd) es) = (bs', True)"
    by (cases "cd_header cd h") (auto simp: header_line_def split: prod.splits)
  then have h: "10 \<notin> set l" "\<not> is_blank l" "cd_parse cd l = HeaderValue (Some h)"
    using assms(1) by (simp_all add: codec_ok_def)
  have "list_all2 (\<lambda>e l. \<not> is_blank l \<and> cd_parse cd l = EntryValue (Some e)) es (split_lines bs')"
    using encode_entries [OF assms(1) l(3)] assms(1,2)
    by (auto simp: list_all2_conv_all_nth codec_ok_def decodes_def)
  moreover have "load_lines cd [l] = (Some h, [], True)"
    using h by (simp add: load_line_def)
  ultimately obtain s where "load_lines cd ([l] @ split_lines bs') = (Some h, [] @ es, s)"
    using load_entries by blast
  with h(1) l(2) show ?thesis by (simp add: load_bytes_def split_lines_line)
qed

text \<open>A line that cannot be written whole adds its entry or nothing.\<close>

lemma stored_line_part:
  assumes cd: "codec_ok cd" and l: "cd_entry cd e = Some l" "decodes cd e"
    and bs: "stored_entries cd bs = Some es" "bs = [] \<or> last bs = 10"
  shows "stored_entries cd (bs @ take n (l @ [10])) = Some (if length l \<le> n then es @ [e] else es)"
proof -
  have line: "10 \<notin> set l" "\<not> is_blank l" "\<forall>k < length l. cd_parse cd (take k l) = NotJson"
      "cd_parse cd l = EntryValue (Some e)"
    using cd l by (simp_all add: codec_ok_def decodes_def)
  then have "l \<noteq> []" by (auto simp: is_blank_def)
  obtain h s where ld: "load_lines cd (split_lines bs) = (Some h, es, s)"
    using bs(1) by (auto simp: stored_entries_Some)
  have split: "split_lines (bs @ t) = split_lines bs @ split_lines t" for t
    using split_lines_append [OF bs(2)] .
  consider "n = 0" | "0 < n" "n < length l" | "n = length l" | "length l < n" by linarith
  then show ?thesis
  proof cases
    case 1
    with \<open>l \<noteq> []\<close> bs(1) show ?thesis by simp
  next
    case 2
    then have "split_lines (take n (l @ [10])) = [take n l]"
      using line(1) \<open>l \<noteq> []\<close> by (subst split_lines_end) (auto dest: in_set_takeD)
    with load_no_entry [OF ld, of "take n l"] line(3) 2 split show ?thesis
      by (auto simp: stored_entries_Some simp del: foldl_append)
  next
    case 3
    then have "split_lines (take n (l @ [10])) = [l]"
      using line(1) \<open>l \<noteq> []\<close> by (simp add: split_lines_end)
    with load_entry [OF ld line(2,4)] 3 split show ?thesis
      by (auto simp: stored_entries_Some simp del: foldl_append)
  next
    case 4
    then have "split_lines (take n (l @ [10])) = [l]"
      using line(1) split_lines_line [of l "[]"] by simp
    with load_entry [OF ld line(2,4)] 4 split show ?thesis
      by (auto simp: stored_entries_Some simp del: foldl_append)
  qed
qed

lemma stored_append_part:
  assumes cd: "codec_ok cd" and l: "cd_entry cd e = Some l" "decodes cd e" and bs: "stored_entries cd bs = Some es"
    and start: "start = (if bs \<noteq> [] \<and> last bs \<noteq> 10 then [10] else [])"
  shows "stored_entries cd (bs @ take n (start @ l @ [10])) =
    Some (if length start + length l \<le> n then es @ [e] else es)"
proof -
  have closed: "bs @ start = [] \<or> last (bs @ start) = 10" by (simp add: start)
  have "split_lines (bs @ start) = split_lines bs"
    using split_lines_close [of bs "[]"] by (simp add: start)
  then have same: "stored_entries cd (bs @ start) = Some es"
    using bs by (simp add: stored_entries_def load_bytes_def)
  show ?thesis
  proof (cases "n < length start")
    case True
    then show ?thesis using bs by (auto simp: start split: if_splits)
  next
    case False
    then have "bs @ take n (start @ l @ [10]) = (bs @ start) @ take (n - length start) (l @ [10])" by simp
    moreover have "length l \<le> n - length start \<longleftrightarrow> length start + length l \<le> n" using False by linarith
    ultimately show ?thesis
      using stored_line_part [OF cd l same closed, of "n - length start"] by (simp only:)
  qed
qed

section \<open>The contract of a store\<close>

text \<open>
  What the manager relies on, for entries the store can read back: a rewrite replaces what is stored or
  leaves it, an append adds its entry, and one that fails adds the entry or nothing.
\<close>

locale session_store =
  fixes ops :: "'st store_ops"
    and stored :: "'st \<Rightarrow> session_entry list option"
    and readable :: "'st \<Rightarrow> session_entry \<Rightarrow> bool"
    and store_ok :: "'st \<Rightarrow> bool"
  assumes write_keeps: "store_ok st \<Longrightarrow> st_write_all_with_base ops st h b es = (r, st') \<Longrightarrow>
      store_ok st' \<and> readable st' = readable st"
    and write_done: "store_ok st \<Longrightarrow> \<forall>e \<in> set es. readable st e \<Longrightarrow>
      st_write_all_with_base ops st h b es = (Inr u, st') \<Longrightarrow> stored st' = Some es"
    and write_failed: "store_ok st \<Longrightarrow> st_write_all_with_base ops st h b es = (Inl err, st') \<Longrightarrow>
      stored st' = stored st"
    and append_keeps: "store_ok st \<Longrightarrow> st_append_with_context ops st e b = (r, st') \<Longrightarrow>
      store_ok st' \<and> readable st' = readable st"
    and append_done: "store_ok st \<Longrightarrow> readable st e \<Longrightarrow> stored st = Some es \<Longrightarrow>
      st_append_with_context ops st e b = (Inr u, st') \<Longrightarrow> stored st' = Some (es @ [e])"
    and append_failed: "store_ok st \<Longrightarrow> readable st e \<Longrightarrow> stored st = Some es \<Longrightarrow>
      st_append_with_context ops st e b = (Inl err, st') \<Longrightarrow> stored st' \<in> {Some es, Some (es @ [e])}"
    and contains_keeps: "store_ok st \<Longrightarrow> st_contains_entry ops st c = (found, st') \<Longrightarrow>
      store_ok st' \<and> readable st' = readable st \<and> stored st' = stored st"

lemma next_fault_fields [simp]:
  "jl_codec (snd (next_fault st)) = jl_codec st" "jl_file (snd (next_fault st)) = jl_file st"
  by (simp_all add: next_fault_def)

definition jsonl_ok :: "jsonl_store \<Rightarrow> bool" where
  "jsonl_ok st = codec_ok (jl_codec st)"

definition jsonl_readable :: "jsonl_store \<Rightarrow> session_entry \<Rightarrow> bool" where
  "jsonl_readable st = decodes (jl_codec st)"

lemma jsonl_append_cases:
  assumes "jsonl_ok st" and "jsonl_readable st e" and "jsonl_stored st = Some es" and "jsonl_append st e b = (r, st')"
  shows "jsonl_stored st' = Some (es @ [e]) \<or> r \<noteq> Inr () \<and> jsonl_stored st' = Some es"
proof -
  let ?cd = "jl_codec st"
  from assms(3) obtain bs where bs: "jl_file st = Some bs" "stored_entries ?cd bs = Some es"
    by (auto simp: jsonl_stored_def split: Option.bind_splits)
  define start :: bytes where "start = (if bs \<noteq> [] \<and> last bs \<noteq> 10 then [10] else [])"
  show ?thesis
  proof (cases "cd_entry ?cd e")
    case None
    with assms(4) bs show ?thesis
      by (auto simp: jsonl_append_def next_fault_def entry_line_def jsonl_stored_def Let_def)
  next
    case (Some l)
    have part: "stored_entries ?cd (bs @ take n (start @ l @ [10])) =
        Some (if length start + length l \<le> n then es @ [e] else es)" for n
      using assms(1,2) Some bs(2) start_def by (intro stored_append_part) (simp_all add: jsonl_ok_def jsonl_readable_def)
    from part [of "Suc (length start + length l)"] have whole: "stored_entries ?cd (bs @ start @ l @ [10]) = Some (es @ [e])"
      by simp
    show ?thesis
    proof (cases "jl_faults st (jl_calls st)")
      case NoFault
      with assms(4) bs Some whole show ?thesis
        by (auto simp: jsonl_append_def next_fault_def entry_line_def jsonl_stored_def Let_def start_def)
    next
      case (FailBefore err)
      with assms(4) bs Some show ?thesis
        by (auto simp: jsonl_append_def next_fault_def entry_line_def jsonl_stored_def Let_def)
    next
      case (FailAfter n err)
      then have "r = Inl err" "st' = st\<lparr>jl_calls := Suc (jl_calls st), jl_file := Some (bs @ take n (start @ l @ [10]))\<rparr>"
        using assms(4) bs Some by (auto simp: jsonl_append_def next_fault_def entry_line_def Let_def start_def)
      then show ?thesis using part [of n] by (simp add: jsonl_stored_def)
    qed
  qed
qed

lemma jsonl_append_codec: "jsonl_append st e b = (r, st') \<Longrightarrow> jl_codec st' = jl_codec st"
  by (auto simp: jsonl_append_def next_fault_def Let_def split: option.splits io_fault.splits)

lemma jsonl_write_all_cases:
  assumes "jsonl_write_all st h b es = (r, st')"
  shows "jl_codec st' = jl_codec st \<and>
    (if r = Inr () then \<exists>bs. jl_file st' = Some bs \<and>
       encode_lines (header_line (jl_codec st) h # map (entry_line (jl_codec st)) es) = (bs, True)
     else jl_file st' = jl_file st)"
  using assms
  by (auto simp: jsonl_write_all_def next_fault_def split: prod.splits io_fault.splits if_splits)

lemma jsonl_contains_keeps:
  "jsonl_contains_entry st c = (r, st') \<Longrightarrow> jl_codec st' = jl_codec st \<and> jl_file st' = jl_file st"
  by (auto simp: jsonl_contains_entry_def jsonl_load_def next_fault_def Let_def
      split: option.splits sum.splits prod.splits io_fault.splits)

interpretation jsonl: session_store jsonl_ops jsonl_stored jsonl_readable jsonl_ok
proof
  fix st st' :: jsonl_store and h b es r u err e c found
  show "jsonl_ok st \<Longrightarrow> st_write_all_with_base jsonl_ops st h b es = (r, st') \<Longrightarrow>
      jsonl_ok st' \<and> jsonl_readable st' = jsonl_readable st"
    using jsonl_write_all_cases [of st h b es r st'] by (simp add: jsonl_ops_def jsonl_ok_def jsonl_readable_def)
  show "jsonl_ok st \<Longrightarrow> \<forall>e \<in> set es. jsonl_readable st e \<Longrightarrow>
      st_write_all_with_base jsonl_ops st h b es = (Inr u, st') \<Longrightarrow> jsonl_stored st' = Some es"
    using jsonl_write_all_cases [of st h b es "Inr u" st'] stored_rewrite [of "jl_codec st" es h]
    by (auto simp: jsonl_ops_def jsonl_ok_def jsonl_readable_def jsonl_stored_def stored_entries_def)
  show "jsonl_ok st \<Longrightarrow> st_write_all_with_base jsonl_ops st h b es = (Inl err, st') \<Longrightarrow>
      jsonl_stored st' = jsonl_stored st"
    using jsonl_write_all_cases [of st h b es "Inl err" st'] by (simp add: jsonl_ops_def jsonl_stored_def)
  show "jsonl_ok st \<Longrightarrow> st_append_with_context jsonl_ops st e b = (r, st') \<Longrightarrow>
      jsonl_ok st' \<and> jsonl_readable st' = jsonl_readable st"
    using jsonl_append_codec [of st e b r st'] by (simp add: jsonl_ops_def jsonl_ok_def jsonl_readable_def)
  show "jsonl_ok st \<Longrightarrow> jsonl_readable st e \<Longrightarrow> jsonl_stored st = Some es \<Longrightarrow>
      st_append_with_context jsonl_ops st e b = (Inr u, st') \<Longrightarrow> jsonl_stored st' = Some (es @ [e])"
    using jsonl_append_cases [of st e es b "Inr u" st'] by (simp add: jsonl_ops_def)
  show "jsonl_ok st \<Longrightarrow> jsonl_readable st e \<Longrightarrow> jsonl_stored st = Some es \<Longrightarrow>
      st_append_with_context jsonl_ops st e b = (Inl err, st') \<Longrightarrow> jsonl_stored st' \<in> {Some es, Some (es @ [e])}"
    using jsonl_append_cases [of st e es b "Inl err" st'] by (auto simp: jsonl_ops_def)
  show "jsonl_ok st \<Longrightarrow> st_contains_entry jsonl_ops st c = (found, st') \<Longrightarrow>
      jsonl_ok st' \<and> jsonl_readable st' = jsonl_readable st \<and> jsonl_stored st' = jsonl_stored st"
    using jsonl_contains_keeps [of st c found st']
    by (simp add: jsonl_ops_def jsonl_ok_def jsonl_readable_def jsonl_stored_def)
qed

end
