(* ===== verification/Pi_Session_Runs.thy ===== *)
theory Pi_Session_Runs
  imports Pi_Store
begin

text \<open>
  Runs of a session: every operation of the manager that appends, moves the leaf or writes, as one step
  relation. Every reachable session keeps the invariant of the tree, and what its store holds is the part of
  the entries the manager counts as written, or a little more.
\<close>

section \<open>Steps\<close>

inductive session_step :: "'st store_ops \<Rightarrow> 'st session_manager \<Rightarrow> 'st session_manager \<Rightarrow> bool" for ops where
  message: "append_message ops random m msg now = Some (eid, m') \<Longrightarrow> session_step ops m m'"
| thinking_level:
    "append_thinking_level_change ops random m level now = Some (eid, m') \<Longrightarrow> session_step ops m m'"
| model: "append_model_change ops random m provider model_id now = Some (eid, m') \<Longrightarrow> session_step ops m m'"
| custom: "append_custom_entry ops random m custom_type data now = Some (eid, m') \<Longrightarrow> session_step ops m m'"
| custom_message:
    "append_custom_message ops random m custom_type cs display details now = Some (eid, m') \<Longrightarrow> session_step ops m m'"
| session_info: "append_session_info ops random m name now = Some (eid, m') \<Longrightarrow> session_step ops m m'"
| compaction:
    "append_compaction ops random m summary first_kept tokens details used ext system_time now = Some (eid, m') \<Longrightarrow>
      session_step ops m m'"
| context_edit: "append_context_edit ops random m target replacement now = Some (r, m') \<Longrightarrow> session_step ops m m'"
| label: "append_label ops random m target l now = Some (r, m') \<Longrightarrow> session_step ops m m'"
| set_leaf: "set_leaf m eid = (r, m') \<Longrightarrow> session_step ops m m'"
| reset_leaf: "session_step ops m (reset_leaf m)"
| branch_summary:
    "branch_with_summary ops random m from_entry summary details used ext now = Some (r, m') \<Longrightarrow> session_step ops m m'"
| flush: "flush ops m = Some (r, m') \<Longrightarrow> session_step ops m m'"
| take_error: "take_persist_error m = (r, m') \<Longrightarrow> session_step ops m m'"

text \<open>Every step is an append at some leaf, a move of the leaf, or a write.\<close>

inductive core_step :: "'st store_ops \<Rightarrow> 'st session_manager \<Rightarrow> 'st session_manager \<Rightarrow> bool" for ops where
  append: "kind_ok m kind \<Longrightarrow> append_entry ops random m kind now = Some (eid, m') \<Longrightarrow> core_step ops m m'"
| leaf: "l = None \<or> (\<exists>i \<in> ids (se_entries m). l = Some i) \<Longrightarrow> core_step ops m (m\<lparr>se_leaf := l\<rparr>)"
| writing: "flush ops m = Some (r, m') \<Longrightarrow> core_step ops m m'"
| clear: "core_step ops m (m\<lparr>se_persist_error := err\<rparr>)"

lemma core_stay: "core_step ops m m"
  using core_step.clear [of ops m "se_persist_error m"] by simp

lemma append_context_edit_kind_ok:
  assumes "tree_inv m" and "entry_of m target = Some x" and "editable (en_kind x)" and "branch m = Some path"
    and "list_ex (\<lambda>e. en_id e = target) path"
  shows "kind_ok m (ContextEdit target replacement)"
proof -
  from assms(4,5) tree_inv_branch(1) [OF assms(1)] obtain y
    where y: "y \<in> set (lineage (rev (se_entries m)) (se_leaf m))" "en_id y = target"
    by (auto simp: list_ex_iff)
  then have "y \<in> set (se_entries m)" using lineage_set by fastforce
  with y(2) assms(1,2) have "y = x"
    using entry_of_Some_iff [of m target] entries_wf_distinct [of "se_entries m"] by (auto simp: tree_inv_def distinct_map inj_on_def)
  with y assms(3) show ?thesis by (auto simp: kind_ok_def)
qed

lemma append_compaction_append_entry:
  "append_compaction ops random m summary first_kept tokens details used ext system_time now = Some (eid, m') \<Longrightarrow>
     \<exists>c. append_entry ops random m (Compaction c) now = Some (eid, m')"
  by (auto simp: append_compaction_def append_entry_def append_with_id_pushed Let_def split: Option.bind_splits)

lemma session_step_core:
  assumes "session_step ops m m'" and inv: "tree_inv m"
  shows "(core_step ops)\<^sup>*\<^sup>* m m'"
proof -
  have plain: "core_step ops m m'" if "append_entry ops random m kind now = Some (eid, m')"
      "\<And>t r. kind \<noteq> ContextEdit t r" for random kind now eid
    using that by (intro core_step.append [of m kind ops random now eid m']) (auto simp: kind_ok_def split: entry_kind.splits)
  from assms(1) show ?thesis
  proof cases
    case (compaction random summary first_kept tokens details used ext system_time now eid)
    then show ?thesis using append_compaction_append_entry plain by blast
  next
    case (context_edit random target replacement now r)
    then show ?thesis
      using append_context_edit_kind_ok [OF inv] core_step.append [of m _ ops random now _ m'] core_stay [of ops m]
      by (fastforce simp: append_context_edit_def split: option.splits if_splits Option.bind_splits)
  next
    case (label random target l now r)
    then show ?thesis
      using plain core_stay [of ops m] by (fastforce simp: append_label_def split: if_splits)
  next
    case (set_leaf eid r)
    have "fmlookup (se_index m) eid \<noteq> None \<longleftrightarrow> eid \<in> ids (se_entries m)"
      using inv index_lookup_None [of m eid] by (auto simp: tree_inv_def)
    with set_leaf core_step.leaf [of "Some eid" m ops] core_stay [of ops m] show ?thesis
      by (auto simp: set_leaf_def split: if_splits)
  next
    case reset_leaf
    then show ?thesis using core_step.leaf [of None m ops] by (simp add: reset_leaf_def r_into_rtranclp)
  next
    case (branch_summary random from_entry summary details used ext now r)
    show ?thesis
    proof (cases "missing_entry m from_entry")
      case None
      let ?m = "m\<lparr>se_leaf := from_entry\<rparr>"
      have "core_step ops m ?m"
        using None inv index_lookup_None [of m] 
        by (intro core_step.leaf) (auto simp: missing_entry_def tree_inv_def split: option.splits if_splits)
      moreover obtain b eid where "append_entry ops random ?m (BranchSummary b) now = Some (eid, m')"
        using branch_summary None by (auto simp: branch_with_summary_def)
      then have "core_step ops ?m m'" by (rule core_step.append [rotated]) (simp add: kind_ok_def)
      ultimately show ?thesis by simp
    qed (use branch_summary in \<open>simp add: branch_with_summary_def\<close>)
  next
    case (flush r)
    then show ?thesis using core_step.writing by blast
  next
    case (take_error r)
    then show ?thesis using core_step.clear [of ops m None] by (auto simp: take_persist_error_def)
  qed (auto simp: append_message_def append_thinking_level_change_def append_model_change_def append_custom_entry_def
      append_custom_message_def append_session_info_def intro!: r_into_rtranclp plain)
qed

lemma core_step_inv: "core_step ops m m' \<Longrightarrow> tree_inv m \<Longrightarrow> write_ok m \<Longrightarrow> tree_inv m' \<and> write_ok m'"
proof (induction rule: core_step.induct)
  case (append m kind random now eid m')
  then show ?case using append_entry_ok by blast
next
  case (leaf l m)
  then show ?case by (auto simp: tree_inv_defs write_ok_def)
next
  case (writing m r m')
  from flush_returns [OF writing(2) write_ok_pending [OF writing(3)], of ops] writing(1)
  have "write_ok m'" by auto
  with flush_shape [OF writing(1)] writing(2) show ?case by auto
qed (simp add: write_ok_def)

lemma core_run_inv: "(core_step ops)\<^sup>*\<^sup>* m m' \<Longrightarrow> tree_inv m \<Longrightarrow> write_ok m \<Longrightarrow> tree_inv m' \<and> write_ok m'"
  by (induction rule: rtranclp_induct) (auto dest: core_step_inv)

section \<open>Reachable sessions\<close>

text \<open>A new session, or a complete one read back.\<close>

inductive session_start :: "'st session_manager \<Rightarrow> bool" where
  created: "session_start (session_create cwd st id_time random random2 now)"
| opened: "entries_wf es \<Longrightarrow> session_start (open_session h es st)"

lemma session_start_inv: "session_start m \<Longrightarrow> tree_inv m \<and> write_ok m"
  by (induction rule: session_start.induct)
     (simp_all add: session_create_def create_with_id_def open_session_def from_parts_inv)

lemma session_run_core:
  "(session_step ops)\<^sup>*\<^sup>* m m' \<Longrightarrow> tree_inv m \<Longrightarrow> write_ok m \<Longrightarrow> (core_step ops)\<^sup>*\<^sup>* m m'"
proof (induction rule: rtranclp_induct)
  case (step m1 m2)
  then show ?case using session_step_core core_run_inv by (metis rtranclp_trans)
qed simp

lemma session_run_inv:
  "session_start m \<Longrightarrow> (session_step ops)\<^sup>*\<^sup>* m m' \<Longrightarrow> tree_inv m' \<and> write_ok m'"
  using session_start_inv session_run_core core_run_inv by metis

lemma core_step_prefix: "core_step ops m m' \<Longrightarrow> tree_inv m \<Longrightarrow> write_ok m \<Longrightarrow> prefix (se_entries m) (se_entries m')"
proof (induction rule: core_step.induct)
  case (append m kind random now eid m')
  then show ?case using append_entry_ok by (metis prefixI)
next
  case (writing m r m')
  then show ?case using flush_shape by fastforce
qed auto

section \<open>What the store holds\<close>

definition durable :: "('st \<Rightarrow> session_entry list option) \<Rightarrow> 'st session_manager \<Rightarrow> bool" where
  "durable stored m \<longleftrightarrow>
     (se_flushed m \<longrightarrow> (\<exists>n. se_persisted_len m \<le> n \<and> n \<le> length (se_entries m) \<and>
        stored (se_store m) = Some (take n (se_entries m)))) \<and>
     (\<not> se_needs_rewrite m \<longrightarrow> stored (se_store m) = Some (take (se_persisted_len m) (se_entries m)))"

lemma durable_pushed: "durable stored m \<Longrightarrow> write_ok m \<Longrightarrow> durable stored (pushed m eid kind now)"
proof -
  assume d: "durable stored m" and w: "write_ok m"
  let ?es = "se_entries m @ [new_entry m eid kind now]"
  have "\<exists>n. se_persisted_len m \<le> n \<and> n \<le> length ?es \<and> stored (se_store m) = Some (take n ?es)" if "se_flushed m"
  proof -
    from that d obtain n where "se_persisted_len m \<le> n" "n \<le> length (se_entries m)"
        "stored (se_store m) = Some (take n (se_entries m))"
      by (auto simp: durable_def)
    then show ?thesis by (intro exI [of _ n]) simp
  qed
  with d w show ?thesis by (simp add: durable_def write_ok_def)
qed

context session_store
begin

lemma fresh_id_store:
  assumes "fresh_id ops random m = Some (eid, m')" and "store_ok (se_store m)"
  shows "\<exists>st. m' = m\<lparr>se_store := st\<rparr> \<and> store_ok st \<and> readable st = readable (se_store m) \<and> stored st = stored (se_store m)"
proof -
  let ?I = "\<lambda>s. \<exists>st. s = m\<lparr>se_store := st\<rparr> \<and> store_ok st \<and> readable st = readable (se_store m) \<and>
    stored st = stored (se_store m)"
  from assms(1) obtain j where n: "new_entry_id random (taken_in_store ops) 0 m = Some (eid, j, m')"
    by (auto simp: fresh_id_def)
  have step: "?I s'" if "?I s" "taken_in_store ops s c = (u, s')" for s c u s'
  proof -
    from that(1) obtain st where st: "s = m\<lparr>se_store := st\<rparr>" "store_ok st" "readable st = readable (se_store m)"
        "stored st = stored (se_store m)" by blast
    obtain r st' where c: "st_contains_entry ops st c = (r, st')" by force
    have "s' = s \<or> s' = m\<lparr>se_store := st'\<rparr>"
      using that(2) st(1) c by (auto simp: taken_in_store_def split: if_splits)
    moreover have "?I (m\<lparr>se_store := st'\<rparr>)"
      using contains_keeps [OF st(2) c] st(3,4) by (intro exI [of _ st'] conjI) simp_all
    ultimately show ?thesis using that(1) by metis
  qed
  have "?I m" using assms(2) by (intro exI [of _ "se_store m"]) simp
  have "\<exists>s0. ?I s0 \<and> taken_in_store ops s0 eid = (False, m')"
    by (rule new_entry_id_free [OF n, where I = ?I]) (rule \<open>?I m\<close>, rule step)
  then obtain s0 where s0: "?I s0" "taken_in_store ops s0 eid = (False, m')" by (elim exE conjE) (rule that, blast+)
  from step [OF s0] show ?thesis .
qed

text \<open>What a write leaves behind, and that nothing is missing after one that succeeds.\<close>

lemma flush_durable:
  assumes ok: "store_ok (se_store m)" and read: "\<forall>e \<in> set (se_entries m). readable (se_store m) e"
    and dur: "durable stored m" and len: "se_persisted_len m \<le> length (se_entries m)"
    and fl: "flush ops m = Some (r, m')"
  shows "store_ok (se_store m') \<and> readable (se_store m') = readable (se_store m) \<and> durable stored m' \<and>
    (r = Inr () \<longrightarrow> has_unpersisted m \<longrightarrow> stored (se_store m') = Some (se_entries m'))"
proof (cases "has_unpersisted m \<and> (se_flushed m \<or> list_ex is_conversation (se_entries m))")
  case False
  with fl have "m' = m" "\<not> has_unpersisted m" by (auto simp: flush_def has_unpersisted_def split: if_splits)
  with ok dur show ?thesis by simp
next
  case True
  show ?thesis
  proof (cases "se_needs_rewrite m \<or> length (se_entries m) \<noteq> se_persisted_len m + 1")
    case rewrite: True
    obtain w st where w: "st_write_all_with_base ops (se_store m) (se_header m)
        (map_option (\<lambda>_. se_base m) (se_base_root m)) (se_entries m) = (w, st)" by force
    with True rewrite fl have m': "(r, m') = written m (w, st)" by (auto simp: flush_def)
    show ?thesis
    proof (cases w)
      case (Inl err)
      with w have "stored st = stored (se_store m)" by (auto intro: write_failed [OF ok])
      with write_keeps [OF ok w] m' Inl dur show ?thesis by (simp add: written_def durable_def)
    next
      case (Inr u)
      with w have "stored st = Some (se_entries m)" by (auto intro: write_done [OF ok read])
      with write_keeps [OF ok w] m' Inr show ?thesis by (auto simp: written_def durable_def)
    qed
  next
    case False
    let ?e = "last (se_entries m)"
    from True have ne: "se_entries m \<noteq> []" by (auto simp: has_unpersisted_def)
    then have split: "se_entries m = take (se_persisted_len m) (se_entries m) @ [?e]"
      using False by (metis append_butlast_last_id butlast_conv_take diff_add_inverse2)
    have st: "stored (se_store m) = Some (take (se_persisted_len m) (se_entries m))"
      using dur False by (simp add: durable_def)
    have e: "readable (se_store m) ?e" using read ne by simp
    have fl': "(case compaction_context m ?e of None \<Rightarrow> None | Some (Inl err) \<Rightarrow> Some (Inl err, m)
        | Some (Inr b) \<Rightarrow> Some (written m (st_append_with_context ops (se_store m) ?e b))) = Some (r, m')"
      using fl True False by (auto simp: flush_def Let_def)
    show ?thesis
    proof (cases "compaction_context m ?e")
      case None
      with fl' show ?thesis by simp
    next
      case (Some c)
      show ?thesis
      proof (cases c)
        case (Inl err)
        with fl' Some ok dur show ?thesis by auto
      next
        case (Inr b)
        obtain w st' where w: "st_append_with_context ops (se_store m) ?e b = (w, st')" by force
        with fl' Some Inr have m': "(r, m') = written m (w, st')" by simp
        show ?thesis
        proof (cases w)
          case (Inl err)
          have "stored st' \<in> {Some (take (se_persisted_len m) (se_entries m)), Some (se_entries m)}"
            using append_failed [OF ok e st] w Inl split by auto
          then have "\<exists>n. se_persisted_len m \<le> n \<and> n \<le> length (se_entries m) \<and> stored st' = Some (take n (se_entries m))"
            using len by (metis insert_iff order_refl singletonD take_all)
          with append_keeps [OF ok w] m' Inl show ?thesis by (simp add: written_def durable_def)
        next
          case (Inr u)
          then have "stored st' = Some (se_entries m)" using append_done [OF ok e st] w split by auto
          with append_keeps [OF ok w] m' Inr show ?thesis by (auto simp: written_def durable_def)
        qed
      qed
    qed
  qed
qed

lemma persist_durable:
  assumes "store_ok (se_store m)" and "\<forall>e \<in> set (se_entries m). readable (se_store m) e"
    and "durable stored m" and "se_persisted_len m \<le> length (se_entries m)" and "persist ops m = Some m'"
  shows "store_ok (se_store m') \<and> readable (se_store m') = readable (se_store m) \<and> durable stored m'"
proof -
  from assms(5) obtain r m1 where f: "flush ops m = Some (r, m1)"
    and m': "m' = (case r of Inl e \<Rightarrow> m1\<lparr>se_persist_error := Some e\<rparr> | Inr _ \<Rightarrow> m1)"
    by (auto simp: persist_def)
  from flush_durable [OF assms(1-4) f] m' show ?thesis
    by (auto simp: durable_def split: sum.splits)
qed

lemma core_step_durable:
  assumes step: "core_step ops m m'" and inv: "tree_inv m" "write_ok m" and ok: "store_ok (se_store m)"
    and dur: "durable stored m" and read: "\<forall>e \<in> set (se_entries m'). readable (se_store m) e"
  shows "store_ok (se_store m') \<and> readable (se_store m') = readable (se_store m) \<and> durable stored m'"
  using step
proof cases
  case (append kind random now eid)
  from append(2) obtain m1 where f: "fresh_id ops random m = Some (eid, m1)"
    and p: "persist ops (pushed m1 eid kind now) = Some m'"
    by (auto simp: append_entry_def append_with_id_pushed split: Option.bind_splits)
  from fresh_id_store [OF f ok] obtain st where m1: "m1 = m\<lparr>se_store := st\<rparr>" "store_ok st"
      "readable st = readable (se_store m)" "stored st = stored (se_store m)"
    by (elim exE conjE) (rule that)
  have "durable stored m1" "write_ok m1" using dur inv(2) m1 by (simp_all add: durable_def write_ok_def)
  then have "durable stored (pushed m1 eid kind now)" by (rule durable_pushed)
  moreover have "se_entries (pushed m1 eid kind now) = se_entries m'"
    using persist_shape [OF p] by auto
  moreover have "se_persisted_len (pushed m1 eid kind now) \<le> length (se_entries (pushed m1 eid kind now))"
    using inv(2) m1(1) by (simp add: write_ok_def)
  ultimately have "store_ok (se_store m') \<and> readable (se_store m') = readable (se_store (pushed m1 eid kind now)) \<and>
      durable stored m'"
    using persist_durable [OF _ _ _ _ p] m1 read by simp
  then show ?thesis using m1 by simp
next
  case (leaf l)
  then show ?thesis using ok dur by (simp add: durable_def)
next
  case (writing r)
  have "se_entries m' = se_entries m" using flush_shape [OF writing] by auto
  then show ?thesis using flush_durable [OF ok _ dur _ writing] read inv(2) by (simp add: write_ok_def)
next
  case (clear err)
  then show ?thesis using ok dur by (simp add: durable_def)
qed

lemma run_durable:
  assumes "(core_step ops)\<^sup>*\<^sup>* m0 m" and "tree_inv m0" "write_ok m0" and "store_ok (se_store m0)" and "durable stored m0"
    and "\<forall>e \<in> set (se_entries m). readable (se_store m0) e"
  shows "store_ok (se_store m) \<and> readable (se_store m) = readable (se_store m0) \<and> durable stored m"
  using assms(1,6)
proof (induction rule: rtranclp_induct)
  case base
  then show ?case using assms(4,5) by simp
next
  case (step m1 m2)
  have inv: "tree_inv m1" "write_ok m1" using core_run_inv [OF step(1) assms(2,3)] by auto
  have "set (se_entries m1) \<subseteq> set (se_entries m2)"
    using core_step_prefix [OF step(2) inv] set_mono_prefix by blast
  with step have IH: "store_ok (se_store m1)" "readable (se_store m1) = readable (se_store m0)" "durable stored m1"
    by auto
  with core_step_durable [OF step(2) inv IH(1,3)] step(4) show ?case by simp
qed

end

section \<open>Properties\<close>

lemma branch_snoc:
  assumes "tree_inv m" "tree_inv m'" and "se_entries m' = se_entries m @ [e]" and "en_parent_id e = se_leaf m"
    and "se_leaf m' = Some (en_id e)"
  shows "branch m' = map_option (\<lambda>path. path @ [e]) (branch m)"
  using tree_inv_branch(1) [OF assms(1)] tree_inv_branch(1) [OF assms(2)] assms(3-5) by simp

lemma path_ok_parents:
  assumes "path_ok path" and "i < length path"
  shows "en_parent_id (path ! i) = (if i = 0 then None else Some (en_id (path ! (i - 1))))"
proof -
  have "link_ok (take i path) (path ! i)"
    using path_ok_at [of "take i path" "path ! i" "drop (Suc i) path"] assms id_take_nth_drop [OF assms(2)] by simp
  then show ?thesis
    using assms(2) by (auto simp: link_ok_def last_id_def last_conv_nth min_def)
qed


text \<open>Drawing an identifier returns as soon as one number gives a free one.\<close>

lemma fresh_id_returns:
  assumes inv: "tree_inv m" and free: "candidate random k \<notin> ids (se_entries m)"
    "\<forall>st. fst (st_contains_entry ops st (candidate random k)) \<noteq> Inr True"
  shows "\<exists>eid m1. fresh_id ops random m = Some (eid, m1)"
proof -
  have untaken: "\<not> fst (taken_in_store ops (m\<lparr>se_store := st\<rparr>) (candidate random (0 + k)))" for st
    using free(2) inv free(1) index_lookup_None [of m "candidate random k"]
    by (auto simp: taken_in_store_def tree_inv_def split: prod.splits sum.splits) (metis fst_conv)
  have "\<exists>eid j s'. new_entry_id random (taken_in_store ops) 0 m = Some (eid, j, s')"
  proof (rule new_entry_id_total [where I = "\<lambda>s. \<exists>st. s = m\<lparr>se_store := st\<rparr>" and k = k])
    show "\<exists>st. m = m\<lparr>se_store := st\<rparr>" by (rule exI [of _ "se_store m"]) simp
    show "\<exists>st. s' = m\<lparr>se_store := st\<rparr>" if "\<exists>st. s = m\<lparr>se_store := st\<rparr>" "taken_in_store ops s c = (u, s')" for s c u s'
      using that taken_in_store_shape [OF that(2)] by (cases m) auto
  qed (use untaken in blast)
  then show ?thesis by (auto simp: fresh_id_def)
qed


text \<open>A session kept in a file: a new one, or one the file holds.\<close>

inductive file_session :: "codec \<Rightarrow> jsonl_store session_manager \<Rightarrow> bool" for cd where
  created: "jl_codec st = cd \<Longrightarrow> file_session cd (session_create cwd st id_time random random2 now)"
| opened: "jl_codec st = cd \<Longrightarrow> jsonl_stored st = Some es \<Longrightarrow> entries_wf es \<Longrightarrow> file_session cd (open_session h es st)"

lemma file_session_start:
  "file_session cd m \<Longrightarrow> session_start m \<and> jl_codec (se_store m) = cd \<and> durable jsonl_stored m"
  by (induction rule: file_session.induct)
     (auto simp: session_create_def create_with_id_def open_session_def durable_def
        intro: session_start.intros [unfolded session_create_def create_with_id_def open_session_def])

lemma file_session_durable:
  assumes "codec_ok cd" and "file_session cd m0" and "(session_step jsonl_ops)\<^sup>*\<^sup>* m0 m"
    and "\<forall>e \<in> set (se_entries m). decodes cd e"
  shows "durable jsonl_stored m"
proof -
  note start = file_session_start [OF assms(2)]
  have inv: "tree_inv m0" "write_ok m0" using session_start_inv start by auto
  have "(core_step jsonl_ops)\<^sup>*\<^sup>* m0 m" using session_run_core [OF assms(3) inv] .
  from jsonl.run_durable [OF this inv] start assms(1,4)
  show ?thesis by (simp add: jsonl_ok_def jsonl_readable_def)
qed

text \<open>
  C9: A session kept in a file is durable under any schedule of faults: at every moment after the first write
  the file loads, and what it gives are the first entries of the session, at least those the manager counts as
  written; when nothing is left to write, it gives all of them.
\<close>

theorem session_file_durable:
  assumes "codec_ok cd" and "file_session cd m0" and "(session_step jsonl_ops)\<^sup>*\<^sup>* m0 m"
    and "\<forall>e \<in> set (se_entries m). decodes cd e" and "se_flushed m"
  shows "\<exists>n. se_persisted_len m \<le> n \<and> n \<le> length (se_entries m) \<and>
    jsonl_stored (se_store m) = Some (take n (se_entries m)) \<and>
    (\<not> has_unpersisted m \<longrightarrow> jsonl_stored (se_store m) = Some (se_entries m))"
proof -
  from file_session_durable [OF assms(1-4)] assms(5) obtain n where n: "se_persisted_len m \<le> n" "n \<le> length (se_entries m)"
      "jsonl_stored (se_store m) = Some (take n (se_entries m))"
    by (auto simp: durable_def)
  moreover have "\<not> has_unpersisted m \<longrightarrow> length (se_entries m) \<le> se_persisted_len m"
    using assms(5) by (auto simp: has_unpersisted_def)
  ultimately show ?thesis by auto
qed

lemma entries_wf_take: "entries_wf es \<Longrightarrow> entries_wf (take n es)"
proof (induction es rule: rev_induct)
  case (snoc e es)
  then show ?case by (cases "n \<le> length es") auto
qed simp

text \<open>
  C10: After a crash at any moment the session opens again: the file of a reachable session, also one in which
  the last append wrote a part of its line, opens as a session with the first entries of the lost one, none
  that was counted as written missing, and it is again a complete session to continue from.
\<close>

theorem crash_recovery:
  assumes "codec_ok cd" and "file_session cd m0" and "(session_step jsonl_ops)\<^sup>*\<^sup>* m0 m"
    and "\<forall>e \<in> set (se_entries m). decodes cd e" and "se_flushed m"
    and "jl_faults (se_store m) (jl_calls (se_store m)) = NoFault"
  shows "\<exists>n m2. open_file (se_store m) cwd_override current_dir id_time high low now = Inr m2 \<and>
    se_persisted_len m \<le> n \<and> se_entries m2 = take n (se_entries m) \<and> session_start m2"
proof -
  from file_session_durable [OF assms(1-4)] assms(5) obtain n where n: "se_persisted_len m \<le> n"
      "jsonl_stored (se_store m) = Some (take n (se_entries m))"
    by (auto simp: durable_def)
  then obtain bs h where bs: "jl_file (se_store m) = Some bs"
      "load_bytes (jl_codec (se_store m)) bs = Inr (Some (h, take n (se_entries m)))"
    by (auto simp: jsonl_stored_def stored_entries_def split: Option.bind_splits sum.splits option.splits)
  have "tree_inv m" using session_run_inv file_session_start [OF assms(2)] assms(3) by blast
  then have "entries_wf (take n (se_entries m))" by (simp add: tree_inv_def entries_wf_take)
  then have "session_start (open_session h' (take n (se_entries m)) st)" for h' st
    by (rule session_start.opened)
  moreover have "\<exists>h' st. open_file (se_store m) cwd_override current_dir id_time high low now =
      Inr (open_session h' (take n (se_entries m)) st)"
    using bs assms(6) by (simp add: open_file_def jsonl_load_def next_fault_def) blast
  ultimately show ?thesis
    using n(1) unfolding open_session_def by (metis from_parts_fields(1))
qed

section \<open>Witnesses\<close>

text \<open>A session of one message in a file, to which an append writes one byte of a second one and fails.\<close>

definition sample_header :: session_header where
  "sample_header =
     \<lparr>sh_version = SESSION_VERSION, sh_id = ''s'', sh_timestamp = 0, sh_cwd = ''w'', sh_parent_session = None\<rparr>"

definition sample_message :: "string \<Rightarrow> session_message" where
  "sample_message t = Llm (MsgUser \<lparr>um_content = [content_of_text t], um_timestamp = 0\<rparr>)"

definition sample_entry :: "string \<Rightarrow> string option \<Rightarrow> string \<Rightarrow> session_entry" where
  "sample_entry eid parent t =
     \<lparr>en_id = eid, en_parent_id = parent, en_timestamp = 5, en_kind = MessageEntry (sample_message t)\<rparr>"

definition sample_first :: session_entry where
  "sample_first = sample_entry ''00000000'' None ''a''"

definition sample_second :: session_entry where
  "sample_second = sample_entry ''00000001'' (Some ''00000000'') ''b''"

definition sample_codec :: codec where
  "sample_codec =
     \<lparr>cd_header = (\<lambda>h. if h = sample_header then Some [1, 2] else None),
      cd_entry = (\<lambda>e. if e = sample_first then Some [3, 2] else if e = sample_second then Some [4, 2] else None),
      cd_parse = (\<lambda>l. if l = [1, 2] then HeaderValue (Some sample_header)
        else if l = [3, 2] then EntryValue (Some sample_first)
        else if l = [4, 2] then EntryValue (Some sample_second) else NotJson)\<rparr>"

definition sample_store :: jsonl_store where
  "sample_store =
     (jsonl_new sample_codec (Some [1, 2, 10, 3, 2, 10]) None
       (\<lambda>i. if i = 0 then FailAfter 1 IoOther else NoFault) 0)\<lparr>jl_entry_ids := Some {|''00000000''|}\<rparr>"

definition sample_opened :: "jsonl_store session_manager" where
  "sample_opened = open_session sample_header [sample_first] sample_store"

lemma sample_codec_ok: "codec_ok sample_codec"
proof -
  have "take n [a, b] \<noteq> [c, d]" if "n < 2" for n and a b c d :: u8
    using that by (auto simp: less_2_cases_iff)
  then show ?thesis
    by (auto simp: codec_ok_def sample_codec_def is_blank_def split: if_splits)
qed

lemma sample_stored: "jsonl_stored sample_store = Some [sample_first]"
  by code_simp

lemma new_entry_id_first:
  "taken s (candidate random i) = (False, s') \<Longrightarrow> new_entry_id random taken i s = Some (candidate random i, Suc i, s')"
  by (subst new_entry_id.simps) simp

lemma sample_candidate: "candidate (\<lambda>i. 1) 0 = ''00000001''"
proof -
  have "hex_char 0 = CHR ''0''" "hex_char 1 = CHR ''1''" by code_simp+
  moreover have "rev [0..<8] = [7, 6, 5, 4, 3, 2, 1, 0 :: nat]" by code_simp
  ultimately have "hex_fixed 8 1 = ''00000001''" by (simp add: hex_fixed_def)
  then show ?thesis by simp
qed

lemma sample_opened_fields [simp]:
  "se_entries sample_opened = [sample_first]" "se_leaf sample_opened = Some ''00000000''"
  "se_store sample_opened = sample_store" "se_flushed sample_opened" "se_persisted_len sample_opened = 1"
  "\<not> se_needs_rewrite sample_opened"
  by (simp_all add: sample_opened_def open_session_def last_id_def sample_first_def sample_entry_def)

lemma sample_free: "taken_in_store jsonl_ops sample_opened (candidate (\<lambda>i. 1) 0) = (False, sample_opened)"
proof -
  have "entries_wf [sample_first]"
    by (simp add: entries_wf_def entry_ok_def sample_first_def sample_entry_def)
  from from_parts_inv [OF this, of sample_header sample_store True]
  have "tree_inv sample_opened" by (simp only: sample_opened_def open_session_def)
  then have "index_ok sample_opened" by (simp only: tree_inv_def)
  then have "fmlookup (se_index sample_opened) ''00000001'' = None"
    by (simp add: index_lookup_None sample_first_def sample_entry_def)
  then show ?thesis
    unfolding sample_candidate
    by (simp add: taken_in_store_def jsonl_ops_def jsonl_contains_entry_def sample_store_def jsonl_new_def)
qed

lemma sample_append:
  "append_message jsonl_ops (\<lambda>i. 1) sample_opened msg now =
     map_option (Pair ''00000001'') (persist jsonl_ops (pushed sample_opened ''00000001'' (MessageEntry msg) now))"
proof -
  have "new_entry_id (\<lambda>i. 1) (taken_in_store jsonl_ops) 0 sample_opened = Some (candidate (\<lambda>i. 1) 0, Suc 0, sample_opened)"
    by (rule new_entry_id_first) (rule sample_free)
  then show ?thesis
    unfolding append_message_def append_entry_def fresh_id_def sample_candidate by (simp add: append_with_id_pushed)
qed

definition sample_failed :: "jsonl_store session_manager" where
  "sample_failed =
     (pushed sample_opened ''00000001'' (MessageEntry (sample_message ''b'')) 5)
       \<lparr>se_store := sample_store\<lparr>jl_calls := 1, jl_file := Some [1, 2, 10, 3, 2, 10, 4]\<rparr>,
        se_needs_rewrite := True, se_persist_error := Some IoOther\<rparr>"

lemma sample_step: "append_message jsonl_ops (\<lambda>i. 1) sample_opened (sample_message ''b'') 5 = Some (''00000001'', sample_failed)"
proof -
  let ?m = "pushed sample_opened ''00000001'' (MessageEntry (sample_message ''b'')) 5"
  have e: "last (se_entries ?m) = sample_second"
    by (simp add: new_entry_def sample_second_def sample_entry_def)
  have "jsonl_append sample_store sample_second None =
      (Inl IoOther, sample_store\<lparr>jl_calls := 1, jl_file := Some [1, 2, 10, 3, 2, 10, 4]\<rparr>)"
    by (simp add: jsonl_append_def next_fault_def sample_store_def jsonl_new_def entry_line_def sample_codec_def
        sample_first_def sample_second_def sample_entry_def)
  moreover have "compaction_context ?m sample_second = Some (Inr None)"
    by (simp add: compaction_context_def sample_second_def sample_entry_def)
  ultimately have "flush jsonl_ops ?m = Some (Inl IoOther, ?m
      \<lparr>se_store := sample_store\<lparr>jl_calls := 1, jl_file := Some [1, 2, 10, 3, 2, 10, 4]\<rparr>, se_needs_rewrite := True\<rparr>)"
    unfolding flush_def Let_def e by (simp add: has_unpersisted_def written_def jsonl_ops_def)
  then show ?thesis
    by (simp add: sample_append persist_def sample_failed_def)
qed

lemma sample_session: "file_session sample_codec sample_opened"
  unfolding sample_opened_def
proof (rule file_session.opened)
  show "jl_codec sample_store = sample_codec" by (simp add: sample_store_def jsonl_new_def)
  show "jsonl_stored sample_store = Some [sample_first]" by (rule sample_stored)
  show "entries_wf [sample_first]"
    by (simp add: entries_wf_def entry_ok_def sample_first_def sample_entry_def)
qed

lemma sample_run: "(session_step jsonl_ops)\<^sup>*\<^sup>* sample_opened sample_failed"
  using session_step.message [OF sample_step] by simp

lemma sample_failed_fields [simp]:
  "se_entries sample_failed = [sample_first, sample_second]" "se_flushed sample_failed"
  "se_persisted_len sample_failed = 1" "se_leaf sample_failed = Some ''00000001''"
  "se_store sample_failed = sample_store\<lparr>jl_calls := 1, jl_file := Some [1, 2, 10, 3, 2, 10, 4]\<rparr>"
  by (simp_all add: sample_failed_def new_entry_def sample_second_def sample_entry_def)

lemma sample_decodes: "\<forall>e \<in> set (se_entries sample_failed). decodes sample_codec e"
  by (simp add: decodes_def sample_codec_def)

lemma sample_next_fault: "jl_faults (se_store sample_failed) (jl_calls (se_store sample_failed)) = NoFault"
  by (simp add: sample_store_def jsonl_new_def)



theorem session_file_durable_witness:
  "codec_ok sample_codec \<and> file_session sample_codec sample_opened \<and> se_flushed sample_failed \<and>
   (\<exists>n. 1 \<le> n \<and> jsonl_stored (se_store sample_failed) = Some (take n [sample_first, sample_second]))"
  using session_file_durable [OF sample_codec_ok sample_session sample_run sample_decodes] sample_codec_ok sample_session
  by (auto simp del: sample_failed_fields(5))

theorem crash_recovery_witness:
  "\<exists>n m2. open_file (se_store sample_failed) None (Inl IoOther) 0 0 0 0 = Inr m2 \<and> 1 \<le> n \<and>
     se_entries m2 = take n [sample_first, sample_second] \<and> session_start m2"
  using crash_recovery [OF sample_codec_ok sample_session sample_run sample_decodes _ sample_next_fault,
      where cwd_override = None and current_dir = "Inl IoOther" and id_time = 0 and high = 0 and low = 0 and now = 0]
  by (auto simp del: sample_failed_fields(5))

end
