(* ===== verification/Pi_Compaction_Facts.thy ===== *)
theory Pi_Compaction_Facts
  imports Pi_Compaction Pi_Session_Runs
begin

text \<open>
  Compaction is correct: the context after it is the prompt, the summary and the messages from the cut on,
  and what it leaves out is exactly what it asked to summarize. A response that failed, was cut off or calls
  a tool never becomes a summary.
\<close>

section \<open>Where the cut falls\<close>

lemma find_Some_in: "find P xs = Some x \<Longrightarrow> x \<in> set xs \<and> P x"
  by (auto simp: find_Some_iff)

lemma find_unique: "x \<in> set xs \<Longrightarrow> P x \<Longrightarrow> (\<And>y. y \<in> set xs \<Longrightarrow> P y \<Longrightarrow> y = x) \<Longrightarrow> find P xs = Some x"
  by (metis find_None_iff find_Some_in not_None_eq)

lemma onto_state_entries_spec:
  "start \<le> pos \<Longrightarrow> start \<le> onto_state_entries entries start pos \<and> onto_state_entries entries start pos \<le> pos \<and>
     (\<forall>i. onto_state_entries entries start pos \<le> i \<and> i < pos \<longrightarrow> pe_messages (entries ! i) = [])"
proof (induction entries start pos rule: onto_state_entries.induct)
  case (1 entries start pos)
  show ?case
  proof (cases "pos > start \<and> \<not> pe_is_compaction (entries ! (pos - 1)) \<and> pe_messages (entries ! (pos - 1)) = []")
    case True
    let ?r = "onto_state_entries entries start (pos - 1)"
    from True have step: "onto_state_entries entries start pos = ?r"
      by (subst onto_state_entries.simps) simp
    have "start \<le> pos - 1" using True by auto
    with 1(1) [OF True] have IH: "start \<le> ?r" "?r \<le> pos - 1"
        "\<forall>i. ?r \<le> i \<and> i < pos - 1 \<longrightarrow> pe_messages (entries ! i) = []"
      by blast+
    have "pe_messages (entries ! i) = []" if "?r \<le> i" "i < pos" for i
      using that IH(3) True by (cases "i = pos - 1") auto
    with IH show ?thesis unfolding step by auto
  next
    case False
    then have "onto_state_entries entries start pos = pos"
      by (subst onto_state_entries.simps) (simp only: if_False)
    with 1(2) show ?thesis by auto
  qed
qed

text \<open>Either nothing may be cut, or the first kept entry with messages is a cut point.\<close>

lemma find_cut_point_spec:
  fixes js entries start limit keep
  defines "cp \<equiv> find_cut_point js entries start limit keep"
  shows "start \<le> cp_first_kept cp"
    and "cp_turn_start cp = Some t \<Longrightarrow> start \<le> t \<and> t \<le> cp_first_kept cp"
    and "cp_first_kept cp = start \<and> cp_turn_start cp = None \<or>
      (\<exists>p \<ge> cp_first_kept cp. p < limit \<and> visible entries p is_cut_point \<and>
        (\<forall>i. cp_first_kept cp \<le> i \<and> i < p \<longrightarrow> pe_messages (entries ! i) = []))"
proof -
  let ?cuts = "filter (\<lambda>i. visible entries i is_cut_point) [start..<limit]"
  have "start \<le> cp_first_kept cp \<and> (\<forall>t. cp_turn_start cp = Some t \<longrightarrow> start \<le> t \<and> t \<le> cp_first_kept cp) \<and>
    (cp_first_kept cp = start \<and> cp_turn_start cp = None \<or>
      (\<exists>p \<ge> cp_first_kept cp. p < limit \<and> visible entries p is_cut_point \<and>
        (\<forall>i. cp_first_kept cp \<le> i \<and> i < p \<longrightarrow> pe_messages (entries ! i) = [])))"
  proof (cases ?cuts)
    case Nil
    then show ?thesis by (simp add: cp_def find_cut_point_def)
  next
    case (Cons first rest)
    define p where "p = (case recent_start js entries keep 0 (rev [start..<limit]) of
        Some i \<Rightarrow> (case find (\<lambda>c. c \<ge> i) ?cuts of Some c \<Rightarrow> c | None \<Rightarrow> last ?cuts)
      | None \<Rightarrow> first)"
    have "p \<in> set ?cuts"
      unfolding p_def using Cons
      by (auto split: option.split dest!: find_Some_in simp del: set_filter)
    then have p: "start \<le> p" "p < limit" "visible entries p is_cut_point" by auto
    define k where "k = onto_state_entries entries start p"
    have k: "start \<le> k" "k \<le> p" "\<forall>i. k \<le> i \<and> i < p \<longrightarrow> pe_messages (entries ! i) = []"
      using onto_state_entries_spec [OF p(1), of entries] by (simp_all add: k_def)
    have cp: "cp = \<lparr>cp_first_kept = k, cp_turn_start = (if \<not> visible entries p is_turn_start
        then find (\<lambda>i. visible entries i is_turn_start) (rev [start..<Suc k]) else None)\<rparr>"
      unfolding cp_def find_cut_point_def Cons Let_def list.case
      by (simp only: p_def [unfolded Cons, symmetric] k_def [symmetric])
    have "start \<le> t \<and> t \<le> k" if "cp_turn_start cp = Some t" for t
      using that k(1) by (auto simp: cp split: if_splits dest!: find_Some_in)
    moreover have "cp_first_kept cp = k" by (simp add: cp)
    ultimately show ?thesis using k p by metis
  qed
  then show "start \<le> cp_first_kept cp"
    and "cp_turn_start cp = Some t \<Longrightarrow> start \<le> t \<and> t \<le> cp_first_kept cp"
    and "cp_first_kept cp = start \<and> cp_turn_start cp = None \<or>
      (\<exists>p \<ge> cp_first_kept cp. p < limit \<and> visible entries p is_cut_point \<and>
        (\<forall>i. cp_first_kept cp \<le> i \<and> i < p \<longrightarrow> pe_messages (entries ! i) = []))"
    by simp_all
qed

section \<open>What is summarized\<close>

lemma entries_messages_append [simp]: "entries_messages (es @ es') = entries_messages es @ entries_messages es'"
  by (simp add: entries_messages_def)

lemma entries_messages_Nil [simp]: "entries_messages [] = []"
  by (simp add: entries_messages_def without_system_def)

lemma drop_take_split:
  assumes "i \<le> j" and "j \<le> k"
  shows "drop i (take j xs) @ drop j (take k xs) = drop i (take k xs)"
proof -
  let ?X = "take k xs"
  have "drop i ?X = drop i (take j ?X @ drop j ?X)"
    by (simp only: append_take_drop_id)
  also have "\<dots> = drop i (take j ?X) @ drop (i - length (take j ?X)) (drop j ?X)"
    by (simp only: drop_append)
  also have "drop (i - length (take j ?X)) (drop j ?X) = drop j ?X"
    using assms(1) by (cases "j \<le> length ?X") auto
  also have "take j ?X = take j xs"
    using assms(2) by (simp add: min_absorb1)
  finally show ?thesis by simp
qed

text \<open>The messages before the cut are summarized, in one part or two.\<close>

lemma prepared:
  fixes js path settings
  defines "entries \<equiv> pj_entries (project path)"
  defines "start \<equiv> (if previous_compaction path entries = None then 0 else 1 :: nat)"
  assumes prep: "prepare_compaction js path settings = Some prep"
  shows "\<exists>k p. start \<le> k \<and> k \<le> p \<and> p < length entries \<and>
      cn_first_kept_entry_id prep = pe_entry_id (entries ! k) \<and>
      cn_messages_to_summarize prep @ cn_turn_prefix_messages prep = entries_messages (drop start (take k entries)) \<and>
      visible entries p is_cut_point \<and> (\<forall>i. k \<le> i \<and> i < p \<longrightarrow> pe_messages (entries ! i) = [])"
    and "cn_previous_summary prep = Option.bind (previous_compaction path entries)
      (\<lambda>e. case en_kind e of Compaction c \<Rightarrow> Some (ce_summary c) | _ \<Rightarrow> None)"
proof -
  let ?cp = "find_cut_point js entries start (length entries) (cx_keep_recent_tokens settings)"
  let ?k = "cp_first_kept ?cp"
  let ?h = "case cp_turn_start ?cp of Some t \<Rightarrow> t | None \<Rightarrow> ?k"
  let ?old = "entries_messages (drop start (take ?h entries))"
  let ?turn = "case cp_turn_start ?cp of Some t \<Rightarrow> entries_messages (drop t (take ?k entries)) | None \<Rightarrow> []"
  have start: "(if previous_compaction path entries \<noteq> None then 1 else 0) = start"
    by (simp add: start_def)
  from prep have k: "?k < length entries" and some: "\<not> (?old = [] \<and> ?turn = [])"
    and fields: "cn_first_kept_entry_id prep = pe_entry_id (entries ! ?k)"
      "cn_messages_to_summarize prep = ?old" "cn_turn_prefix_messages prep = ?turn"
      "cn_previous_summary prep = Option.bind (previous_compaction path entries)
        (\<lambda>e. case en_kind e of Compaction c \<Rightarrow> Some (ce_summary c) | _ \<Rightarrow> None)"
    unfolding prepare_compaction_def Let_def entries_def [symmetric] start
    by (auto split: if_splits)
  note spec = find_cut_point_spec [where js = js and entries = entries and start = start
      and limit = "length entries" and keep = "cx_keep_recent_tokens settings"]
  have joined: "?old @ ?turn = entries_messages (drop start (take ?k entries))"
  proof (cases "cp_turn_start ?cp")
    case (Some t)
    with drop_take_split [of start t ?k entries] spec(2) [OF Some] show ?thesis
      by (simp flip: entries_messages_append)
  qed simp
  with some have "?k \<noteq> start" by (metis append_is_Nil_conv drop_take diff_self_eq_0 take0 entries_messages_Nil)
  with spec(3) obtain p where "?k \<le> p" "p < length entries" "visible entries p is_cut_point"
      "\<forall>i. ?k \<le> i \<and> i < p \<longrightarrow> pe_messages (entries ! i) = []"
    by blast
  with spec(1) fields(1-3) joined show "\<exists>k p. start \<le> k \<and> k \<le> p \<and> p < length entries \<and>
      cn_first_kept_entry_id prep = pe_entry_id (entries ! k) \<and>
      cn_messages_to_summarize prep @ cn_turn_prefix_messages prep = entries_messages (drop start (take k entries)) \<and>
      visible entries p is_cut_point \<and> (\<forall>i. k \<le> i \<and> i < p \<longrightarrow> pe_messages (entries ! i) = [])"
    by metis
  show "cn_previous_summary prep = Option.bind (previous_compaction path entries)
      (\<lambda>e. case en_kind e of Compaction c \<Rightarrow> Some (ce_summary c) | _ \<Rightarrow> None)"
    by (rule fields(4))
qed

section \<open>The entries of a projection\<close>

definition later_entry :: "(string \<rightharpoonup> content list option) \<Rightarrow> session_entry \<Rightarrow> projected_entry" where
  "later_entry edits e =
     \<lparr>pe_entry_id = en_id e, pe_is_compaction = is_compaction e, pe_messages = later_messages edits e\<rparr>"

lemma map_project_later_entry:
  "0 < i \<Longrightarrow> map (project_entry edits) (enumerate i es) = map (later_entry edits) es"
  by (induction es arbitrary: i) (simp_all add: project_entry_def later_entry_def later_messages_def)

lemma project_first_entry:
  "project_entry edits (0, e) =
     \<lparr>pe_entry_id = en_id e, pe_is_compaction = is_compaction e, pe_messages = edited_messages edits e\<rparr>"
  by (simp add: project_entry_def)

lemma pj_entries_plain:
  assumes "\<forall>e \<in> set path. \<not> is_compaction e"
  shows "pj_entries (project path) = map (later_entry (context_edits path)) path"
proof (cases path)
  case (Cons e es)
  then show ?thesis
    using assms map_project_later_entry [of "Suc 0" _ es]
    by (simp add: pj_entries_no_base context_entries_plain project_first_entry later_entry_def later_messages_def)
qed (simp add: pj_entries_no_base context_entries_plain)

lemma pj_entries_compacted:
  assumes ok: "path_ok (pre @ c # post)" and c: "en_kind c = Compaction k"
    and post: "\<forall>e \<in> set post. \<not> is_compaction e"
  shows "pj_entries (project (pre @ c # post)) =
    \<lparr>pe_entry_id = en_id c, pe_is_compaction = True, pe_messages = entry_messages c\<rparr> #
    map (later_entry (context_edits (pre @ c # post)))
      (nonsystem (dropWhile (\<lambda>e. en_id e \<noteq> ce_first_kept_entry_id k) pre) @ post)"
proof -
  let ?ctx = "nonsystem (dropWhile (\<lambda>e. en_id e \<noteq> ce_first_kept_entry_id k) pre) @ post"
  have "set (c # ?ctx) \<subseteq> set (pre @ c # post)"
    by (auto simp: nonsystem_def dest: set_dropWhileD)
  then have "edited_messages (context_edits (c # ?ctx)) c = entry_messages c"
    using uneditable_unedited [OF ok, of c] compaction_not_editable [of c] c
    by (simp add: edited_messages_def is_compaction_def)
  moreover have "map (later_entry (context_edits (c # ?ctx))) ?ctx =
      map (later_entry (context_edits (pre @ c # post))) ?ctx"
  proof (rule map_cong [OF refl])
    fix x
    assume "x \<in> set ?ctx"
    from context_edits_compacted [OF ok c this]
    have "later_messages (context_edits (c # ?ctx)) x = later_messages (context_edits (pre @ c # post)) x"
      by (rule later_messages_cong)
    then show "later_entry (context_edits (c # ?ctx)) x = later_entry (context_edits (pre @ c # post)) x"
      by (simp only: later_entry_def)
  qed
  ultimately show ?thesis
    unfolding pj_entries_no_base context_entries_compacted [OF c post] enumerate_simps list.map
      project_first_entry map_project_later_entry [OF zero_less_Suc]
    using c by (simp only: is_compaction_def [of c] entry_kind.case)
qed

lemma entries_messages_later:
  assumes "path_ok path" and "set es \<subseteq> set path"
  shows "entries_messages (map (later_entry (context_edits path)) es) =
    concat (map (later_messages (context_edits path)) (nonsystem es))"
proof -
  have "map pe_messages (map (later_entry (context_edits path)) es) = map (later_messages (context_edits path)) es"
    by (simp add: later_entry_def)
  then show ?thesis
    using without_system_concat [OF assms order_refl] by (simp only: entries_messages_def)
qed

text \<open>Every entry but a compaction has at most one message.\<close>

lemma later_messages_short: "length (later_messages edits e) \<le> 1"
proof (cases "is_compaction e")
  case False
  then have "length (entry_messages e) \<le> 1"
    by (cases "en_kind e") (simp_all add: entry_messages_def is_compaction_def)
  with False show ?thesis
    by (simp add: later_messages_def edited_messages_def split: option.split)
qed (simp add: later_messages_def)

section \<open>What is kept\<close>

lemma first_kept_message:
  assumes "k \<le> p" and "p < length es" and vis: "visible es p is_cut_point"
    and empty: "\<forall>i. k \<le> i \<and> i < p \<longrightarrow> pe_messages (es ! i) = []" and short: "length (pe_messages (es ! p)) \<le> 1"
  shows "\<exists>m rest. entries_messages (drop k es) = m # rest \<and> is_cut_point m"
proof -
  have "drop k es = drop k (take p es) @ es ! p # drop (Suc p) es"
    using assms(1,2) by (metis Cons_nth_drop_Suc append_take_drop_id drop_append diff_is_0_eq drop0 length_take min_absorb2 nless_le)
  moreover have "\<forall>x \<in> set (drop k (take p es)). pe_messages x = []"
    using empty assms(2) by (auto simp: in_set_conv_nth)
  then have "entries_messages (drop k (take p es)) = []"
    by (simp add: entries_messages_def without_system_def)
  moreover obtain m where "pe_messages (es ! p) = [m]" "is_cut_point m"
    using vis short by (cases "pe_messages (es ! p)") (auto simp: visible_def)
  moreover have "\<not> is_system_message m"
    using \<open>is_cut_point m\<close> by (auto simp: is_cut_point_def is_system_message_def as_message_def
        split: session_message.splits message.splits)
  ultimately have "entries_messages (drop k es) = m # entries_messages (drop (Suc p) es)"
    by (simp add: entries_messages_def without_system_def)
  with \<open>is_cut_point m\<close> show ?thesis by blast
qed

lemma filter_suffix:
  assumes "filter R S = A @ e # B" and "\<And>x. x \<in> set S \<Longrightarrow> V x \<Longrightarrow> R x"
  shows "\<exists>S1 S2. S = S1 @ e # S2 \<and> filter V S2 = filter V B"
  using assms
proof (induction A arbitrary: S)
  case Nil
  then obtain us vs where S: "S = us @ e # vs" "B = filter R vs"
    by (auto simp: filter_eq_Cons_iff)
  then have "filter V vs = filter V B"
    using Nil.prems(2) by (auto intro: filter_cong)
  with S show ?case by blast
next
  case (Cons a A)
  then obtain us vs where S: "S = us @ a # vs" "filter R vs = A @ e # B"
    by (auto simp: filter_eq_Cons_iff)
  from Cons.IH [OF S(2)] Cons.prems(2) S(1) obtain S1 S2 where "vs = S1 @ e # S2" "filter V S2 = filter V B"
    by auto
  with S(1) have "S = (us @ a # S1) @ e # S2 \<and> filter V S2 = filter V B" by simp
  then show ?case by blast
qed

definition carries :: "session_entry \<Rightarrow> bool" where
  "carries e \<longleftrightarrow> \<not> is_system_entry e \<and> \<not> is_compaction e"

lemma concat_later_carries:
  "concat (map (later_messages edits) (nonsystem es)) = concat (map (later_messages edits) (filter carries es))"
  by (induction es) (auto simp: nonsystem_def carries_def later_messages_def)

text \<open>The entries a projection leaves out after its head carry no message of a conversation.\<close>

lemma projection_view:
  assumes ok: "path_ok path"
  obtains (plain) "previous_compaction path (pj_entries (project path)) = None"
      "pj_entries (project path) = map (later_entry (context_edits path)) path"
  | (compacted) c k P S R where "en_kind c = Compaction k" "path = P @ S"
      "previous_compaction path (pj_entries (project path)) = Some c"
      "pj_entries (project path) =
        \<lparr>pe_entry_id = en_id c, pe_is_compaction = True, pe_messages = entry_messages c\<rparr> #
        map (later_entry (context_edits path)) (filter R S)"
      "\<And>x. x \<in> set S \<Longrightarrow> carries x \<Longrightarrow> R x"
proof (cases rule: latest_compaction [of path])
  case none
  have "previous_compaction path (pj_entries (project path)) = None"
    using none by (cases path) (auto simp: pj_entries_plain previous_compaction_def later_entry_def)
  with none show ?thesis by (intro plain) (simp_all add: pj_entries_plain)
next
  case (some pre c k post)
  let ?P = "\<lambda>e. en_id e \<noteq> ce_first_kept_entry_id k"
  let ?S = "dropWhile ?P pre @ c # post"
  define R where "R x \<longleftrightarrow> x \<in> set (nonsystem (dropWhile ?P pre) @ post)" for x
  have path: "path = takeWhile ?P pre @ ?S"
    using some(1) by (simp flip: append.assoc)
  have dist: "distinct ?S"
    using distinct_map [THEN iffD1, OF path_ok_distinct [OF ok], THEN conjunct1] unfolding path by (simp only: distinct_append)
  have "filter R (dropWhile ?P pre) = nonsystem (dropWhile ?P pre)"
    using dist by (auto simp: R_def nonsystem_def intro!: filter_cong)
  moreover have "filter R post = post"
    by (simp add: R_def)
  moreover have "\<not> R c"
    using dist by (auto simp: R_def nonsystem_def)
  ultimately have kept: "nonsystem (dropWhile ?P pre) @ post = filter R ?S"
    by simp
  have entries: "pj_entries (project path) =
      \<lparr>pe_entry_id = en_id c, pe_is_compaction = True, pe_messages = entry_messages c\<rparr> #
      map (later_entry (context_edits path)) (filter R ?S)"
    using pj_entries_compacted [of pre c post k] ok some kept by simp
  have "find (\<lambda>x. en_id x = en_id c) path = Some c"
    using find_unique [of c path "\<lambda>x. en_id x = en_id c"] path_ok_unique [OF ok] some(1) by simp
  then have previous: "previous_compaction path (pj_entries (project path)) = Some c"
    using some(2) by (simp add: entries previous_compaction_def entry_messages_def)
  have "R x" if "x \<in> set ?S" "carries x" for x
    using that some(2) by (auto simp: R_def carries_def nonsystem_def is_compaction_def)
  from compacted [OF some(2) path previous entries this] show ?thesis .
qed

text \<open>One statement for both forms of a projection: a head, and a filtered end of the branch.\<close>

lemma cut_view:
  assumes ok: "path_ok path" and path: "path = P @ S" and visible_kept: "\<And>x. x \<in> set S \<Longrightarrow> carries x \<Longrightarrow> R x"
    and es: "pj_entries (project path) = heads @ map (later_entry (context_edits path)) (filter R S)"
    and k: "length heads \<le> k" "k \<le> p" "p < length (pj_entries (project path))"
    and vis: "visible (pj_entries (project path)) p is_cut_point"
    and empty: "\<forall>i. k \<le> i \<and> i < p \<longrightarrow> pe_messages (pj_entries (project path) ! i) = []"
  shows "\<exists>S1 e S2. path = S1 @ e # S2 \<and> en_id e = pe_entry_id (pj_entries (project path) ! k) \<and>
      entries_messages (drop k (pj_entries (project path))) =
        concat (map (later_messages (context_edits path)) (nonsystem (e # S2))) \<and>
      (\<exists>m rest. entries_messages (drop k (pj_entries (project path))) = m # rest \<and> is_cut_point m)"
proof -
  let ?es = "pj_entries (project path)" and ?L = "filter R S" and ?j = "k - length heads"
  have len: "length ?es = length heads + length ?L" by (simp add: es)
  then have j: "?j < length ?L" using k by linarith
  have kth: "?es ! k = later_entry (context_edits path) (?L ! ?j)"
    using k j by (simp add: es nth_append)
  from filter_suffix [OF id_take_nth_drop [OF j], of carries] visible_kept obtain S1 S2
    where S: "S = S1 @ ?L ! ?j # S2" "filter carries S2 = filter carries (drop (Suc ?j) ?L)"
    by blast
  have kept: "drop k ?es = map (later_entry (context_edits path)) (?L ! ?j # drop (Suc ?j) ?L)"
    using k(1) Cons_nth_drop_Suc [OF j] by (simp add: es drop_map)
  have "set (?L ! ?j # drop (Suc ?j) ?L) \<subseteq> set path"
    using Cons_nth_drop_Suc [OF j] path by (metis filter_is_subset le_supI2 order_trans set_append set_drop_subset)
  from entries_messages_later [OF ok this]
  have "entries_messages (drop k ?es) = concat (map (later_messages (context_edits path)) (nonsystem (?L ! ?j # S2)))"
    unfolding kept concat_later_carries using S(2) by simp
  moreover have "length (pe_messages (?es ! p)) \<le> 1"
  proof -
    have "?es ! p = later_entry (context_edits path) (?L ! (p - length heads))"
      using k len by (simp add: es nth_append)
    then show ?thesis using later_messages_short by (simp add: later_entry_def)
  qed
  then have "\<exists>m rest. entries_messages (drop k ?es) = m # rest \<and> is_cut_point m"
    by (rule first_kept_message [OF k(2,3) vis empty])
  moreover have "path = (P @ S1) @ ?L ! ?j # S2" using path S(1) by simp
  moreover have "en_id (?L ! ?j) = pe_entry_id (?es ! k)" by (simp add: kth later_entry_def)
  ultimately show ?thesis by blast
qed

text \<open>The summary the branch already leads with.\<close>

definition earlier_summary :: "compaction_preparation \<Rightarrow> session_message list \<Rightarrow> bool" where
  "earlier_summary prep lead =
     (case cn_previous_summary prep of
        None \<Rightarrow> lead = []
      | Some s \<Rightarrow> (\<exists>c. lead = [CompactionSummary c] \<and> cs_summary c = s))"

lemma entries_messages_compaction:
  "en_kind c = Compaction k \<Longrightarrow>
     entries_messages [\<lparr>pe_entry_id = i, pe_is_compaction = b, pe_messages = entry_messages c\<rparr>] =
       [CompactionSummary \<lparr>cs_summary = ce_summary k, cs_tokens_before = ce_tokens_before k, cs_timestamp = en_timestamp c\<rparr>]"
  by (simp add: entries_messages_def without_system_def entry_messages_def is_system_message_def as_message_def
      split: option.split)

lemma prepared_context:
  assumes ok: "path_ok path" and prep: "prepare_compaction js path settings = Some prep"
  shows "\<exists>lead S1 e S2 m rest. path = S1 @ e # S2 \<and> en_id e = cn_first_kept_entry_id prep \<and>
    earlier_summary prep lead \<and>
    without_system (pj_messages (project path)) =
      lead @ cn_messages_to_summarize prep @ cn_turn_prefix_messages prep @ m # rest \<and>
    concat (map (later_messages (context_edits path)) (nonsystem (e # S2))) = m # rest \<and> is_cut_point m"
proof -
  let ?es = "pj_entries (project path)"
  have all: "without_system (pj_messages (project path)) =
      entries_messages (take n ?es) @ entries_messages (drop n (take k ?es)) @ entries_messages (drop k ?es)"
    if "n \<le> k" for n k
  proof -
    have "(take n ?es @ drop n (take k ?es)) @ drop k ?es = ?es"
      using drop_take_split [of 0 n k ?es] that by simp
    then have "entries_messages ?es =
        entries_messages (take n ?es) @ entries_messages (drop n (take k ?es)) @ entries_messages (drop k ?es)"
      by (metis append_assoc entries_messages_append)
    then show ?thesis by (simp add: project_def pj_messages_entries entries_messages_def)
  qed
  have finish: ?thesis
    if "n \<le> k" "earlier_summary prep (entries_messages (take n ?es))"
      "cn_messages_to_summarize prep @ cn_turn_prefix_messages prep = entries_messages (drop n (take k ?es))"
      "\<exists>S1 e S2. path = S1 @ e # S2 \<and> en_id e = cn_first_kept_entry_id prep \<and>
        entries_messages (drop k ?es) = concat (map (later_messages (context_edits path)) (nonsystem (e # S2))) \<and>
        (\<exists>m rest. entries_messages (drop k ?es) = m # rest \<and> is_cut_point m)" for n k
  proof -
    from that(4) obtain S1 e S2 m rest where c: "path = S1 @ e # S2" "en_id e = cn_first_kept_entry_id prep"
        "concat (map (later_messages (context_edits path)) (nonsystem (e # S2))) = m # rest"
        "entries_messages (drop k ?es) = m # rest" "is_cut_point m"
      by metis
    have "without_system (pj_messages (project path)) = entries_messages (take n ?es) @
        cn_messages_to_summarize prep @ cn_turn_prefix_messages prep @ m # rest"
      using all [OF that(1)] c(4) that(3) [symmetric] by simp
    with c(1-3,5) that(2) show ?thesis by metis
  qed
  note p = prepared [OF prep]
  from ok show ?thesis
  proof (cases rule: projection_view)
    case plain
    with p(1) obtain k q where k: "k \<le> q" "q < length ?es"
        "cn_first_kept_entry_id prep = pe_entry_id (?es ! k)"
        "cn_messages_to_summarize prep @ cn_turn_prefix_messages prep = entries_messages (drop 0 (take k ?es))"
        "visible ?es q is_cut_point" "\<forall>i. k \<le> i \<and> i < q \<longrightarrow> pe_messages (?es ! i) = []"
      by auto
    have "?es = [] @ map (later_entry (context_edits path)) (filter (\<lambda>_. True) path)" using plain(2) by simp
    from cut_view [OF ok append_Nil [symmetric] _ this _ k(1,2,5,6)] k(3,4) p(2) plain(1)
    show ?thesis by (intro finish [of 0 k]) (simp_all add: earlier_summary_def)
  next
    case (compacted c kc P S R)
    let ?head = "[\<lparr>pe_entry_id = en_id c, pe_is_compaction = True, pe_messages = entry_messages c\<rparr>]"
    from compacted(3) p(1) obtain k q where k: "1 \<le> k" "k \<le> q" "q < length ?es"
        "cn_first_kept_entry_id prep = pe_entry_id (?es ! k)"
        "cn_messages_to_summarize prep @ cn_turn_prefix_messages prep = entries_messages (drop 1 (take k ?es))"
        "visible ?es q is_cut_point" "\<forall>i. k \<le> i \<and> i < q \<longrightarrow> pe_messages (?es ! i) = []"
      by auto
    have es: "?es = ?head @ map (later_entry (context_edits path)) (filter R S)" using compacted(4) by simp
    have lead: "entries_messages (take 1 ?es) = entries_messages ?head" by (simp add: es)
    have "earlier_summary prep (entries_messages ?head)"
      using p(2) compacted(1,3) by (simp add: earlier_summary_def entries_messages_compaction)
    moreover have "length ?head \<le> k" using k(1) by simp
    from cut_view [OF ok compacted(2,5) es this k(2,3,6,7)] k(4)
    have "\<exists>S1 e S2. path = S1 @ e # S2 \<and> en_id e = cn_first_kept_entry_id prep \<and>
        entries_messages (drop k ?es) = concat (map (later_messages (context_edits path)) (nonsystem (e # S2))) \<and>
        (\<exists>m rest. entries_messages (drop k ?es) = m # rest \<and> is_cut_point m)"
      by (simp only:)
    ultimately show ?thesis unfolding lead [symmetric] by (intro finish [OF k(1) _ k(5)])
  qed
qed

section \<open>The context after a compaction\<close>

lemma tree_inv_projection:
  assumes "tree_inv m"
  shows "projection m = Some (project (lineage (rev (se_entries m)) (se_leaf m)))"
  using tree_inv_branch(1) [OF assms] assms
  by (simp add: projection_def base_for_branch_def project_def tree_inv_def)

text \<open>The entry a compaction appends to the branch.\<close>

definition compaction_of ::
    "'st session_manager \<Rightarrow> string \<Rightarrow> string option \<Rightarrow> u64 \<Rightarrow> json option \<Rightarrow> usage option \<Rightarrow> bool \<Rightarrow> timestamp \<Rightarrow>
      string \<Rightarrow> session_message list \<Rightarrow> compaction_entry" where
  "compaction_of m summary first_kept tokens details used ext system_time eid ms =
     \<lparr>ce_summary = summary, ce_first_kept_entry_id = (case first_kept of Some k \<Rightarrow> k | None \<Rightarrow> eid),
      ce_tokens_before = tokens, ce_details = details, ce_usage = used, ce_from_extension = ext,
      ce_system_message =
        map_option (\<lambda>s. s\<lparr>sm_timestamp := system_time\<rparr>) (current_system_message (List.map_filter as_message ms))\<rparr>"

lemma append_compaction_ok:
  assumes inv: "tree_inv m" "write_ok m" and path: "branch m = Some path"
    and app: "append_compaction ops random m summary first_kept tokens details used ext system_time now = Some (eid, m')"
  defines "kc \<equiv> compaction_of m summary first_kept tokens details used ext system_time eid (pj_messages (project path))"
  shows "tree_inv m' \<and> write_ok m' \<and> projection m = Some (project path) \<and> path_ok path \<and>
    branch m' = Some (path @ [new_entry m eid (Compaction kc) now]) \<and>
    projection m' = Some (project (path @ [new_entry m eid (Compaction kc) now])) \<and>
    path_ok (path @ [new_entry m eid (Compaction kc) now]) \<and> se_entries m' = se_entries m @ [new_entry m eid (Compaction kc) now]"
proof -
  let ?e = "new_entry m eid (Compaction kc) now"
  have l: "path = lineage (rev (se_entries m)) (se_leaf m)"
    using tree_inv_branch(1) [OF inv(1)] path by simp
  have old: "projection m = Some (project path)"
    using tree_inv_projection [OF inv(1)] l by simp
  from app old obtain m1 where f: "fresh_id ops random m = Some (eid, m1)"
    and a: "append_with_id ops m1 eid (Compaction kc) now = Some (eid, m')"
    unfolding append_compaction_def kc_def compaction_of_def
    by (auto simp: append_with_id_pushed Let_def split: Option.bind_splits)
  then have "append_entry ops random m (Compaction kc) now = Some (eid, m')"
    by (simp add: append_entry_def)
  from append_entry_ok [OF inv _ this] have new: "tree_inv m'" "write_ok m'" "se_leaf m' = Some eid"
      "se_entries m' = se_entries m @ [?e]"
    by (simp_all add: kind_ok_def)
  have br: "branch m' = Some (path @ [?e])"
    using branch_snoc [OF inv(1) new(1,4)] new(3) path by simp
  moreover have "lineage (rev (se_entries m')) (se_leaf m') = path @ [?e]"
    using br tree_inv_branch(1) [OF new(1)] by simp
  ultimately show ?thesis
    using new old l tree_inv_projection [OF new(1)] inv(1)
      lineage_path_ok [of "se_entries m'" "se_leaf m'"] lineage_path_ok [of "se_entries m" "se_leaf m"]
    by (simp add: tree_inv_def)
qed

lemma dropWhile_first:
  assumes "path_ok (S1 @ e # S2)"
  shows "dropWhile (\<lambda>x. en_id x \<noteq> en_id e) (S1 @ e # S2) = e # S2"
proof -
  have "\<forall>x \<in> set S1. en_id x \<noteq> en_id e"
    using path_ok_distinct [OF assms] by (metis distinct_append image_eqI list.set_intros(1) list.simps(9)
        list.set_map map_append disjoint_iff)
  then show ?thesis by (simp add: dropWhile_append2)
qed

lemma without_system_nonsystem:
  assumes "path_ok path" and "set es \<subseteq> set path"
  shows "without_system (concat (map (later_messages (context_edits path)) (nonsystem es))) =
    concat (map (later_messages (context_edits path)) (nonsystem es))"
proof -
  have "set (nonsystem es) \<subseteq> set path" "nonsystem (nonsystem es) = nonsystem es"
    using assms(2) by (auto simp: nonsystem_def)
  with without_system_concat [OF assms(1) _ order_refl, of "nonsystem es"] show ?thesis by simp
qed

text \<open>The projection of a branch that ends with a compaction.\<close>

lemma pj_messages_after_compaction:
  assumes ok: "path_ok (path @ [c])" and c: "en_kind c = Compaction k"
  shows "pj_messages (project (path @ [c])) = entry_messages c @
    concat (map (later_messages (context_edits path))
      (nonsystem (dropWhile (\<lambda>e. en_id e \<noteq> ce_first_kept_entry_id k) path)))"
  using pj_messages_path_compacted [of path c "[]" k] ok c
    context_edits_no_edit [OF compaction_no_edit [OF c], of path "[]"] by simp

text \<open>Recording a compaction returns as soon as one number drawn gives a free identifier.\<close>

lemma append_compaction_returns:
  assumes inv: "tree_inv m" "write_ok m" and free: "candidate random k \<notin> ids (se_entries m)"
    "\<forall>st. fst (st_contains_entry ops st (candidate random k)) \<noteq> Inr True"
  shows "\<exists>eid m'. append_compaction ops random m summary first_kept tokens details used ext system_time now = Some (eid, m')"
proof -
  obtain eid m1 where f: "fresh_id ops random m = Some (eid, m1)" using fresh_id_returns [where random = random and k = k, OF inv(1) free] by blast
  from fresh_id_shape [OF f] obtain st where m1: "m1 = m\<lparr>se_store := st\<rparr>" "fmlookup (se_index m) eid = None" by blast
  have "eid \<notin> ids (se_entries m)" using inv(1) m1(2) index_lookup_None [of m eid] by (simp add: tree_inv_def)
  then have ok: "tree_inv m1" "write_ok m1" "eid \<notin> ids (se_entries m1)" using inv m1(1) by (simp_all add: write_ok_def)
  have "\<exists>m'. append_with_id ops m1 eid (Compaction c) now = Some (eid, m')" for c
    using append_with_id_ok [OF ok, of "Compaction c" ops now] by (auto simp: kind_ok_def)
  with f tree_inv_projection [OF inv(1)] show ?thesis by (simp add: append_compaction_def Let_def) blast
qed

lemma map_filter_append: "List.map_filter f (xs @ ys) = List.map_filter f xs @ List.map_filter f ys"
  by (simp add: List.map_filter_def)

lemma system_messages_without:
  "without_system ms = ms \<Longrightarrow> system_messages (List.map_filter as_message (xs @ ms)) =
     system_messages (List.map_filter as_message xs)"
proof -
  assume "without_system ms = ms"
  then have "\<forall>m \<in> set ms. \<not> is_system_message m" by (simp add: without_system_def filter_id_conv)
  then have "system_messages (List.map_filter as_message ms) = []"
    by (induction ms) (auto simp: List.map_filter_def is_system_message_def is_system_def
        split: option.splits message.splits)
  then show ?thesis by (simp add: map_filter_append)
qed

lemma replayed_again: "ss \<noteq> [] \<Longrightarrow> replayed [(replayed ss)\<lparr>sm_timestamp := t\<rparr>] = (replayed ss)\<lparr>sm_timestamp := t\<rparr>"
proof -
  assume "ss \<noteq> []"
  then have "replayed [replayed ss] = replayed ss" using replayed_prefix [of ss "[]"] by simp
  moreover have "replayed [s\<lparr>sm_timestamp := t\<rparr>] = (replayed [s])\<lparr>sm_timestamp := t\<rparr>" for s
    by (simp add: replayed_def replay_tools_def)
  ultimately show ?thesis by simp
qed

text \<open>
  C11: Compacting a session keeps what the cut keeps and summarizes the rest: apart from system messages, the
  context was the earlier summary if any, the messages to summarize, those of the turn that is split, and
  a remainder; afterwards it is the new summary and the same remainder, edits included. The remainder is not
  empty and does not begin with the result of a tool call.
\<close>

theorem compaction_keeps_recent:
  assumes "tree_inv m" "write_ok m" and "branch m = Some path"
    and prep: "prepare_compaction js path settings = Some prep"
    and app: "append_compaction ops random m summary (Some (cn_first_kept_entry_id prep)) tokens details used ext
      system_time now = Some (eid, m')"
  shows "\<exists>old new lead first rest. projection m = Some old \<and> projection m' = Some new \<and>
    earlier_summary prep lead \<and>
    without_system (pj_messages old) =
      lead @ cn_messages_to_summarize prep @ cn_turn_prefix_messages prep @ first # rest \<and>
    without_system (pj_messages new) =
      CompactionSummary \<lparr>cs_summary = summary, cs_tokens_before = tokens, cs_timestamp = now\<rparr> # first # rest \<and>
    is_cut_point first"
proof -
  define k where "k = compaction_of m summary (Some (cn_first_kept_entry_id prep)) tokens details used ext system_time
    eid (pj_messages (project path))"
  let ?c = "new_entry m eid (Compaction k) now"
  note new = append_compaction_ok [OF assms(1-3) app, folded k_def]
  from prepared_context [of path js settings prep] new prep obtain lead S1 e S2 first rest
    where p: "path = S1 @ e # S2" "en_id e = cn_first_kept_entry_id prep" "earlier_summary prep lead"
      "without_system (pj_messages (project path)) =
        lead @ cn_messages_to_summarize prep @ cn_turn_prefix_messages prep @ first # rest"
      "concat (map (later_messages (context_edits path)) (nonsystem (e # S2))) = first # rest" "is_cut_point first"
    by blast
  have "dropWhile (\<lambda>x. en_id x \<noteq> ce_first_kept_entry_id k) path = e # S2"
    using dropWhile_first [of S1 e S2] new p(1,2) by (simp add: k_def compaction_of_def)
  then have msgs: "pj_messages (project (path @ [?c])) = entry_messages ?c @ first # rest"
    using pj_messages_after_compaction [of path ?c k] new p(5) by simp
  have "without_system (first # rest) = first # rest"
    using without_system_nonsystem [of path "e # S2"] new p(1,5) by auto
  then have "without_system (pj_messages (project (path @ [?c]))) =
      CompactionSummary \<lparr>cs_summary = summary, cs_tokens_before = tokens, cs_timestamp = now\<rparr> # first # rest"
    unfolding msgs without_system_append
    by (simp add: entry_messages_def k_def compaction_of_def without_system_def is_system_message_def as_message_def
        split: option.split)
  with new p(3,4,6) show ?thesis by blast
qed

text \<open>
  C22: A compaction leaves the system prompt, its sections and the tools of the context as they were; only the
  time of the system message is that of the compaction.
\<close>

theorem compaction_keeps_prompt:
  assumes "tree_inv m" "write_ok m"
    and app: "append_compaction ops random m summary first_kept tokens details used ext system_time now = Some (eid, m')"
  shows "\<exists>old new. projection m = Some old \<and> projection m' = Some new \<and>
    current_system_message (List.map_filter as_message (pj_messages new)) =
      map_option (\<lambda>s. s\<lparr>sm_timestamp := system_time\<rparr>)
        (current_system_message (List.map_filter as_message (pj_messages old)))"
proof -
  obtain path where path: "branch m = Some path" using tree_inv_branch(1) [OF assms(1)] by blast
  define k where "k = compaction_of m summary first_kept tokens details used ext system_time
    eid (pj_messages (project path))"
  let ?c = "new_entry m eid (Compaction k) now"
  let ?kept = "concat (map (later_messages (context_edits path))
      (nonsystem (dropWhile (\<lambda>e. en_id e \<noteq> ce_first_kept_entry_id k) path)))"
  note new = append_compaction_ok [OF assms(1,2) path app, folded k_def]
  have "without_system ?kept = ?kept"
    using new by (intro without_system_nonsystem) (auto dest: set_dropWhileD)
  then have "system_messages (List.map_filter as_message (pj_messages (project (path @ [?c])))) =
      system_messages (List.map_filter as_message (entry_messages ?c))"
    using pj_messages_after_compaction [of path ?c k] new system_messages_without by simp
  also have "\<dots> = (case ce_system_message k of Some s \<Rightarrow> [s] | None \<Rightarrow> [])"
    by (simp add: entry_messages_def as_message_def List.map_filter_def split: option.split)
  finally show ?thesis
    using new replayed_again by (auto simp: current_system_message_replayed k_def compaction_of_def)
qed

section \<open>Summaries\<close>

text \<open>A response the loop may end with: every earlier attempt was one to repeat.\<close>

definition final_response :: "summarizer \<Rightarrow> string \<Rightarrow> u32 \<Rightarrow> assistant_message \<Rightarrow> bool" where
  "final_response self prompt attempt response \<longleftrightarrow>
     attempt \<le> sz_max_retries self \<and> response = sz_stream self (request_reasoning self) prompt attempt \<and>
     (\<forall>earlier < attempt.
        is_retryable_error (sz_patterns self) (sz_stream self (request_reasoning self) prompt earlier))"

lemma summarize_from_result:
  assumes "attempt \<le> sz_max_retries self"
    and "\<forall>b < attempt. is_retryable_error (sz_patterns self) (sz_stream self (request_reasoning self) prompt b)"
  shows "\<exists>a response. final_response self prompt a response \<and>
    snd (summarize_from self prompt label attempt) = summary_outcome label response"
  using assms
proof (induction self prompt label attempt rule: summarize_from.induct)
  case (1 self prompt label attempt)
  let ?r = "sz_stream self (request_reasoning self) prompt attempt"
  let ?go = "is_retryable_error (sz_patterns self) ?r \<and> attempt < sz_max_retries self \<and>
    \<not> sz_cancelled self prompt attempt"
  show ?case
  proof (cases "?go \<and> sz_waited self prompt attempt")
    case True
    then have step: "snd (summarize_from self prompt label attempt) = snd (summarize_from self prompt label (attempt + 1))"
      by (subst summarize_from.simps) (simp add: Let_def split: prod.split)
    have next_le: "attempt + 1 \<le> sz_max_retries self"
      using True unat_Suc_u32 [of attempt] by (auto simp: word_le_nat_alt word_less_nat_alt)
    have "b = attempt \<or> b < attempt" if "b < attempt + 1" for b
      using that True unat_Suc_u32 [of attempt "sz_max_retries self"]
      by (auto simp: word_less_nat_alt less_Suc_eq word_unat_eq_iff)
    then have "\<forall>b < attempt + 1. is_retryable_error (sz_patterns self) (sz_stream self (request_reasoning self) prompt b)"
      using True 1(3) by blast
    from 1(1) [OF refl refl _ refl _ next_le this] True show ?thesis unfolding step by blast
  next
    case False
    then have "snd (summarize_from self prompt label attempt) = summary_outcome label ?r"
      by (subst summarize_from.simps) (auto simp: Let_def)
    moreover have "final_response self prompt attempt ?r"
      using 1(2,3) by (simp add: final_response_def)
    ultimately show ?thesis by blast
  qed
qed

text \<open>A text that is a whole answer: the model ended it, and called no tool.\<close>

definition complete_answer :: "summarizer \<Rightarrow> string \<Rightarrow> string \<Rightarrow> bool" where
  "complete_answer self prompt t \<longleftrightarrow>
     (\<exists>attempt response. final_response self prompt attempt response \<and>
        am_stop_reason response \<in> {StopStop, StopToolUse} \<and> tool_calls response = [] \<and> t = assistant_text response)"

lemma summarize_complete: "snd (summarize self prompt label) = Inr (t, u) \<Longrightarrow> complete_answer self prompt t"
proof -
  assume r: "snd (summarize self prompt label) = Inr (t, u)"
  obtain a response where f: "final_response self prompt a response"
    and "snd (summarize self prompt label) = summary_outcome label response"
    using summarize_from_result [of 0 self prompt label] by (auto simp: summarize_def)
  with r have "summary_outcome label response = Inr (t, u)" by simp
  then have "am_stop_reason response \<in> {StopStop, StopToolUse} \<and> tool_calls response = [] \<and> t = assistant_text response"
    by (auto simp: summary_outcome_def split: stop_reason.splits if_splits)
  with f show ?thesis unfolding complete_answer_def by blast
qed

text \<open>
  C24: What a compaction records consists of complete answers only: a response that failed, was aborted,
  hit its limit or called a tool becomes no part of a summary, and only failures that may pass are repeated,
  no more often than allowed. The record names the entry the preparation keeps from.
\<close>

theorem compact_records_complete_answers:
  assumes "compact js texts prep self custom = Inr r"
  shows "cr_first_kept_entry_id r = cn_first_kept_entry_id prep \<and>
    (\<exists>body. (\<exists>files. cr_summary r = body @ files) \<and>
      (if cn_turn_prefix_messages prep = [] then complete_answer self (history_prompt js texts prep custom) body
       else \<exists>history prefix.
         body = history @ blank_line @ ''---'' @ blank_line @ ''**Turn Context (split turn):**'' @ blank_line @ prefix \<and>
         complete_answer self (turn_prefix_prompt js texts prep custom) prefix \<and>
         (if cn_messages_to_summarize prep = []
          then history = (case cn_previous_summary prep of Some s \<Rightarrow> s | None \<Rightarrow> ''No prior history.'')
          else complete_answer self (history_prompt js texts prep custom) history)))"
proof -
  from assms obtain body used where b: "summary_text js texts prep self custom = Inr (body, used)"
    and r: "cr_first_kept_entry_id r = cn_first_kept_entry_id prep" "\<exists>files. cr_summary r = body @ files"
    by (auto simp: compact_def and_then_def Let_def case_prod_beta split: sum.splits)
  have "if cn_turn_prefix_messages prep = [] then complete_answer self (history_prompt js texts prep custom) body
       else \<exists>history prefix.
         body = history @ blank_line @ ''---'' @ blank_line @ ''**Turn Context (split turn):**'' @ blank_line @ prefix \<and>
         complete_answer self (turn_prefix_prompt js texts prep custom) prefix \<and>
         (if cn_messages_to_summarize prep = []
          then history = (case cn_previous_summary prep of Some s \<Rightarrow> s | None \<Rightarrow> ''No prior history.'')
          else complete_answer self (history_prompt js texts prep custom) history)"
  proof (cases "cn_turn_prefix_messages prep = []")
    case True
    with b show ?thesis by (auto simp: summary_text_def Let_def intro: summarize_complete)
  next
    case False
    with b obtain history u prefix v where
      h: "(if cn_messages_to_summarize prep = []
         then Inr (case cn_previous_summary prep of Some s \<Rightarrow> s | None \<Rightarrow> ''No prior history.'', default_usage)
         else snd (summarize self (history_prompt js texts prep custom) ''Summarization'')) = Inr (history, u)"
      and p: "snd (summarize self (turn_prefix_prompt js texts prep custom) ''Turn prefix summarization'') = Inr (prefix, v)"
      and "body = history @ blank_line @ ''---'' @ blank_line @ ''**Turn Context (split turn):**'' @ blank_line @ prefix"
      by (auto simp: summary_text_def Let_def and_then_def split: sum.splits)
    moreover have "if cn_messages_to_summarize prep = []
        then history = (case cn_previous_summary prep of Some s \<Rightarrow> s | None \<Rightarrow> ''No prior history.'')
        else complete_answer self (history_prompt js texts prep custom) history"
      using h summarize_complete by (simp split: if_splits)
    ultimately show ?thesis using False summarize_complete [OF p] by (simp only: if_False) blast
  qed
  with r show ?thesis by blast
qed

section \<open>Witnesses\<close>

definition sample_settings :: compaction_settings where
  "sample_settings = default_settings\<lparr>cx_keep_recent_tokens := 1\<rparr>"

definition sample_texts :: json_texts where
  "sample_texts = \<lparr>jt_tools_chars = length, jt_removed_chars = length, jt_arguments_chars = length, jt_value = (\<lambda>_. [])\<rparr>"

definition sample_chat :: "unit session_manager" where
  "sample_chat = open_session sample_header [sample_first, sample_second] ()"

lemma sample_prepared:
  "case prepare_compaction sample_texts [sample_first, sample_second] sample_settings of
     Some p \<Rightarrow> cn_first_kept_entry_id p = ''00000001'' \<and> cn_messages_to_summarize p = [sample_message ''a''] \<and>
       cn_turn_prefix_messages p = [] \<and> cn_previous_summary p = None
   | None \<Rightarrow> False"
  by code_simp

lemma sample_chat_inv: "tree_inv sample_chat" "write_ok sample_chat"
proof -
  have "entries_wf [sample_first, sample_second]"
    by (simp add: entries_wf_def entry_ok_def sample_first_def sample_second_def sample_entry_def)
  from from_parts_inv [OF this, of sample_header "()" True]
  show "tree_inv sample_chat" "write_ok sample_chat" by (simp_all add: sample_chat_def open_session_def)
qed

lemma sample_chat_branch: "branch sample_chat = Some [sample_first, sample_second]"
  using tree_inv_branch(1) [OF sample_chat_inv(1)]
  by (simp add: sample_chat_def open_session_def last_id_def sample_first_def sample_second_def sample_entry_def)

lemma sample_chat_append:
  "\<exists>eid m'. append_compaction memory_store (\<lambda>_. 2) sample_chat summary k tokens details used ext system_time now =
     Some (eid, m')"
proof -
  have "hex_char 0 = CHR ''0''" "hex_char 2 = CHR ''2''" by code_simp+
  moreover have "rev [0..<8] = [7, 6, 5, 4, 3, 2, 1, 0 :: nat]" by code_simp
  ultimately have "candidate (\<lambda>_. 2) 0 = ''00000002''" by (simp add: hex_fixed_def)
  moreover have "''00000002'' \<notin> ids (se_entries sample_chat)"
    by (simp add: sample_chat_def open_session_def sample_first_def sample_second_def sample_entry_def)
  ultimately show ?thesis
    using append_compaction_returns [OF sample_chat_inv, of "\<lambda>_. 2" 0 memory_store] by (simp add: memory_store_def)
qed

theorem compaction_keeps_recent_witness:
  "\<exists>eid m' new. append_compaction memory_store (\<lambda>_. 2) sample_chat ''S'' (Some ''00000001'') 9 None None False 6 6 =
     Some (eid, m') \<and> projection m' = Some new \<and>
     without_system (pj_messages new) =
       [CompactionSummary \<lparr>cs_summary = ''S'', cs_tokens_before = 9, cs_timestamp = 6\<rparr>, sample_message ''b'']"
proof -
  obtain p where p: "prepare_compaction sample_texts [sample_first, sample_second] sample_settings = Some p"
      "cn_first_kept_entry_id p = ''00000001''" "cn_messages_to_summarize p = [sample_message ''a'']"
      "cn_turn_prefix_messages p = []" "cn_previous_summary p = None"
    using sample_prepared by (auto split: option.splits)
  obtain eid m' where a: "append_compaction memory_store (\<lambda>_. 2) sample_chat ''S'' (Some ''00000001'') 9 None None False 6 6 =
      Some (eid, m')" using sample_chat_append by blast
  have "projection sample_chat = Some (project [sample_first, sample_second])"
    using append_compaction_ok [OF sample_chat_inv sample_chat_branch a] by blast
  moreover have "without_system (pj_messages (project [sample_first, sample_second])) =
      [sample_message ''a'', sample_message ''b'']" by code_simp
  ultimately show ?thesis
    using compaction_keeps_recent [OF sample_chat_inv sample_chat_branch p(1) a [folded p(2)]] a p
    by (auto simp: earlier_summary_def)
qed

theorem compaction_keeps_prompt_witness:
  "tree_inv sample_chat \<and> write_ok sample_chat \<and>
   (\<exists>eid m' new. append_compaction memory_store (\<lambda>_. 2) sample_chat ''S'' None 9 None None False 6 6 = Some (eid, m') \<and>
      projection m' = Some new \<and> current_system_message (List.map_filter as_message (pj_messages new)) = None)"
proof -
  obtain eid m' where a: "append_compaction memory_store (\<lambda>_. 2) sample_chat ''S'' None 9 None None False 6 6 =
      Some (eid, m')" using sample_chat_append by blast
  have "projection sample_chat = Some (project [sample_first, sample_second])"
    using append_compaction_ok [OF sample_chat_inv sample_chat_branch a] by blast
  moreover have "current_system_message (List.map_filter as_message (pj_messages (project [sample_first, sample_second]))) = None"
    by code_simp
  ultimately show ?thesis
    using compaction_keeps_prompt [OF sample_chat_inv a] a sample_chat_inv by auto
qed

definition sample_answer :: assistant_message where
  "sample_answer =
     \<lparr>am_content = [assistant_of_text ''S''], am_api = [], am_provider = [], am_model = [], am_response_id = None,
      am_thinking_level = None, am_usage = default_usage, am_stop_reason = StopStop, am_error_message = None,
      am_timestamp = 0\<rparr>"

definition sample_model :: chat_model where
  "sample_model =
     \<lparr>md_id = ''m'', md_provider = ''p'', md_reasoning = False, md_input = [], md_context_window = 0, md_max_tokens = 0,
      md_thinking_levels = fmempty\<rparr>"

definition sample_summarizer :: summarizer where
  "sample_summarizer =
     \<lparr>sz_model = sample_model, sz_reasoning = None, sz_stream = (\<lambda>_ _ _. sample_answer), sz_cancelled = (\<lambda>_ _. False),
      sz_waited = (\<lambda>_ _. True), sz_patterns = \<lparr>ep_account_limit = (\<lambda>_. False), ep_retryable = (\<lambda>_. True)\<rparr>,
      sz_max_retries = 3, sz_retry_base_ms = 1, sz_retry_max_ms = 8\<rparr>"

definition sample_instructions :: instruction_texts where
  "sample_instructions =
     \<lparr>it_summary = [], it_update = [], it_turn_prefix = [], it_branch = [], it_branch_preamble = []\<rparr>"

lemma sample_compact:
  "case prepare_compaction sample_texts [sample_first, sample_second] sample_settings of
     Some p \<Rightarrow> (case compact sample_texts sample_instructions p sample_summarizer None of
       Inr r \<Rightarrow> cr_summary r = ''S'' | Inl _ \<Rightarrow> False)
   | None \<Rightarrow> False"
  by code_simp

theorem compact_records_complete_answers_witness:
  "\<exists>p r. prepare_compaction sample_texts [sample_first, sample_second] sample_settings = Some p \<and>
     compact sample_texts sample_instructions p sample_summarizer None = Inr r \<and> cr_summary r = ''S'' \<and>
     cr_first_kept_entry_id r = ''00000001''"
proof -
  obtain p where p: "prepare_compaction sample_texts [sample_first, sample_second] sample_settings = Some p"
      "cn_first_kept_entry_id p = ''00000001''"
    using sample_prepared by (auto split: option.splits)
  then obtain r where r: "compact sample_texts sample_instructions p sample_summarizer None = Inr r" "cr_summary r = ''S''"
    using sample_compact by (auto split: sum.splits)
  with compact_records_complete_answers [OF r(1)] p show ?thesis by auto
qed

end
