(* ===== verification/Spec2Isabelle.thy ===== *)
theory Spec2Isabelle
  imports Rate_Limiter Bounded_Ttl_Cache Lease_Cache Model_Config Provider_Registry Inference_Types
    Auto_Model Route_Planning Health_Claims Sticky_Routes Provider_Router
    Transport_Handshake
    Pi_Compaction_Facts
begin

text \<open>
  A verification library for Maple: the inference control plane of the OpenSecret service
  (\<^verbatim>\<open>src/services/opensecret/src\<close>), both ends of its second attested transport, the gateway of the
  service and the client of the Rust SDK (\<^verbatim>\<open>src/sdk/rust/src\<close>), and the sessions of the coding agent
  (\<^verbatim>\<open>src/apps/maple-agent/crates\<close>).

  \<^bold>\<open>The program.\<close> A client opens a session with an enclave: it sends a challenge and a public key, checks
  the attestation document that comes back, and both ends derive the session keys. A request is then one
  encrypted record. The gateway looks up the session, reads the record, admits its identifier once, runs
  the application on the decoded request and streams the answer back as a sequence of sealed records. The
  application limits the rate of an account, resolves the requested model, and routes the completion to a
  provider: the registry lists the routes, circuit breakers say which of them are healthy, a memory keeps
  an account on its route, and the planner chooses among the rest by weight. Sessions and cached secrets
  live in bounded caches which a maintenance pass purges. Apart from the service, the coding agent keeps a
  conversation as a tree of entries: the branch to the current leaf is projected into the context of the
  model, older parts are replaced by summaries when the context grows too large, and every entry is written
  to a store, usually a file of JSON lines.

  \<^bold>\<open>Theories and sources\<close> (paths under the directories above).

  \<^item> \<^verbatim>\<open>Maple_Prelude\<close>: machine words and byte strings, \<^verbatim>\<open>Instant\<close> and \<^verbatim>\<open>Duration\<close> as nanoseconds with
    the overflow of \<^verbatim>\<open>checked_add\<close>, \<^verbatim>\<open>Result\<close> as a sum type, \<^verbatim>\<open>HashMap\<close> and \<^verbatim>\<open>HashSet\<close> as finite maps and
    sets, big-endian and decimal numbers, \<^verbatim>\<open>slice::chunks\<close>.
  \<^item> \<^verbatim>\<open>Rate_Limiter\<close>: \<^verbatim>\<open>web/inference_rate_limit.rs\<close>.
  \<^item> \<^verbatim>\<open>Clru_Store\<close>: the interface to the \<^verbatim>\<open>clru\<close> crate. \<^verbatim>\<open>Bounded_Ttl_Cache\<close>: \<^verbatim>\<open>bounded_ttl_cache.rs\<close>.
    \<^verbatim>\<open>Lease_Cache\<close>: \<^verbatim>\<open>lease_aware_cache.rs\<close> and \<^verbatim>\<open>secret_cache_maintenance.rs\<close>.
  \<^item> \<^verbatim>\<open>Model_Config\<close>: \<^verbatim>\<open>model_config.rs\<close>. \<^verbatim>\<open>Provider_Registry\<close>: \<^verbatim>\<open>provider_registry.rs\<close>.
    \<^verbatim>\<open>Inference_Types\<close>: \<^verbatim>\<open>inference.rs\<close>. \<^verbatim>\<open>Auto_Model\<close>: \<^verbatim>\<open>inference/auto_model.rs\<close>. \<^verbatim>\<open>Route_Planning\<close>:
    \<^verbatim>\<open>inference_planning.rs\<close>.
  \<^item> \<^verbatim>\<open>Route_Health\<close>: \<^verbatim>\<open>inference/health.rs\<close>, with its runs in \<^verbatim>\<open>Health_Protocol\<close> and \<^verbatim>\<open>Health_Claims\<close>.
    \<^verbatim>\<open>Sticky_Routes\<close>: \<^verbatim>\<open>inference/sticky_routes.rs\<close>. \<^verbatim>\<open>Provider_Router\<close>: \<^verbatim>\<open>provider_routing.rs\<close> and
    \<^verbatim>\<open>proxy_config.rs\<close>.
  \<^item> \<^verbatim>\<open>Crypto_Primitives\<close> and \<^verbatim>\<open>Wire_Formats\<close>: the interfaces to the cryptographic, codec, JSON and HTTP
    crates.
  \<^item> Gateway: \<^verbatim>\<open>Transport_Crypto\<close>, \<^verbatim>\<open>Transport_Envelope\<close>, \<^verbatim>\<open>Transport_Framing\<close>, \<^verbatim>\<open>Transport_Session\<close>
    and \<^verbatim>\<open>Transport_Gateway\<close> are the files of the same names in \<^verbatim>\<open>transport_v2/\<close>, with the runs of the
    session system in \<^verbatim>\<open>Session_Invariants\<close> and \<^verbatim>\<open>Session_Claims\<close>.
  \<^item> Client: \<^verbatim>\<open>Sdk_Crypto\<close>, \<^verbatim>\<open>Sdk_Envelope\<close>, \<^verbatim>\<open>Sdk_Framing\<close> and \<^verbatim>\<open>Sdk_Client\<close> are the files of the
    same names in the \<^verbatim>\<open>transport_v2/\<close> of the SDK, \<^verbatim>\<open>Sdk_Attestation\<close> is \<^verbatim>\<open>attestation.rs\<close> and \<^verbatim>\<open>Sdk_Pcr\<close>
    is \<^verbatim>\<open>pcr.rs\<close>.
  \<^item> Both ends together: \<^verbatim>\<open>Stream_Decoding\<close>, \<^verbatim>\<open>Stream_Authenticity\<close>, \<^verbatim>\<open>Response_Exchange\<close>,
    \<^verbatim>\<open>Client_Claims\<close>, \<^verbatim>\<open>Transport_Exchange\<close> and \<^verbatim>\<open>Transport_Handshake\<close>.
  \<^item> Coding agent, messages: \<^verbatim>\<open>Pi_Types\<close> is \<^verbatim>\<open>pi-ai/src/types.rs\<close>, \<^verbatim>\<open>Pi_Transcript\<close> is
    \<^verbatim>\<open>pi-ai/src/transcript.rs\<close> with \<^verbatim>\<open>pi-coding-agent/src/messages.rs\<close>, \<^verbatim>\<open>Pi_Estimate\<close> is
    \<^verbatim>\<open>pi-ai/src/estimate.rs\<close> with the retry rules of \<^verbatim>\<open>overflow.rs\<close>.
  \<^item> Coding agent, sessions (\<^verbatim>\<open>pi-coding-agent/src\<close>): \<^verbatim>\<open>Pi_Session\<close> is \<^verbatim>\<open>session.rs\<close> with \<^verbatim>\<open>ids.rs\<close>,
    \<^verbatim>\<open>Pi_Session_Tree\<close> and \<^verbatim>\<open>Pi_Projection\<close> hold its invariant and the shape of a context, \<^verbatim>\<open>Pi_Store\<close> is
    \<^verbatim>\<open>store.rs\<close>, \<^verbatim>\<open>Pi_Session_Runs\<close> has the runs of a session on a store, \<^verbatim>\<open>Pi_Compaction\<close> is
    \<^verbatim>\<open>compaction.rs\<close> and \<^verbatim>\<open>Pi_Compaction_Facts\<close> what it guarantees.

  \<^bold>\<open>State and operations.\<close> A struct is a record and an enum a datatype, with the field and variant names of
  the source behind a short prefix. A method that changes its receiver returns the new one. A \<^verbatim>\<open>Result\<close> is
  a sum with the error on the left, and a panic or a call that does not return is \<^verbatim>\<open>None\<close>. What an \<^verbatim>\<open>Arc\<close>
  shares is an entry of an explicit heap with its reference count, since leases and the release of the
  replay budget depend on it. Locks are held for one operation, so concurrency is the interleaving of
  operations: as steps of a relation (\<^verbatim>\<open>Lease_Cache\<close>, \<^verbatim>\<open>Health_Protocol\<close>), as a list of events
  (\<^verbatim>\<open>Session_Invariants\<close>), or, inside a handler that releases the lock while it waits, as arbitrary
  functions on the shared state (\<^verbatim>\<open>dispatch_request\<close>, \<^verbatim>\<open>select_health_aware_route\<close>).

  \<^bold>\<open>Interfaces.\<close> Crates outside the repository are records of functions which the definitions take as
  arguments. The locales \<^verbatim>\<open>clru_cache\<close>, \<^verbatim>\<open>crypto_primitives\<close>, \<^verbatim>\<open>text_codec\<close> and \<^verbatim>\<open>wire_formats\<close> state the
  documented behaviour that is relied on, and each is interpreted on a concrete instance. The locales
  \<^verbatim>\<open>ttl_cache\<close>, \<^verbatim>\<open>lease_store\<close> and \<^verbatim>\<open>record_channel\<close> are contracts of the repository's own components,
  proved for the model from the former, and \<^verbatim>\<open>session_store\<close> is what the session manager relies on, proved
  for the store of JSON lines under every schedule of faults of the file system. What that store relies on
  of \<^verbatim>\<open>serde_json\<close> is the predicate \<^verbatim>\<open>codec_ok\<close>. The cryptographic laws are functional: decryption accepts exactly
  what encryption under the same key, nonce and associated data produces. That nobody else can compute such
  a ciphertext is a property of the primitives and no theorem claims it.

  \<^bold>\<open>What the lemmas show.\<close>

  \<^item> Limiter: it refines a specification that keeps every admission ever made; so no account exceeds its
    rate in any window, a conforming one is never refused, and the waiting time it is told suffices.
  \<^item> Caches: retirement removes exactly the expired entries and insertion evicts the oldest; a leased value
    stays resident in every interleaving; the purge leaves the live and the leased entries alone.
  \<^item> Catalog, Auto policy and planning: the compiled tables agree with each other; the choice of a model is
    sound, and a refusal means that every candidate fails; the weights give each route its share of the
    accounts.
  \<^item> Health: at most one probe per half-open gate, only a matching probe heals a gate, a claim returns and
    agrees with the snapshot, and a route opens exactly at its threshold.
  \<^item> Router: a selection ends for every behaviour of the other requests, and its route is configured,
    permitted and healthy in the snapshot it was chosen from.
  \<^item> Sessions: an identifier is admitted at most once per session, the replay budget counts the identifiers
    that live sessions retain, and a live session is not given up for a new one.
  \<^item> Transport: handshake and exchange complete between the two implementations; the request decodes to
    what was sealed; the stream of events does not depend on the fragmentation; a stream that ends well is
    the whole sequence the server sealed; nonces do not repeat; over HTTPS a session exists only with an
    enclave whose attestation the client's policy accepts.
  \<^item> Agent sessions: in every reachable session following parents ends and the branch is a chain from a
    root to the leaf; an append returns as soon as a free identifier is drawn; the file always holds the
    first entries of the session and none that was counted as written is missing, so that the session
    opens again after a crash.
  \<^item> Compaction: the context afterwards is the prompt as it was, the summary, and exactly the messages from
    the cut on, which never starts with the result of a tool call; the rest is what was summarized; only
    complete answers become summaries, and the delay before a retry is the exact one.

  \<^bold>\<open>Bounds and termination.\<close> No definition of the program uses fuel. Four loops have no bound in the source and are
  partial functions with \<^verbatim>\<open>None\<close> for not returning: \<^verbatim>\<open>next_probe_lease_id\<close> returns because fewer than
  \<^verbatim>\<open>2 ^ 64\<close> identifiers are in use, and \<^verbatim>\<open>select_health_aware_route\<close> because every further pass excludes
  one more route; \<^verbatim>\<open>new_entry_id\<close> returns when some number drawn is free, and \<^verbatim>\<open>branch_up\<close>, which follows
  parents, because in a session kept by its own operations a parent precedes its children. The decoder's \<^verbatim>\<open>push_loop\<close> ends because every turn consumes input. Counters and sizes are
  words where the source can overflow; lengths of collections are natural numbers.

  \<^bold>\<open>Not modelled.\<close> The database and the web handlers over it, accounts, billing and mail, the bodies of
  provider requests, the first transport, the typed API of the SDK, the proxy, the tools, the loop and the
  encrypted store of the desktop agent, and the front ends: their behaviour is in SQL, asynchronous I/O, user interfaces and outside
  services. Of the agent's sessions the listing of the tree,
  file names, prices and the texts of the prompts are left out, and no theorem is stated about forks and
  partial loads, which are modelled. Log output, metrics and the texts of error messages are left out
  throughout.
\<close>

end
